(* ===== verification/Prelude.thy ===== *)
theory Prelude
  imports Main
begin

text \<open>
  Shared vocabulary of the development.

  \<^item> \<open>py_exc\<close> is the exceptions the modelled Python code raises, and
    \<open>('a, 's) result\<close> the value of a call that may raise and that leaves a state behind: the
    state is returned on both branches, because an exception after a \<open>db.commit()\<close> does not
    undo the commit, while one before it leaves the committed rows as they were.
  \<^item> A table is a list of rows in storage order. \<open>first_row\<close> is
    \<open>query.filter(p).first()\<close>, \<open>upd_rows\<close> is an assignment to attributes of the row
    object with a given key, \<open>del_rows\<close> is \<open>db.delete(row)\<close>.
  \<^item> The collections \<open>row_simps\<close> and \<open>exc_simps\<close> gather the rewrite rules the component
    proofs share.
\<close>

section \<open>Collections\<close>

named_theorems row_simps "rewrite rules for table lookups and updates"
named_theorems exc_simps "rewrite rules for results with errors"

section \<open>Exceptions and results\<close>

datatype py_exc =
    HTTPException int string
  | ValueError string
  | ProviderException string string
  | RuntimeError string
  | AttributeError string
  | IntegrityError string
  | QuotaExceededError string int int int
  | RedisError string
  | OtherError string

type_synonym ('a, 's) result = "(py_exc + 'a) \<times> 's"

definition ok :: "'a \<Rightarrow> 's \<Rightarrow> ('a, 's) result" where
  "ok x s = (Inr x, s)"

definition raise :: "py_exc \<Rightarrow> 's \<Rightarrow> ('a, 's) result" where
  "raise e s = (Inl e, s)"

definition http :: "int \<Rightarrow> string \<Rightarrow> 's \<Rightarrow> ('a, 's) result" where
  "http code detail s = raise (HTTPException code detail) s"

definition is_ok :: "('a, 's) result \<Rightarrow> bool" where
  "is_ok r = (case fst r of Inl _ \<Rightarrow> False | Inr _ \<Rightarrow> True)"

definition then_do :: "('a, 's) result \<Rightarrow> ('a \<Rightarrow> 's \<Rightarrow> ('b, 's) result) \<Rightarrow> ('b, 's) result" where
  "then_do r k = (case fst r of Inl e \<Rightarrow> (Inl e, snd r) | Inr x \<Rightarrow> k x (snd r))"

lemma ok_eq [exc_simps, simp]: "ok x s = (Inr y, t) \<longleftrightarrow> x = y \<and> s = t"
  "ok x s = (Inl e, t) \<longleftrightarrow> False" "(Inr y, t) = ok x s \<longleftrightarrow> x = y \<and> s = t"
  by (auto simp: ok_def)

lemma raise_eq [exc_simps, simp]: "raise e s = (Inl f, t) \<longleftrightarrow> e = f \<and> s = t"
  "raise e s = (Inr x, t) \<longleftrightarrow> False"
  by (auto simp: raise_def)

lemma http_eq [exc_simps, simp]: "http c d s = (Inl f, t) \<longleftrightarrow> f = HTTPException c d \<and> s = t"
  "http c d s = (Inr x, t) \<longleftrightarrow> False"
  by (auto simp: http_def)

lemma snd_result [exc_simps, simp]:
  "snd (ok x s) = s" "snd (raise e s) = s" "snd (http c d s) = s"
  by (simp_all add: ok_def raise_def http_def)

lemma fst_result [exc_simps, simp]:
  "fst (ok x s) = Inr x" "fst (raise e s) = Inl e" "fst (http c d s) = Inl (HTTPException c d)"
  by (simp_all add: ok_def raise_def http_def)

lemma is_ok_simps [exc_simps, simp]:
  "is_ok (ok x s)" "\<not> is_ok (raise e s)" "\<not> is_ok (http c d s)"
  by (simp_all add: is_ok_def)

lemma is_ok_conv: "is_ok r \<longleftrightarrow> (\<exists>x s. r = (Inr x, s))"
  by (cases r) (auto simp: is_ok_def split: sum.splits)

lemma then_do_simps [exc_simps, simp]:
  "then_do (ok x s) k = k x s" "then_do (raise e s) k = raise e s"
  "then_do (http c d s) k = http c d s"
  by (simp_all add: then_do_def ok_def raise_def http_def)

lemma then_do_ok: "then_do r k = (Inr y, t) \<longleftrightarrow> (\<exists>x s. r = (Inr x, s) \<and> k x s = (Inr y, t))"
  by (cases r) (auto simp: then_do_def split: sum.splits)

text \<open>
  \<open>atomic r d\<close>: a call that raises leaves the state \<open>d\<close> it started from. The rules follow the
  shape of a handler, so that \<open>simp\<close> proves it branch by branch without looking at what the
  successful branch stores.
\<close>

definition atomic :: "('a, 's) result \<Rightarrow> 's \<Rightarrow> bool" where
  "atomic r d \<longleftrightarrow> (\<forall>e. fst r = Inl e \<longrightarrow> snd r = d)"

lemma atomicD: "atomic r d \<Longrightarrow> fst r = Inl e \<Longrightarrow> snd r = d"
  by (simp add: atomic_def)

lemma atomic_leaf [exc_simps, simp]:
  "atomic (ok x s) d" "atomic (raise e s) d \<longleftrightarrow> s = d" "atomic (http c m s) d \<longleftrightarrow> s = d"
  by (auto simp: atomic_def)

lemma atomic_branch [exc_simps, simp]:
  "atomic (if b then r else r') d \<longleftrightarrow> (b \<longrightarrow> atomic r d) \<and> (\<not> b \<longrightarrow> atomic r' d)"
  "atomic (case z of None \<Rightarrow> r | Some x \<Rightarrow> f x) d \<longleftrightarrow>
     (z = None \<longrightarrow> atomic r d) \<and> (\<forall>x. z = Some x \<longrightarrow> atomic (f x) d)"
  "atomic (case y of Inl e \<Rightarrow> g e | Inr x \<Rightarrow> h x) d \<longleftrightarrow>
     (\<forall>e. y = Inl e \<longrightarrow> atomic (g e) d) \<and> (\<forall>x. y = Inr x \<longrightarrow> atomic (h x) d)"
  by (simp_all split: if_split option.split sum.split)

lemma atomic_Let [exc_simps, simp]: "atomic (Let x f) d \<longleftrightarrow> atomic (f x) d"
  by (simp add: Let_def)

lemma atomic_prod [exc_simps, simp]:
  "atomic (case p of (a, b) \<Rightarrow> f a b) d \<longleftrightarrow> (\<forall>a b. p = (a, b) \<longrightarrow> atomic (f a b) d)"
  by (cases p) simp

text \<open>\<open>leaves P r\<close>: whatever the call returns, the state it leaves satisfies \<open>P\<close>.\<close>

definition leaves :: "('s \<Rightarrow> bool) \<Rightarrow> ('a, 's) result \<Rightarrow> bool" where
  "leaves P r \<longleftrightarrow> P (snd r)"

lemma leaves_leaf [exc_simps, simp]:
  "leaves P (ok x s) \<longleftrightarrow> P s" "leaves P (raise e s) \<longleftrightarrow> P s" "leaves P (http c m s) \<longleftrightarrow> P s"
  by (simp_all add: leaves_def)

lemma leaves_branch [exc_simps, simp]:
  "leaves P (if b then r else r') \<longleftrightarrow> (b \<longrightarrow> leaves P r) \<and> (\<not> b \<longrightarrow> leaves P r')"
  "leaves P (case z of None \<Rightarrow> r | Some x \<Rightarrow> f x) \<longleftrightarrow>
     (z = None \<longrightarrow> leaves P r) \<and> (\<forall>x. z = Some x \<longrightarrow> leaves P (f x))"
  "leaves P (case y of Inl e \<Rightarrow> g e | Inr x \<Rightarrow> h x) \<longleftrightarrow>
     (\<forall>e. y = Inl e \<longrightarrow> leaves P (g e)) \<and> (\<forall>x. y = Inr x \<longrightarrow> leaves P (h x))"
  by (simp_all split: if_split option.split sum.split)

lemma leaves_Let [exc_simps, simp]: "leaves P (Let x f) \<longleftrightarrow> leaves P (f x)"
  by (simp add: Let_def)

lemma leaves_prod [exc_simps, simp]:
  "leaves P (case p of (a, b) \<Rightarrow> f a b) \<longleftrightarrow> (\<forall>a b. p = (a, b) \<longrightarrow> leaves P (f a b))"
  by (cases p) simp

text \<open>\<open>succeeds P r\<close>: if the call returns, the state it leaves satisfies \<open>P\<close>.\<close>

definition succeeds :: "('s \<Rightarrow> bool) \<Rightarrow> ('a, 's) result \<Rightarrow> bool" where
  "succeeds P r \<longleftrightarrow> (\<forall>x. fst r = Inr x \<longrightarrow> P (snd r))"

lemma succeeds_leaf [exc_simps, simp]:
  "succeeds P (ok x s) \<longleftrightarrow> P s" "succeeds P (raise e s)" "succeeds P (http c m s)"
  by (simp_all add: succeeds_def)

lemma succeeds_branch [exc_simps, simp]:
  "succeeds P (if b then r else r') \<longleftrightarrow> (b \<longrightarrow> succeeds P r) \<and> (\<not> b \<longrightarrow> succeeds P r')"
  "succeeds P (case z of None \<Rightarrow> r | Some x \<Rightarrow> f x) \<longleftrightarrow>
     (z = None \<longrightarrow> succeeds P r) \<and> (\<forall>x. z = Some x \<longrightarrow> succeeds P (f x))"
  "succeeds P (case y of Inl e \<Rightarrow> g e | Inr x \<Rightarrow> h x) \<longleftrightarrow>
     (\<forall>e. y = Inl e \<longrightarrow> succeeds P (g e)) \<and> (\<forall>x. y = Inr x \<longrightarrow> succeeds P (h x))"
  by (simp_all split: if_split option.split sum.split)

lemma succeeds_Let [exc_simps, simp]: "succeeds P (Let x f) \<longleftrightarrow> succeeds P (f x)"
  by (simp add: Let_def)

lemma succeeds_prod [exc_simps, simp]:
  "succeeds P (case p of (a, b) \<Rightarrow> f a b) \<longleftrightarrow> (\<forall>a b. p = (a, b) \<longrightarrow> succeeds P (f a b))"
  by (cases p) simp

section \<open>Tables\<close>

definition first_row :: "('r \<Rightarrow> bool) \<Rightarrow> 'r list \<Rightarrow> 'r option" where
  "first_row p rows = List.find p rows"

definition upd_rows :: "('r \<Rightarrow> 'k) \<Rightarrow> 'k \<Rightarrow> ('r \<Rightarrow> 'r) \<Rightarrow> 'r list \<Rightarrow> 'r list" where
  "upd_rows key k f rows = map (\<lambda>r. if key r = k then f r else r) rows"

definition del_rows :: "('r \<Rightarrow> 'k) \<Rightarrow> 'k \<Rightarrow> 'r list \<Rightarrow> 'r list" where
  "del_rows key k rows = filter (\<lambda>r. key r \<noteq> k) rows"

definition distinct_keys :: "('r \<Rightarrow> 'k) \<Rightarrow> 'r list \<Rightarrow> bool" where
  "distinct_keys key rows = distinct (map key rows)"

lemma first_row_Some: "first_row p rows = Some r \<Longrightarrow> r \<in> set rows \<and> p r"
  by (auto simp: first_row_def find_Some_iff)

lemma first_row_None: "first_row p rows = None \<longleftrightarrow> (\<forall>r \<in> set rows. \<not> p r)"
  by (auto simp: first_row_def find_None_iff)

lemma first_row_ex: "(\<exists>r. first_row p rows = Some r) \<longleftrightarrow> (\<exists>r \<in> set rows. p r)"
  by (metis first_row_None first_row_Some option.exhaust)

lemma first_row_simps [row_simps, simp]:
  "first_row p [] = None"
  "first_row p (r # rows) = (if p r then Some r else first_row p rows)"
  by (simp_all add: first_row_def)

lemma first_row_append: "first_row p (xs @ ys) =
    (case first_row p xs of Some r \<Rightarrow> Some r | None \<Rightarrow> first_row p ys)"
  by (induction xs) auto

lemma first_row_cong: "(\<And>r. r \<in> set rows \<Longrightarrow> p r = q r) \<Longrightarrow> first_row p rows = first_row q rows"
  by (induction rows) auto

lemma first_row_key:
  assumes "distinct_keys key rows" and "r \<in> set rows"
  shows "first_row (\<lambda>x. key x = key r) rows = Some r"
  using assms by (induction rows) (auto simp: distinct_keys_def)

lemma distinct_keys_eq:
  assumes "distinct_keys key rows" "r \<in> set rows" "s \<in> set rows" "key r = key s"
  shows "r = s"
  using assms by (metis distinct_keys_def distinct_map inj_onD)

lemma distinct_keys_simps [row_simps, simp]:
  "distinct_keys key []"
  "distinct_keys key (r # rows) \<longleftrightarrow> key r \<notin> key ` set rows \<and> distinct_keys key rows"
  by (auto simp: distinct_keys_def)

lemma set_upd_rows: "set (upd_rows key k f rows) =
    {r \<in> set rows. key r \<noteq> k} \<union> f ` {r \<in> set rows. key r = k}"
  by (auto simp: upd_rows_def)

lemma upd_rows_other: "x \<in> set rows \<Longrightarrow> key x \<noteq> k \<Longrightarrow> x \<in> set (upd_rows key k f rows)"
  by (auto simp: set_upd_rows)

lemma upd_rows_hit: "x \<in> set rows \<Longrightarrow> key x = k \<Longrightarrow> f x \<in> set (upd_rows key k f rows)"
  by (auto simp: set_upd_rows)

lemma upd_rows_at:
  assumes "x \<in> set (upd_rows key k f rows)" "key x = k"
  obtains y where "y \<in> set rows" "key y = k" "x = f y"
  using assms by (auto simp: set_upd_rows)

lemma upd_rows_simps [row_simps, simp]:
  "upd_rows key k f [] = []"
  "upd_rows key k f (r # rows) = (if key r = k then f r else r) # upd_rows key k f rows"
  by (simp_all add: upd_rows_def)

lemma length_upd_rows [row_simps, simp]: "length (upd_rows key k f rows) = length rows"
  by (simp add: upd_rows_def)

lemma upd_rows_append: "upd_rows key k f (xs @ ys) = upd_rows key k f xs @ upd_rows key k f ys"
  by (simp add: upd_rows_def)

lemma upd_rows_absent: "k \<notin> key ` set rows \<Longrightarrow> upd_rows key k f rows = rows"
  by (induction rows) auto

lemma map_upd_rows: "(\<And>r. g (f r) = g r) \<Longrightarrow> map g (upd_rows key k f rows) = map g rows"
  by (induction rows) auto

lemma distinct_keys_upd_rows:
  "(\<And>r. key' (f r) = key' r) \<Longrightarrow> distinct_keys key' (upd_rows key k f rows) = distinct_keys key' rows"
  by (simp add: distinct_keys_def map_upd_rows)

lemma distinct_keys_replace: "key s = k \<Longrightarrow> distinct_keys key (upd_rows key k (\<lambda>_. s) rows) = distinct_keys key rows"
proof -
  assume "key s = k"
  then have "map key (upd_rows key k (\<lambda>_. s) rows) = map key rows" by (induction rows) auto
  then show ?thesis by (simp add: distinct_keys_def)
qed

lemma first_row_upd_rows:
  "(\<And>r. key (f r) = key r) \<Longrightarrow>
    first_row (\<lambda>r. key r = j) (upd_rows key k f rows) =
      map_option (\<lambda>r. if j = k then f r else r) (first_row (\<lambda>r. key r = j) rows)"
  by (induction rows) auto

lemma first_row_replace:
  "key s = k \<Longrightarrow> first_row (\<lambda>r. key r = j) (upd_rows key k (\<lambda>_. s) rows) =
    (if j = k then map_option (\<lambda>_. s) (first_row (\<lambda>r. key r = j) rows)
     else first_row (\<lambda>r. key r = j) rows)"
  by (induction rows) auto

lemma set_del_rows: "set (del_rows key k rows) = {r \<in> set rows. key r \<noteq> k}"
  by (auto simp: del_rows_def)

lemma del_rows_simps [row_simps, simp]:
  "del_rows key k [] = []"
  "del_rows key k (r # rows) = (if key r = k then del_rows key k rows else r # del_rows key k rows)"
  by (simp_all add: del_rows_def)

lemma first_row_del_rows:
  "first_row (\<lambda>r. key r = j) (del_rows key k rows) =
    (if j = k then None else first_row (\<lambda>r. key r = j) rows)"
  by (induction rows) auto

lemma distinct_keys_del_rows: "distinct_keys key rows \<Longrightarrow> distinct_keys key (del_rows j k rows)"
  by (induction rows) (auto simp: del_rows_def distinct_keys_def)

lemma distinct_keys_append: "distinct_keys key (xs @ ys) \<longleftrightarrow>
    distinct_keys key xs \<and> distinct_keys key ys \<and> key ` set xs \<inter> key ` set ys = {}"
  by (simp add: distinct_keys_def)

lemma upd_rows_in_Some:
  assumes "distinct_keys key rows" "r \<in> set rows" "key r = k"
  shows "set (upd_rows key k f rows) = insert (f r) (set rows - {r})"
proof -
  have "{s \<in> set rows. key s = k} = {r}"
    using assms distinct_keys_eq by fastforce
  moreover have "{s \<in> set rows. key s \<noteq> k} = set rows - {r}"
    using assms distinct_keys_eq by fastforce
  ultimately show ?thesis
    by (simp add: set_upd_rows)
qed

lemma length_filter_upd_rows:
  assumes "distinct_keys key rows" "r \<in> set rows" "p r" "\<not> p (f r)"
  shows "Suc (length (filter p (upd_rows key (key r) f rows))) = length (filter p rows)"
  using assms
proof (induction rows)
  case Nil
  then show ?case by simp
next
  case (Cons s rows)
  then show ?case
    by (cases "s = r") (force simp: upd_rows_absent)+
qed

lemma set_map_filter_Some: "y \<in> set (List.map_filter f xs) \<longleftrightarrow> (\<exists>x \<in> set xs. f x = Some y)"
  by (induction xs) (auto simp: List.map_filter_simps split: option.splits)

text \<open>An optional id in a Python condition: \<open>None\<close> and \<open>0\<close> are false.\<close>

definition truthy_id :: "int option \<Rightarrow> bool" where
  "truthy_id i = (case i of None \<Rightarrow> False | Some n \<Rightarrow> n \<noteq> 0)"

section \<open>Sums over tables\<close>

definition sum_by :: "('r \<Rightarrow> int) \<Rightarrow> 'r list \<Rightarrow> int" where
  "sum_by f rows = sum_list (map f rows)"

lemma sum_by_simps [row_simps, simp]:
  "sum_by f [] = 0" "sum_by f (r # rows) = f r + sum_by f rows"
  by (simp_all add: sum_by_def)

lemma sum_by_append [row_simps, simp]: "sum_by f (xs @ ys) = sum_by f xs + sum_by f ys"
  by (simp add: sum_by_def)

definition count_rows :: "('r \<Rightarrow> bool) \<Rightarrow> 'r list \<Rightarrow> int" where
  "count_rows p rows = int (length (filter p rows))"

lemma count_rows_simps [row_simps, simp]:
  "count_rows p [] = 0" "count_rows p (r # rows) = (if p r then 1 else 0) + count_rows p rows"
  by (simp_all add: count_rows_def)

lemma count_rows_append [row_simps, simp]: "count_rows p (xs @ ys) = count_rows p xs + count_rows p ys"
  by (simp add: count_rows_def)

lemma count_rows_nonneg: "0 \<le> count_rows p rows"
  by (simp add: count_rows_def)

section \<open>Python rounding\<close>

text \<open>
  \<open>round(a / b, d)\<close> for integers rounds the exact quotient to the nearest multiple of the last
  digit, ties to the even one. \<open>round_div a b\<close> is that rounding of \<open>a / b\<close> to an integer.
\<close>

definition round_div :: "int \<Rightarrow> int \<Rightarrow> int" where
  "round_div a b =
     (let q = a div b; r = a mod b
      in if 2 * r < b then q else if b < 2 * r then q + 1 else if even q then q else q + 1)"

lemma round_div_split:
  fixes a b :: int
  assumes "0 < b"
  obtains q r where "a = b * q + r" "0 \<le> r" "r < b" "a div b = q" "a mod b = r"
  by (rule that [of "a div b" "a mod b"]) (simp_all add: assms)

lemma round_div_bounds:
  assumes "0 < b"
  shows "2 * b * round_div a b \<le> 2 * a + b" "2 * a - b \<le> 2 * b * round_div a b"
proof -
  obtain q r where *: "a = b * q + r" "0 \<le> r" "r < b" "a div b = q" "a mod b = r"
    using round_div_split [OF assms] by metis
  have rd: "round_div a b = (if 2 * r < b then q else if b < 2 * r then q + 1
      else if even q then q else q + 1)"
    by (simp only: round_div_def Let_def *(4,5))
  show "2 * b * round_div a b \<le> 2 * a + b"
    unfolding rd using * by (auto simp only: *(1) algebra_simps split: if_splits)
  show "2 * a - b \<le> 2 * b * round_div a b"
    unfolding rd using * by (auto simp only: *(1) algebra_simps split: if_splits)
qed

lemma round_div_mult [simp]: "0 < b \<Longrightarrow> round_div (b * q) b = q"
  by (simp add: round_div_def Let_def)

lemma round_div_mono:
  assumes "0 < b" "x \<le> y"
  shows "round_div x b \<le> round_div y b"
proof (cases "x div b = y div b")
  case True
  have "x mod b = x - b * (x div b)" "y mod b = y - b * (y div b)"
    by (simp_all add: minus_mult_div_eq_mod)
  with True assms(2) have "x mod b \<le> y mod b" by simp
  with True show ?thesis by (auto simp: round_div_def Let_def)
next
  case False
  with assms have "x div b + 1 \<le> y div b"
    using zdiv_mono1 [of x y b] by simp
  then show ?thesis by (auto simp: round_div_def Let_def)
qed

end
