(* ===== verification/Py_Strings.thy ===== *)
theory Py_Strings
  imports Prelude
begin

text \<open>
  The Python string operations the program uses, on \<open>string\<close> (lists of characters; every string
  the modelled code compares or builds is ASCII): \<open>str(n)\<close>, \<open>int(s)\<close>, \<open>split\<close>,
  \<open>join\<close>, \<open>strip\<close>, \<open>lower\<close>, \<open>startswith\<close>, \<open>in\<close>, \<open>replace\<close> of one
  character, and the \<open>repr\<close> of strings, lists and \<open>None\<close> that f-strings use.
  The lemmas are the round trip \<open>int(str(n)) = n\<close>, injectivity of \<open>str\<close> and the
  round trip of \<open>split\<close> and \<open>join\<close>, which the subnet pools and the rate-limiter keys
  rest on.
\<close>

section \<open>Decimal numbers\<close>

definition digit_char :: "nat \<Rightarrow> char" where
  "digit_char d = char_of (48 + d)"

definition is_digit :: "char \<Rightarrow> bool" where
  "is_digit c \<longleftrightarrow> (let n = of_char c :: nat in 48 \<le> n \<and> n \<le> 57)"

definition digit_val :: "char \<Rightarrow> nat" where
  "digit_val c = of_char c - 48"

fun show_nat :: "nat \<Rightarrow> string" where
  "show_nat n = (if n < 10 then [digit_char n] else show_nat (n div 10) @ [digit_char (n mod 10)])"

declare show_nat.simps [simp del]

definition show_int :: "int \<Rightarrow> string" where
  "show_int i = (if i < 0 then CHR ''-'' # show_nat (nat (- i)) else show_nat (nat i))"

definition nat_of_digits :: "string \<Rightarrow> nat" where
  "nat_of_digits s = foldl (\<lambda>acc c. 10 * acc + digit_val c) 0 s"

lemma of_char_digit: "d < 10 \<Longrightarrow> (of_char (digit_char d) :: nat) = 48 + d"
  by (simp add: digit_char_def of_char_of)

lemma digit_char_props:
  assumes "d < 10"
  shows "is_digit (digit_char d)" "digit_val (digit_char d) = d"
  using of_char_digit [OF assms] assms by (simp_all add: is_digit_def digit_val_def Let_def)

lemma show_nat_digits: "list_all is_digit (show_nat n)"
proof (induction n rule: show_nat.induct)
  case (1 n)
  then show ?case
    by (cases "n < 10") (simp_all add: show_nat.simps [of n] digit_char_props)
qed

lemma show_nat_nonempty: "show_nat n \<noteq> []"
  by (subst show_nat.simps) simp

lemma nat_of_digits_snoc: "nat_of_digits (s @ [c]) = 10 * nat_of_digits s + digit_val c"
  by (simp add: nat_of_digits_def)

lemma nat_of_digits_show: "nat_of_digits (show_nat n) = n"
proof (induction n rule: show_nat.induct)
  case (1 n)
  show ?case
  proof (cases "n < 10")
    case True
    then show ?thesis
      by (simp add: show_nat.simps [of n] nat_of_digits_def digit_char_props)
  next
    case False
    with 1 have "nat_of_digits (show_nat (n div 10)) = n div 10" by simp
    then have "nat_of_digits (show_nat n) = 10 * (n div 10) + n mod 10"
      using False by (simp add: show_nat.simps [of n] nat_of_digits_snoc digit_char_props)
    then show ?thesis by simp
  qed
qed

lemma show_nat_inject: "show_nat m = show_nat n \<longleftrightarrow> m = n"
  by (metis nat_of_digits_show)

lemma digit_not: "is_digit c \<Longrightarrow> c \<noteq> CHR ''-''" "is_digit c \<Longrightarrow> c \<noteq> CHR ''.''"
  "is_digit c \<Longrightarrow> c \<noteq> CHR '':''" "is_digit c \<Longrightarrow> c \<noteq> CHR ''/''"
  by (auto simp: is_digit_def Let_def)

lemma show_nat_hd_digit: "is_digit (hd (show_nat n))"
  using show_nat_digits [of n] show_nat_nonempty [of n] by (cases "show_nat n") auto

lemma show_nat_not_minus: "show_nat n \<noteq> CHR ''-'' # s"
  using show_nat_hd_digit [of n] by (auto simp: is_digit_def)

lemma show_int_inject: "show_int i = show_int j \<longleftrightarrow> i = j"
  using show_nat_not_minus
  by (auto simp: show_int_def show_nat_inject) (metis show_nat_not_minus)+

section \<open>int(s)\<close>

text \<open>
  \<open>int(s)\<close> accepts surrounding whitespace, one sign, and digits with single underscores
  between them; anything else is a \<open>ValueError\<close>, here \<open>None\<close>.
\<close>

definition is_space :: "char \<Rightarrow> bool" where
  "is_space c \<longleftrightarrow> (let n = of_char c :: nat in n = 32 \<or> (9 \<le> n \<and> n \<le> 13) \<or> (28 \<le> n \<and> n \<le> 31))"

definition lstrip :: "string \<Rightarrow> string" where
  "lstrip s = dropWhile is_space s"

definition strip :: "string \<Rightarrow> string" where
  "strip s = rev (lstrip (rev (lstrip s)))"

fun parse_digits :: "bool \<Rightarrow> nat \<Rightarrow> string \<Rightarrow> nat option" where
  "parse_digits seen acc [] = (if seen then Some acc else None)"
| "parse_digits seen acc (c # s) =
     (if is_digit c then parse_digits True (10 * acc + digit_val c) s
      else if c = CHR ''_'' \<and> seen then parse_digits False acc s
      else None)"

definition py_int :: "string \<Rightarrow> int option" where
  "py_int s = (case strip s of
      [] \<Rightarrow> None
    | c # r \<Rightarrow>
        if c = CHR ''-'' then map_option (\<lambda>n. - int n) (parse_digits False 0 r)
        else if c = CHR ''+'' then map_option int (parse_digits False 0 r)
        else map_option int (parse_digits False 0 (c # r)))"

lemma parse_digits_all:
  "list_all is_digit s \<Longrightarrow> s \<noteq> [] \<or> seen \<Longrightarrow>
    parse_digits seen acc s = Some (foldl (\<lambda>a c. 10 * a + digit_val c) acc s)"
  by (induction s arbitrary: seen acc) auto

lemma parse_show_nat: "parse_digits False 0 (show_nat n) = Some n"
  using parse_digits_all [OF show_nat_digits [of n]] show_nat_nonempty [of n] nat_of_digits_show [of n]
  by (simp add: nat_of_digits_def)

lemma digit_not_space: "is_digit c \<Longrightarrow> \<not> is_space c"
  by (auto simp: is_digit_def is_space_def Let_def)

lemma strip_id: "s \<noteq> [] \<Longrightarrow> \<not> is_space (hd s) \<Longrightarrow> \<not> is_space (last s) \<Longrightarrow> strip s = s"
proof -
  assume a: "s \<noteq> []" "\<not> is_space (hd s)" "\<not> is_space (last s)"
  then have 1: "lstrip s = s" by (cases s) (simp_all add: lstrip_def)
  from a have "lstrip (rev s) = rev s"
    by (cases "rev s") (auto simp: lstrip_def last_rev [symmetric])
  with 1 show ?thesis by (simp add: strip_def)
qed

lemma show_nat_last_digit: "is_digit (last (show_nat n))"
  using show_nat_digits [of n] show_nat_nonempty [of n] by (metis last_in_set list_all_iff)

lemma strip_show_int: "strip (show_int i) = show_int i"
proof (rule strip_id)
  show "show_int i \<noteq> []" by (simp add: show_int_def show_nat_nonempty)
  show "\<not> is_space (hd (show_int i))"
    using show_nat_hd_digit digit_not_space by (auto simp: show_int_def is_space_def)
  show "\<not> is_space (last (show_int i))"
    using show_nat_last_digit digit_not_space by (auto simp: show_int_def show_nat_nonempty)
qed

lemma py_int_show_int: "py_int (show_int i) = Some i"
proof (cases "i < 0")
  case True
  then show ?thesis
    using strip_show_int [of i] by (simp add: py_int_def show_int_def parse_show_nat)
next
  case False
  obtain c r where cr: "show_nat (nat i) = c # r"
    using show_nat_nonempty [of "nat i"] by (cases "show_nat (nat i)") auto
  with show_nat_hd_digit [of "nat i"] have "is_digit c" by simp
  then have "c \<noteq> CHR ''-''" "c \<noteq> CHR ''+''" by (auto simp: is_digit_def Let_def)
  then show ?thesis
    using strip_show_int [of i] False cr parse_show_nat [of "nat i"]
    by (simp add: py_int_def show_int_def)
qed

section \<open>split and join\<close>

fun split_on :: "char \<Rightarrow> string \<Rightarrow> string list" where
  "split_on d [] = [[]]"
| "split_on d (c # s) =
     (if c = d then [] # split_on d s
      else (case split_on d s of [] \<Rightarrow> [[c]] | w # ws \<Rightarrow> (c # w) # ws))"

fun join_with :: "string \<Rightarrow> string list \<Rightarrow> string" where
  "join_with sep [] = []"
| "join_with sep [w] = w"
| "join_with sep (w # v # ws) = w @ sep @ join_with sep (v # ws)"

lemma split_on_nonempty: "split_on d s \<noteq> []"
  by (induction s) (auto split: list.splits)

lemma split_on_no_sep: "d \<notin> set s \<Longrightarrow> split_on d s = [s]"
  by (induction s) auto

lemma split_on_append_sep: "d \<notin> set w \<Longrightarrow> split_on d (w @ d # s) = w # split_on d s"
  by (induction w) auto

lemma split_join: "ws \<noteq> [] \<Longrightarrow> \<forall>w \<in> set ws. d \<notin> set w \<Longrightarrow> split_on d (join_with [d] ws) = ws"
  by (induction "[d]" ws rule: join_with.induct) (auto simp: split_on_no_sep split_on_append_sep)

lemma join_split: "join_with [d] (split_on d s) = s"
proof (induction s)
  case Nil
  then show ?case by simp
next
  case (Cons c s)
  obtain w ws where "split_on d s = w # ws"
    using split_on_nonempty [of d s] by (cases "split_on d s") auto
  with Cons show ?case by (cases ws) auto
qed

section \<open>Case, prefixes, substrings\<close>

definition lower_char :: "char \<Rightarrow> char" where
  "lower_char c = (let n = of_char c :: nat in if 65 \<le> n \<and> n \<le> 90 then char_of (n + 32) else c)"

definition lower :: "string \<Rightarrow> string" where
  "lower s = map lower_char s"

definition upper_char :: "char \<Rightarrow> char" where
  "upper_char c = (let n = of_char c :: nat in if 97 \<le> n \<and> n \<le> 122 then char_of (n - 32) else c)"

definition upper :: "string \<Rightarrow> string" where
  "upper s = map upper_char s"

definition is_lower :: "char \<Rightarrow> bool" where
  "is_lower c \<longleftrightarrow> (let n = of_char c :: nat in 97 \<le> n \<and> n \<le> 122)"

definition is_upper :: "char \<Rightarrow> bool" where
  "is_upper c \<longleftrightarrow> (let n = of_char c :: nat in 65 \<le> n \<and> n \<le> 90)"

fun starts_with :: "string \<Rightarrow> string \<Rightarrow> bool" where
  "starts_with s [] = True"
| "starts_with [] (p # ps) = False"
| "starts_with (c # s) (p # ps) = (c = p \<and> starts_with s ps)"

definition ends_with :: "string \<Rightarrow> string \<Rightarrow> bool" where
  "ends_with s p = starts_with (rev s) (rev p)"

fun contains_str :: "string \<Rightarrow> string \<Rightarrow> bool" where
  "contains_str [] p = (p = [])"
| "contains_str (c # s) p = (starts_with (c # s) p \<or> contains_str s p)"

definition replace_char :: "char \<Rightarrow> string \<Rightarrow> string \<Rightarrow> string" where
  "replace_char c r s = concat (map (\<lambda>x. if x = c then r else [x]) s)"

lemma starts_with_append: "starts_with (p @ s) p"
  by (induction p) auto

lemma starts_with_iff: "starts_with s p \<longleftrightarrow> (\<exists>t. s = p @ t)"
  by (induction s p rule: starts_with.induct) auto

lemma not_is_upper_lower_char: "\<not> is_upper (lower_char c)"
  by (auto simp: is_upper_def lower_char_def Let_def of_char_of)

lemma lower_idem: "lower (lower s) = lower s"
  using not_is_upper_lower_char
  by (auto simp: lower_def lower_char_def is_upper_def Let_def)

section \<open>What f-strings print\<close>

text \<open>\<open>None\<close> prints as \<open>None\<close>; a list of strings prints the \<open>repr\<close> of each element.\<close>

definition show_opt :: "('a \<Rightarrow> string) \<Rightarrow> 'a option \<Rightarrow> string" where
  "show_opt f x = (case x of None \<Rightarrow> ''None'' | Some y \<Rightarrow> f y)"

definition quote_char :: char where "quote_char = char_of (39 :: nat)"

definition dquote_char :: char where "dquote_char = char_of (34 :: nat)"

definition backslash_char :: char where "backslash_char = char_of (92 :: nat)"

definition hex_digit :: "nat \<Rightarrow> char" where
  "hex_digit d = (if d < 10 then digit_char d else char_of (87 + d))"

definition repr_char :: "char \<Rightarrow> char \<Rightarrow> string" where
  "repr_char q c =
     (let n = of_char c :: nat
      in if c = q \<or> c = backslash_char then [backslash_char, c]
         else if n = 9 then [backslash_char, CHR ''t'']
         else if n = 10 then [backslash_char, CHR ''n'']
         else if n = 13 then [backslash_char, CHR ''r'']
         else if n < 32 \<or> n = 127
           then [backslash_char, CHR ''x'', hex_digit (n div 16), hex_digit (n mod 16)]
         else [c])"

definition repr_str :: "string \<Rightarrow> string" where
  "repr_str s =
     (let q = (if quote_char \<in> set s \<and> dquote_char \<notin> set s then dquote_char else quote_char)
      in [q] @ concat (map (repr_char q) s) @ [q])"

definition show_list :: "string list \<Rightarrow> string" where
  "show_list ws = ''['' @ join_with '', '' (map repr_str ws) @ '']''"

end
