(* ===== verification/Data_Model.thy ===== *)
theory Data_Model
  imports Py_Strings
begin

text \<open>
  The rows of the database (\<open>app/models/\<close>) and the state every handler works on.

  One record per SQLAlchemy class, one field per column, in the class's order, each with the
  class's prefix because Isabelle's record fields share one name space. \<open>Optional\<close> columns are
  \<open>option\<close>, integers are \<open>int\<close>, \<open>DateTime\<close> columns are an \<open>int\<close> number of
  microseconds. The association table \<open>permission_role\<close> is the field \<open>r_permissions\<close> of a
  role, as \<open>role.permissions\<close> is in the code; relationships that only restate a foreign key are
  not repeated. \<open>db\<close> is the committed content of the tables, one list of rows per table in
  storage order, the sequences that number new rows, and the queue of Celery tasks sent with
  \<open>.delay\<close>.
\<close>

section \<open>Rows\<close>

record user =
  u_id :: int
  u_username :: string
  u_email :: string
  u_hashed_password :: string
  u_full_name :: "string option"
  u_is_active :: bool
  u_tenant_id :: "int option"

record tenant =
  t_id :: int
  t_name :: string
  t_slug :: string
  t_is_active :: bool
  t_is_verified :: bool
  t_status :: string
  t_settings :: "string option"
  t_bridge_id :: "int option"
  t_pod_id :: "int option"
  t_opnsense_vm_id :: "int option"
  t_opnsense_vm_name :: "string option"
  t_lan_ip :: "string option"
  t_wan_ip :: "string option"
  t_fixed_wan_ip :: "string option"
  t_fixed_wan_subnet :: int
  t_fixed_wan_gateway :: "string option"
  t_wan_bridge :: string
  t_provisioned_at :: "int option"
  t_dhcp_pool_start :: "string option"
  t_dhcp_pool_end :: "string option"
  t_opnsense_api_key :: "string option"
  t_opnsense_api_secret :: "string option"
  t_error :: "string option"

record vm =
  v_id :: int
  v_name :: string
  v_description :: "string option"
  v_provider :: string
  v_image :: "string option"
  v_cpu :: int
  v_ram :: int
  v_disk_size_mb :: int
  v_ip_address :: "string option"
  v_status :: string
  v_terraform_job_id :: "string option"
  v_celery_task_id :: "string option"
  v_proxmox_vm_id :: "int option"
  v_template_id :: "int option"
  v_error :: "string option"
  v_owner_id :: int
  v_network_id :: "int option"
  v_tenant_id :: int
  v_ssh_user :: string
  v_ssh_public_key :: "string option"
  v_ssh_private_key_enc :: "string option"

record vm_snapshot =
  s_id :: int
  s_vm_id :: int
  s_name :: string
  s_description :: "string option"
  s_image_tag :: string
  s_container_config :: "string option"
  s_created_at :: int
  s_created_by :: "int option"
  s_tenant_id :: int

record pod =
  pod_id :: int
  pod_name :: string
  pod_provider_type :: string
  pod_node_names :: string
  pod_max_tenants :: int
  pod_tenant_count :: int
  pod_status :: string

record ip_pool_row =
  ipp_id :: int
  ipp_cidr :: string
  ipp_gateway_ip :: string
  ipp_pool :: string
  ipp_status :: string
  ipp_tenant_network_id :: "int option"
  ipp_allocated_at :: "int option"

record vlan_row =
  vl_id :: int
  vl_pod_id :: int
  vl_vlan_id :: int
  vl_status :: string
  vl_tenant_network_id :: "int option"

record tenant_network =
  n_id :: int
  n_tenant_id :: int
  n_pod_id :: int
  n_ip_pool_id :: "int option"
  n_cidr :: string
  n_gateway_ip :: string
  n_vlan_id :: "int option"
  n_name :: string
  n_is_default :: bool
  n_status :: string
  n_provider_ref :: "string option"
  n_opnsense_interface :: "string option"

record bridge =
  br_bridge_id :: int
  br_status :: string
  br_tenant_id :: "int option"
  br_allocated_at :: "int option"

record permission =
  p_id :: int
  p_name :: string
  p_resource_type :: string
  p_action :: string
  p_description :: "string option"

record role =
  r_id :: int
  r_name :: string
  r_description :: "string option"
  r_tenant_id :: "int option"
  r_is_preset :: bool
  r_is_system :: bool
  r_permissions :: "int list"

record user_role =
  ur_id :: int
  ur_user_id :: int
  ur_tenant_id :: "int option"
  ur_role_id :: int
  ur_granted_by :: "int option"

record invitation =
  inv_id :: int
  inv_email :: string
  inv_tenant_id :: int
  inv_role_id :: "int option"
  inv_token :: string
  inv_invited_by :: "int option"
  inv_is_used :: bool
  inv_expires_at :: int
  inv_created_at :: int

record ip_reservation =
  res_id :: int
  res_network_id :: int
  res_tenant_id :: int
  res_ip_address :: string
  res_vm_id :: "int option"
  res_status :: string
  res_expires_at :: "int option"

record wg_pool_row =
  wgp_id :: int
  wgp_cidr :: string
  wgp_gateway_ip :: string
  wgp_status :: string
  wgp_tunnel_id :: "int option"
  wgp_allocated_at :: "int option"

record wg_tunnel =
  wt_id :: int
  wt_tenant_id :: int
  wt_name :: string
  wt_opnsense_server_uuid :: "string option"
  wt_listen_port :: int
  wt_mtu :: int
  wt_dns :: "string option"
  wt_tunnel_address :: string
  wt_cidr :: string
  wt_gateway_ip :: string
  wt_subnet_mask :: int
  wt_pool_id :: "int option"
  wt_public_key :: string
  wt_private_key :: string
  wt_endpoint :: "string option"
  wt_opt_interface :: "string option"
  wt_status :: string
  wt_error :: "string option"
  wt_peer_keepalive :: int
  wt_is_enabled :: bool
  wt_allowed_network_ids :: "int list option"

record wg_peer =
  wp_id :: int
  wp_tunnel_id :: int
  wp_opnsense_client_uuid :: "string option"
  wp_name :: string
  wp_public_key :: string
  wp_private_key_enc :: string
  wp_preshared_key_enc :: string
  wp_allowed_ip :: string
  wp_endpoint :: "string option"
  wp_keepalive :: int
  wp_is_enabled :: bool
  wp_status :: string
  wp_error :: "string option"

record fw_rule =
  fw_id :: int
  fw_tenant_id :: int
  fw_uuid :: string
  fw_sequence :: int
  fw_enabled :: string
  fw_description :: "string option"
  fw_interface :: "string option"
  fw_interfacenot :: "string option"
  fw_quick :: "string option"
  fw_action :: "string option"
  fw_direction :: "string option"
  fw_ipprotocol :: "string option"
  fw_protocol :: "string option"
  fw_source_not :: "string option"
  fw_source_net :: "string option"
  fw_source_port :: "string option"
  fw_destination_not :: "string option"
  fw_destination_net :: "string option"
  fw_destination_port :: "string option"
  fw_gateway :: "string option"
  fw_log :: "string option"
  fw_statetype :: "string option"
  fw_apply_status :: string
  fw_apply_error :: "string option"

record tenant_image =
  ti_id :: int
  ti_tenant_id :: int
  ti_image_id :: int
  ti_is_active :: bool

record audit_entry =
  a_actor_id :: "int option"
  a_actor_username :: string
  a_action :: string
  a_target_type :: string
  a_target_id :: "int option"
  a_target_name :: "string option"
  a_old_value :: "string option"
  a_new_value :: "string option"
  a_details :: "string option"
  a_request_id :: "string option"
  a_ip_address :: "string option"
  a_tenant_id :: "int option"

section \<open>Rows with the class's column defaults\<close>

definition new_user :: "int \<Rightarrow> string \<Rightarrow> string \<Rightarrow> string \<Rightarrow> string option \<Rightarrow> int option \<Rightarrow> user" where
  "new_user i name email pw full tid =
     \<lparr>u_id = i, u_username = name, u_email = email, u_hashed_password = pw, u_full_name = full,
      u_is_active = True, u_tenant_id = tid\<rparr>"

definition new_tenant :: "int \<Rightarrow> string \<Rightarrow> string \<Rightarrow> tenant" where
  "new_tenant i name slug =
     \<lparr>t_id = i, t_name = name, t_slug = slug, t_is_active = True, t_is_verified = False,
      t_status = ''pending_approval'', t_settings = Some ''{}'', t_bridge_id = None, t_pod_id = None,
      t_opnsense_vm_id = None, t_opnsense_vm_name = None, t_lan_ip = None, t_wan_ip = None,
      t_fixed_wan_ip = None, t_fixed_wan_subnet = 24, t_fixed_wan_gateway = None,
      t_wan_bridge = ''vmbr0'', t_provisioned_at = None, t_dhcp_pool_start = None,
      t_dhcp_pool_end = None, t_opnsense_api_key = None, t_opnsense_api_secret = None,
      t_error = None\<rparr>"

section \<open>Celery tasks\<close>

text \<open>One constructor per \<open>task.delay(...)\<close> call of the modelled handlers.\<close>

record provision_data =
  pd_template_id :: int
  pd_name :: string
  pd_net0 :: string
  pd_username :: string
  pd_ssh_public_key :: "string option"
  pd_ip_mode :: string
  pd_ip_address :: "string option"
  pd_gateway :: string
  pd_cpu :: int
  pd_ram :: int
  pd_auto_start :: bool
  pd_disk_size_gb :: "int option"
  pd_template_disk_size :: int
  pd_skip_cloudinit :: bool

datatype task =
    ProvisionTenant int int int string string
  | DestroyTenant int
  | CreateOpnsenseVlan int int string int
  | ProvisionVm int provision_data
  | ProvisionWgTunnel int int int string "int list"
  | DestroyWgTunnel int int int string
  | ProvisionWgPeer int int int int string
  | DestroyWgPeer int int int int string
  | ApplyFirewallRules int
  | SyncFirewallRules int

section \<open>The database\<close>

datatype table = TUsers | TTenants | TVms | TSnapshots | TPods | TIpPool | TVlans | TNetworks
  | TPermissions | TRoles | TUserRoles | TInvitations | TWgPool | TWgTunnels | TWgPeers | TFwRules

record db =
  users :: "user list"
  tenants :: "tenant list"
  vms :: "vm list"
  snapshots :: "vm_snapshot list"
  pods :: "pod list"
  ip_pool :: "ip_pool_row list"
  vlans :: "vlan_row list"
  networks :: "tenant_network list"
  bridges :: "bridge list"
  permissions :: "permission list"
  roles :: "role list"
  user_roles :: "user_role list"
  invitations :: "invitation list"
  ip_reservations :: "ip_reservation list"
  wg_pool :: "wg_pool_row list"
  wg_tunnels :: "wg_tunnel list"
  wg_peers :: "wg_peer list"
  fw_rules :: "fw_rule list"
  tenant_images :: "tenant_image list"
  audit_log :: "audit_entry list"
  seqs :: "table \<Rightarrow> int"
  queue :: "task list"

definition next_id :: "table \<Rightarrow> db \<Rightarrow> int" where
  "next_id t d = seqs d t"

definition bump_seq :: "table \<Rightarrow> db \<Rightarrow> db" where
  "bump_seq t d = d\<lparr>seqs := (seqs d)(t := seqs d t + 1)\<rparr>"

definition send_task :: "task \<Rightarrow> db \<Rightarrow> db" where
  "send_task t d = d\<lparr>queue := queue d @ [t]\<rparr>"

definition empty_db :: db where
  "empty_db = \<lparr>users = [], tenants = [], vms = [], snapshots = [], pods = [], ip_pool = [],
     vlans = [], networks = [], bridges = [], permissions = [], roles = [], user_roles = [],
     invitations = [], ip_reservations = [], wg_pool = [], wg_tunnels = [], wg_peers = [],
     fw_rules = [], tenant_images = [], audit_log = [], seqs = (\<lambda>_. 1), queue = []\<rparr>"

lemma bump_seq_fields [row_simps, simp]:
  "users (bump_seq t d) = users d" "tenants (bump_seq t d) = tenants d"
  "vms (bump_seq t d) = vms d" "snapshots (bump_seq t d) = snapshots d"
  "pods (bump_seq t d) = pods d" "ip_pool (bump_seq t d) = ip_pool d"
  "vlans (bump_seq t d) = vlans d" "networks (bump_seq t d) = networks d"
  "bridges (bump_seq t d) = bridges d" "permissions (bump_seq t d) = permissions d"
  "roles (bump_seq t d) = roles d" "user_roles (bump_seq t d) = user_roles d"
  "invitations (bump_seq t d) = invitations d"
  "wg_pool (bump_seq t d) = wg_pool d" "wg_tunnels (bump_seq t d) = wg_tunnels d"
  "wg_peers (bump_seq t d) = wg_peers d" "fw_rules (bump_seq t d) = fw_rules d"
  "audit_log (bump_seq t d) = audit_log d" "queue (bump_seq t d) = queue d"
  "ip_reservations (bump_seq t d) = ip_reservations d"
  by (simp_all add: bump_seq_def)

lemma send_task_fields [row_simps, simp]:
  "users (send_task t d) = users d" "tenants (send_task t d) = tenants d"
  "vms (send_task t d) = vms d" "pods (send_task t d) = pods d"
  "ip_pool (send_task t d) = ip_pool d" "vlans (send_task t d) = vlans d"
  "networks (send_task t d) = networks d" "bridges (send_task t d) = bridges d"
  "roles (send_task t d) = roles d" "user_roles (send_task t d) = user_roles d"
  "permissions (send_task t d) = permissions d" "audit_log (send_task t d) = audit_log d"
  "queue (send_task t d) = queue d @ [t]" "seqs (send_task t d) = seqs d"
  "snapshots (send_task t d) = snapshots d" "wg_pool (send_task t d) = wg_pool d"
  "wg_tunnels (send_task t d) = wg_tunnels d" "wg_peers (send_task t d) = wg_peers d"
  "fw_rules (send_task t d) = fw_rules d"
  by (simp_all add: send_task_def)

section \<open>Requests\<close>

text \<open>
  What a handler reads of a FastAPI \<open>Request\<close>: the headers (looked up by their lower-case
  name, as Starlette does), and the address of the peer, if any. \<open>req_now\<close> is what
  \<open>datetime.now\<close> answers while the request runs, \<open>req_token\<close> what
  \<open>secrets.token_urlsafe\<close> draws (\<open>req_fallback_id\<close> for the 16-byte draw that replaces a missing request id).
\<close>

record request =
  req_headers :: "string \<Rightarrow> string option"
  req_client_host :: "string option"
  req_now :: int
  req_token :: string
  req_fallback_id :: string

definition header :: "request \<Rightarrow> string \<Rightarrow> string option" where
  "header req name = req_headers req (lower name)"

definition header_or :: "request \<Rightarrow> string \<Rightarrow> string \<Rightarrow> string" where
  "header_or req name dflt = (case header req name of None \<Rightarrow> dflt | Some v \<Rightarrow> v)"

definition plain_request :: "(string \<times> string) list \<Rightarrow> int \<Rightarrow> request" where
  "plain_request hs t = \<lparr>req_headers = map_of hs, req_client_host = Some ''10.0.0.1'', req_now = t,
     req_token = ''tok'', req_fallback_id = ''rid''\<rparr>"

end
