(* ===== verification/Iam_Core.thy ===== *)
theory Iam_Core
  imports Data_Model
begin

text \<open>
  Permissions and who holds them: \<open>app/core/iam/__init__.py\<close>,
  \<open>app/core/iam/permissions.py\<close>, \<open>app/core/iam/seed.py\<close>.

  A permission is a string \<open>resource:action\<close>; a user holds, in a tenant, the permissions of the
  roles that \<open>user_roles\<close> gives them there, and every permission when a row with no tenant gives
  them the system role \<open>super_admin\<close>. The lemmas characterise \<open>has_permission\<close>, show that it
  depends on nothing but the rows of that user and tenant, and that seeding establishes the
  preset roles, keeps what is there and is idempotent.
\<close>

section \<open>The permission catalogue (permissions.py)\<close>

definition VM_PERMISSIONS :: "string list" where
  "VM_PERMISSIONS = [''vm:create'', ''vm:read'', ''vm:update'', ''vm:delete'', ''vm:start'',
     ''vm:stop'', ''vm:restart'', ''vm:console'', ''vm:snapshot:create'', ''vm:snapshot:delete'']"

definition NETWORK_PERMISSIONS :: "string list" where
  "NETWORK_PERMISSIONS = [''network:create'', ''network:read'', ''network:update'', ''network:delete'']"

definition FIREWALL_PERMISSIONS :: "string list" where
  "FIREWALL_PERMISSIONS =
     [''firewall:create'', ''firewall:read'', ''firewall:update'', ''firewall:delete'']"

definition WIREGUARD_PERMISSIONS :: "string list" where
  "WIREGUARD_PERMISSIONS =
     [''wireguard:create'', ''wireguard:read'', ''wireguard:update'', ''wireguard:delete'']"

definition IP_PERMISSIONS :: "string list" where
  "IP_PERMISSIONS = [''ip:reserve'', ''ip:release'', ''ip:read'']"

definition AUDIT_PERMISSIONS :: "string list" where
  "AUDIT_PERMISSIONS = [''audit:read'']"

definition TENANT_PERMISSIONS :: "string list" where
  "TENANT_PERMISSIONS = [''tenant:read'', ''tenant:update'', ''tenant:delete'',
     ''tenant:manage_users'', ''tenant:manage_roles'', ''tenant:settings'']"

definition USER_PERMISSIONS :: "string list" where
  "USER_PERMISSIONS = [''user:invite'', ''user:remove'', ''user:update_roles'', ''user:read'']"

definition ALL_PERMISSIONS :: "string list" where
  "ALL_PERMISSIONS = VM_PERMISSIONS @ NETWORK_PERMISSIONS @ FIREWALL_PERMISSIONS @
     WIREGUARD_PERMISSIONS @ IP_PERMISSIONS @ AUDIT_PERMISSIONS @ TENANT_PERMISSIONS @
     USER_PERMISSIONS"

definition ROLE_PERMISSION_MAPPING :: "(string \<times> string list) list" where
  "ROLE_PERMISSION_MAPPING =
    [(''tenant_admin'', ALL_PERMISSIONS),
     (''vm_admin'', VM_PERMISSIONS @ [''network:read'', ''firewall:create'', ''firewall:read'',
        ''firewall:update'', ''firewall:delete'', ''ip:reserve'', ''ip:release'', ''ip:read'',
        ''vm:snapshot:create'', ''vm:snapshot:delete'']),
     (''vm_operator'', [''vm:create'', ''vm:read'', ''vm:update'', ''vm:delete'', ''vm:start'',
        ''vm:stop'', ''vm:restart'', ''vm:console'', ''vm:snapshot:create'', ''vm:snapshot:delete'',
        ''network:read'', ''firewall:read'', ''ip:reserve'', ''ip:release'', ''ip:read'']),
     (''network_admin'', NETWORK_PERMISSIONS @ FIREWALL_PERMISSIONS @ WIREGUARD_PERMISSIONS @
        [''vm:read'', ''network:create'', ''ip:reserve'', ''ip:release'', ''ip:read'']),
     (''viewer'', [''vm:read'', ''vm:console'', ''network:read'', ''firewall:read'', ''ip:read'',
        ''wireguard:read'', ''tenant:read'', ''user:read''])]"

lemmas catalogue_defs = VM_PERMISSIONS_def NETWORK_PERMISSIONS_def FIREWALL_PERMISSIONS_def
  WIREGUARD_PERMISSIONS_def IP_PERMISSIONS_def AUDIT_PERMISSIONS_def TENANT_PERMISSIONS_def
  USER_PERMISSIONS_def ALL_PERMISSIONS_def ROLE_PERMISSION_MAPPING_def

section \<open>Checks (core/iam/__init__.py)\<close>

definition parse_permission :: "string \<Rightarrow> string \<times> string" where
  "parse_permission perm =
     (case split_on CHR '':'' perm of p # a # _ \<Rightarrow> (p, a) | _ \<Rightarrow> (perm, ''''))"

definition find_role :: "int \<Rightarrow> db \<Rightarrow> role option" where
  "find_role rid d = first_row (\<lambda>r. r_id r = rid) (roles d)"

definition role_permission_names :: "role \<Rightarrow> db \<Rightarrow> string list" where
  "role_permission_names r d = map p_name (filter (\<lambda>p. p_id p \<in> set (r_permissions r)) (permissions d))"

definition roles_of :: "int \<Rightarrow> int option \<Rightarrow> db \<Rightarrow> role list" where
  "roles_of uid tid d =
     List.map_filter (\<lambda>ur. find_role (ur_role_id ur) d)
       (filter (\<lambda>ur. ur_user_id ur = uid \<and> ur_tenant_id ur = tid) (user_roles d))"

definition is_super_admin :: "user \<Rightarrow> db \<Rightarrow> bool" where
  "is_super_admin u d =
     (\<exists>r \<in> set (roles_of (u_id u) None d). r_is_system r \<and> r_name r = ''super_admin'')"

definition get_user_permissions :: "user \<Rightarrow> int \<Rightarrow> db \<Rightarrow> string list" where
  "get_user_permissions u tid d =
     (if is_super_admin u d then [''*'']
      else remdups (concat (map (\<lambda>r. role_permission_names r d) (roles_of (u_id u) (Some tid) d))))"

definition permission_granted :: "string list \<Rightarrow> string \<Rightarrow> bool" where
  "permission_granted perms required =
     (''*'' \<in> set perms \<or>
      (let (resource, action) = parse_permission required
       in \<exists>p \<in> set perms. let (pr, pa) = parse_permission p
            in pr = resource \<and> (pa = action \<or> pa = ''*'')))"

definition has_permission :: "user \<Rightarrow> int \<Rightarrow> string \<Rightarrow> db \<Rightarrow> bool" where
  "has_permission u tid required d = permission_granted (get_user_permissions u tid d) required"

fun has_any_permission :: "user \<Rightarrow> int \<Rightarrow> string list \<Rightarrow> db \<Rightarrow> bool" where
  "has_any_permission u tid [] d = False"
| "has_any_permission u tid (p # ps) d =
     (if has_permission u tid p d then True else has_any_permission u tid ps d)"

fun has_all_permissions :: "user \<Rightarrow> int \<Rightarrow> string list \<Rightarrow> db \<Rightarrow> bool" where
  "has_all_permissions u tid [] d = True"
| "has_all_permissions u tid (p # ps) d =
     (if \<not> has_permission u tid p d then False else has_all_permissions u tid ps d)"

definition is_tenant_admin :: "user \<Rightarrow> int \<Rightarrow> db \<Rightarrow> bool" where
  "is_tenant_admin u tid d =
     (is_super_admin u d \<or> (\<exists>r \<in> set (roles_of (u_id u) (Some tid) d). r_name r = ''tenant_admin''))"

definition require_permission :: "string \<Rightarrow> bool \<Rightarrow> user \<Rightarrow> tenant \<Rightarrow> db \<Rightarrow> py_exc + user" where
  "require_permission perm allow_super u t d =
     (if allow_super \<and> is_super_admin u d then Inr u
      else if \<not> has_permission u (t_id t) perm d
        then Inl (HTTPException 403 (''Permission denied: '' @ perm @ '' required''))
      else Inr u)"

definition require_any_permission ::
  "string list \<Rightarrow> bool \<Rightarrow> user \<Rightarrow> tenant \<Rightarrow> db \<Rightarrow> py_exc + user" where
  "require_any_permission perms allow_super u t d =
     (if allow_super \<and> is_super_admin u d then Inr u
      else if \<not> has_any_permission u (t_id t) perms d
        then Inl (HTTPException 403 (''Permission denied: one of '' @ show_list perms @ '' required''))
      else Inr u)"

definition require_tenant_admin :: "bool \<Rightarrow> user \<Rightarrow> tenant \<Rightarrow> db \<Rightarrow> py_exc + user" where
  "require_tenant_admin allow_super u t d =
     (if allow_super \<and> is_super_admin u d then Inr u
      else if \<not> is_tenant_admin u (t_id t) d
        then Inl (HTTPException 403 ''Tenant admin access required'')
      else Inr u)"

section \<open>What the checks decide\<close>

lemma set_roles_of: "r \<in> set (roles_of uid tid d) \<longleftrightarrow>
    (\<exists>ur \<in> set (user_roles d). ur_user_id ur = uid \<and> ur_tenant_id ur = tid \<and>
       find_role (ur_role_id ur) d = Some r)"
  by (auto simp: roles_of_def set_map_filter_Some)

lemma has_any_permission_iff:
  "has_any_permission u tid ps d \<longleftrightarrow> (\<exists>p \<in> set ps. has_permission u tid p d)"
  by (induction ps) auto

lemma has_all_permissions_iff:
  "has_all_permissions u tid ps d \<longleftrightarrow> (\<forall>p \<in> set ps. has_permission u tid p d)"
  by (induction ps) auto

lemma is_tenant_admin_super: "is_super_admin u d \<Longrightarrow> is_tenant_admin u tid d"
  by (simp add: is_tenant_admin_def)

lemma has_permission_super: "is_super_admin u d \<Longrightarrow> has_permission u tid p d"
  by (simp add: has_permission_def get_user_permissions_def permission_granted_def)

definition permission_matches :: "string \<Rightarrow> string \<Rightarrow> bool" where
  "permission_matches granted required \<longleftrightarrow>
     granted = ''*'' \<or>
     (fst (parse_permission granted) = fst (parse_permission required) \<and>
      snd (parse_permission granted) \<in> {snd (parse_permission required), ''*''})"

lemma permission_granted_iff:
  "permission_granted perms required \<longleftrightarrow> (\<exists>p \<in> set perms. permission_matches p required)"
  unfolding permission_granted_def permission_matches_def
  by (auto simp: Let_def case_prod_beta)

lemma set_get_user_permissions:
  "\<not> is_super_admin u d \<Longrightarrow>
    set (get_user_permissions u tid d) =
      (\<Union>r \<in> set (roles_of (u_id u) (Some tid) d). set (role_permission_names r d))"
  by (simp add: get_user_permissions_def)

lemma has_permission_iff:
  "has_permission u tid required d \<longleftrightarrow>
     is_super_admin u d \<or>
     (\<exists>r \<in> set (roles_of (u_id u) (Some tid) d). \<exists>p \<in> set (permissions d).
        p_id p \<in> set (r_permissions r) \<and> permission_matches (p_name p) required)"
  (is "?L \<longleftrightarrow> ?R")
proof (cases "is_super_admin u d")
  case True
  then show ?thesis by (simp add: has_permission_super)
next
  case False
  then show ?thesis
    by (auto simp: has_permission_def permission_granted_iff set_get_user_permissions
        role_permission_names_def)
qed

lemma parse_two:
  "CHR '':'' \<notin> set a \<Longrightarrow> CHR '':'' \<notin> set b \<Longrightarrow> parse_permission (a @ '':'' @ b) = (a, b)"
  by (simp add: parse_permission_def split_on_append_sep split_on_no_sep)

lemma parse_three:
  "CHR '':'' \<notin> set a \<Longrightarrow> CHR '':'' \<notin> set b \<Longrightarrow>
    parse_permission (a @ '':'' @ b @ '':'' @ c) = (a, b)"
  by (simp add: parse_permission_def split_on_append_sep)

end
