(* ===== verification/Iam_Seed.thy ===== *)
theory Iam_Seed
  imports Iam_Core
begin

text \<open>
  Seeding of permissions and preset roles, and the default role assignments
  (\<open>app/core/iam/seed.py\<close>).

  \<open>role.permissions.append(p)\<close> inserts into the association table \<open>permission_role\<close>, whose
  primary key holds a pair once: appending a permission that is there changes nothing.
  Each function commits what it writes; the log lines are left out.
\<close>

section \<open>Permissions\<close>

definition all_perm_defs :: "(string \<times> string list) list" where
  "all_perm_defs =
     [(''vm'', VM_PERMISSIONS), (''network'', NETWORK_PERMISSIONS),
      (''firewall'', FIREWALL_PERMISSIONS), (''wireguard'', WIREGUARD_PERMISSIONS),
      (''ip'', IP_PERMISSIONS), (''audit'', AUDIT_PERMISSIONS),
      (''tenant'', TENANT_PERMISSIONS), (''user'', USER_PERMISSIONS)]"

definition seed_permission :: "string \<Rightarrow> string \<Rightarrow> db \<Rightarrow> db" where
  "seed_permission resource_type perm_name d =
     (if perm_name \<in> p_name ` set (permissions d) then d
      else bump_seq TPermissions (d\<lparr>permissions := permissions d @
        [\<lparr>p_id = next_id TPermissions d, p_name = perm_name, p_resource_type = resource_type,
          p_action = replace_char CHR '':'' ''_'' perm_name,
          p_description = Some (''Permission for '' @ replace_char CHR '':'' '' '' perm_name)\<rparr>]\<rparr>))"

fun seed_permission_list :: "string \<Rightarrow> string list \<Rightarrow> db \<Rightarrow> db" where
  "seed_permission_list rt [] d = d"
| "seed_permission_list rt (p # ps) d = seed_permission_list rt ps (seed_permission rt p d)"

fun seed_permission_defs :: "(string \<times> string list) list \<Rightarrow> db \<Rightarrow> db" where
  "seed_permission_defs [] d = d"
| "seed_permission_defs ((rt, ps) # rest) d = seed_permission_defs rest (seed_permission_list rt ps d)"

section \<open>Preset roles\<close>

definition preset_role :: "string \<Rightarrow> db \<Rightarrow> role option" where
  "preset_role name d = first_row (\<lambda>r. r_is_preset r \<and> r_name r = name) (roles d)"

definition permission_id :: "string \<Rightarrow> db \<Rightarrow> int option" where
  "permission_id name d = map_option p_id (first_row (\<lambda>p. p_name p = name) (permissions d))"

definition ensure_role :: "string \<Rightarrow> string \<Rightarrow> bool \<Rightarrow> db \<Rightarrow> db" where
  "ensure_role name descr sys d =
     (case preset_role name d of
        Some _ \<Rightarrow> d
      | None \<Rightarrow> bump_seq TRoles (d\<lparr>roles := roles d @
          [\<lparr>r_id = next_id TRoles d, r_name = name, r_description = Some descr,
            r_tenant_id = None, r_is_preset = True, r_is_system = sys, r_permissions = []\<rparr>]\<rparr>))"

definition add_permission :: "int \<Rightarrow> int list \<Rightarrow> int list" where
  "add_permission i is = (if i \<in> set is then is else is @ [i])"

definition grant :: "string \<Rightarrow> string list \<Rightarrow> db \<Rightarrow> db" where
  "grant name perms d =
     (case preset_role name d of
        None \<Rightarrow> d
      | Some r \<Rightarrow>
          d\<lparr>roles := upd_rows r_id (r_id r)
             (\<lambda>x. x\<lparr>r_permissions :=
                fold add_permission (List.map_filter (\<lambda>p. permission_id p d) perms) (r_permissions x)\<rparr>)
             (roles d)\<rparr>)"

fun seed_role_mapping :: "(string \<times> string list) list \<Rightarrow> db \<Rightarrow> db" where
  "seed_role_mapping [] d = d"
| "seed_role_mapping ((name, perms) # rest) d =
     seed_role_mapping rest
       (grant name perms (ensure_role name (''Preset '' @ name @ '' role'') False d))"

definition seed_preset_roles :: "db \<Rightarrow> db" where
  "seed_preset_roles d =
     (let d1 = seed_role_mapping ROLE_PERMISSION_MAPPING d;
          d2 = ensure_role ''super_admin'' ''Super admin - full system access'' True d1
      in grant ''super_admin'' (map p_name (permissions d2)) d2)"

definition seed_permissions :: "db \<Rightarrow> db" where
  "seed_permissions d = seed_preset_roles (seed_permission_defs all_perm_defs d)"

section \<open>Role assignments\<close>

definition add_user_role :: "int \<Rightarrow> int option \<Rightarrow> int \<Rightarrow> int option \<Rightarrow> db \<Rightarrow> db" where
  "add_user_role uid tid rid by d =
     bump_seq TUserRoles (d\<lparr>user_roles := user_roles d @
       [\<lparr>ur_id = next_id TUserRoles d, ur_user_id = uid, ur_tenant_id = tid, ur_role_id = rid,
         ur_granted_by = by\<rparr>]\<rparr>)"

definition assign_super_admin_role :: "db \<Rightarrow> user \<Rightarrow> db" where
  "assign_super_admin_role d u =
     (case first_row (\<lambda>r. r_name r = ''super_admin'' \<and> r_is_system r) (roles d) of
        None \<Rightarrow> d
      | Some r \<Rightarrow>
          (if \<exists>ur \<in> set (user_roles d). ur_user_id ur = u_id u \<and> ur_role_id ur = r_id r then d
           else add_user_role (u_id u) None (r_id r) None d))"

definition assign_tenant_admin_role :: "db \<Rightarrow> user \<Rightarrow> int \<Rightarrow> db" where
  "assign_tenant_admin_role d u tid =
     (case first_row (\<lambda>r. r_name r = ''tenant_admin'' \<and> r_tenant_id r = None \<and> \<not> r_is_system r)
             (roles d) of
        None \<Rightarrow> d
      | Some r \<Rightarrow>
          (if \<exists>ur \<in> set (user_roles d). ur_user_id ur = u_id u \<and> ur_tenant_id ur = Some tid then d
           else add_user_role (u_id u) (Some tid) (r_id r) None d))"

definition assign_viewer_role :: "db \<Rightarrow> user \<Rightarrow> int \<Rightarrow> db" where
  "assign_viewer_role d u tid =
     (case first_row (\<lambda>r. r_name r = ''viewer'' \<and> r_tenant_id r = None \<and> \<not> r_is_system r)
             (roles d) of
        None \<Rightarrow> d
      | Some r \<Rightarrow> add_user_role (u_id u) (Some tid) (r_id r) None d)"

definition assign_default_role_to_user :: "db \<Rightarrow> user \<Rightarrow> int \<Rightarrow> bool \<Rightarrow> db" where
  "assign_default_role_to_user d u tid super =
     (if super then assign_super_admin_role d u else assign_tenant_admin_role d u tid)"

section \<open>Well-formed role and permission tables\<close>

definition roles_wf :: "db \<Rightarrow> bool" where
  "roles_wf d \<longleftrightarrow> distinct_keys r_id (roles d) \<and> (\<forall>r \<in> set (roles d). r_id r < seqs d TRoles)"

definition perms_wf :: "db \<Rightarrow> bool" where
  "perms_wf d \<longleftrightarrow> distinct_keys p_id (permissions d) \<and> distinct_keys p_name (permissions d) \<and>
     (\<forall>p \<in> set (permissions d). p_id p < seqs d TPermissions)"

lemma empty_db_wf: "roles_wf empty_db" "perms_wf empty_db"
  by (simp_all add: roles_wf_def perms_wf_def empty_db_def)

section \<open>Seeding permissions\<close>

lemma seed_permission_frame [row_simps, simp]:
  "roles (seed_permission rt p d) = roles d" "user_roles (seed_permission rt p d) = user_roles d"
  "users (seed_permission rt p d) = users d" "tenants (seed_permission rt p d) = tenants d"
  "seqs (seed_permission rt p d) TRoles = seqs d TRoles"
  by (simp_all add: seed_permission_def bump_seq_def)

lemma seed_permission_list_frame [row_simps, simp]:
  "roles (seed_permission_list rt ps d) = roles d"
  "user_roles (seed_permission_list rt ps d) = user_roles d"
  "seqs (seed_permission_list rt ps d) TRoles = seqs d TRoles"
  by (induction ps arbitrary: d) simp_all

lemma seed_permission_defs_frame [row_simps, simp]:
  "roles (seed_permission_defs defs d) = roles d"
  "user_roles (seed_permission_defs defs d) = user_roles d"
  "seqs (seed_permission_defs defs d) TRoles = seqs d TRoles"
  by (induction defs d rule: seed_permission_defs.induct) simp_all

lemma seed_permission_names:
  "p_name ` set (permissions (seed_permission rt p d)) = insert p (p_name ` set (permissions d))"
  by (auto simp: seed_permission_def)

lemma seed_permission_list_names:
  "p_name ` set (permissions (seed_permission_list rt ps d)) = p_name ` set (permissions d) \<union> set ps"
  by (induction ps arbitrary: d) (auto simp: seed_permission_names)

lemma seed_permission_defs_names:
  "p_name ` set (permissions (seed_permission_defs defs d)) =
     p_name ` set (permissions d) \<union> \<Union> (set ` snd ` set defs)"
  by (induction defs d rule: seed_permission_defs.induct) (auto simp: seed_permission_list_names)

lemma seed_permission_list_present:
  "set ps \<subseteq> p_name ` set (permissions d) \<Longrightarrow> seed_permission_list rt ps d = d"
  by (induction ps) (auto simp: seed_permission_def)

lemma seed_permission_defs_present:
  "\<Union> (set ` snd ` set defs) \<subseteq> p_name ` set (permissions d) \<Longrightarrow> seed_permission_defs defs d = d"
  by (induction defs d rule: seed_permission_defs.induct) (auto simp: seed_permission_list_present)

lemma seed_permission_wf: "perms_wf d \<Longrightarrow> perms_wf (seed_permission rt p d)"
  by (force simp: perms_wf_def seed_permission_def next_id_def distinct_keys_append bump_seq_def)

lemma seed_permission_list_wf: "perms_wf d \<Longrightarrow> perms_wf (seed_permission_list rt ps d)"
  by (induction ps arbitrary: d) (simp_all add: seed_permission_wf)

lemma seed_permission_defs_wf: "perms_wf d \<Longrightarrow> perms_wf (seed_permission_defs defs d)"
  by (induction defs d rule: seed_permission_defs.induct) (simp_all add: seed_permission_list_wf)

lemma catalogue_in_defs: "\<Union> (set ` snd ` set all_perm_defs) = set ALL_PERMISSIONS"
  by (auto simp: all_perm_defs_def ALL_PERMISSIONS_def)

lemma mapping_in_catalogue: "(n, ps) \<in> set ROLE_PERMISSION_MAPPING \<Longrightarrow> set ps \<subseteq> set ALL_PERMISSIONS"
  by (auto simp: catalogue_defs)

lemma mapping_names: "distinct (map fst ROLE_PERMISSION_MAPPING)"
  "''super_admin'' \<notin> fst ` set ROLE_PERMISSION_MAPPING"
  by (simp_all add: ROLE_PERMISSION_MAPPING_def)

section \<open>Seeding roles\<close>

lemma set_fold_add_permission: "set (fold add_permission is js) = set is \<union> set js"
  by (induction "is" arbitrary: js) (auto simp: add_permission_def)

lemma fold_add_permission_id: "set is \<subseteq> set js \<Longrightarrow> fold add_permission is js = js"
  by (induction "is" arbitrary: js) (auto simp: add_permission_def)

lemma ensure_role_frame [row_simps, simp]:
  "permissions (ensure_role n s b d) = permissions d" "user_roles (ensure_role n s b d) = user_roles d"
  "seqs (ensure_role n s b d) TPermissions = seqs d TPermissions"
  by (simp_all add: ensure_role_def bump_seq_def split: option.splits)

lemma grant_frame [row_simps, simp]:
  "permissions (grant n ps d) = permissions d" "user_roles (grant n ps d) = user_roles d"
  "seqs (grant n ps d) = seqs d"
  by (simp_all add: grant_def split: option.splits)

lemma preset_role_Some: "preset_role n d = Some r \<Longrightarrow> r \<in> set (roles d) \<and> r_is_preset r \<and> r_name r = n"
  by (auto simp: preset_role_def dest: first_row_Some)

lemma ensure_role_wf: "roles_wf d \<Longrightarrow> roles_wf (ensure_role n s b d)"
  by (force simp: ensure_role_def roles_wf_def next_id_def bump_seq_def distinct_keys_append
      split: option.splits)

lemma grant_wf: "roles_wf d \<Longrightarrow> roles_wf (grant n ps d)"
  by (auto simp: grant_def roles_wf_def distinct_keys_upd_rows set_upd_rows split: option.splits)

lemma preset_role_ensure:
  "preset_role m (ensure_role n s b d) =
     (case preset_role m d of Some r \<Rightarrow> Some r
      | None \<Rightarrow> if m = n then Some \<lparr>r_id = next_id TRoles d, r_name = n, r_description = Some s,
            r_tenant_id = None, r_is_preset = True, r_is_system = b, r_permissions = []\<rparr>
          else None)"
  by (auto simp: ensure_role_def preset_role_def first_row_append split: option.splits)

text \<open>The permission ids that a list of names stands for, and a grant of them to one role.\<close>

definition ids_of :: "string list \<Rightarrow> db \<Rightarrow> int list" where
  "ids_of ps d = List.map_filter (\<lambda>p. permission_id p d) ps"

lemma ids_of_cong: "permissions d = permissions e \<Longrightarrow> ids_of ps d = ids_of ps e"
  by (simp add: ids_of_def permission_id_def)

lemma first_row_upd_invariant:
  "(\<And>r. p (f r) = p r) \<Longrightarrow>
    first_row p (upd_rows key k f rows) =
      map_option (\<lambda>r. if key r = k then f r else r) (first_row p rows)"
  by (induction rows) auto

lemma preset_role_grant:
  assumes "roles_wf d"
  shows "preset_role m (grant n ps d) =
     map_option (\<lambda>r. if m = n then r\<lparr>r_permissions := fold add_permission (ids_of ps d) (r_permissions r)\<rparr>
       else r) (preset_role m d)"
proof (cases "preset_role n d")
  case None
  then show ?thesis by (cases "preset_role m d") (auto simp: grant_def)
next
  case (Some q)
  let ?f = "\<lambda>r. r\<lparr>r_permissions := fold add_permission (ids_of ps d) (r_permissions r)\<rparr>"
  have "preset_role m (grant n ps d) =
      map_option (\<lambda>r. if r_id r = r_id q then ?f r else r) (preset_role m d)"
    unfolding ids_of_def using Some by (simp add: grant_def preset_role_def first_row_upd_invariant)
  moreover have "r_id r = r_id q \<longleftrightarrow> m = n" if r: "preset_role m d = Some r" for r
  proof
    assume "r_id r = r_id q"
    then have "r = q"
      using assms preset_role_Some [OF r] preset_role_Some [OF Some]
      by (intro distinct_keys_eq [of r_id "roles d"]) (simp_all add: roles_wf_def)
    then show "m = n" using preset_role_Some [OF r] preset_role_Some [OF Some] by simp
  qed (use r Some in simp)
  ultimately show ?thesis by (cases "preset_role m d") auto
qed

definition role_holds :: "string \<Rightarrow> string list \<Rightarrow> db \<Rightarrow> bool" where
  "role_holds n ps d \<longleftrightarrow> (\<exists>r. preset_role n d = Some r \<and> set (ids_of ps d) \<subseteq> set (r_permissions r))"

lemma grant_id: 
  assumes "roles_wf d" "role_holds n ps d"
  shows "grant n ps d = d"
proof -
  obtain r where r: "preset_role n d = Some r" "set (ids_of ps d) \<subseteq> set (r_permissions r)"
    using assms(2) by (auto simp: role_holds_def)
  have "upd_rows r_id (r_id r)
      (\<lambda>x. x\<lparr>r_permissions := fold add_permission (ids_of ps d) (r_permissions x)\<rparr>) (roles d) = roles d"
    unfolding upd_rows_def
  proof (rule map_idI)
    fix x assume "x \<in> set (roles d)"
    then have "r_id x = r_id r \<Longrightarrow> x = r"
      using assms(1) preset_role_Some [OF r(1)] by (auto simp: roles_wf_def dest: distinct_keys_eq)
    then show "(if r_id x = r_id r
        then x\<lparr>r_permissions := fold add_permission (ids_of ps d) (r_permissions x)\<rparr> else x) = x"
      using r(2) by (auto simp: fold_add_permission_id)
  qed
  then show ?thesis using r(1) by (simp add: grant_def ids_of_def)
qed

lemma role_holds_ensure: "role_holds m qs d \<Longrightarrow> role_holds m qs (ensure_role n s b d)"
  by (auto simp: role_holds_def preset_role_ensure ids_of_def permission_id_def)

lemma ids_of_grant [simp]: "ids_of qs (grant n ps d) = ids_of qs d"
  by (rule ids_of_cong) simp

lemma ids_of_ensure [simp]: "ids_of qs (ensure_role n s b d) = ids_of qs d"
  by (rule ids_of_cong) simp

lemma role_holds_grant:
  assumes "roles_wf d" "role_holds m qs d"
  shows "role_holds m qs (grant n ps d)"
proof -
  obtain r where "preset_role m d = Some r" "set (ids_of qs d) \<subseteq> set (r_permissions r)"
    using assms(2) by (auto simp: role_holds_def)
  then show ?thesis
    using assms(1) by (cases "m = n") (auto simp: role_holds_def preset_role_grant set_fold_add_permission)
qed

lemma role_holds_granted:
  "roles_wf d \<Longrightarrow> role_holds n ps (grant n ps (ensure_role n s b d))"
  by (auto simp: role_holds_def preset_role_grant ensure_role_wf preset_role_ensure
      set_fold_add_permission split: option.splits)

lemma ensure_role_id: "role_holds n ps d \<Longrightarrow> ensure_role n s b d = d"
  by (auto simp: ensure_role_def role_holds_def)

section \<open>The whole seed\<close>

lemma seed_role_mapping_frame [row_simps, simp]:
  "permissions (seed_role_mapping m d) = permissions d"
  "user_roles (seed_role_mapping m d) = user_roles d"
  "seqs (seed_role_mapping m d) TPermissions = seqs d TPermissions"
  by (induction m d rule: seed_role_mapping.induct) simp_all

lemma seed_role_mapping_wf: "roles_wf d \<Longrightarrow> roles_wf (seed_role_mapping m d)"
  by (induction m d rule: seed_role_mapping.induct) (simp_all add: grant_wf ensure_role_wf)

lemma seed_role_mapping_keeps:
  "roles_wf d \<Longrightarrow> role_holds n ps d \<Longrightarrow> role_holds n ps (seed_role_mapping m d)"
  by (induction m d rule: seed_role_mapping.induct)
    (simp_all add: grant_wf ensure_role_wf role_holds_ensure role_holds_grant)

lemma seed_role_mapping_holds:
  "roles_wf d \<Longrightarrow> (n, ps) \<in> set m \<Longrightarrow> role_holds n ps (seed_role_mapping m d)"
  by (induction m d rule: seed_role_mapping.induct)
    (auto simp: grant_wf ensure_role_wf role_holds_granted seed_role_mapping_keeps)

lemma seed_role_mapping_id:
  "roles_wf d \<Longrightarrow> \<forall>(n, ps) \<in> set m. role_holds n ps d \<Longrightarrow> seed_role_mapping m d = d"
  by (induction m d rule: seed_role_mapping.induct) (auto simp: ensure_role_id grant_id)

lemma seed_preset_roles_frame [row_simps, simp]:
  "permissions (seed_preset_roles d) = permissions d"
  "user_roles (seed_preset_roles d) = user_roles d"
  "seqs (seed_preset_roles d) TPermissions = seqs d TPermissions"
  by (simp_all add: seed_preset_roles_def Let_def)

lemma seed_preset_roles_wf: "roles_wf d \<Longrightarrow> roles_wf (seed_preset_roles d)"
  by (simp add: seed_preset_roles_def Let_def grant_wf ensure_role_wf seed_role_mapping_wf)

lemma seed_preset_roles_holds:
  assumes "roles_wf d"
  shows "(n, ps) \<in> set ROLE_PERMISSION_MAPPING \<Longrightarrow> role_holds n ps (seed_preset_roles d)"
    and "role_holds ''super_admin'' (map p_name (permissions d)) (seed_preset_roles d)"
proof -
  let ?d1 = "seed_role_mapping ROLE_PERMISSION_MAPPING d"
  have w: "roles_wf ?d1" using assms by (rule seed_role_mapping_wf)
  show "role_holds n ps (seed_preset_roles d)" if "(n, ps) \<in> set ROLE_PERMISSION_MAPPING"
    using seed_role_mapping_holds [OF assms that] w
    by (simp add: seed_preset_roles_def Let_def role_holds_grant role_holds_ensure ensure_role_wf)
  show "role_holds ''super_admin'' (map p_name (permissions d)) (seed_preset_roles d)"
    using role_holds_granted [OF w, of "''super_admin''"] by (simp add: seed_preset_roles_def Let_def)
qed

lemma seed_preset_roles_id:
  assumes "roles_wf d" "\<forall>(n, ps) \<in> set ROLE_PERMISSION_MAPPING. role_holds n ps d"
    and "role_holds ''super_admin'' (map p_name (permissions d)) d"
  shows "seed_preset_roles d = d"
  using seed_role_mapping_id [OF assms(1,2)] assms(1,3) ensure_role_id [OF assms(3)] grant_id
  by (simp add: seed_preset_roles_def Let_def)

lemma seed_permissions_frame [row_simps, simp]:
  "user_roles (seed_permissions d) = user_roles d"
  "permissions (seed_permissions d) = permissions (seed_permission_defs all_perm_defs d)"
  by (simp_all add: seed_permissions_def)

lemma seed_permissions_wf: "roles_wf d \<Longrightarrow> roles_wf (seed_permissions d)"
  "perms_wf d \<Longrightarrow> perms_wf (seed_permissions d)"
proof -
  show "roles_wf d \<Longrightarrow> roles_wf (seed_permissions d)"
    unfolding seed_permissions_def by (rule seed_preset_roles_wf) (simp add: roles_wf_def)
  show "perms_wf d \<Longrightarrow> perms_wf (seed_permissions d)"
    using seed_permission_defs_wf [of d all_perm_defs]
    by (simp add: seed_permissions_def perms_wf_def)
qed

text \<open>
  Seeding is safe to run at every start: on a database whose role ids are distinct and
  numbered by the sequence, a second run of \<open>seed_permissions\<close> changes nothing, whatever
  permissions, preset roles and custom roles were there before the first.
\<close>
theorem seed_permissions_idempotent:
  assumes "roles_wf d"
  shows "seed_permissions (seed_permissions d) = seed_permissions d"
proof -
  let ?d1 = "seed_permission_defs all_perm_defs d"
  have w1: "roles_wf ?d1" using assms by (simp add: roles_wf_def)
  have w: "roles_wf (seed_permissions d)" using assms by (rule seed_permissions_wf)
  have "seed_permission_defs all_perm_defs (seed_permissions d) = seed_permissions d"
    by (rule seed_permission_defs_present) (simp add: seed_permission_defs_names)
  moreover have "seed_preset_roles (seed_permissions d) = seed_permissions d"
    using seed_preset_roles_holds [OF w1] w
    by (intro seed_preset_roles_id) (auto simp: seed_permissions_def)
  ultimately show ?thesis by (simp add: seed_permissions_def)
qed

lemma seed_permissions_idempotent_witness:
  "roles_wf empty_db \<and> seed_permissions (seed_permissions empty_db) = seed_permissions empty_db"
  using seed_permissions_idempotent [OF empty_db_wf(1)] empty_db_wf(1) by blast

section \<open>What the seeded roles may do\<close>

lemma permission_id_name:
  assumes "perms_wf d"
  shows "p_id p \<in> set (ids_of ps d) \<and> p \<in> set (permissions d) \<longleftrightarrow>
    p \<in> set (permissions d) \<and> p_name p \<in> set ps"
proof -
  have name: "permission_id (p_name q) d = Some (p_id q)" if "q \<in> set (permissions d)" for q
    using assms that by (simp add: permission_id_def perms_wf_def first_row_key)
  have rows: "permission_id n d = Some i \<Longrightarrow> \<exists>q \<in> set (permissions d). p_name q = n \<and> p_id q = i" for n i
    by (auto simp: permission_id_def dest!: first_row_Some)
  have inj: "q = p" if "q \<in> set (permissions d)" "p \<in> set (permissions d)" "p_id q = p_id p" for q
    using assms that by (intro distinct_keys_eq [of p_id "permissions d"]) (simp_all add: perms_wf_def)
  have ex: "\<exists>x \<in> set ps. permission_id x d = Some (p_id p)"
    if "p \<in> set (permissions d)" "p_name p \<in> set ps" for p
    using name that by blast
  show ?thesis
    by (auto simp: ids_of_def set_map_filter_Some dest!: rows dest: inj intro: ex)
qed

lemma role_permission_names_ids:
  assumes "perms_wf d" and "set (r_permissions r) = set (ids_of ps d)"
  shows "set (role_permission_names r d) = set ps \<inter> p_name ` set (permissions d)"
  using permission_id_name [OF assms(1), of _ ps] assms(2)
  by (auto simp: role_permission_names_def)

definition role_exact :: "string \<Rightarrow> int set \<Rightarrow> bool \<Rightarrow> string list \<Rightarrow> db \<Rightarrow> bool" where
  "role_exact n base sys ps d \<longleftrightarrow> (\<exists>r. preset_role n d = Some r \<and> r_is_system r = sys \<and>
      set (r_permissions r) = base \<union> set (ids_of ps d))"

text \<open>What a preset role holds, and whether it is a system role, before it is seeded.\<close>

definition base_ids :: "string \<Rightarrow> db \<Rightarrow> int set" where
  "base_ids n d = (case preset_role n d of None \<Rightarrow> {} | Some r \<Rightarrow> set (r_permissions r))"

definition base_names :: "string \<Rightarrow> db \<Rightarrow> string set" where
  "base_names n d = (case preset_role n d of None \<Rightarrow> {} | Some r \<Rightarrow> set (role_permission_names r d))"

definition base_system :: "string \<Rightarrow> db \<Rightarrow> bool" where
  "base_system n d = (case preset_role n d of None \<Rightarrow> False | Some r \<Rightarrow> r_is_system r)"

lemma role_exact_keeps:
  assumes "roles_wf d" "role_exact m base sys qs d" "m \<noteq> n"
  shows "role_exact m base sys qs (grant n ps (ensure_role n s b d))"
  using assms by (auto simp: role_exact_def preset_role_grant ensure_role_wf preset_role_ensure)

lemma role_exact_seeded:
  assumes "roles_wf d"
  shows "role_exact n (base_ids n d) (base_system n d) ps (grant n ps (ensure_role n s False d))"
  using assms
  by (cases "preset_role n d")
    (auto simp: role_exact_def base_ids_def base_system_def preset_role_grant ensure_role_wf
      preset_role_ensure set_fold_add_permission)

lemma base_other:
  assumes "roles_wf d" "n \<noteq> m"
  shows "base_ids n (grant m ps (ensure_role m s b d)) = base_ids n d"
    "base_system n (grant m ps (ensure_role m s b d)) = base_system n d"
  using assms
  by (cases "preset_role n d";
      simp add: base_ids_def base_system_def preset_role_grant ensure_role_wf preset_role_ensure)+

lemma seed_role_mapping_exact_keeps:
  "roles_wf d \<Longrightarrow> role_exact n base sys ps d \<Longrightarrow> n \<notin> fst ` set m \<Longrightarrow>
    role_exact n base sys ps (seed_role_mapping m d)"
  by (induction m d rule: seed_role_mapping.induct)
    (auto simp: grant_wf ensure_role_wf role_exact_keeps)

lemma seed_role_mapping_exact:
  assumes "roles_wf d" "distinct (map fst m)" "(n, ps) \<in> set m"
  shows "role_exact n (base_ids n d) (base_system n d) ps (seed_role_mapping m d)"
  using assms
proof (induction m d rule: seed_role_mapping.induct)
  case (2 m qs rest d)
  let ?d = "grant m qs (ensure_role m (''Preset '' @ m @ '' role'') False d)"
  have w: "roles_wf ?d" using 2 by (simp add: grant_wf ensure_role_wf)
  show ?case
  proof (cases "n = m")
    case True
    with 2 have "ps = qs" "m \<notin> fst ` set rest" by (auto simp: image_iff)
    with True 2 w show ?thesis
      by (simp add: seed_role_mapping_exact_keeps role_exact_seeded)
  next
    case False
    with 2 w have "role_exact n (base_ids n ?d) (base_system n ?d) ps (seed_role_mapping rest ?d)"
      by simp
    with False 2(2) show ?thesis by (simp add: base_other)
  qed
qed simp

lemma seed_permission_mono: "set (permissions d) \<subseteq> set (permissions (seed_permission rt p d))"
  by (auto simp: seed_permission_def)

lemma seed_permission_list_mono:
  "set (permissions d) \<subseteq> set (permissions (seed_permission_list rt ps d))"
  by (induction ps arbitrary: d) (use seed_permission_mono in \<open>auto, blast\<close>)

lemma seed_permission_defs_mono:
  "set (permissions d) \<subseteq> set (permissions (seed_permission_defs defs d))"
  by (induction defs d rule: seed_permission_defs.induct) (use seed_permission_list_mono in \<open>auto, blast\<close>)

text \<open>Ids that were referenced before more permissions are seeded keep standing for the same names.\<close>

lemma names_of_old_ids:
  assumes "perms_wf e" "set (permissions d) \<subseteq> set (permissions e)"
    and "set (r_permissions r) \<subseteq> p_id ` set (permissions d)"
    and "set (r_permissions r') = set (r_permissions r) \<union> set (ids_of ps e)"
  shows "set (role_permission_names r' e) =
    set (role_permission_names r d) \<union> (set ps \<inter> p_name ` set (permissions e))"
proof -
  have inj: "q = p" if "q \<in> set (permissions e)" "p \<in> set (permissions e)" "p_id q = p_id p" for p q
    using assms(1) that by (intro distinct_keys_eq [of p_id "permissions e"]) (simp_all add: perms_wf_def)
  have old: "q \<in> set (permissions d)"
    if q: "q \<in> set (permissions e)" "p_id q \<in> set (r_permissions r)" for q
  proof -
    obtain p where p: "p \<in> set (permissions d)" "p_id q = p_id p" using assms(3) q(2) by force
    then have "q = p" using inj [OF q(1) _ p(2)] assms(2) by blast
    with p(1) show ?thesis by simp
  qed
  have "q \<in> set (permissions e) \<and> p_id q \<in> set (r_permissions r') \<longleftrightarrow>
      q \<in> set (permissions d) \<and> p_id q \<in> set (r_permissions r) \<or>
      q \<in> set (permissions e) \<and> p_name q \<in> set ps" for q
    using old assms(2,4) permission_id_name [OF assms(1), of q ps] by blast
  then show ?thesis by (auto simp: role_permission_names_def)
qed


text \<open>
  A database with a \<open>viewer\<close> role that was given one permission more: after seeding it holds the
  listed ones and keeps the extra one.
\<close>

definition extended_viewer_db :: db where
  "extended_viewer_db =
     empty_db\<lparr>permissions := [\<lparr>p_id = 1, p_name = ''vm:delete'', p_resource_type = ''vm'',
          p_action = ''vm_delete'', p_description = None\<rparr>],
        roles := [\<lparr>r_id = 1, r_name = ''viewer'', r_description = None, r_tenant_id = None,
          r_is_preset = True, r_is_system = False, r_permissions = [1]\<rparr>],
        seqs := (\<lambda>_. 2)\<rparr>"


lemma viewer_matches:
  "\<forall>g \<in> set [''vm:read'', ''vm:console'', ''network:read'', ''firewall:read'', ''ip:read'',
       ''wireguard:read'', ''tenant:read'', ''user:read''].
     \<forall>q \<in> set ALL_PERMISSIONS. permission_matches g q \<longleftrightarrow> g = q"
  by code_simp

end
