(* ===== verification/Tenant_Context.thy ===== *)
theory Tenant_Context
  imports Iam_Core
begin

text \<open>
  Who is calling and for which tenant: \<open>app/core/dependencies.py\<close> and \<open>verify_token\<close> of
  \<open>app/core/security.py\<close>.

  JWT decoding is library code: \<open>decode\<close> is a parameter that gives the claims of a token whose
  signature and expiry are valid, \<open>None\<close> for one that \<open>jwt.decode\<close> rejects. The blacklist
  lookup is a parameter too, because it may raise; \<open>Token_Blacklist.is_token_blacklisted\<close> is
  the code's. The main lemma is tenant isolation: every tenant that \<open>get_current_tenant\<close> returns
  is active and the caller is a super admin or belongs to it.
\<close>

section \<open>Client address\<close>

definition truthy :: "string option \<Rightarrow> bool" where
  "truthy s = (case s of None \<Rightarrow> False | Some v \<Rightarrow> v \<noteq> [])"

definition get_client_ip :: "request \<Rightarrow> string option" where
  "get_client_ip req =
     (case header req ''X-Forwarded-For'' of
        Some (c # cs) \<Rightarrow> (case map strip (split_on CHR '','' (c # cs)) of [] \<Rightarrow> None | ip # _ \<Rightarrow> Some ip)
      | _ \<Rightarrow>
        (case header req ''X-Real-IP'' of
           Some (c # cs) \<Rightarrow> Some (strip (c # cs))
         | _ \<Rightarrow> req_client_host req))"

section \<open>The current user\<close>

record claims =
  c_sub :: "string option"
  c_jti :: "string option"

definition credentials_exception :: py_exc where
  "credentials_exception = HTTPException 401 ''Could not validate credentials''"

definition verify_token ::
  "string \<Rightarrow> (string \<Rightarrow> claims option) \<Rightarrow> (string \<Rightarrow> py_exc + bool) \<Rightarrow> string \<Rightarrow> py_exc + claims" where
  "verify_token secret decode blacklisted token =
     (if secret = [] then Inl credentials_exception
      else case decode token of
        None \<Rightarrow> Inl credentials_exception
      | Some payload \<Rightarrow>
          (if c_sub payload = None then Inl credentials_exception
           else if truthy (c_jti payload) then
             (case blacklisted (the (c_jti payload)) of
                Inl e \<Rightarrow> Inl e
              | Inr b \<Rightarrow> (if b then Inl credentials_exception else Inr payload))
           else Inr payload))"

definition internal_error :: py_exc where
  "internal_error = HTTPException 500 ''Internal error validating user.''"

definition reraise_http :: "py_exc \<Rightarrow> py_exc" where
  "reraise_http e = (case e of HTTPException c m \<Rightarrow> HTTPException c m | _ \<Rightarrow> internal_error)"

definition get_current_user ::
  "string \<Rightarrow> (string \<Rightarrow> claims option) \<Rightarrow> (string \<Rightarrow> py_exc + bool) \<Rightarrow> string \<Rightarrow> db \<Rightarrow> py_exc + user" where
  "get_current_user secret decode blacklisted token d =
     (case verify_token secret decode blacklisted token of
        Inl e \<Rightarrow> Inl (reraise_http e)
      | Inr payload \<Rightarrow>
          (case c_sub payload of
             None \<Rightarrow> Inl credentials_exception
           | Some sub \<Rightarrow>
               (case py_int sub of
                  None \<Rightarrow> Inl internal_error
                | Some uid \<Rightarrow>
                    (case first_row (\<lambda>u. u_id u = uid) (users d) of
                       None \<Rightarrow> Inl (HTTPException 404 ''User not found'')
                     | Some u \<Rightarrow>
                         (if \<not> u_is_active u then Inl (HTTPException 403 ''User account is deactivated'')
                          else Inr u)))))"

section \<open>The current tenant\<close>

datatype tenant_ref = TenantId int | TenantSlug string

definition ref_truthy :: "tenant_ref option \<Rightarrow> bool" where
  "ref_truthy r = (case r of None \<Rightarrow> False | Some (TenantId i) \<Rightarrow> i \<noteq> 0 | Some (TenantSlug s) \<Rightarrow> s \<noteq> [])"

definition extract_tenant_from_request :: "request \<Rightarrow> tenant_ref option" where
  "extract_tenant_from_request req =
     (let by_host =
        (let host = header_or req ''host'' ''''
         in if CHR ''.'' \<in> set host then
              (let subdomain = hd (split_on CHR ''.'' host)
               in if subdomain \<notin> {''www'', ''api'', ''localhost''} then Some (TenantSlug subdomain) else None)
            else None)
      in if truthy (header req ''X-Tenant-ID'') then
           (case py_int (the (header req ''X-Tenant-ID'')) of
              Some i \<Rightarrow> Some (TenantId i)
            | None \<Rightarrow> by_host)
         else by_host)"

definition find_tenant :: "tenant_ref \<Rightarrow> db \<Rightarrow> tenant option" where
  "find_tenant r d =
     (case r of TenantId i \<Rightarrow> first_row (\<lambda>t. t_id t = i) (tenants d)
      | TenantSlug s \<Rightarrow> first_row (\<lambda>t. t_slug t = s) (tenants d))"

definition impersonated_tenant :: "request \<Rightarrow> db \<Rightarrow> tenant option" where
  "impersonated_tenant req d =
     (if truthy (header req ''X-Impersonate-Tenant-ID'') then
        (let v = the (header req ''X-Impersonate-Tenant-ID'')
         in case py_int v of Some i \<Rightarrow> find_tenant (TenantId i) d | None \<Rightarrow> find_tenant (TenantSlug v) d)
      else None)"

definition get_impersonation_context :: "request \<Rightarrow> user \<Rightarrow> db \<Rightarrow> string option" where
  "get_impersonation_context req u d =
     (if truthy (header req ''X-Impersonate-Tenant-ID'') \<and> is_super_admin u d
      then Some (u_username u) else None)"

definition user_tenant_ids :: "user \<Rightarrow> db \<Rightarrow> int option list" where
  "user_tenant_ids u d =
     remdups (map ur_tenant_id (filter (\<lambda>ur. ur_user_id ur = u_id u) (user_roles d))) @ [u_tenant_id u]"

definition home_tenant :: "user \<Rightarrow> db \<Rightarrow> tenant option" where
  "home_tenant u d =
     (case u_tenant_id u of
        None \<Rightarrow> None
      | Some i \<Rightarrow> if i = 0 then None else first_row (\<lambda>t. t_id t = i) (tenants d))"

definition get_current_tenant :: "request \<Rightarrow> user \<Rightarrow> db \<Rightarrow> py_exc + tenant" where
  "get_current_tenant req u d =
     (let tenant_id = extract_tenant_from_request req;
          fallback =
            (case home_tenant u d of
               Some t \<Rightarrow> (if t_is_active t then Inr t
                          else if \<not> ref_truthy tenant_id then Inl (HTTPException 400 ''Tenant not specified. Provide X-Tenant-ID header or access via tenant subdomain.'')
                          else Inl (HTTPException 404 ''Tenant not found''))
             | None \<Rightarrow> (if \<not> ref_truthy tenant_id then Inl (HTTPException 400 ''Tenant not specified. Provide X-Tenant-ID header or access via tenant subdomain.'')
                       else Inl (HTTPException 404 ''Tenant not found'')));
          normal =
            (if ref_truthy tenant_id then
               (case find_tenant (the tenant_id) d of
                  Some t \<Rightarrow>
                    (if t_is_active t then
                       (if is_super_admin u d then Inr t
                        else if Some (t_id t) \<notin> set (user_tenant_ids u d)
                          then Inl (HTTPException 403 ''You do not have access to this tenant'')
                        else Inr t)
                     else Inl (HTTPException 403 ''Tenant is inactive''))
                | None \<Rightarrow> fallback)
             else fallback)
      in case impersonated_tenant req d of
           Some t \<Rightarrow> (if t_is_active t \<and> is_super_admin u d then Inr t else normal)
         | None \<Rightarrow> normal)"

section \<open>Lemmas\<close>

definition member_of :: "user \<Rightarrow> tenant \<Rightarrow> db \<Rightarrow> bool" where
  "member_of u t d \<longleftrightarrow> u_tenant_id u = Some (t_id t) \<or>
     (\<exists>ur \<in> set (user_roles d). ur_user_id ur = u_id u \<and> ur_tenant_id ur = Some (t_id t))"

lemma set_user_tenant_ids: "Some (t_id t) \<in> set (user_tenant_ids u d) \<longleftrightarrow> member_of u t d"
  by (force simp: user_tenant_ids_def member_of_def)

lemma find_tenant_in: "find_tenant r d = Some t \<Longrightarrow> t \<in> set (tenants d)"
  by (auto simp: find_tenant_def split: tenant_ref.splits dest: first_row_Some)

lemma home_tenant_member: "home_tenant u d = Some t \<Longrightarrow> member_of u t d \<and> t \<in> set (tenants d)"
  by (auto simp: home_tenant_def member_of_def split: option.splits if_splits dest!: first_row_Some)

lemma impersonated_in: "impersonated_tenant req d = Some t \<Longrightarrow> t \<in> set (tenants d)"
  by (auto simp: impersonated_tenant_def Let_def split: option.splits if_splits dest: find_tenant_in)

text \<open>
  C1: tenant isolation at the door: whatever the headers and the host say, the tenant a request
  is served for is a row of the table, is active, and the user is a super admin, has a role in
  it, or has it as home tenant.
\<close>
theorem current_tenant_isolation:
  assumes "get_current_tenant req u d = Inr t"
  shows "t \<in> set (tenants d) \<and> t_is_active t \<and> (is_super_admin u d \<or> member_of u t d)"
  using assms
  by (auto simp: get_current_tenant_def Let_def set_user_tenant_ids
      split: option.splits if_splits dest: find_tenant_in home_tenant_member impersonated_in)

definition demo_db :: db where
  "demo_db = empty_db\<lparr>users := [new_user 1 ''ann'' ''ann@x.io'' ''h'' None (Some 1)],
     tenants := [new_tenant 1 ''One'' ''one'', new_tenant 2 ''Two'' ''two'', new_tenant 3 ''Three'' ''three''],
     user_roles := [\<lparr>ur_id = 1, ur_user_id = 1, ur_tenant_id = Some 2, ur_role_id = 5, ur_granted_by = None\<rparr>]\<rparr>"

lemma current_tenant_isolation_witness:
  "let u = new_user 1 ''ann'' ''ann@x.io'' ''h'' None (Some 1); t = new_tenant 2 ''Two'' ''two''
   in t \<in> set (tenants demo_db) \<and> t_is_active t \<and> (is_super_admin u demo_db \<or> member_of u t demo_db)"
proof -
  have "get_current_tenant (plain_request [(''x-tenant-id'', ''2'')] 0)
      (new_user 1 ''ann'' ''ann@x.io'' ''h'' None (Some 1)) demo_db = Inr (new_tenant 2 ''Two'' ''two'')"
    by code_simp
  from current_tenant_isolation [OF this] show ?thesis by (simp add: Let_def)
qed

text \<open>
  Impersonation: a user who is not a super admin gets the same answer with and without the
  impersonation header.
\<close>
theorem impersonation_ignored:
  assumes "\<not> is_super_admin u d"
    and "\<And>h. h \<noteq> ''x-impersonate-tenant-id'' \<Longrightarrow> req_headers req' h = req_headers req h"
  shows "get_current_tenant req' u d = get_current_tenant req u d \<and>
    get_impersonation_context req' u d = None"
proof -
  have "extract_tenant_from_request req' = extract_tenant_from_request req"
    using assms(2) by (simp add: extract_tenant_from_request_def header_def header_or_def lower_def
        lower_char_def Let_def)
  with assms(1) show ?thesis
    by (simp add: get_current_tenant_def Let_def get_impersonation_context_def split: option.splits)
qed

lemma impersonation_ignored_witness:
  "get_current_tenant (plain_request [(''x-impersonate-tenant-id'', ''3''), (''x-tenant-id'', ''2'')] 0)
      (new_user 1 ''ann'' ''ann@x.io'' ''h'' None (Some 1)) demo_db =
    get_current_tenant (plain_request [(''x-tenant-id'', ''2'')] 0)
      (new_user 1 ''ann'' ''ann@x.io'' ''h'' None (Some 1)) demo_db \<and>
    get_impersonation_context (plain_request [(''x-impersonate-tenant-id'', ''3''), (''x-tenant-id'', ''2'')] 0)
      (new_user 1 ''ann'' ''ann@x.io'' ''h'' None (Some 1)) demo_db = None"
proof (rule impersonation_ignored)
  show "\<not> is_super_admin (new_user 1 ''ann'' ''ann@x.io'' ''h'' None (Some 1)) demo_db" by code_simp
qed (simp add: plain_request_def)

end
