(* ===== verification/Audit_Trail.thy ===== *)
theory Audit_Trail
  imports Data_Model
begin

text \<open>
  The audit trail (\<open>app/core/audit.py\<close>, \<open>app/models/audit_log.py\<close>).

  \<open>log_audit_event\<close> adds one row and commits. The columns of the table are bounded
  (\<open>String(50)\<close>, \<open>String(255)\<close>, \<open>String(36)\<close>, \<open>String(45)\<close>); PostgreSQL refuses a longer
  value, the function catches the error, rolls back and returns \<open>None\<close>, and the caller goes on
  without an entry. \<open>audit_fits\<close> is that bound; the committed state \<open>d\<close> is what remains.
\<close>

definition AUDIT_ACTIONS :: "(string \<times> string) list" where
  "AUDIT_ACTIONS =
    [(''ROLE_CHANGE'', ''role_change''), (''USER_CREATE'', ''user_create''),
     (''USER_DELETE'', ''user_delete''), (''USER_STATUS_CHANGE'', ''user_status_change''),
     (''USER_PROFILE_UPDATE'', ''user_profile_update''),
     (''PASSWORD_CHANGE'', ''password_change''), (''VM_CREATE'', ''vm_create''),
     (''VM_START'', ''vm_start''), (''VM_STOP'', ''vm_stop''), (''VM_RESTART'', ''vm_restart''),
     (''VM_DELETE'', ''vm_delete''), (''VM_STATUS_OVERRIDE'', ''vm_status_override''),
     (''VM_SNAPSHOT_CREATE'', ''vm_snapshot_create''),
     (''VM_SNAPSHOT_RESTORE'', ''vm_snapshot_restore''),
     (''VM_SNAPSHOT_DELETE'', ''vm_snapshot_delete''), (''VM_DISK_RESIZE'', ''disk.resize''),
     (''NETWORK_CREATE'', ''network_create''), (''NETWORK_DELETE'', ''network_delete''),
     (''LOGIN'', ''login''), (''LOGOUT'', ''logout''), (''LOGIN_FAILED'', ''login_failed''),
     (''ADMIN_ACTION'', ''admin_action''), (''RECONCILE'', ''reconcile''),
     (''FIREWALL_RULE_CREATE'', ''firewall_rule_create''),
     (''FIREWALL_RULE_UPDATE'', ''firewall_rule_update''),
     (''FIREWALL_RULE_DELETE'', ''firewall_rule_delete''),
     (''FIREWALL_RULE_APPLY'', ''firewall_rule_apply''),
     (''OPNSENSE_FIREWALL_SYNC'', ''opnsense_firewall_sync''),
     (''FIREWALL_PROVIDER_SWITCH'', ''firewall_provider_switch''),
     (''INVITE_CREATE'', ''invite_create''), (''INVITE_ACCEPT'', ''invite_accept''),
     (''INVITE_REVOKE'', ''invite_revoke''), (''TENANT_CREATE'', ''tenant_create''),
     (''TENANT_UPDATE'', ''tenant_update''), (''TENANT_DELETE'', ''tenant_delete''),
     (''TENANT_APPROVED'', ''tenant_approved''), (''TENANT_PROVISIONED'', ''tenant_provisioned''),
     (''WAN_IP_ASSIGNED'', ''wan_ip_assigned''), (''WAN_IP_CHANGED'', ''wan_ip_changed''),
     (''VM_UPDATE'', ''vm_update''), (''IMPERSONATION_START'', ''impersonation_start''),
     (''IMPERSONATION_END'', ''impersonation_end''), (''IMAGE_REGISTER'', ''image_register''),
     (''IMAGE_UPDATE'', ''image_update''), (''IMAGE_DELETE'', ''image_delete''),
     (''IMAGE_ASSIGN'', ''image_assign''), (''IMAGE_UNASSIGN'', ''image_unassign''),
     (''IMAGE_BUILD_START'', ''image_build_start''),
     (''IMAGE_BUILD_COMPLETE'', ''image_build_complete''),
     (''IMAGE_BUILD_CANCEL'', ''image_build_cancel''),
     (''IMAGE_BUILD_ERROR'', ''image_build_error''),
     (''WIREGUARD_TUNNEL_CREATE'', ''wireguard_tunnel_create''),
     (''WIREGUARD_TUNNEL_UPDATE'', ''wireguard_tunnel_update''),
     (''WIREGUARD_TUNNEL_DELETE'', ''wireguard_tunnel_delete''),
     (''WIREGUARD_PEER_CREATE'', ''wireguard_peer_create''),
     (''WIREGUARD_PEER_UPDATE'', ''wireguard_peer_update''),
     (''WIREGUARD_PEER_DELETE'', ''wireguard_peer_delete''),
     (''WIREGUARD_RECONFIGURE'', ''wireguard_reconfigure''),
     (''WIREGUARD_PROVISION_ERROR'', ''wireguard_provision_error'')]"

definition audit_action :: "string \<Rightarrow> string" where
  "audit_action k = (case map_of AUDIT_ACTIONS k of Some a \<Rightarrow> a | None \<Rightarrow> ''admin_action'')"

definition opt_fits :: "nat \<Rightarrow> string option \<Rightarrow> bool" where
  "opt_fits n s = (case s of None \<Rightarrow> True | Some v \<Rightarrow> length v \<le> n)"

definition audit_fits :: "audit_entry \<Rightarrow> bool" where
  "audit_fits a \<longleftrightarrow>
     length (a_actor_username a) \<le> 50 \<and> length (a_action a) \<le> 50 \<and> length (a_target_type a) \<le> 50 \<and>
     opt_fits 255 (a_target_name a) \<and> opt_fits 36 (a_request_id a) \<and> opt_fits 45 (a_ip_address a)"

definition final_details :: "string option \<Rightarrow> string option \<Rightarrow> string option" where
  "final_details impersonated_by details =
     (case impersonated_by of
        Some (c # cs) \<Rightarrow>
          (let prefix = ''impersonated_by='' @ (c # cs)
           in case details of Some (e # es) \<Rightarrow> Some (prefix @ '', '' @ (e # es)) | _ \<Rightarrow> Some prefix)
      | _ \<Rightarrow> details)"

definition final_actor :: "int option \<Rightarrow> string \<Rightarrow> string" where
  "final_actor actor_id actor_username =
     (let n = (if actor_id = None \<and> (actor_username = [] \<or> actor_username = ''unknown'')
               then ''system'' else actor_username)
      in if n = [] then ''unknown'' else n)"

definition log_audit_event :: "audit_entry \<Rightarrow> string option \<Rightarrow> db \<Rightarrow> db" where
  "log_audit_event a impersonated_by d =
     (let row = a\<lparr>a_actor_username := final_actor (a_actor_id a) (a_actor_username a),
                  a_details := final_details impersonated_by (a_details a)\<rparr>
      in if audit_fits row then d\<lparr>audit_log := audit_log d @ [row]\<rparr> else d)"

text \<open>An event with the actor and target every handler gives and nothing else yet.\<close>

definition audit_event :: "string \<Rightarrow> string \<Rightarrow> user \<Rightarrow> audit_entry" where
  "audit_event action target_type actor =
     \<lparr>a_actor_id = Some (u_id actor), a_actor_username = u_username actor, a_action = action,
      a_target_type = target_type, a_target_id = None, a_target_name = None, a_old_value = None,
      a_new_value = None, a_details = None, a_request_id = None, a_ip_address = None,
      a_tenant_id = None\<rparr>"

lemma log_audit_event_frame [row_simps, simp]:
  "users (log_audit_event a b d) = users d" "tenants (log_audit_event a b d) = tenants d"
  "vms (log_audit_event a b d) = vms d" "pods (log_audit_event a b d) = pods d"
  "ip_pool (log_audit_event a b d) = ip_pool d" "vlans (log_audit_event a b d) = vlans d"
  "networks (log_audit_event a b d) = networks d" "bridges (log_audit_event a b d) = bridges d"
  "roles (log_audit_event a b d) = roles d" "user_roles (log_audit_event a b d) = user_roles d"
  "permissions (log_audit_event a b d) = permissions d"
  "invitations (log_audit_event a b d) = invitations d"
  "wg_pool (log_audit_event a b d) = wg_pool d" "wg_tunnels (log_audit_event a b d) = wg_tunnels d"
  "wg_peers (log_audit_event a b d) = wg_peers d" "seqs (log_audit_event a b d) = seqs d"
  "queue (log_audit_event a b d) = queue d" "snapshots (log_audit_event a b d) = snapshots d"
  "fw_rules (log_audit_event a b d) = fw_rules d"
  by (simp_all add: log_audit_event_def Let_def)

lemma log_audit_event_too_long:
  "a_request_id a = Some r \<Longrightarrow> 36 < length r \<Longrightarrow> log_audit_event a b d = d"
  by (simp add: log_audit_event_def Let_def audit_fits_def opt_fits_def)

lemma audit_log_append: "\<exists>es. audit_log (log_audit_event a b d) = audit_log d @ es"
  by (simp add: log_audit_event_def Let_def)

end
