(* ===== verification/Iam_Api.thy ===== *)
theory Iam_Api
  imports Iam_Seed Tenant_Context Audit_Trail
begin

text \<open>
  The IAM endpoints (\<open>app/api/iam.py\<close>): custom roles, role assignments, removal of users, and
  invitations. Each endpoint is a function of the caller, the request and the database; it
  returns the response or the exception, and the committed database. \<open>IntegrityError\<close> stands for
  the refusal of a row by a constraint of the table (length, foreign key, uniqueness); FastAPI
  answers it with status 500 and the session is rolled back.
\<close>

section \<open>Requests and responses\<close>

record role_create =
  rc_name :: string
  rc_description :: "string option"
  rc_permission_ids :: "int list option"

record role_update =
  rup_name :: "string option"
  rup_description :: "string option"
  rup_permission_ids :: "int list option"

record user_with_role =
  uw_id :: int
  uw_username :: string
  uw_email :: string
  uw_full_name :: "string option"
  uw_is_active :: bool
  uw_role_id :: "int option"
  uw_role_name :: "string option"
  uw_granted_by :: "int option"

record user_with_roles =
  uws_id :: int
  uws_username :: string
  uws_email :: string
  uws_full_name :: "string option"
  uws_is_active :: bool
  uws_roles :: "string list"

section \<open>Shared pieces\<close>

definition forbidden_tenant :: "user \<Rightarrow> int \<Rightarrow> db \<Rightarrow> bool" where
  "forbidden_tenant cu tid d \<longleftrightarrow> \<not> is_super_admin cu d \<and> u_tenant_id cu \<noteq> Some tid"

definition with_request :: "request \<Rightarrow> int option \<Rightarrow> audit_entry \<Rightarrow> audit_entry" where
  "with_request req tid a =
     a\<lparr>a_request_id := Some (header_or req ''X-Request-ID'' ''unknown''),
       a_ip_address := get_client_ip req, a_tenant_id := tid\<rparr>"

definition role_row_fits :: "role \<Rightarrow> bool" where
  "role_row_fits r \<longleftrightarrow> length (r_name r) \<le> 50 \<and> opt_fits 255 (r_description r)"

definition selected_permissions :: "int list \<Rightarrow> db \<Rightarrow> int list" where
  "selected_permissions ids d = map p_id (filter (\<lambda>p. p_id p \<in> set ids) (permissions d))"

definition role_summary :: "role \<Rightarrow> db \<Rightarrow> string" where
  "role_summary r d = ''description='' @ show_opt id (r_description r) @
     '', permissions='' @ show_list (role_permission_names r d)"

definition page :: "int \<Rightarrow> int \<Rightarrow> 'a list \<Rightarrow> py_exc + 'a list" where
  "page skip limit xs =
     (if skip < 0 \<or> limit < 0 then Inl (IntegrityError ''OFFSET or LIMIT must not be negative'')
      else Inr (take (nat limit) (drop (nat skip) xs)))"

section \<open>Roles\<close>

definition list_tenant_roles :: "user \<Rightarrow> int \<Rightarrow> db \<Rightarrow> (role list, db) result" where
  "list_tenant_roles cu tid d =
     (if forbidden_tenant cu tid d then http 403 ''Access denied'' d
      else ok (filter (\<lambda>r. r_tenant_id r = Some tid \<or> r_tenant_id r = None) (roles d)) d)"

definition create_role :: "user \<Rightarrow> request \<Rightarrow> int \<Rightarrow> role_create \<Rightarrow> db \<Rightarrow> (role, db) result" where
  "create_role cu req tid rd d =
     (if forbidden_tenant cu tid d then http 403 ''Access denied'' d
      else if \<not> is_tenant_admin cu tid d then http 403 ''Tenant admin access required'' d
      else if \<exists>r \<in> set (roles d). r_name r = rc_name rd \<and> r_tenant_id r = Some tid
        then http 400 ''Role with this name already exists'' d
      else
        (let r = \<lparr>r_id = next_id TRoles d, r_name = rc_name rd, r_description = rc_description rd,
                  r_tenant_id = Some tid, r_is_preset = False, r_is_system = False,
                  r_permissions = (case rc_permission_ids rd of None \<Rightarrow> []
                     | Some ids \<Rightarrow> if ids = [] then [] else selected_permissions ids d)\<rparr>
         in if \<not> role_row_fits r \<or> tid \<notin> t_id ` set (tenants d)
            then raise (IntegrityError ''iam_roles'') d
            else
              (let d1 = bump_seq TRoles (d\<lparr>roles := roles d @ [r]\<rparr>)
               in ok r (log_audit_event (with_request req (Some tid)
                    ((audit_event (audit_action ''ROLE_CHANGE'') ''role'' cu)
                       \<lparr>a_target_id := Some (r_id r), a_target_name := Some (r_name r),
                        a_new_value := Some (role_summary r d1)\<rparr>)) None d1))))"

definition updated_role :: "role_update \<Rightarrow> role \<Rightarrow> db \<Rightarrow> role" where
  "updated_role rd r d =
     r\<lparr>r_name := (case rup_name rd of None \<Rightarrow> r_name r | Some n \<Rightarrow> n),
       r_description := (case rup_description rd of None \<Rightarrow> r_description r | Some x \<Rightarrow> Some x),
       r_permissions := (case rup_permission_ids rd of None \<Rightarrow> r_permissions r
          | Some ids \<Rightarrow> selected_permissions ids d)\<rparr>"

definition role_name_taken :: "role \<Rightarrow> db \<Rightarrow> bool" where
  "role_name_taken r d \<longleftrightarrow> r_tenant_id r \<noteq> None \<and>
     (\<exists>q \<in> set (roles d). r_id q \<noteq> r_id r \<and> r_name q = r_name r \<and> r_tenant_id q = r_tenant_id r)"

definition update_role ::
  "user \<Rightarrow> request \<Rightarrow> int \<Rightarrow> int \<Rightarrow> role_update \<Rightarrow> db \<Rightarrow> (role, db) result" where
  "update_role cu req tid rid rd d =
     (if \<not> is_tenant_admin cu tid d \<and> \<not> is_super_admin cu d
        then http 403 ''Tenant admin access required'' d
      else case find_role rid d of
        None \<Rightarrow> http 404 ''Role not found'' d
      | Some r \<Rightarrow>
          (if r_is_preset r then http 400 ''Cannot modify preset roles'' d
           else
             (let r' = updated_role rd r d
              in if \<not> role_row_fits r' \<or> role_name_taken r' d then raise (IntegrityError ''iam_roles'') d
                 else
                   (let d1 = d\<lparr>roles := upd_rows r_id rid (\<lambda>_. r') (roles d)\<rparr>
                    in ok r' (log_audit_event (with_request req (Some tid)
                         ((audit_event (audit_action ''ROLE_CHANGE'') ''role'' cu)
                            \<lparr>a_target_id := Some (r_id r'), a_target_name := Some (r_name r'),
                             a_new_value := Some (role_summary r' d1)\<rparr>)) None d1)))))"

definition delete_role :: "user \<Rightarrow> request \<Rightarrow> int \<Rightarrow> int \<Rightarrow> db \<Rightarrow> (unit, db) result" where
  "delete_role cu req tid rid d =
     (if \<not> is_tenant_admin cu tid d \<and> \<not> is_super_admin cu d
        then http 403 ''Tenant admin access required'' d
      else case find_role rid d of
        None \<Rightarrow> http 404 ''Role not found'' d
      | Some r \<Rightarrow>
          (if r_is_preset r then http 400 ''Cannot delete preset roles'' d
           else if \<exists>ur \<in> set (user_roles d). ur_role_id ur = rid
             then http 400 ''Cannot delete role that is assigned to users'' d
           else
             (let d1 = d\<lparr>roles := del_rows r_id rid (roles d),
                         invitations := map (\<lambda>i. if inv_role_id i = Some rid then i\<lparr>inv_role_id := None\<rparr> else i)
                           (invitations d)\<rparr>
              in ok () (log_audit_event (with_request req (Some tid)
                   ((audit_event (audit_action ''ROLE_CHANGE'') ''role'' cu)
                      \<lparr>a_target_id := Some rid, a_target_name := Some (r_name r),
                       a_old_value := Some (''name='' @ r_name r @ '',description='' @
                         show_opt id (r_description r))\<rparr>)) None d1))))"

section \<open>Users of a tenant\<close>

definition joined_user_roles :: "int \<Rightarrow> db \<Rightarrow> (user_role \<times> user \<times> role) list" where
  "joined_user_roles tid d =
     List.map_filter (\<lambda>ur.
         (case (first_row (\<lambda>u. u_id u = ur_user_id ur) (users d), find_role (ur_role_id ur) d) of
            (Some u, Some r) \<Rightarrow> Some (ur, u, r) | _ \<Rightarrow> None))
       (filter (\<lambda>ur. ur_tenant_id ur = Some tid) (user_roles d))"

definition list_tenant_users ::
  "user \<Rightarrow> int \<Rightarrow> int \<Rightarrow> int \<Rightarrow> bool \<Rightarrow> db \<Rightarrow> (user_with_role list \<times> int, db) result" where
  "list_tenant_users cu tid skip limit include_roles d =
     (if forbidden_tenant cu tid d then http 403 ''Access denied'' d
      else if \<not> is_tenant_admin cu tid d then http 403 ''Only tenant admins can view users'' d
      else if include_roles then
        (let rows = joined_user_roles tid d
         in case page skip limit (sort_key (\<lambda>(ur, u, r). u_id u) rows) of
              Inl e \<Rightarrow> raise e d
            | Inr ps \<Rightarrow> ok (map (\<lambda>(ur, u, r).
                 \<lparr>uw_id = u_id u, uw_username = u_username u, uw_email = u_email u,
                  uw_full_name = u_full_name u, uw_is_active = u_is_active u,
                  uw_role_id = Some (r_id r), uw_role_name = Some (r_name r),
                  uw_granted_by = ur_granted_by ur\<rparr>) ps, int (length rows)) d)
      else
        (let ids = map u_id (filter (\<lambda>u. u_tenant_id u = Some tid) (users d)) @
                   remdups (map ur_user_id (filter (\<lambda>ur. ur_tenant_id ur = Some tid) (user_roles d)));
             us = filter (\<lambda>u. u_id u \<in> set ids) (users d)
         in case page skip limit (sort_key u_id us) of
              Inl e \<Rightarrow> raise e d
            | Inr ps \<Rightarrow> ok (map (\<lambda>u.
                 \<lparr>uw_id = u_id u, uw_username = u_username u, uw_email = u_email u,
                  uw_full_name = u_full_name u, uw_is_active = u_is_active u,
                  uw_role_id = None, uw_role_name = None, uw_granted_by = None\<rparr>) ps,
                int (length (remdups ids))) d))"

definition delete_tenant_user :: "user \<Rightarrow> request \<Rightarrow> int \<Rightarrow> int \<Rightarrow> db \<Rightarrow> (unit, db) result" where
  "delete_tenant_user cu req tid uid d =
     (if \<not> is_tenant_admin cu tid d \<and> \<not> is_super_admin cu d
        then http 403 ''Tenant admin access required'' d
      else case first_row (\<lambda>u. u_id u = uid) (users d) of
        None \<Rightarrow> http 404 ''User not found'' d
      | Some u \<Rightarrow>
          (let d1 = d\<lparr>user_roles := filter (\<lambda>ur. \<not> (ur_user_id ur = uid \<and> ur_tenant_id ur = Some tid))
                        (user_roles d)\<rparr>
           in ok () (log_audit_event (with_request req (Some tid)
                ((audit_event (audit_action ''USER_DELETE'') ''user'' cu)
                   \<lparr>a_target_id := Some uid, a_target_name := Some (u_username u),
                    a_old_value := Some (''email='' @ u_email u @ '',tenant_id='' @ show_int tid),
                    a_details := Some (''User removed from tenant '' @ show_int tid)\<rparr>)) None d1)))"

definition list_tenant_user_roles :: "user \<Rightarrow> int \<Rightarrow> db \<Rightarrow> (user_with_roles list, db) result" where
  "list_tenant_user_roles cu tid d =
     (if forbidden_tenant cu tid d then http 403 ''Access denied'' d
      else if first_row (\<lambda>t. t_id t = tid) (tenants d) = None then http 404 ''Tenant not found'' d
      else
        (let rows = joined_user_roles tid d;
             ids = rev (remdups (rev (map (\<lambda>(ur, u, r). u_id u) rows)));
             entry = (\<lambda>i. case List.find (\<lambda>(ur, u, r). u_id u = i) rows of
                None \<Rightarrow> None
              | Some (ur, u, r) \<Rightarrow> Some
                 \<lparr>uws_id = u_id u, uws_username = u_username u, uws_email = u_email u,
                  uws_full_name = u_full_name u, uws_is_active = u_is_active u,
                  uws_roles = map (\<lambda>(ur, u, r). r_name r) (filter (\<lambda>(ur, u, r). u_id u = i) rows)\<rparr>)
         in ok (List.map_filter entry ids) d))"

definition assign_role ::
  "user \<Rightarrow> request \<Rightarrow> int \<Rightarrow> int \<Rightarrow> int option \<Rightarrow> db \<Rightarrow> (user_role, db) result" where
  "assign_role cu req tid uid role_id d =
     (if \<not> is_tenant_admin cu tid d \<and> \<not> is_super_admin cu d
        then http 403 ''Tenant admin access required'' d
      else if role_id = None \<or> role_id = Some 0 then http 400 ''role_id is required'' d
      else case find_role (the role_id) d of
        None \<Rightarrow> http 404 ''Role not found'' d
      | Some r \<Rightarrow>
          (case first_row (\<lambda>u. u_id u = uid) (users d) of
             None \<Rightarrow> http 404 ''User not found'' d
           | Some u \<Rightarrow>
               (if \<exists>ur \<in> set (user_roles d). ur_user_id ur = uid \<and> ur_tenant_id ur = Some tid \<and>
                     ur_role_id ur = the role_id
                then http 400 ''User already has this role'' d
                else if tid \<notin> t_id ` set (tenants d) then raise (IntegrityError ''user_roles'') d
                else
                  (let d1 = add_user_role uid (Some tid) (the role_id) (Some (u_id cu)) d;
                       ur = \<lparr>ur_id = next_id TUserRoles d, ur_user_id = uid, ur_tenant_id = Some tid,
                             ur_role_id = the role_id, ur_granted_by = Some (u_id cu)\<rparr>
                   in ok ur (log_audit_event (with_request req (Some tid)
                        ((audit_event (audit_action ''ROLE_CHANGE'') ''user_role'' cu)
                           \<lparr>a_target_id := Some uid, a_target_name := Some (u_username u),
                            a_new_value := Some (''role='' @ r_name r @ '',tenant_id='' @ show_int tid),
                            a_details := Some (''Role '' @ r_name r @ '' assigned to user '' @ u_username u)\<rparr>))
                        None d1)))))"

definition remove_role :: "user \<Rightarrow> request \<Rightarrow> int \<Rightarrow> int \<Rightarrow> int \<Rightarrow> db \<Rightarrow> (unit, db) result" where
  "remove_role cu req tid uid rid d =
     (if forbidden_tenant cu tid d then http 403 ''Access denied'' d
      else if \<not> is_tenant_admin cu tid d then http 403 ''Tenant admin access required'' d
      else case first_row (\<lambda>ur. ur_user_id ur = uid \<and> ur_tenant_id ur = Some tid \<and> ur_role_id ur = rid)
              (user_roles d) of
        None \<Rightarrow> http 404 ''User role not found'' d
      | Some ur \<Rightarrow>
          (let role_text = (case find_role rid d of Some r \<Rightarrow> r_name r | None \<Rightarrow> show_int rid);
               user_text = (case first_row (\<lambda>u. u_id u = uid) (users d) of
                  Some u \<Rightarrow> u_username u | None \<Rightarrow> show_int uid);
               d1 = d\<lparr>user_roles := del_rows ur_id (ur_id ur) (user_roles d)\<rparr>
           in ok () (log_audit_event (with_request req (Some tid)
                ((audit_event (audit_action ''ROLE_CHANGE'') ''user_role'' cu)
                   \<lparr>a_target_id := Some uid, a_target_name := Some user_text,
                    a_old_value := Some (''role='' @ role_text @ '',tenant_id='' @ show_int tid),
                    a_details := Some (''Role '' @ role_text @ '' removed from user '' @ user_text)\<rparr>))
                None d1)))"

end
