(* ===== verification/Invitations.thy ===== *)
theory Invitations
  imports Iam_Api
begin

text \<open>
  Invitations: the tenant-scoped endpoints of \<open>app/api/iam.py\<close> that create, list and revoke
  them, and the public endpoints of \<open>app/api/invitations.py\<close> that show and accept one.
  Password hashing is library code and a parameter (\<open>hash\<close>). Times are microseconds.
\<close>

section \<open>Creating and revoking (api/iam.py)\<close>

definition seven_days :: int where
  "seven_days = 7 * 24 * 3600 * 1000000"

definition request_id :: "request \<Rightarrow> string" where
  "request_id req = header_or req ''X-Request-ID'' (req_fallback_id req)"

definition list_tenant_invitations ::
  "user \<Rightarrow> int \<Rightarrow> int \<Rightarrow> int \<Rightarrow> db \<Rightarrow> (invitation list \<times> int, db) result" where
  "list_tenant_invitations cu tid skip limit d =
     (if forbidden_tenant cu tid d then http 403 ''Access denied'' d
      else if \<not> is_tenant_admin cu tid d then http 403 ''Only tenant admins can view invitations'' d
      else
        (let rows = filter (\<lambda>i. inv_tenant_id i = tid \<and> \<not> inv_is_used i) (invitations d)
         in case page skip limit (sort_key (\<lambda>i. - inv_created_at i) rows) of
              Inl e \<Rightarrow> raise e d
            | Inr ps \<Rightarrow> ok (ps, int (length rows)) d))"

text \<open>The role of an invitation: its name for the log, or the reason it may not be offered.\<close>

definition invitation_role :: "int option \<Rightarrow> db \<Rightarrow> py_exc + string" where
  "invitation_role role_id d =
     (if \<not> truthy_id role_id then Inr ''Viewer''
      else case find_role (the role_id) d of
        None \<Rightarrow> Inl (HTTPException 400 ''Invalid role specified'')
      | Some r \<Rightarrow>
          (if r_is_system r then Inl (HTTPException 400 ''Cannot invite users with system role'')
           else Inr (r_name r)))"

definition pending_invitation :: "string \<Rightarrow> int \<Rightarrow> db \<Rightarrow> bool" where
  "pending_invitation email tid d \<longleftrightarrow>
     (\<exists>i \<in> set (invitations d). inv_email i = email \<and> inv_tenant_id i = tid \<and> \<not> inv_is_used i)"

definition store_invitation ::
  "user \<Rightarrow> request \<Rightarrow> tenant option \<Rightarrow> int \<Rightarrow> string \<Rightarrow> int option \<Rightarrow> string \<Rightarrow> db \<Rightarrow> (invitation, db) result" where
  "store_invitation cu req ct tid email role_id note d =
     (let i = \<lparr>inv_id = next_id TInvitations d, inv_email = email, inv_tenant_id = tid,
               inv_role_id = role_id, inv_token = req_token req, inv_invited_by = Some (u_id cu),
               inv_is_used = False, inv_expires_at = req_now req + seven_days,
               inv_created_at = req_now req\<rparr>
      in if length email > 100 \<or> req_token req \<in> inv_token ` set (invitations d) \<or>
            (role_id \<noteq> None \<and> the role_id \<notin> r_id ` set (roles d))
         then raise (IntegrityError ''invitations'') d
         else ok i (log_audit_event
                ((audit_event (audit_action ''INVITE_CREATE'') ''invitation'' cu)
                   \<lparr>a_details := Some note, a_request_id := Some (request_id req),
                    a_tenant_id := map_option t_id ct\<rparr>) None
                (bump_seq TInvitations (d\<lparr>invitations := invitations d @ [i]\<rparr>))))"

definition create_tenant_invitation ::
  "user \<Rightarrow> request \<Rightarrow> tenant option \<Rightarrow> int \<Rightarrow> string \<Rightarrow> int option \<Rightarrow> db \<Rightarrow> (invitation, db) result" where
  "create_tenant_invitation cu req ct tid email role_id d =
     (if forbidden_tenant cu tid d then http 403 ''Access denied'' d
      else if \<not> is_tenant_admin cu tid d then http 403 ''Only tenant admins can invite users'' d
      else case first_row (\<lambda>t. t_id t = tid) (tenants d) of
        None \<Rightarrow> http 404 ''Tenant not found'' d
      | Some t \<Rightarrow>
          (case first_row (\<lambda>u. u_email u = email) (users d) of
             Some u \<Rightarrow>
               (if u_tenant_id u = Some tid
                  then http 400 ''User with this email already exists in this tenant'' d
                else case invitation_role role_id d of
                  Inl e \<Rightarrow> raise e d
                | Inr role_name \<Rightarrow>
                    (if pending_invitation email tid d
                       then http 400 ''Pending invitation already exists for this email'' d
                     else store_invitation cu req ct tid email role_id
                       (''Invited existing user '' @ email @ '' to tenant '' @ t_name t @ '' as '' @ role_name) d))
           | None \<Rightarrow>
               (if pending_invitation email tid d
                  then http 400 ''Pending invitation already exists for this email'' d
                else case invitation_role role_id d of
                  Inl e \<Rightarrow> raise e d
                | Inr role_name \<Rightarrow>
                    store_invitation cu req ct tid email role_id
                      (''Invited '' @ email @ '' to tenant '' @ t_name t @ '' as '' @ role_name) d)))"

definition delete_tenant_invitation ::
  "user \<Rightarrow> request \<Rightarrow> tenant option \<Rightarrow> int \<Rightarrow> int \<Rightarrow> db \<Rightarrow> (unit, db) result" where
  "delete_tenant_invitation cu req ct tid iid d =
     (if forbidden_tenant cu tid d then http 403 ''Access denied'' d
      else if \<not> is_tenant_admin cu tid d then http 403 ''Only tenant admins can delete invitations'' d
      else case first_row (\<lambda>i. inv_id i = iid \<and> inv_tenant_id i = tid) (invitations d) of
        None \<Rightarrow> http 404 ''Invitation not found'' d
      | Some i \<Rightarrow>
          (let d1 = log_audit_event
                ((audit_event (audit_action ''INVITE_REVOKE'') ''invitation'' cu)
                   \<lparr>a_details := Some (''Revoked invitation for '' @ inv_email i),
                    a_request_id := Some (request_id req), a_tenant_id := map_option t_id ct\<rparr>) None d
           in ok () (d1\<lparr>invitations := del_rows inv_id iid (invitations d1)\<rparr>)))"

section \<open>Showing and accepting (api/invitations.py)\<close>

record invitation_view =
  iv_email :: string
  iv_tenant_name :: "string option"
  iv_tenant_id :: int
  iv_role_id :: "int option"
  iv_role_name :: string
  iv_expires_at :: int
  iv_is_existing_user :: bool

definition open_invitation :: "string \<Rightarrow> db \<Rightarrow> invitation option" where
  "open_invitation token d = first_row (\<lambda>i. inv_token i = token \<and> \<not> inv_is_used i) (invitations d)"

definition validate_invitation :: "string \<Rightarrow> request \<Rightarrow> db \<Rightarrow> (invitation_view, db) result" where
  "validate_invitation token req d =
     (case open_invitation token d of
        None \<Rightarrow> http 404 ''Invalid invitation token'' d
      | Some i \<Rightarrow>
          (if inv_expires_at i < req_now req then http 400 ''Invitation has expired'' d
           else
             (let r = (if truthy_id (inv_role_id i) then find_role (the (inv_role_id i)) d else None)
              in ok \<lparr>iv_email = inv_email i,
                     iv_tenant_name = map_option t_name (first_row (\<lambda>t. t_id t = inv_tenant_id i) (tenants d)),
                     iv_tenant_id = inv_tenant_id i, iv_role_id = inv_role_id i,
                     iv_role_name = (case r of Some q \<Rightarrow> r_name q | None \<Rightarrow> ''Viewer''),
                     iv_expires_at = inv_expires_at i,
                     iv_is_existing_user = (first_row (\<lambda>u. u_email u = inv_email i) (users d) \<noteq> None)\<rparr> d)))"

definition get_invitation :: "string \<Rightarrow> request \<Rightarrow> db \<Rightarrow> (invitation_view, db) result" where
  "get_invitation token req d = validate_invitation token req d"

record accept_request =
  ac_token :: string
  ac_username :: "string option"
  ac_password :: string
  ac_full_name :: "string option"

record accept_response =
  ar_message :: string
  ar_is_existing_user :: bool
  ar_tenant_id :: int
  ar_username :: string

definition join_tenant :: "user \<Rightarrow> invitation \<Rightarrow> db \<Rightarrow> db" where
  "join_tenant u i d =
     (if truthy_id (inv_role_id i)
      then add_user_role (u_id u) (Some (inv_tenant_id i)) (the (inv_role_id i)) (inv_invited_by i) d
      else assign_viewer_role d u (inv_tenant_id i))"

definition use_invitation :: "invitation \<Rightarrow> db \<Rightarrow> db" where
  "use_invitation i d =
     d\<lparr>invitations := upd_rows inv_id (inv_id i) (\<lambda>x. x\<lparr>inv_is_used := True\<rparr>) (invitations d)\<rparr>"

definition accept_audit :: "user \<Rightarrow> invitation \<Rightarrow> request \<Rightarrow> string \<Rightarrow> db \<Rightarrow> db" where
  "accept_audit u i req note d =
     log_audit_event ((audit_event (audit_action ''INVITE_ACCEPT'') ''invitation'' u)
       \<lparr>a_details := Some (note @ show_int (inv_tenant_id i)), a_request_id := Some (request_id req),
        a_tenant_id := Some (inv_tenant_id i)\<rparr>) None d"

definition accept_invitation ::
  "(string \<Rightarrow> string) \<Rightarrow> accept_request \<Rightarrow> request \<Rightarrow> db \<Rightarrow> (accept_response, db) result" where
  "accept_invitation hash data req d =
     (case open_invitation (ac_token data) d of
        None \<Rightarrow> http 404 ''Invalid or expired invitation'' d
      | Some i \<Rightarrow>
          (if inv_expires_at i < req_now req then http 400 ''Invitation has expired'' d
           else case first_row (\<lambda>u. u_email u = inv_email i) (users d) of
             Some u \<Rightarrow>
               (if \<exists>ur \<in> set (user_roles d). ur_user_id ur = u_id u \<and> ur_tenant_id ur = Some (inv_tenant_id i)
                then http 400 ''You already have access to this tenant'' d
                else
                  ok \<lparr>ar_message = ''You have been added to the tenant'', ar_is_existing_user = True,
                      ar_tenant_id = inv_tenant_id i, ar_username = u_username u\<rparr>
                     (accept_audit u i req ''Existing user accepted invitation to tenant ''
                        (use_invitation i (join_tenant u i d))))
           | None \<Rightarrow>
               (if \<not> truthy (ac_username data) then http 400 ''Username is required for new users'' d
                else if \<exists>u \<in> set (users d). u_username u = the (ac_username data)
                  then http 400 ''Username already registered'' d
                else
                  (let u = new_user (next_id TUsers d) (the (ac_username data)) (inv_email i)
                             (hash (ac_password data)) (ac_full_name data) (Some (inv_tenant_id i))
                   in if length (u_username u) > 50 \<or> \<not> opt_fits 100 (u_full_name u)
                      then http 500 ''Failed to create account'' d
                      else
                        ok \<lparr>ar_message = ''Account created successfully'', ar_is_existing_user = False,
                            ar_tenant_id = inv_tenant_id i, ar_username = u_username u\<rparr>
                           (accept_audit u i req ''New user accepted invitation to tenant ''
                              (use_invitation i (join_tenant u i
                                 (bump_seq TUsers (d\<lparr>users := users d @ [u]\<rparr>)))))))))"

section \<open>Lemmas\<close>

lemma join_tenant_frame [row_simps, simp]:
  "users (join_tenant u i d) = users d" "invitations (join_tenant u i d) = invitations d"
  "roles (join_tenant u i d) = roles d" "permissions (join_tenant u i d) = permissions d"
  "tenants (join_tenant u i d) = tenants d"
  by (simp_all add: join_tenant_def assign_viewer_role_def add_user_role_def split: option.splits)

lemma use_invitation_frame [row_simps, simp]:
  "users (use_invitation i d) = users d" "user_roles (use_invitation i d) = user_roles d"
  "roles (use_invitation i d) = roles d" "permissions (use_invitation i d) = permissions d"
  by (simp_all add: use_invitation_def)

lemma accept_audit_frame [row_simps, simp]:
  "users (accept_audit u i req n d) = users d" "user_roles (accept_audit u i req n d) = user_roles d"
  "roles (accept_audit u i req n d) = roles d" "permissions (accept_audit u i req n d) = permissions d"
  "invitations (accept_audit u i req n d) = invitations d"
  by (simp_all add: accept_audit_def)

lemma open_invitation_used:
  assumes "distinct_keys inv_token (invitations d)" "open_invitation tk d = Some i"
  shows "open_invitation tk (use_invitation i d) = None"
proof -
  have i: "i \<in> set (invitations d)" "inv_token i = tk"
    using first_row_Some [of _ "invitations d" i] assms(2) by (auto simp: open_invitation_def)
  have "j = i" if "j \<in> set (invitations d)" "inv_token j = tk" for j
    using distinct_keys_eq [OF assms(1)] that i by simp
  then show ?thesis
    by (auto simp: open_invitation_def use_invitation_def first_row_None set_upd_rows)
qed

text \<open>Every accepted invitation was open and in time, and the response is determined by it.\<close>

lemma accept_invitation_ok:
  assumes "accept_invitation hash data req d = (Inr resp, d')"
  obtains i u d0 msg where "open_invitation (ac_token data) d = Some i" "req_now req \<le> inv_expires_at i"
    "d' = accept_audit u i req msg (use_invitation i (join_tenant u i d0))"
    "ar_tenant_id resp = inv_tenant_id i" "ar_username resp = u_username u" "u_email u = inv_email i"
    "u \<in> set (users d0)" "set (users d) \<subseteq> set (users d0)" "user_roles d0 = user_roles d"
    "invitations d0 = invitations d" "roles d0 = roles d" "permissions d0 = permissions d"
    "ar_is_existing_user resp \<longleftrightarrow> d0 = d"
proof -
  obtain i where i: "open_invitation (ac_token data) d = Some i" "req_now req \<le> inv_expires_at i"
    using assms by (auto simp: accept_invitation_def split: option.splits if_splits)
  show thesis
  proof (cases "first_row (\<lambda>u. u_email u = inv_email i) (users d)")
    case (Some u)
    with i assms first_row_Some [OF Some] show thesis
      by (intro that [of i u "''Existing user accepted invitation to tenant ''" d])
        (auto simp: accept_invitation_def split: if_splits)
  next
    case None
    let ?u = "new_user (next_id TUsers d) (the (ac_username data)) (inv_email i)
                             (hash (ac_password data)) (ac_full_name data) (Some (inv_tenant_id i))"
    let ?d0 = "bump_seq TUsers (d\<lparr>users := users d @ [?u]\<rparr>)"
    have "?d0 \<noteq> d" by (metis append_self_conv bump_seq_fields(1) list.discI db.select_convs(1) db.surjective db.update_convs(1))
    with i assms None show thesis
      by (intro that [of i ?u "''New user accepted invitation to tenant ''" ?d0])
        (auto simp: accept_invitation_def Let_def new_user_def split: if_splits)
  qed
qed

end
