(* ===== verification/Iam_Security.thy ===== *)
theory Iam_Security
  imports Invitations
begin

text \<open>
  What the IAM endpoints together guarantee. \<open>run_op\<close> is one authenticated tenant-scoped call,
  \<open>iam_step\<close> any call of the IAM and invitation endpoints by anyone, \<open>iam_reach\<close> any sequence of
  them. The theorems: refused calls change nothing, preset roles are never changed, nobody
  becomes super admin through these endpoints, and what the audit trail records.
\<close>

section \<open>One call\<close>

datatype iam_op =
    OpCreateRole role_create
  | OpUpdateRole int role_update
  | OpDeleteRole int
  | OpDeleteUser int
  | OpAssignRole int "int option"
  | OpRemoveRole int int
  | OpInvite string "int option"
  | OpRevokeInvitation int

definition forget :: "('a, 's) result \<Rightarrow> (unit, 's) result" where
  "forget r = (case fst r of Inl e \<Rightarrow> (Inl e, snd r) | Inr _ \<Rightarrow> (Inr (), snd r))"

lemma forget_simps [exc_simps, simp]:
  "forget (ok x s) = ok () s" "forget (raise e s) = raise e s" "forget (http c m s) = http c m s"
  by (simp_all add: forget_def ok_def raise_def http_def)

lemma forget_snd [exc_simps, simp]: "snd (forget r) = snd r"
  by (simp add: forget_def split: sum.splits)

fun run_op :: "user \<Rightarrow> request \<Rightarrow> tenant option \<Rightarrow> int \<Rightarrow> iam_op \<Rightarrow> db \<Rightarrow> (unit, db) result" where
  "run_op cu req ct tid (OpCreateRole rd) d = forget (create_role cu req tid rd d)"
| "run_op cu req ct tid (OpUpdateRole rid rd) d = forget (update_role cu req tid rid rd d)"
| "run_op cu req ct tid (OpDeleteRole rid) d = delete_role cu req tid rid d"
| "run_op cu req ct tid (OpDeleteUser uid) d = delete_tenant_user cu req tid uid d"
| "run_op cu req ct tid (OpAssignRole uid rid) d = forget (assign_role cu req tid uid rid d)"
| "run_op cu req ct tid (OpRemoveRole uid rid) d = remove_role cu req tid uid rid d"
| "run_op cu req ct tid (OpInvite email rid) d = forget (create_tenant_invitation cu req ct tid email rid d)"
| "run_op cu req ct tid (OpRevokeInvitation iid) d = delete_tenant_invitation cu req ct tid iid d"

lemmas handler_defs = create_role_def update_role_def delete_role_def delete_tenant_user_def
  assign_role_def remove_role_def create_tenant_invitation_def delete_tenant_invitation_def
  store_invitation_def

inductive iam_step :: "(string \<Rightarrow> string) \<Rightarrow> db \<Rightarrow> db \<Rightarrow> bool" for hash where
  tenant_call: "iam_step hash d (snd (run_op cu req ct tid op d))"
| accept: "iam_step hash d (snd (accept_invitation hash data req d))"

inductive iam_reach :: "(string \<Rightarrow> string) \<Rightarrow> db \<Rightarrow> db \<Rightarrow> bool" for hash where
  start: "iam_reach hash d d"
| step: "iam_reach hash d d' \<Longrightarrow> iam_step hash d' d'' \<Longrightarrow> iam_reach hash d d''"

inductive_cases iam_stepE: "iam_step hash d d'"

lemma iam_reach_invariant:
  assumes "iam_reach hash d d'" "P d" "\<And>x y. iam_step hash x y \<Longrightarrow> P x \<Longrightarrow> P y"
  shows "P d'"
  using assms by (induction rule: iam_reach.induct) blast+

section \<open>Refusals\<close>

lemma leaves_forget [exc_simps, simp]: "leaves P (forget r) = leaves P r"
  by (simp add: leaves_def)

lemma succeeds_forget [exc_simps, simp]: "succeeds P (forget r) = succeeds P r"
  by (cases "fst r") (simp_all add: forget_def succeeds_def)

lemma atomic_forget [exc_simps, simp]: "atomic (forget r) d = atomic r d"
  by (cases "fst r") (simp_all add: forget_def atomic_def)

lemma handlers_atomic:
  "atomic (create_role cu req tid rd d) d" "atomic (update_role cu req tid rid rup d) d"
  "atomic (delete_role cu req tid rid d) d" "atomic (delete_tenant_user cu req tid uid d) d"
  "atomic (assign_role cu req tid uid role_id d) d" "atomic (remove_role cu req tid uid rid d) d"
  "atomic (store_invitation cu req ct tid email role_id note d) d"
  "atomic (delete_tenant_invitation cu req ct tid iid d) d"
  unfolding handler_defs by simp_all

lemma invite_atomic: "atomic (create_tenant_invitation cu req ct tid email role_id d) d"
  unfolding create_tenant_invitation_def by (simp add: handlers_atomic)

lemma run_op_error_unchanged: "fst (run_op cu req ct tid op d) = Inl e \<Longrightarrow> snd (run_op cu req ct tid op d) = d"
  by (rule atomicD [of _ d e]) (cases op; simp add: handlers_atomic invite_atomic)+

text \<open>
  a caller who is not tenant admin of the tenant (and not super admin) gets status 403 from
  every IAM call on it, and the database is unchanged.
\<close>
theorem iam_unauthorised_noop:
  assumes "\<not> is_tenant_admin cu tid d"
  shows "(\<exists>m. fst (run_op cu req ct tid op d) = Inl (HTTPException 403 m)) \<and>
    snd (run_op cu req ct tid op d) = d"
proof -
  from assms have "\<not> is_super_admin cu d" by (auto simp: is_tenant_admin_def)
  with assms show ?thesis by (cases op) (simp_all add: handler_defs)
qed

lemma iam_unauthorised_noop_witness:
  "let cu = new_user 1 ''ann'' ''ann@x.io'' ''h'' None (Some 1)
   in (\<exists>m. fst (run_op cu (plain_request [] 0) None 2 (OpDeleteUser 1) demo_db) = Inl (HTTPException 403 m)) \<and>
      snd (run_op cu (plain_request [] 0) None 2 (OpDeleteUser 1) demo_db) = demo_db"
  unfolding Let_def by (rule iam_unauthorised_noop) code_simp

section \<open>Preset and system roles\<close>

definition system_preset :: "db \<Rightarrow> bool" where
  "system_preset d \<longleftrightarrow> (\<forall>r \<in> set (roles d). r_is_system r \<longrightarrow> r_is_preset r)"

lemma find_role_Some: "find_role i d = Some r \<Longrightarrow> r \<in> set (roles d) \<and> r_id r = i"
  by (auto simp: find_role_def dest: first_row_Some)

lemma updated_role_simps [row_simps, simp]:
  "r_id (updated_role rd r d) = r_id r" "r_is_preset (updated_role rd r d) = r_is_preset r"
  "r_is_system (updated_role rd r d) = r_is_system r" "r_tenant_id (updated_role rd r d) = r_tenant_id r"
  by (simp_all add: updated_role_def)

text \<open>How a call changes the roles table and the role assignments: three shapes, one lemma each.\<close>

lemma run_op_roles:
  obtains (same) "roles (snd (run_op cu req ct tid op d)) = roles d"
    "seqs (snd (run_op cu req ct tid op d)) TRoles = seqs d TRoles"
  | (new) r where "roles (snd (run_op cu req ct tid op d)) = roles d @ [r]" "\<not> r_is_preset r"
      "\<not> r_is_system r" "r_id r = seqs d TRoles"
      "seqs (snd (run_op cu req ct tid op d)) TRoles = seqs d TRoles + 1"
  | (changed) r rd where "find_role (r_id r) d = Some r" "\<not> r_is_preset r"
      "roles (snd (run_op cu req ct tid op d)) = upd_rows r_id (r_id r) (\<lambda>_. updated_role rd r d) (roles d)"
      "seqs (snd (run_op cu req ct tid op d)) TRoles = seqs d TRoles"
  | (deleted) r where "find_role (r_id r) d = Some r" "\<not> r_is_preset r"
      "roles (snd (run_op cu req ct tid op d)) = del_rows r_id (r_id r) (roles d)"
      "seqs (snd (run_op cu req ct tid op d)) TRoles = seqs d TRoles"
proof (cases op)
  case (OpCreateRole rd)
  then show thesis
    using that(1,2) by (fastforce simp: create_role_def Let_def bump_seq_def next_id_def split: if_splits)
next
  case (OpUpdateRole rid rd)
  show thesis
  proof (cases "\<exists>x. fst (run_op cu req ct tid op d) = Inr x")
    case True
    with OpUpdateRole obtain r where r: "find_role rid d = Some r" "\<not> r_is_preset r"
        "roles (snd (run_op cu req ct tid op d)) = upd_rows r_id rid (\<lambda>_. updated_role rd r d) (roles d)"
        "seqs (snd (run_op cu req ct tid op d)) TRoles = seqs d TRoles"
      by (auto simp: update_role_def Let_def split: option.splits if_splits)
    moreover have "r_id r = rid" using find_role_Some [OF r(1)] by simp
    ultimately show thesis using that(3) by blast
  next
    case False
    then have "snd (run_op cu req ct tid op d) = d"
      using run_op_error_unchanged [of cu req ct tid op d]
      by (cases "fst (run_op cu req ct tid op d)") auto
    then show thesis using that(1) by simp
  qed
next
  case (OpDeleteRole rid)
  show thesis
  proof (cases "\<exists>x. fst (run_op cu req ct tid op d) = Inr x")
    case True
    with OpDeleteRole obtain r where r: "find_role rid d = Some r" "\<not> r_is_preset r"
        "roles (snd (run_op cu req ct tid op d)) = del_rows r_id rid (roles d)"
        "seqs (snd (run_op cu req ct tid op d)) TRoles = seqs d TRoles"
      by (auto simp: delete_role_def Let_def split: option.splits if_splits)
    moreover have "r_id r = rid" using find_role_Some [OF r(1)] by simp
    ultimately show thesis using that(4) by blast
  next
    case False
    then have "snd (run_op cu req ct tid op d) = d"
      using run_op_error_unchanged [of cu req ct tid op d]
      by (cases "fst (run_op cu req ct tid op d)") auto
    then show thesis using that(1) by simp
  qed
qed (rule that(1); auto simp: handler_defs Let_def add_user_role_def bump_seq_def
      split: option.splits sum.splits)+

lemma run_op_user_roles:
  "ur \<in> set (user_roles (snd (run_op cu req ct tid op d))) \<Longrightarrow> ur_tenant_id ur = None \<Longrightarrow>
    ur \<in> set (user_roles d)"
  by (cases op) (auto simp: handler_defs Let_def add_user_role_def set_del_rows
      split: option.splits sum.splits if_splits)

lemma accept_user_roles:
  "ur \<in> set (user_roles (snd (accept_invitation hash data req d))) \<Longrightarrow> ur_tenant_id ur = None \<Longrightarrow>
    ur \<in> set (user_roles d)"
  by (auto simp: accept_invitation_def Let_def join_tenant_def assign_viewer_role_def add_user_role_def
      split: option.splits if_splits)

lemma accept_roles:
  "roles (snd (accept_invitation hash data req d)) = roles d"
  "seqs (snd (accept_invitation hash data req d)) TRoles = seqs d TRoles"
  by (auto simp: accept_invitation_def Let_def join_tenant_def assign_viewer_role_def add_user_role_def
      accept_audit_def use_invitation_def bump_seq_def split: option.splits)

text \<open>The system roles that a lookup can find only shrink.\<close>

lemma run_op_find_system:
  assumes "system_preset d" "find_role i (snd (run_op cu req ct tid op d)) = Some q" "r_is_system q"
  shows "find_role i d = Some q"
proof (rule run_op_roles [of cu req ct tid op d])
  assume "roles (snd (run_op cu req ct tid op d)) = roles d"
  with assms show ?thesis by (simp add: find_role_def)
next
  fix r assume "roles (snd (run_op cu req ct tid op d)) = roles d @ [r]" "\<not> r_is_system r"
  with assms show ?thesis by (auto simp: find_role_def first_row_append split: option.splits if_splits)
next
  fix r rd
  assume r: "find_role (r_id r) d = Some r" "\<not> r_is_preset r"
    and eq: "roles (snd (run_op cu req ct tid op d)) = upd_rows r_id (r_id r) (\<lambda>_. updated_role rd r d) (roles d)"
  have "\<not> r_is_system r" using r assms(1) find_role_Some [OF r(1)] by (auto simp: system_preset_def)
  moreover have "find_role i (snd (run_op cu req ct tid op d)) =
      (if i = r_id r then map_option (\<lambda>_. updated_role rd r d) (find_role i d) else find_role i d)"
    using eq by (simp add: find_role_def first_row_replace)
  ultimately show ?thesis using assms r by (cases "i = r_id r") auto
next
  fix r assume "roles (snd (run_op cu req ct tid op d)) = del_rows r_id (r_id r) (roles d)"
  with assms show ?thesis by (simp add: find_role_def first_row_del_rows split: if_splits)
qed

lemma run_op_system_preset: "system_preset d \<Longrightarrow> system_preset (snd (run_op cu req ct tid op d))"
  by (rule run_op_roles [of cu req ct tid op d])
    (auto simp: system_preset_def set_upd_rows set_del_rows dest: find_role_Some)

lemma is_super_admin_shrink:
  assumes "is_super_admin u d'"
    "\<And>ur. ur \<in> set (user_roles d') \<Longrightarrow> ur_tenant_id ur = None \<Longrightarrow> ur \<in> set (user_roles d)"
    "\<And>i q. find_role i d' = Some q \<Longrightarrow> r_is_system q \<Longrightarrow> find_role i d = Some q"
  shows "is_super_admin u d"
proof -
  obtain ur r where "ur \<in> set (user_roles d')" "ur_user_id ur = u_id u" "ur_tenant_id ur = None"
      "find_role (ur_role_id ur) d' = Some r" "r_is_system r" "r_name r = ''super_admin''"
    using assms(1) by (auto simp: is_super_admin_def set_roles_of)
  with assms(2,3) have "ur \<in> set (user_roles d)" "find_role (ur_role_id ur) d = Some r" by blast+
  then have "r \<in> set (roles_of (u_id u) None d)"
    using \<open>ur_user_id ur = u_id u\<close> \<open>ur_tenant_id ur = None\<close> by (auto simp: set_roles_of)
  then show ?thesis
    using \<open>r_is_system r\<close> \<open>r_name r = ''super_admin''\<close> by (auto simp: is_super_admin_def)
qed

lemma iam_step_super:
  assumes "iam_step hash d d'" "system_preset d"
  shows "system_preset d' \<and> (is_super_admin u d' \<longrightarrow> is_super_admin u d)"
  using assms(1)
proof cases
  case (tenant_call cu req ct tid op)
  have "is_super_admin u d' \<Longrightarrow> is_super_admin u d"
    unfolding tenant_call by (erule is_super_admin_shrink)
      (use assms(2) run_op_user_roles run_op_find_system in blast)+
  then show ?thesis unfolding tenant_call using run_op_system_preset [OF assms(2)] by blast
next
  case (accept data req)
  have "is_super_admin u d' \<Longrightarrow> is_super_admin u d"
    unfolding accept by (erule is_super_admin_shrink)
      (use accept_user_roles accept_roles [of hash data req d] in \<open>auto simp: find_role_def\<close>)
  then show ?thesis
    using assms(2) accept accept_roles [of hash data req d] by (simp add: system_preset_def)
qed

text \<open>
  C2: no privilege escalation: where every system role is a preset one (as seeding makes it),
  no sequence of IAM and invitation calls, by any callers with any arguments, makes a user super
  admin who was not.
\<close>
theorem no_super_admin_escalation:
  assumes "iam_reach hash d d'" "system_preset d" "is_super_admin u d'"
  shows "is_super_admin u d"
proof -
  have "system_preset d' \<and> (is_super_admin u d' \<longrightarrow> is_super_admin u d)"
    by (rule iam_reach_invariant [OF assms(1)]) (use assms(2) iam_step_super in blast)+
  with assms(3) show ?thesis by blast
qed

text \<open>The witness: the demo tenant's admin creates and assigns a role; nobody gains super admin.\<close>

definition root_db :: db where
  "root_db = empty_db\<lparr>
     users := [new_user 1 ''root'' ''root@x.io'' ''h'' None None],
     roles := [\<lparr>r_id = 1, r_name = ''super_admin'', r_description = None, r_tenant_id = None,
        r_is_preset = True, r_is_system = True, r_permissions = []\<rparr>],
     user_roles := [\<lparr>ur_id = 1, ur_user_id = 1, ur_tenant_id = None, ur_role_id = 1, ur_granted_by = None\<rparr>]\<rparr>"

definition root_step :: db where
  "root_step = snd (run_op (new_user 1 ''root'' ''root@x.io'' ''h'' None None) (plain_request [] 0) None 1
     (OpDeleteUser 1) root_db)"

lemma no_super_admin_escalation_witness:
  "is_super_admin (new_user 1 ''root'' ''root@x.io'' ''h'' None None) root_db"
proof (rule no_super_admin_escalation [of id root_db root_step])
  show "iam_reach id root_db root_step"
    unfolding root_step_def by (rule iam_reach.step [OF iam_reach.start tenant_call])
  show "system_preset root_db" by code_simp
  show "is_super_admin (new_user 1 ''root'' ''root@x.io'' ''h'' None None) root_step" by code_simp
qed

section \<open>Roles of other tenants\<close>

text \<open>
  \<open>update_role\<close> and \<open>delete_role\<close> look the role up by its id alone: for every custom role of
  any tenant there is a change that the admin of a different tenant is allowed to make to it.
\<close>
theorem update_role_crosses_tenants:
  assumes "is_tenant_admin cu tid d" "find_role rid d = Some r" "\<not> r_is_preset r" "role_row_fits r"
    "\<not> role_name_taken r d"
  shows "\<exists>d'. update_role cu req tid rid
      \<lparr>rup_name = None, rup_description = None, rup_permission_ids = Some []\<rparr> d =
        (Inr (r\<lparr>r_permissions := []\<rparr>), d') \<and> find_role rid d' = Some (r\<lparr>r_permissions := []\<rparr>)"
proof -
  let ?rd = "\<lparr>rup_name = None, rup_description = None, rup_permission_ids = Some []\<rparr>"
  let ?r = "r\<lparr>r_permissions := []\<rparr>"
  have r': "updated_role ?rd r d = ?r"
    by (cases "r_description r") (simp_all add: updated_role_def selected_permissions_def)
  have "role_row_fits ?r" "\<not> role_name_taken ?r d"
    using assms by (simp_all add: role_row_fits_def role_name_taken_def)
  moreover have "r_id ?r = rid" using assms(2) find_role_Some by simp
  then have "find_role rid (d\<lparr>roles := upd_rows r_id rid (\<lambda>_. ?r) (roles d)\<rparr>) = Some ?r"
    using assms(2) by (simp add: find_role_def first_row_replace)
  ultimately show ?thesis
    using assms by (simp add: update_role_def r' Let_def find_role_def)
qed

text \<open>A database with two tenants; Ann is the admin of the first, a custom role belongs to the second.\<close>

definition ann :: user where
  "ann = new_user 1 ''ann'' ''ann@x.io'' ''h'' None (Some 1)"

definition two_tenant_db :: db where
  "two_tenant_db = empty_db\<lparr>
     users := [ann, new_user 2 ''bob'' ''bob@x.io'' ''h'' None (Some 2)],
     tenants := [new_tenant 1 ''One'' ''one'', new_tenant 2 ''Two'' ''two''],
     roles := [\<lparr>r_id = 1, r_name = ''tenant_admin'', r_description = None, r_tenant_id = None,
        r_is_preset = True, r_is_system = False, r_permissions = []\<rparr>,
        \<lparr>r_id = 2, r_name = ''ops'', r_description = None, r_tenant_id = Some 2,
        r_is_preset = False, r_is_system = False, r_permissions = [1]\<rparr>],
     user_roles := [\<lparr>ur_id = 1, ur_user_id = 1, ur_tenant_id = Some 1, ur_role_id = 1, ur_granted_by = None\<rparr>,
        \<lparr>ur_id = 2, ur_user_id = 2, ur_tenant_id = Some 2, ur_role_id = 2, ur_granted_by = None\<rparr>]\<rparr>"

lemma update_role_crosses_tenants_witness:
  "u_tenant_id ann = Some 1 \<and>
   (\<exists>r. find_role 2 two_tenant_db = Some r \<and> r_tenant_id r = Some 2 \<and>
     (\<exists>d'. update_role ann (plain_request [] 0) 1 2
        \<lparr>rup_name = None, rup_description = None, rup_permission_ids = Some []\<rparr> two_tenant_db =
          (Inr (r\<lparr>r_permissions := []\<rparr>), d') \<and> find_role 2 d' = Some (r\<lparr>r_permissions := []\<rparr>)))"
proof -
  let ?r = "\<lparr>r_id = 2, r_name = ''ops'', r_description = None, r_tenant_id = Some 2,
        r_is_preset = False, r_is_system = False, r_permissions = [1]\<rparr>"
  have r: "find_role 2 two_tenant_db = Some ?r" by (simp add: find_role_def two_tenant_db_def)
  have "is_tenant_admin ann 1 two_tenant_db" by code_simp
  moreover have "role_row_fits ?r" by code_simp
  moreover have "\<not> role_name_taken ?r two_tenant_db"
    by (simp add: role_name_taken_def two_tenant_db_def)
  ultimately show ?thesis
    using update_role_crosses_tenants [OF _ r] r by (simp add: ann_def new_user_def)
qed

section \<open>The audit trail\<close>

text \<open>
  A request whose \<open>X-Request-ID\<close> header is longer than the 36 characters of the column makes
  no audit entry: any role, assignment or invitation call is carried out, or refused, with the audit
  log unchanged.
\<close>
theorem long_request_id_evades_audit:
  assumes "header req ''X-Request-ID'' = Some rid" "36 < length rid"
  shows "audit_log (snd (run_op cu req ct tid op d)) = audit_log d"
proof -
  have "log_audit_event ((with_request req t a)) b d' = d'" for t a b d'
    using assms by (intro log_audit_event_too_long [of _ rid]) (auto simp: with_request_def header_or_def)
  moreover have "log_audit_event (a\<lparr>a_request_id := Some (request_id req), a_tenant_id := t\<rparr>) b d' = d'"
    for t a b d'
    using assms by (intro log_audit_event_too_long [of _ rid]) (auto simp: request_id_def header_or_def)
  ultimately have "leaves (\<lambda>s. audit_log s = audit_log d) (run_op cu req ct tid op d)"
    by (cases op) (simp_all add: handler_defs Let_def add_user_role_def)
  then show ?thesis by (simp add: leaves_def)
qed

lemma long_request_id_evades_audit_witness:
  "audit_log (snd (run_op ann (plain_request [(''x-request-id'', replicate 37 CHR ''x'')] 0) None 1
     (OpDeleteUser 2) two_tenant_db)) = audit_log two_tenant_db"
proof (rule long_request_id_evades_audit)
  show "header (plain_request [(''x-request-id'', replicate 37 CHR ''x'')] 0) ''X-Request-ID'' =
      Some (replicate 37 CHR ''x'')" by code_simp
qed simp

definition request_fits :: "request \<Rightarrow> bool" where
  "request_fits req \<longleftrightarrow> length (header_or req ''X-Request-ID'' ''unknown'') \<le> 36 \<and>
     length (request_id req) \<le> 36 \<and> opt_fits 45 (get_client_ip req)"

definition names_fit :: "db \<Rightarrow> bool" where
  "names_fit d \<longleftrightarrow> (\<forall>r \<in> set (roles d). length (r_name r) \<le> 50) \<and>
     (\<forall>u \<in> set (users d). length (u_username u) \<le> 50) \<and>
     (\<forall>ur \<in> set (user_roles d). ur_user_id ur \<in> u_id ` set (users d))"

lemma AUDIT_ACTIONS_fit: "list_all (\<lambda>(k, a). length a \<le> 50) AUDIT_ACTIONS"
  by code_simp

lemma audit_action_fits: "length (audit_action k) \<le> 50"
proof (cases "map_of AUDIT_ACTIONS k")
  case None
  then show ?thesis by (simp add: audit_action_def)
next
  case (Some a)
  then have "(k, a) \<in> set AUDIT_ACTIONS" by (rule map_of_SomeD)
  with AUDIT_ACTIONS_fit Some show ?thesis by (auto simp: audit_action_def list_all_iff)
qed

text \<open>One new entry, by the caller: what a recorded call adds to the log.\<close>

definition audited :: "user \<Rightarrow> db \<Rightarrow> db \<Rightarrow> bool" where
  "audited cu d s \<longleftrightarrow> (\<exists>e. audit_log s = audit_log d @ [e] \<and> a_actor_id e = Some (u_id cu) \<and>
     a_actor_username e = u_username cu)"

lemma audited_log:
  assumes "a_actor_id a = Some (u_id cu)" "a_actor_username a = u_username cu" "u_username cu \<noteq> []"
    "audit_fits a" "audit_log d1 = audit_log d"
  shows "audited cu d (log_audit_event a None d1)"
  using assms by (auto simp: audited_def log_audit_event_def audit_fits_def final_actor_def
      final_details_def Let_def)

lemma audited_invitations [simp]: "audited cu d (s\<lparr>invitations := x\<rparr>) = audited cu d s"
  by (simp add: audited_def)

lemma names_fitD:
  "names_fit d \<Longrightarrow> find_role i d = Some r \<Longrightarrow> length (r_name r) \<le> 50"
  "names_fit d \<Longrightarrow> first_row p (users d) = Some u \<Longrightarrow> length (u_username u) \<le> 50"
  by (auto simp: names_fit_def find_role_def dest: first_row_Some)

lemma audit_fits_with_request:
  assumes "request_fits req" "length (u_username cu) \<le> 50" "length ty \<le> 50" "opt_fits 255 n"
    "a_actor_username a = u_username cu" "a_action a = audit_action k" "a_target_type a = ty"
    "a_target_name a = n"
  shows "audit_fits (with_request req t a)"
  using assms audit_action_fits [of k]
  by (simp add: audit_fits_def with_request_def request_fits_def opt_fits_def)

lemma audited_with_request:
  assumes "request_fits req" "length (u_username cu) \<le> 50" "u_username cu \<noteq> []" "length ty \<le> 50"
    "opt_fits 255 n" "audit_log d1 = audit_log d"
    "a_actor_username a = u_username cu" "a_action a = audit_action k" "a_target_type a = ty"
    "a_target_name a = n" "a_actor_id a = Some (u_id cu)"
  shows "audited cu d (log_audit_event (with_request req t a) None d1)"
  using assms by (intro audited_log audit_fits_with_request) (auto simp: with_request_def)

lemma audit_event_sel [simp]:
  "a_actor_username (audit_event k t cu) = u_username cu" "a_actor_id (audit_event k t cu) = Some (u_id cu)"
  "a_action (audit_event k t cu) = k" "a_target_type (audit_event k t cu) = t"
  "a_target_name (audit_event k t cu) = None"
  by (simp_all add: audit_event_def)

lemma names_fit_user:
  "names_fit d \<Longrightarrow> first_row (\<lambda>ur. ur_user_id ur = i \<and> P ur) (user_roles d) = Some ur \<Longrightarrow>
    \<exists>u. first_row (\<lambda>u. u_id u = i) (users d) = Some u"
  unfolding first_row_ex by (force simp: names_fit_def dest!: first_row_Some)

text \<open>
  complete audit: when the request id, the caller's name and the names in the tables fit the
  log's columns, every successful role, assignment, user-removal or invitation call adds exactly one
  entry, and it names the caller.
\<close>
theorem iam_calls_audited:
  assumes "request_fits req" "length (u_username cu) \<le> 50" "u_username cu \<noteq> []" "names_fit d"
    "fst (run_op cu req ct tid op d) = Inr x"
  shows "audited cu d (snd (run_op cu req ct tid op d))"
proof -
  note fits = assms(1-4)
  have log: "audited cu d (log_audit_event (with_request req t a) None d1)"
    if "audit_log d1 = audit_log d" "length (a_target_type a) \<le> 50" "opt_fits 255 (a_target_name a)"
      "\<exists>k. a_action a = audit_action k" "a_actor_username a = u_username cu"
      "a_actor_id a = Some (u_id cu)" for d1 a t
    using fits that audited_with_request [of req cu "a_target_type a" "a_target_name a" d1 d a]
    by blast
  have short: "\<And>i r. find_role i d = Some r \<Longrightarrow> length (r_name r) \<le> 50"
    "\<And>p u. first_row p (users d) = Some u \<Longrightarrow> length (u_username u) \<le> 50"
    "\<And>s. length s \<le> 50 \<Longrightarrow> opt_fits 255 (Some s)"
    using fits(4) by (auto simp: names_fitD opt_fits_def)
  have inv: "audited cu d (log_audit_event ((audit_event (audit_action k) ''invitation'' cu)
      \<lparr>a_details := x, a_request_id := Some (request_id req), a_tenant_id := t\<rparr>) None d1)"
    if "audit_log d1 = audit_log d" for k x t d1
    using fits that audit_action_fits [of k]
    by (intro audited_log) (auto simp: audit_fits_def opt_fits_def audit_event_def request_fits_def)
  have "succeeds (audited cu d) (run_op cu req ct tid op d)"
  proof (cases op)
    case (OpCreateRole rd)
    then show ?thesis
      by (auto simp: create_role_def role_row_fits_def intro!: log short)
  next
    case (OpUpdateRole rid rd)
    then show ?thesis
      by (auto simp: update_role_def role_row_fits_def intro!: log short)
  next
    case (OpDeleteRole rid)
    then show ?thesis
      by (auto simp: delete_role_def intro!: log short)
  next
    case (OpDeleteUser uid)
    then show ?thesis
      by (auto simp: delete_tenant_user_def intro!: log short)
  next
    case (OpAssignRole uid rid)
    then show ?thesis
      by (auto simp: assign_role_def add_user_role_def intro!: log short)
  next
    case (OpRemoveRole uid rid)
    then show ?thesis
      using names_fit_user [OF fits(4), of uid]
      by (fastforce simp: remove_role_def intro!: log short)
  next
    case (OpInvite email rid)
    then show ?thesis
      by (auto simp: create_tenant_invitation_def store_invitation_def intro!: inv)
  next
    case (OpRevokeInvitation iid)
    then show ?thesis
      by (auto simp: delete_tenant_invitation_def intro!: inv)
  qed
  with assms(5) show ?thesis by (simp add: succeeds_def)
qed

lemma iam_calls_audited_witness:
  "let req = plain_request [(''x-request-id'', ''r1'')] 0; op = OpAssignRole 2 (Some 2)
   in fst (run_op ann req None 1 op two_tenant_db) = Inr () \<and>
      audited ann two_tenant_db (snd (run_op ann req None 1 op two_tenant_db))"
proof -
  let ?req = "plain_request [(''x-request-id'', ''r1'')] 0"
  have ok: "fst (run_op ann ?req None 1 (OpAssignRole 2 (Some 2)) two_tenant_db) = Inr ()" by code_simp
  have "audited ann two_tenant_db (snd (run_op ann ?req None 1 (OpAssignRole 2 (Some 2)) two_tenant_db))"
  proof (rule iam_calls_audited [OF _ _ _ _ ok])
    show "request_fits ?req" by code_simp
    show "names_fit two_tenant_db" by code_simp
  qed (simp_all add: ann_def new_user_def)
  with ok show ?thesis by simp
qed

section \<open>Preset roles and invitations\<close>

lemma run_op_presets:
  assumes "distinct_keys r_id (roles d)"
  shows "filter r_is_preset (roles (snd (run_op cu req ct tid op d))) = filter r_is_preset (roles d)"
proof -
  have other: "\<not> r_is_preset q" if "find_role (r_id r) d = Some r" "\<not> r_is_preset r" "q \<in> set (roles d)"
      "r_id q = r_id r" for q r
    using distinct_keys_eq [OF assms, of q r] that find_role_Some by blast
  have upd: "filter r_is_preset (upd_rows r_id k (\<lambda>_. s) rows) = filter r_is_preset rows"
    if "\<not> r_is_preset s" "\<And>q. q \<in> set rows \<Longrightarrow> r_id q = k \<Longrightarrow> \<not> r_is_preset q" for k s rows
    using that by (induction rows) auto
  have del: "filter r_is_preset (del_rows r_id k rows) = filter r_is_preset rows"
    if "\<And>q. q \<in> set rows \<Longrightarrow> r_id q = k \<Longrightarrow> \<not> r_is_preset q" for k rows
    using that by (induction rows) auto
  show ?thesis
    by (rule run_op_roles [of cu req ct tid op d]) (simp_all add: upd del other)
qed

lemma run_op_roles_wf: "roles_wf d \<Longrightarrow> roles_wf (snd (run_op cu req ct tid op d))"
  by (rule run_op_roles [of cu req ct tid op d])
    (force simp: roles_wf_def distinct_keys_append distinct_keys_upd_rows distinct_keys_del_rows
      set_upd_rows set_del_rows distinct_keys_replace)+

lemma iam_step_presets:
  assumes "iam_step hash d d'" "roles_wf d"
  shows "roles_wf d' \<and> filter r_is_preset (roles d') = filter r_is_preset (roles d)"
  using assms(1)
proof cases
  case (tenant_call cu req ct tid op)
  then show ?thesis
    using assms(2) run_op_roles_wf [OF assms(2)] run_op_presets by (simp add: roles_wf_def)
next
  case (accept data req)
  then show ?thesis using assms(2) by (simp add: roles_wf_def accept_roles)
qed

text \<open>
  C23: the preset roles, with their permissions, are the same before and after any sequence of IAM
  and invitation calls by anyone.
\<close>
theorem preset_roles_immutable:
  assumes "iam_reach hash d d'" "roles_wf d"
  shows "filter r_is_preset (roles d') = filter r_is_preset (roles d)"
proof -
  have "roles_wf d' \<and> filter r_is_preset (roles d') = filter r_is_preset (roles d)"
    by (rule iam_reach_invariant [OF assms(1)]) (use assms(2) iam_step_presets in auto)
  then show ?thesis by blast
qed

lemma preset_roles_immutable_witness:
  "let d' = snd (run_op ann (plain_request [] 0) None 1 (OpDeleteRole 1) (bump_seq TRoles (bump_seq TRoles two_tenant_db)))
   in map r_name (filter r_is_preset (roles d')) = [''tenant_admin'']"
proof -
  let ?d = "bump_seq TRoles (bump_seq TRoles two_tenant_db)"
  let ?d' = "snd (run_op ann (plain_request [] 0) None 1 (OpDeleteRole 1) ?d)"
  have "filter r_is_preset (roles ?d') = filter r_is_preset (roles ?d)"
  proof (rule preset_roles_immutable)
    show "iam_reach id ?d ?d'" by (rule iam_reach.step [OF iam_reach.start tenant_call])
    show "roles_wf ?d" by code_simp
  qed
  then show ?thesis by (simp add: two_tenant_db_def bump_seq_def)
qed

lemma join_tenant_row:
  assumes "first_row (\<lambda>r. r_name r = ''viewer'' \<and> r_tenant_id r = None \<and> \<not> r_is_system r) (roles d) \<noteq> None"
  shows "\<exists>ur \<in> set (user_roles (join_tenant u i d)). ur_user_id ur = u_id u \<and> ur_tenant_id ur = Some (inv_tenant_id i)"
  using assms by (auto simp: join_tenant_def assign_viewer_role_def add_user_role_def)

text \<open>
  C10: an invitation is good for one use: a successful acceptance finds an open invitation with that
  token that is not past its expiry, the user it names (by the invitation's email) holds a role in the
  inviting tenant afterwards, and the token is refused with status 404 for everyone from then on.
  (Tokens are unique in the table; the viewer role has been seeded.)
\<close>
theorem invitation_single_use:
  assumes "distinct_keys inv_token (invitations d)"
    "first_row (\<lambda>r. r_name r = ''viewer'' \<and> r_tenant_id r = None \<and> \<not> r_is_system r) (roles d) \<noteq> None"
    "accept_invitation hash data req d = (Inr resp, d')"
  shows "(\<exists>i \<in> set (invitations d). inv_token i = ac_token data \<and> \<not> inv_is_used i \<and>
        req_now req \<le> inv_expires_at i \<and> inv_tenant_id i = ar_tenant_id resp \<and>
        (\<exists>u \<in> set (users d'). u_email u = inv_email i \<and> u_username u = ar_username resp \<and>
          (\<exists>ur \<in> set (user_roles d'). ur_user_id ur = u_id u \<and>
             ur_tenant_id ur = Some (ar_tenant_id resp)))) \<and>
    (\<forall>hash' data' req'. ac_token data' = ac_token data \<longrightarrow>
        accept_invitation hash' data' req' d' = http 404 ''Invalid or expired invitation'' d')"
  using assms(3)
proof (rule accept_invitation_ok)
  fix i u d0 msg
  assume acc: "open_invitation (ac_token data) d = Some i" "req_now req \<le> inv_expires_at i"
    "d' = accept_audit u i req msg (use_invitation i (join_tenant u i d0))"
    "ar_tenant_id resp = inv_tenant_id i" "ar_username resp = u_username u" "u_email u = inv_email i"
    "u \<in> set (users d0)" "invitations d0 = invitations d" "roles d0 = roles d"
  have "i \<in> set (invitations d)" "inv_token i = ac_token data" "\<not> inv_is_used i"
    using acc(1) by (auto simp: open_invitation_def dest: first_row_Some)
  moreover obtain ur where "ur \<in> set (user_roles (join_tenant u i d0))" "ur_user_id ur = u_id u"
      "ur_tenant_id ur = Some (inv_tenant_id i)"
    using join_tenant_row [of d0 u i] assms(2) acc(9) by auto
  moreover have "open_invitation (ac_token data) d' = None"
    using open_invitation_used [OF assms(1) acc(1)] acc(8)
    by (simp add: acc(3) open_invitation_def use_invitation_def)
  ultimately show ?thesis
    using acc by (auto simp: accept_invitation_def)
qed

definition invited_db :: db where
  "invited_db = empty_db\<lparr>
     tenants := [new_tenant 1 ''One'' ''one''],
     roles := [\<lparr>r_id = 1, r_name = ''viewer'', r_description = None, r_tenant_id = None,
        r_is_preset = True, r_is_system = False, r_permissions = []\<rparr>],
     invitations := [\<lparr>inv_id = 1, inv_email = ''eve@x.io'', inv_tenant_id = 1, inv_role_id = None,
        inv_token = ''tok'', inv_invited_by = None, inv_is_used = False, inv_expires_at = 100,
        inv_created_at = 0\<rparr>]\<rparr>"

definition eve_accepts :: accept_request where
  "eve_accepts = \<lparr>ac_token = ''tok'', ac_username = Some ''eve'', ac_password = ''pw'', ac_full_name = None\<rparr>"

lemma invitation_single_use_witness:
  "\<exists>resp d'. accept_invitation id eve_accepts (plain_request [] 50) invited_db = (Inr resp, d') \<and>
     (\<exists>ur \<in> set (user_roles d'). ur_tenant_id ur = Some 1) \<and>
     accept_invitation id eve_accepts (plain_request [] 60) d' =
       http 404 ''Invalid or expired invitation'' d'"
proof -
  let ?r = "accept_invitation id eve_accepts (plain_request [] 50) invited_db"
  have "is_ok ?r" by code_simp
  then obtain resp d' where r: "?r = (Inr resp, d')" by (auto simp: is_ok_conv)
  have inv: "\<forall>i \<in> set (invitations invited_db). inv_tenant_id i = 1" by (simp add: invited_db_def)
  have "distinct_keys inv_token (invitations invited_db)" "first_row (\<lambda>r. r_name r = ''viewer'' \<and>
      r_tenant_id r = None \<and> \<not> r_is_system r) (roles invited_db) \<noteq> None"
    by (simp_all add: invited_db_def)
  from invitation_single_use [OF this r] inv r show ?thesis by fastforce
qed

end
