(* ===== verification/Token_Blacklist.thy ===== *)
theory Token_Blacklist
  imports Prelude Complex_Main
begin

text \<open>
  The revoked-token list (\<open>app/core/token_blacklist.py\<close>).

  The module's globals are the record \<open>bl_state\<close>: the in-memory dictionary, the time of its last
  clean-up, whether a Redis client object has been stored, and \<open>_redis_available\<close>. The Redis
  server is \<open>bl_redis\<close>, a map from keys to the time they expire (\<open>SETEX\<close>, \<open>EXISTS\<close>).
  \<open>bl_env\<close> is what a call finds outside: the environment name, whether the broker URL is a
  Redis URL, whether the server answers during the call, and the clock, in seconds.
\<close>

record bl_env =
  be_production :: bool
  be_redis_url :: bool
  be_up :: bool
  be_now :: rat

record bl_state =
  bl_mem :: "string \<Rightarrow> int option"
  bl_last_cleanup :: rat
  bl_client :: bool
  bl_available :: "bool option"
  bl_redis :: "string \<Rightarrow> rat option"

definition BLACKLIST_CLEANUP_INTERVAL :: rat where
  "BLACKLIST_CLEANUP_INTERVAL = 3600"

definition bl_init :: "rat \<Rightarrow> bl_state" where
  "bl_init t = \<lparr>bl_mem = Map.empty, bl_last_cleanup = t, bl_client = False, bl_available = None,
     bl_redis = Map.empty\<rparr>"

text \<open>\<open>int(x)\<close> of a float truncates towards zero.\<close>

definition trunc :: "rat \<Rightarrow> int" where
  "trunc x = (if 0 \<le> x then \<lfloor>x\<rfloor> else \<lceil>x\<rceil>)"

text \<open>
  \<open>_get_redis\<close>: the client is stored before it is pinged, so a ping that fails leaves a client
  behind together with \<open>_redis_available = False\<close>.
\<close>

definition get_redis :: "bl_env \<Rightarrow> bl_state \<Rightarrow> bool \<times> bl_state" where
  "get_redis e s =
     (if bl_client s then (True, s)
      else if be_redis_url e then
        (if be_up e then (True, s\<lparr>bl_client := True, bl_available := Some True\<rparr>)
         else (False, s\<lparr>bl_client := True, bl_available := Some False\<rparr>))
      else (False, s))"

definition redis_required_message :: string where
  "redis_required_message = ''CRITICAL SECURITY ERROR: Redis is required for token blacklist in production environment.''"

definition redis_lost_message :: string where
  "redis_lost_message = ''Redis connection lost in production.''"

definition check_redis_required :: "bl_env \<Rightarrow> bl_state \<Rightarrow> (unit, bl_state) result" where
  "check_redis_required e s =
     (if \<not> be_production e then ok () s
      else if bl_available s = Some False then raise (RuntimeError redis_required_message) s
      else if bl_available s = None then
        (let (c, s') = get_redis e s
         in if \<not> c then raise (RuntimeError redis_required_message) s' else ok () s')
      else ok () s)"

definition cleanup_expired_tokens :: "bl_env \<Rightarrow> bl_state \<Rightarrow> bl_state" where
  "cleanup_expired_tokens e s =
     s\<lparr>bl_mem := (\<lambda>j. case bl_mem s j of None \<Rightarrow> None
                     | Some x \<Rightarrow> if of_int x < be_now e then None else Some x)\<rparr>"

definition add_in_memory :: "bl_env \<Rightarrow> string \<Rightarrow> int \<Rightarrow> bl_state \<Rightarrow> bl_state" where
  "add_in_memory e jti expires_at s =
     (let s1 = s\<lparr>bl_mem := (bl_mem s)(jti \<mapsto> expires_at)\<rparr>
      in if be_now e - bl_last_cleanup s1 > BLACKLIST_CLEANUP_INTERVAL
         then (cleanup_expired_tokens e s1)\<lparr>bl_last_cleanup := be_now e\<rparr>
         else s1)"

definition ttl_of :: "bl_env \<Rightarrow> int \<Rightarrow> int" where
  "ttl_of e expires_at = max 1 (trunc (of_int expires_at - be_now e))"

text \<open>
  What both entry points do once the check has passed: use Redis when \<open>_get_redis\<close> returned a
  client; if the operation raises, check again, raise when \<open>_redis_available is False\<close>, and
  otherwise go on in memory.
\<close>

definition with_redis ::
  "bl_env \<Rightarrow> (bl_state \<Rightarrow> 'a \<times> bl_state) \<Rightarrow> (bl_state \<Rightarrow> 'a \<times> bl_state) \<Rightarrow> bl_state \<Rightarrow> ('a, bl_state) result" where
  "with_redis e redis_op mem_op s0 =
     then_do (check_redis_required e s0) (\<lambda>_ s1.
       let (c, s) = get_redis e s1
       in if c then
            (if be_up e then (let (x, s') = redis_op s in ok x s')
             else then_do (check_redis_required e s) (\<lambda>_ s'.
               if bl_available s' = Some False then raise (RuntimeError redis_lost_message) s'
               else let (x, s'') = mem_op s' in ok x s''))
          else let (x, s'') = mem_op s in ok x s'')"

definition add_token_to_blacklist :: "bl_env \<Rightarrow> string \<Rightarrow> int \<Rightarrow> bl_state \<Rightarrow> (unit, bl_state) result" where
  "add_token_to_blacklist e jti expires_at s =
     with_redis e
       (\<lambda>s. ((), s\<lparr>bl_redis := (bl_redis s)(jti \<mapsto> be_now e + of_int (ttl_of e expires_at))\<rparr>))
       (\<lambda>s. ((), add_in_memory e jti expires_at s)) s"

definition redis_exists :: "bl_env \<Rightarrow> string \<Rightarrow> bl_state \<Rightarrow> bool" where
  "redis_exists e jti s = (case bl_redis s jti of None \<Rightarrow> False | Some t \<Rightarrow> be_now e < t)"

definition is_token_blacklisted :: "bl_env \<Rightarrow> string \<Rightarrow> bl_state \<Rightarrow> (bool, bl_state) result" where
  "is_token_blacklisted e jti s =
     with_redis e (\<lambda>s. (redis_exists e jti s, s)) (\<lambda>s. (bl_mem s jti \<noteq> None, s)) s"

definition clear_blacklist :: "bl_env \<Rightarrow> bl_state \<Rightarrow> bl_state" where
  "clear_blacklist e s =
     (let (c, s1) = get_redis e s;
          s2 = (if c \<and> be_up e then s1\<lparr>bl_redis := Map.empty\<rparr> else s1)
      in s2\<lparr>bl_mem := Map.empty\<rparr>)"

section \<open>Lemmas\<close>

lemmas bl_defs = with_redis_def check_redis_required_def get_redis_def

lemma trunc_nonneg: "0 \<le> x \<Longrightarrow> trunc x = \<lfloor>x\<rfloor>"
  by (simp add: trunc_def)

lemma ttl_ge: "of_int (ttl_of e x) > of_int x - be_now e - 1"
proof (cases "0 \<le> of_int x - be_now e")
  case True
  have "of_int x - be_now e < of_int (ttl_of e x) + 1"
    using True floor_correct [of "of_int x - be_now e"] by (simp add: ttl_of_def trunc_nonneg max_def)
  then show ?thesis by simp
next
  case False
  have "1 \<le> ttl_of e x" by (simp add: ttl_of_def)
  with False show ?thesis by linarith
qed

lemma mem_cleanup_keeps:
  "be_now e \<le> of_int x \<Longrightarrow> bl_mem s j = Some x \<Longrightarrow> bl_mem (cleanup_expired_tokens e s) j = Some x"
  by (simp add: cleanup_expired_tokens_def)

lemma mem_cleanup_removes:
  "of_int x < be_now e \<Longrightarrow> bl_mem s j = Some x \<Longrightarrow> bl_mem (cleanup_expired_tokens e s) j = None"
  by (simp add: cleanup_expired_tokens_def)

lemma add_in_memory_new: "be_now e \<le> of_int x \<Longrightarrow> bl_mem (add_in_memory e j x s) j = Some x"
  by (simp add: add_in_memory_def Let_def mem_cleanup_keeps)

lemma add_in_memory_keeps:
  "be_now e \<le> of_int y \<Longrightarrow> bl_mem s j = Some y \<Longrightarrow> i \<noteq> j \<Longrightarrow> bl_mem (add_in_memory e i x s) j = Some y"
  by (simp add: add_in_memory_def Let_def mem_cleanup_keeps)

lemma add_in_memory_client [simp]:
  "bl_client (add_in_memory e j x s) = bl_client s" "bl_available (add_in_memory e j x s) = bl_available s"
  by (simp_all add: add_in_memory_def Let_def cleanup_expired_tokens_def)

text \<open>The two regimes in which no call raises: Redis stays up, or no Redis URL is configured.\<close>

lemma add_redis_up:
  assumes "be_up e" "be_redis_url e" "bl_available s \<noteq> Some False"
  shows "\<exists>s'. add_token_to_blacklist e j x s = (Inr (), s') \<and> bl_available s' \<noteq> Some False \<and>
    bl_redis s' = (bl_redis s)(j \<mapsto> be_now e + of_int (ttl_of e x))"
  using assms by (auto simp: add_token_to_blacklist_def bl_defs)

lemma lookup_redis_up:
  assumes "be_up e" "be_redis_url e" "bl_available s \<noteq> Some False"
  shows "\<exists>s'. is_token_blacklisted e j s = (Inr (redis_exists e j s), s') \<and>
    bl_available s' \<noteq> Some False \<and> bl_redis s' = bl_redis s"
  using assms by (auto simp: is_token_blacklisted_def bl_defs redis_exists_def)

lemma add_no_redis:
  assumes "\<not> be_redis_url e" "\<not> be_production e" "\<not> bl_client s"
  shows "add_token_to_blacklist e j x s = (Inr (), add_in_memory e j x s)"
  using assms by (simp add: add_token_to_blacklist_def bl_defs)

lemma lookup_no_redis:
  assumes "\<not> be_redis_url e" "\<not> be_production e" "\<not> bl_client s"
  shows "is_token_blacklisted e j s = (Inr (bl_mem s j \<noteq> None), s)"
  using assms by (simp add: is_token_blacklisted_def bl_defs)

section \<open>The contract of a revocation list\<close>

text \<open>
  What a caller of the module relies on: once a token is added, every lookup until its expiry,
  less a \<open>slack\<close>, reports it, whatever other tokens are added in between. \<open>covers s j x\<close> says
  that the store will report \<open>j\<close> until \<open>x\<close>, \<open>adm\<close> which calls the contract speaks of.
\<close>

locale revocation_list =
  fixes add :: "'e \<Rightarrow> string \<Rightarrow> int \<Rightarrow> 's \<Rightarrow> 's"
    and revoked :: "'e \<Rightarrow> string \<Rightarrow> 's \<Rightarrow> bool"
    and time :: "'e \<Rightarrow> rat"
    and slack :: rat
    and adm :: "'e \<Rightarrow> bool"
    and inv :: "'s \<Rightarrow> bool"
    and covers :: "'s \<Rightarrow> string \<Rightarrow> int \<Rightarrow> bool"
  assumes inv_add: "adm e \<Longrightarrow> inv s \<Longrightarrow> inv (add e j x s)"
    and add_covers: "adm e \<Longrightarrow> inv s \<Longrightarrow> time e \<le> of_int x \<Longrightarrow> covers (add e j x s) j x"
    and add_keeps: "adm e \<Longrightarrow> inv s \<Longrightarrow> time e \<le> of_int x \<Longrightarrow> covers s j x \<Longrightarrow> i \<noteq> j \<Longrightarrow>
      covers (add e i y s) j x"
    and covers_revoked: "adm e \<Longrightarrow> inv s \<Longrightarrow> covers s j x \<Longrightarrow> time e + slack \<le> of_int x \<Longrightarrow>
      revoked e j s"
begin

fun add_all :: "('e \<times> string \<times> int) list \<Rightarrow> 's \<Rightarrow> 's" where
  "add_all [] s = s"
| "add_all ((e, i, y) # cs) s = add_all cs (add e i y s)"

lemma add_all_inv: "\<forall>(e, i, y) \<in> set cs. adm e \<Longrightarrow> inv s \<Longrightarrow> inv (add_all cs s)"
  by (induction cs s rule: add_all.induct) (auto simp: inv_add)

lemma add_all_keeps:
  "\<forall>(e, i, y) \<in> set cs. adm e \<and> time e \<le> of_int x \<and> (i = j \<longrightarrow> y = x) \<Longrightarrow> inv s \<Longrightarrow>
     covers s j x \<Longrightarrow> covers (add_all cs s) j x"
proof (induction cs s rule: add_all.induct)
  case (2 e i y cs s)
  then have "covers (add e i y s) j x"
    by (cases "i = j") (auto simp: add_covers add_keeps)
  with 2 show ?case by (auto simp: inv_add)
qed simp

lemma added_stays_revoked:
  assumes "adm e" "inv s" "time e \<le> of_int x"
    and "\<forall>(e', i, y) \<in> set cs. adm e' \<and> time e' \<le> of_int x \<and> (i = j \<longrightarrow> y = x)"
    and "adm e''" "time e'' + slack \<le> of_int x"
  shows "revoked e'' j (add_all cs (add e j x s))"
proof (rule covers_revoked)
  show "inv (add_all cs (add e j x s))" using assms by (intro add_all_inv inv_add) auto
  show "covers (add_all cs (add e j x s)) j x" using assms by (intro add_all_keeps inv_add add_covers) auto
qed (use assms in auto)

end

definition bl_add :: "bl_env \<Rightarrow> string \<Rightarrow> int \<Rightarrow> bl_state \<Rightarrow> bl_state" where
  "bl_add e j x s = snd (add_token_to_blacklist e j x s)"

definition bl_revoked :: "bl_env \<Rightarrow> string \<Rightarrow> bl_state \<Rightarrow> bool" where
  "bl_revoked e j s = (fst (is_token_blacklisted e j s) = Inr True)"

fun bl_add_all :: "(bl_env \<times> string \<times> int) list \<Rightarrow> bl_state \<Rightarrow> bl_state" where
  "bl_add_all [] s = s"
| "bl_add_all ((e, i, y) # cs) s = bl_add_all cs (bl_add e i y s)"

text \<open>Redis configured and answering every call: the key outlives the token less one second.\<close>

interpretation redis: revocation_list bl_add bl_revoked be_now 1
  "\<lambda>e. be_up e \<and> be_redis_url e" "\<lambda>s. bl_available s \<noteq> Some False"
  "\<lambda>s j x. \<exists>t. bl_redis s j = Some t \<and> of_int x - 1 < t"
proof (unfold_locales, goal_cases)
  case (1 e s j x)
  then show ?case using add_redis_up [of e s j x] by (auto simp: bl_add_def)
next
  case (2 e s x j)
  then obtain s' where "bl_add e j x s = s'" "bl_redis s' = (bl_redis s)(j \<mapsto> be_now e + of_int (ttl_of e x))"
    using add_redis_up [of e s j x] by (auto simp: bl_add_def)
  with ttl_ge [of x e] show ?case by (auto simp: algebra_simps)
next
  case (3 e s x j i y)
  then show ?case using add_redis_up [of e s i y] by (auto simp: bl_add_def)
next
  case (4 e s j x)
  then show ?case using lookup_redis_up [of e s j] by (auto simp: bl_revoked_def redis_exists_def)
qed

text \<open>No Redis URL outside production: the dictionary of the process, until the expiry itself.\<close>

interpretation memory: revocation_list bl_add bl_revoked be_now 0
  "\<lambda>e. \<not> be_redis_url e \<and> \<not> be_production e" "\<lambda>s. \<not> bl_client s" "\<lambda>s j x. bl_mem s j = Some x"
  by unfold_locales
    (auto simp: bl_add_def bl_revoked_def add_no_redis lookup_no_redis add_in_memory_new add_in_memory_keeps)

lemma redis_add_all: "redis.add_all cs s = bl_add_all cs s"
  by (induction cs s rule: bl_add_all.induct) simp_all

lemma memory_add_all: "memory.add_all cs s = bl_add_all cs s"
  by (induction cs s rule: bl_add_all.induct) simp_all

text \<open>
  With Redis configured and answering, a revoked token is reported by every lookup up to one second before its
  expiry, whatever tokens are revoked in between (the same token only with the same expiry, which is fixed in the token).
\<close>

lemma redis_revokes_until_last_second:
  assumes "be_up e" "be_redis_url e" "bl_available s \<noteq> Some False" "be_now e \<le> of_int x"
    and "\<forall>(e', i, y) \<in> set cs. be_up e' \<and> be_redis_url e' \<and> be_now e' \<le> of_int x \<and> (i = j \<longrightarrow> y = x)"
    and "be_up e''" "be_redis_url e''" "be_now e'' + 1 \<le> of_int x"
  shows "bl_revoked e'' j (bl_add_all cs (bl_add e j x s))"
  using redis.added_stays_revoked [of e s x cs j e''] assms by (auto simp: redis_add_all)

lemma redis_key_kept:
  assumes "\<forall>(e', i, y) \<in> set cs. be_up e' \<and> be_redis_url e' \<and> i \<noteq> j" "bl_available s \<noteq> Some False"
  shows "bl_redis (bl_add_all cs s) j = bl_redis s j \<and> bl_available (bl_add_all cs s) \<noteq> Some False"
  using assms
proof (induction cs s rule: bl_add_all.induct)
  case (2 e i y cs s)
  obtain s' where "bl_add e i y s = s'" "bl_available s' \<noteq> Some False" "bl_redis s' = (bl_redis s)(i \<mapsto> be_now e + of_int (ttl_of e y))"
    using add_redis_up [of e s i y] 2(2,3) by (auto simp: bl_add_def)
  with 2 show ?case by auto
qed simp

lemma ttl_le: "be_now e + of_int (ttl_of e x) \<le> max (of_int x) (be_now e + 1)"
proof (cases "1 \<le> of_int x - be_now e")
  case True
  then have "ttl_of e x = \<lfloor>of_int x - be_now e\<rfloor>" by (simp add: ttl_of_def trunc_nonneg)
  then show ?thesis using of_int_floor_le [of "of_int x - be_now e"] by (simp add: le_max_iff_disj algebra_simps)
next
  case False
  then have "trunc (of_int x - be_now e) \<le> 1" unfolding trunc_def by (split if_split) linarith
  then have "ttl_of e x = 1" by (simp add: ttl_of_def max_def)
  then show ?thesis by (simp add: max_def)
qed


definition env_at :: "bool \<Rightarrow> bool \<Rightarrow> bool \<Rightarrow> rat \<Rightarrow> bl_env" where
  "env_at pr url up t = \<lparr>be_production = pr, be_redis_url = url, be_up = up, be_now = t\<rparr>"


text \<open>
  Without a Redis URL, outside production, the in-memory list reports a revoked token until
  its expiry, across additions and the clean-ups they trigger.
\<close>
theorem revoked_until_expiry_memory:
  assumes "\<not> be_redis_url e" "\<not> be_production e" "\<not> bl_client s" "be_now e \<le> of_int x"
    and "\<forall>(e', i, y) \<in> set cs. \<not> be_redis_url e' \<and> \<not> be_production e' \<and> be_now e' \<le> of_int x \<and>
      (i = j \<longrightarrow> y = x)"
    and "\<not> be_redis_url e''" "\<not> be_production e''" "be_now e'' \<le> of_int x"
  shows "bl_revoked e'' j (bl_add_all cs (bl_add e j x s))"
  using memory.added_stays_revoked [of e s x cs j e''] assms by (auto simp: memory_add_all)

lemma revoked_until_expiry_memory_witness:
  "bl_revoked (env_at False False False 9000) ''j'' (bl_add_all [(env_at False False False 8000, ''k'', 8500)]
     (bl_add (env_at False False False 10) ''j'' 9000 (bl_init 0)))"
  by (rule revoked_until_expiry_memory) (simp_all add: env_at_def bl_init_def)

section \<open>When Redis does not answer\<close>

text \<open>
  Outside production the in-memory fallback serves one call only: when the server does not
  answer, the first lookup is served from memory, and every later lookup, with the server still
  down, raises \<open>RuntimeError\<close>, because the unpinged client has been kept.
\<close>
theorem fallback_serves_one_call:
  assumes "\<not> be_production e" "be_redis_url e" "\<not> be_up e" "\<not> be_production e'" "\<not> be_up e'"
  shows "fst (is_token_blacklisted e j (bl_init t)) = Inr False \<and>
    fst (is_token_blacklisted e' k (snd (is_token_blacklisted e j (bl_init t)))) =
      Inl (RuntimeError redis_lost_message)"
  using assms by (simp add: is_token_blacklisted_def bl_defs bl_init_def)

lemma fallback_serves_one_call_witness:
  "fst (is_token_blacklisted (env_at False True False 0) ''j'' (bl_init 0)) = Inr False \<and>
   fst (is_token_blacklisted (env_at False True False 1) ''k''
     (snd (is_token_blacklisted (env_at False True False 0) ''j'' (bl_init 0)))) =
     Inl (RuntimeError redis_lost_message)"
  by (rule fallback_serves_one_call) (simp_all add: env_at_def)

text \<open>
  In production, when Redis answered at first and stops answering later, the lookup does not
  raise: it falls back to the empty dictionary of the process, and a token that was revoked in
  Redis is reported as valid.
\<close>
theorem lost_redis_forgets_revocations:
  assumes "be_redis_url e" "be_up e" "be_redis_url e'" "\<not> be_up e'"
  shows "fst (is_token_blacklisted e' j (bl_add e j x (bl_init t))) = Inr False"
  using assms by (simp add: is_token_blacklisted_def bl_add_def add_token_to_blacklist_def bl_defs bl_init_def)

lemma lost_redis_forgets_revocations_witness:
  "fst (is_token_blacklisted (env_at True True False 20) ''j''
     (bl_add (env_at True True True 10) ''j'' 100 (bl_init 0))) = Inr False"
  by (rule lost_redis_forgets_revocations) (simp_all add: env_at_def)

end
