(* ===== verification/Json.thy ===== *)
theory Json
  imports Py_Strings
begin

text \<open>
  \<open>json.loads\<close> and \<open>json.dumps\<close>, which the program uses for the quota settings of a tenant and
  for messages. A number with a fraction or an exponent is \<open>JFloat m e\<close>, the decimal
  \<open>m * 10^e\<close>; \<open>NaN\<close> and the infinities, which Python accepts, are \<open>JNonFinite\<close>. A
  \<open>\u\<close> escape is kept as its six characters, because strings here are ASCII.
  The parser runs on fuel, one unit for each nested call; each call reads at least one
  character, so \<open>loads\<close> starts with more fuel than the text has characters. The lemma
  \<open>loads_dumps_flat\<close> is the round trip for objects of integers and nulls, compact or with spaces.
\<close>

datatype json =
    JNull
  | JBool bool
  | JInt int
  | JFloat int int
  | JNonFinite
  | JStr string
  | JArr "json list"
  | JObj "(string \<times> json) list"

section \<open>Printing\<close>

definition json_escape :: "char \<Rightarrow> string" where
  "json_escape c =
     (let n = of_char c :: nat
      in if c = dquote_char \<or> c = backslash_char then [backslash_char, c]
         else if n = 8 then [backslash_char, CHR ''b'']
         else if n = 9 then [backslash_char, CHR ''t'']
         else if n = 10 then [backslash_char, CHR ''n'']
         else if n = 12 then [backslash_char, CHR ''f'']
         else if n = 13 then [backslash_char, CHR ''r'']
         else if n < 32 \<or> 127 \<le> n
           then [backslash_char, CHR ''u'', CHR ''0'', CHR ''0'', hex_digit (n div 16), hex_digit (n mod 16)]
         else [c])"

definition json_string :: "string \<Rightarrow> string" where
  "json_string s = [dquote_char] @ concat (map json_escape s) @ [dquote_char]"

fun json_dump :: "string \<Rightarrow> string \<Rightarrow> json \<Rightarrow> string" where
  "json_dump isep ksep JNull = ''null''"
| "json_dump isep ksep (JBool b) = (if b then ''true'' else ''false'')"
| "json_dump isep ksep (JInt i) = show_int i"
| "json_dump isep ksep (JFloat m e) = show_int m @ ''e'' @ show_int e"
| "json_dump isep ksep JNonFinite = ''NaN''"
| "json_dump isep ksep (JStr s) = json_string s"
| "json_dump isep ksep (JArr vs) = ''['' @ join_with isep (map (json_dump isep ksep) vs) @ '']''"
| "json_dump isep ksep (JObj ms) =
     ''{'' @ join_with isep (map (\<lambda>(k, v). json_string k @ ksep @ json_dump isep ksep v) ms) @ ''}''"

section \<open>Parsing\<close>

definition json_ws :: "char \<Rightarrow> bool" where
  "json_ws c \<longleftrightarrow> (let n = of_char c :: nat in n = 32 \<or> n = 9 \<or> n = 10 \<or> n = 13)"

definition skip_ws :: "string \<Rightarrow> string" where
  "skip_ws s = dropWhile json_ws s"

fun unescape :: "char \<Rightarrow> string option" where
  "unescape c =
     (if c = dquote_char \<or> c = backslash_char \<or> c = CHR ''/'' then Some [c]
      else if c = CHR ''b'' then Some [char_of (8 :: nat)]
      else if c = CHR ''t'' then Some [char_of (9 :: nat)]
      else if c = CHR ''n'' then Some [char_of (10 :: nat)]
      else if c = CHR ''f'' then Some [char_of (12 :: nat)]
      else if c = CHR ''r'' then Some [char_of (13 :: nat)]
      else if c = CHR ''u'' then Some [backslash_char, c]
      else None)"

fun parse_str :: "string \<Rightarrow> (string \<times> string) option" where
  "parse_str [] = None"
| "parse_str (c # s) =
     (if c = dquote_char then Some ([], s)
      else if c = backslash_char then
        (case s of [] \<Rightarrow> None
         | e # s' \<Rightarrow> (case unescape e of None \<Rightarrow> None
            | Some w \<Rightarrow> map_option (\<lambda>(t, r). (w @ t, r)) (parse_str s')))
      else if (of_char c :: nat) < 32 then None
      else map_option (\<lambda>(t, r). (c # t, r)) (parse_str s))"

definition read_exponent :: "string \<Rightarrow> (int \<times> string) option" where
  "read_exponent s =
     (case s of
        c # r \<Rightarrow>
          (if c = CHR ''e'' \<or> c = CHR ''E'' then
             (let (sg, r1) = (case r of x # r' \<Rightarrow> if x = CHR ''-'' then (- 1, r') else if x = CHR ''+'' then (1, r') else (1, r)
                              | [] \<Rightarrow> (1, []));
                  ds = takeWhile is_digit r1
              in if ds = [] then None else Some (sg * int (nat_of_digits ds), drop (length ds) r1))
           else None)
      | [] \<Rightarrow> None)"

definition parse_number :: "string \<Rightarrow> (json \<times> string) option" where
  "parse_number s =
     (let (sg, s1) = (case s of c # r \<Rightarrow> if c = CHR ''-'' then (- 1, r) else (1, s) | [] \<Rightarrow> (1, s));
          run = takeWhile is_digit s1
      in if run = [] then None
         else
           (let ds = (if hd run = CHR ''0'' then [CHR ''0''] else run);
                s2 = drop (length ds) s1;
                frac = (case s2 of c # r \<Rightarrow> if c = CHR ''.'' then takeWhile is_digit r else [] | [] \<Rightarrow> []);
                s3 = (if frac = [] then s2 else drop (Suc (length frac)) s2);
                m = sg * int (nat_of_digits (ds @ frac))
            in case read_exponent s3 of
                 Some (e, s4) \<Rightarrow> Some (JFloat m (e - int (length frac)), s4)
               | None \<Rightarrow> Some (if frac = [] then JInt m else JFloat m (- int (length frac)), s3)))"

definition parse_scalar :: "string \<Rightarrow> (json \<times> string) option" where
  "parse_scalar s =
     (if starts_with s ''null'' then Some (JNull, drop 4 s)
      else if starts_with s ''true'' then Some (JBool True, drop 4 s)
      else if starts_with s ''false'' then Some (JBool False, drop 5 s)
      else if starts_with s ''NaN'' then Some (JNonFinite, drop 3 s)
      else if starts_with s ''Infinity'' then Some (JNonFinite, drop 8 s)
      else if starts_with s ''-Infinity'' then Some (JNonFinite, drop 9 s)
      else parse_number s)"

fun parse_value :: "nat \<Rightarrow> string \<Rightarrow> (json \<times> string) option"
  and parse_items :: "nat \<Rightarrow> json list \<Rightarrow> string \<Rightarrow> (json \<times> string) option"
  and parse_members :: "nat \<Rightarrow> (string \<times> json) list \<Rightarrow> string \<Rightarrow> (json \<times> string) option" where
  "parse_value 0 s = None"
| "parse_value (Suc f) s =
     (case s of [] \<Rightarrow> None
      | c # r \<Rightarrow>
          if c = CHR ''{'' then
            (case skip_ws r of [] \<Rightarrow> None
             | x # r' \<Rightarrow> if x = CHR ''}'' then Some (JObj [], r') else parse_members f [] (x # r'))
          else if c = CHR ''['' then
            (case skip_ws r of [] \<Rightarrow> None
             | x # r' \<Rightarrow> if x = CHR '']'' then Some (JArr [], r') else parse_items f [] (x # r'))
          else if c = dquote_char then map_option (\<lambda>(t, r'). (JStr t, r')) (parse_str r)
          else parse_scalar (c # r))"
| "parse_items 0 acc s = None"
| "parse_items (Suc f) acc s =
     (case parse_value f s of None \<Rightarrow> None
      | Some (v, r) \<Rightarrow>
          (case skip_ws r of [] \<Rightarrow> None
           | c # r' \<Rightarrow>
               if c = CHR '','' then parse_items f (acc @ [v]) (skip_ws r')
               else if c = CHR '']'' then Some (JArr (acc @ [v]), r')
               else None))"
| "parse_members 0 acc s = None"
| "parse_members (Suc f) acc s =
     (case s of [] \<Rightarrow> None
      | q # r \<Rightarrow>
          if q \<noteq> dquote_char then None
          else (case parse_str r of None \<Rightarrow> None
            | Some (k, r1) \<Rightarrow>
                (case skip_ws r1 of [] \<Rightarrow> None
                 | c # r2 \<Rightarrow>
                     if c \<noteq> CHR '':'' then None
                     else (case parse_value f (skip_ws r2) of None \<Rightarrow> None
                       | Some (v, r3) \<Rightarrow>
                           (case skip_ws r3 of [] \<Rightarrow> None
                            | x # r4 \<Rightarrow>
                                if x = CHR '','' then parse_members f (acc @ [(k, v)]) (skip_ws r4)
                                else if x = CHR ''}'' then Some (JObj (acc @ [(k, v)]), r4)
                                else None)))))"

definition loads :: "string \<Rightarrow> json option" where
  "loads s =
     (case parse_value (Suc (length s)) (skip_ws s) of
        None \<Rightarrow> None
      | Some (v, r) \<Rightarrow> if skip_ws r = [] then Some v else None)"

text \<open>\<open>dict[key]\<close> of a parsed object: the last member with the key.\<close>

definition member :: "string \<Rightarrow> (string \<times> json) list \<Rightarrow> json option" where
  "member k ms = map_of (rev ms) k"

section \<open>Round trip\<close>

definition plain_key :: "string \<Rightarrow> bool" where
  "plain_key s \<longleftrightarrow> (\<forall>c \<in> set s. json_escape c = [c] \<and> c \<noteq> dquote_char \<and> c \<noteq> backslash_char \<and> 32 \<le> (of_char c :: nat))"

lemma json_string_plain: "plain_key s \<Longrightarrow> json_string s = dquote_char # s @ [dquote_char]"
proof -
  assume "plain_key s"
  then have "concat (map json_escape s) = s" by (induction s) (auto simp: plain_key_def)
  then show ?thesis by (simp add: json_string_def)
qed

lemma parse_str_plain: "plain_key s \<Longrightarrow> parse_str (s @ dquote_char # r) = Some (s, r)"
  by (induction s) (auto simp: plain_key_def)

lemma takeWhile_digits: "list_all is_digit ds \<Longrightarrow> r = [] \<or> \<not> is_digit (hd r) \<Longrightarrow> takeWhile is_digit (ds @ r) = ds"
  by (induction ds) (auto simp: takeWhile_eq_Nil_iff)

lemma digit_char_zero: "d < 10 \<Longrightarrow> digit_char d = CHR ''0'' \<longleftrightarrow> d = 0"
proof -
  assume d: "d < 10"
  have "CHR ''0'' = digit_char 0" by code_simp
  then show ?thesis using d by (metis digit_char_props(2) zero_less_numeral)
qed

lemma show_nat_hd_zero: "hd (show_nat n) = CHR ''0'' \<longleftrightarrow> n = 0"
proof (induction n rule: show_nat.induct)
  case (1 n)
  show ?case
  proof (cases "n < 10")
    case True
    then show ?thesis by (simp add: show_nat.simps [of n] digit_char_zero)
  next
    case False
    then show ?thesis using 1 show_nat_nonempty by (simp add: show_nat.simps [of n])
  qed
qed

lemma parse_number_show:
  assumes "r = [] \<or> (\<not> is_digit (hd r) \<and> hd r \<noteq> CHR ''.'' \<and> hd r \<noteq> CHR ''e'' \<and> hd r \<noteq> CHR ''E'')"
  shows "parse_number (show_int i @ r) = Some (JInt i, r)"
proof -
  have digits: "parse_number (p @ show_nat n @ r) = Some (JInt (sg * int n), r)"
    if "(p = [] \<and> sg = 1) \<or> (p = ''-'' \<and> sg = - 1)" for p sg n
  proof -
    have hd: "show_nat n \<noteq> []" "hd (show_nat n) \<noteq> CHR ''-''"
      using show_nat_nonempty [of n] show_nat_hd_digit [of n] by (auto dest: digit_not)
    have sg: "(case p @ show_nat n @ r of c # q \<Rightarrow> if c = CHR ''-'' then (- 1, q) else (1, p @ show_nat n @ r)
        | [] \<Rightarrow> (1, p @ show_nat n @ r)) = (sg, show_nat n @ r)"
      using that hd by (cases "show_nat n") auto
    have run: "takeWhile is_digit (show_nat n @ r) = show_nat n"
      using takeWhile_digits [OF show_nat_digits [of n]] assms by blast
    have ds: "(if hd (show_nat n) = CHR ''0'' then [CHR ''0''] else show_nat n) = show_nat n"
    proof -
      have "show_nat 0 = [CHR ''0'']" by code_simp
      then show ?thesis by (simp add: show_nat_hd_zero)
    qed
    have rest: "(case r of c # r \<Rightarrow> if c = CHR ''.'' then takeWhile is_digit r else [] | [] \<Rightarrow> []) = []"
        "read_exponent r = None"
      using assms by (cases r; simp add: read_exponent_def)+
    show ?thesis
      unfolding parse_number_def sg Let_def prod.case run ds
      by (simp add: rest show_nat_nonempty nat_of_digits_show)
  qed
  show ?thesis
  proof (cases "i < 0")
    case True
    then show ?thesis using digits [of "''-''" "- 1" "nat (- i)"] by (simp add: show_int_def)
  next
    case False
    then show ?thesis using digits [of "[]" 1 "nat i"] by (simp add: show_int_def)
  qed
qed

definition flat_value :: "json \<Rightarrow> bool" where
  "flat_value v \<longleftrightarrow> (case v of JNull \<Rightarrow> True | JInt _ \<Rightarrow> True | _ \<Rightarrow> False)"

definition stop_char :: "char \<Rightarrow> bool" where
  "stop_char c \<longleftrightarrow> c = CHR '','' \<or> c = CHR ''}''"

lemma dquote_chr: "dquote_char = CHR 0x22"
  by code_simp

lemma letters_no_digits:
  "\<not> is_digit CHR ''n''" "\<not> is_digit CHR ''t''" "\<not> is_digit CHR ''f''" "\<not> is_digit CHR ''N''"
  "\<not> is_digit CHR ''I''" "\<not> is_digit CHR ''-''"
  by code_simp+

lemma parse_scalar_digit:
  assumes "is_digit x"
  shows "parse_scalar (x # s) = parse_number (x # s)"
proof -
  have "x \<noteq> CHR ''n''" "x \<noteq> CHR ''t''" "x \<noteq> CHR ''f''" "x \<noteq> CHR ''N''" "x \<noteq> CHR ''I''" "x \<noteq> CHR ''-''"
    using assms letters_no_digits by metis+
  then show ?thesis by (simp add: parse_scalar_def)
qed

lemma parse_scalar_minus:
  assumes "is_digit x"
  shows "parse_scalar (CHR ''-'' # x # s) = parse_number (CHR ''-'' # x # s)"
proof -
  have "x \<noteq> CHR ''I''" using assms letters_no_digits by metis
  then show ?thesis by (simp add: parse_scalar_def)
qed

lemma parse_scalar_number: "parse_scalar (show_int i @ s) = parse_number (show_int i @ s)"
proof -
  obtain x xs where x: "show_nat (nat \<bar>i\<bar>) = x # xs" "is_digit x"
    using show_nat_nonempty [of "nat \<bar>i\<bar>"] show_nat_hd_digit [of "nat \<bar>i\<bar>"]
    by (cases "show_nat (nat \<bar>i\<bar>)") auto
  show ?thesis
  proof (cases "i < 0")
    case True
    then show ?thesis using x parse_scalar_minus [of x "xs @ s"] by (simp add: show_int_def)
  next
    case False
    then show ?thesis using x parse_scalar_digit [of x "xs @ s"] by (simp add: show_int_def)
  qed
qed

lemma parse_flat_value:
  assumes "flat_value v" "stop_char c"
  shows "parse_value (Suc f) (json_dump isep ksep v @ c # r) = Some (v, c # r)"
proof (cases v)
  case JNull
  then show ?thesis by (simp add: parse_scalar_def dquote_chr)
next
  case (JInt i)
  obtain x xs where x: "show_int i = x # xs" "x = CHR ''-'' \<or> is_digit x"
  proof -
    have "show_int i \<noteq> []" "hd (show_int i) = CHR ''-'' \<or> is_digit (hd (show_int i))"
      by (simp_all add: show_int_def show_nat_nonempty show_nat_hd_digit)
    with that show thesis by (cases "show_int i") auto
  qed
  have num: "parse_number (show_int i @ c # r) = Some (JInt i, c # r)"
    using assms(2) by (intro parse_number_show) (auto simp: stop_char_def is_digit_def)
  have scalar: "parse_scalar (show_int i @ c # r) = parse_number (show_int i @ c # r)"
    by (rule parse_scalar_number)
  have "x \<noteq> CHR ''{''" "x \<noteq> CHR ''[''" "x \<noteq> dquote_char"
    using x(2) by (auto simp: is_digit_def dquote_chr)
  then show ?thesis using JInt scalar num by (simp add: x(1))
qed (use assms(1) in \<open>simp_all add: flat_value_def\<close>)

lemma skip_ws_simps [simp]:
  "skip_ws [] = []" "skip_ws (c # s) = (if json_ws c then skip_ws s else c # s)"
  by (simp_all add: skip_ws_def)

lemma json_ws_chars [simp]:
  "json_ws CHR '' ''" "\<not> json_ws CHR '':''" "\<not> json_ws CHR '',''" "\<not> json_ws CHR ''}''"
  "\<not> json_ws dquote_char" "\<not> json_ws CHR ''{''" "\<not> json_ws CHR ''-''"
  by code_simp+

definition separators :: "string \<Rightarrow> string \<Rightarrow> bool" where
  "separators isep ksep \<longleftrightarrow> isep \<in> {'','', '', ''} \<and> ksep \<in> {'':'', '': ''}"

lemma flat_value_head:
  assumes "flat_value v"
  obtains x xs where "json_dump isep ksep v = x # xs" "\<not> json_ws x"
proof (cases v)
  case JNull
  then show thesis by (intro that) (auto simp: json_ws_def)
next
  case (JInt i)
  have "show_int i \<noteq> []" "hd (show_int i) = CHR ''-'' \<or> is_digit (hd (show_int i))"
    by (simp_all add: show_int_def show_nat_nonempty show_nat_hd_digit)
  moreover have "is_digit x \<Longrightarrow> \<not> json_ws x" for x by (auto simp: is_digit_def json_ws_def Let_def)
  ultimately show thesis using that JInt by (cases "show_int i") auto
qed (use assms in \<open>simp_all add: flat_value_def\<close>)

lemma parse_flat_members:
  assumes "separators isep ksep" "ms \<noteq> []" "\<forall>(k, v) \<in> set ms. plain_key k \<and> flat_value v"
    "2 * length ms \<le> f"
  shows "parse_members f acc
      (join_with isep (map (\<lambda>(k, v). json_string k @ ksep @ json_dump isep ksep v) ms) @ CHR ''}'' # r) =
    Some (JObj (acc @ ms), r)"
  using assms(2-4)
proof (induction ms arbitrary: f acc)
  case Nil
  then show ?case by simp
next
  case (Cons m ms)
  obtain k v where m: "m = (k, v)" by (cases m)
  with Cons.prems have kv: "plain_key k" "flat_value v" by auto
  obtain g where f: "f = Suc (Suc g)" using Cons.prems by (cases f; cases "f - 1") auto
  obtain x xs where x: "json_dump isep ksep v = x # xs" "\<not> json_ws x" by (rule flat_value_head [OF kv(2)])
  have key: "skip_ws (ksep @ json_dump isep ksep v @ t) = CHR '':'' # tl ksep @ json_dump isep ksep v @ t"
      "skip_ws (tl ksep @ json_dump isep ksep v @ t) = json_dump isep ksep v @ t" for t
    using assms(1) x by (auto simp: separators_def)
  show ?case
  proof (cases ms)
    case Nil
    have "parse_value (Suc g) (json_dump isep ksep v @ CHR ''}'' # r) = Some (v, CHR ''}'' # r)"
      using kv(2) by (rule parse_flat_value) (simp add: stop_char_def)
    then show ?thesis
      using kv by (simp add: m f Nil json_string_plain parse_str_plain key)
  next
    case (Cons m' ms')
    let ?rest = "join_with isep (map (\<lambda>(k, v). json_string k @ ksep @ json_dump isep ksep v) ms) @ CHR ''}'' # r"
    have sep: "isep @ ?rest = CHR '','' # tl isep @ ?rest" using assms(1) by (auto simp: separators_def)
    have v: "parse_value (Suc g) (json_dump isep ksep v @ CHR '','' # tl isep @ ?rest) =
        Some (v, CHR '','' # tl isep @ ?rest)"
      using kv(2) by (rule parse_flat_value) (simp add: stop_char_def)
    obtain k' v' where m': "m' = (k', v')" by (cases m')
    have "plain_key k'" using Cons.prems m' Cons by auto
    then have "skip_ws (tl isep @ ?rest) = ?rest"
      using assms(1) by (cases ms') (auto simp: separators_def Cons m' json_string_plain)
    moreover have "parse_members (Suc g) (acc @ [(k, v)]) ?rest = Some (JObj ((acc @ [(k, v)]) @ ms), r)"
      using Cons.prems Cons f by (intro Cons.IH) auto
    moreover have "join_with isep (map (\<lambda>(k, v). json_string k @ ksep @ json_dump isep ksep v) (m # ms)) @ CHR ''}'' # r =
        dquote_char # k @ dquote_char # ksep @ json_dump isep ksep v @ isep @ ?rest"
      using kv by (simp add: m Cons json_string_plain)
    ultimately show ?thesis
      using v by (simp add: f parse_str_plain kv(1) key sep m)
  qed
qed

lemma join_length: "(\<And>m. m \<in> set ms \<Longrightarrow> 2 \<le> length (g m)) \<Longrightarrow> 2 * length ms \<le> length (join_with sep (map g ms))"
proof (induction ms)
  case (Cons m ms)
  then show ?case by (cases ms) (fastforce simp: numeral_2_eq_2)+
qed simp

lemma loads_dumps_flat:
  assumes "separators isep ksep" "ms \<noteq> []" "\<forall>(k, v) \<in> set ms. plain_key k \<and> flat_value v"
  shows "loads (json_dump isep ksep (JObj ms)) = Some (JObj ms)"
proof -
  let ?body = "join_with isep (map (\<lambda>(k, v). json_string k @ ksep @ json_dump isep ksep v) ms)"
  let ?n = "length (CHR ''{'' # ?body @ ''}'')"
  have "2 * length ms \<le> length ?body"
    by (rule join_length) (auto simp: json_string_def)
  then have members: "parse_members ?n [] (?body @ CHR ''}'' # []) = Some (JObj ms, [])"
    using parse_flat_members [OF assms, of ?n "[]" "[]"] by simp
  obtain k v ms' where "ms = (k, v) # ms'" using assms(2) by (cases ms) auto
  then obtain t where "?body = dquote_char # t" by (cases ms') (auto simp: json_string_def)
  moreover have "dquote_char \<noteq> CHR ''}''" by code_simp
  ultimately have "parse_value (Suc ?n) (CHR ''{'' # ?body @ ''}'') = Some (JObj ms, [])"
    using members by simp
  then show ?thesis by (simp add: loads_def)
qed

end
