(* ===== verification/Resource_Pool.thy ===== *)
theory Resource_Pool
  imports Prelude
begin

text \<open>
  The contract of every allocator of the platform (subnets, VLAN numbers, WireGuard subnets,
  bridges): \<open>alloc\<close> takes a free key or reports that there is none, \<open>release\<close> gives one back.
  \<open>pool_run\<close> is any interleaving of the two by clients that keep what they were given in
  \<open>held\<close>; the locale proves once that no key is ever held twice and that none is lost.
  The allocators interpret the locale on their own definitions in their own theories.
\<close>

text \<open>How the keys of a class of rows change when one row of the table is updated.\<close>

lemma keys_gained:
  assumes "distinct_keys key rows" "r \<in> set rows" "g (f r) = g r" "P (f r)"
  shows "g ` {x \<in> set (upd_rows key (key r) f rows). P x} = insert (g r) (g ` {x \<in> set rows. P x})"
proof -
  have "set (upd_rows key (key r) f rows) = insert (f r) (set rows - {r})"
    using upd_rows_in_Some [OF assms(1,2)] by simp
  then have "{x \<in> set (upd_rows key (key r) f rows). P x} = insert (f r) ({x \<in> set rows. P x} - {r})"
    using assms by auto
  then have "g ` {x \<in> set (upd_rows key (key r) f rows). P x} = insert (g r) (g ` ({x \<in> set rows. P x} - {r}))"
    using assms(3) by simp
  then show ?thesis by auto
qed

lemma keys_appended:
  "g ` {x \<in> set (xs @ [r]). P x} =
    (if P r then insert (g r) (g ` {x \<in> set xs. P x}) else g ` {x \<in> set xs. P x})"
proof -
  have "{x \<in> set (xs @ [r]). P x} = (if P r then insert r {x \<in> set xs. P x} else {x \<in> set xs. P x})" by auto
  then show ?thesis by simp
qed

lemma keys_kept:
  assumes "distinct_keys key rows" "r \<in> set rows" "g (f r) = g r" "P (f r) = P r"
  shows "g ` {x \<in> set (upd_rows key (key r) f rows). P x} = g ` {x \<in> set rows. P x}"
proof (cases "P r")
  case True
  have "g r \<in> g ` {x \<in> set rows. P x}" using True assms(2) by blast
  with keys_gained [of key rows r g f P] assms True show ?thesis by (simp add: insert_absorb)
next
  case False
  have "set (upd_rows key (key r) f rows) = insert (f r) (set rows - {r})"
    using upd_rows_in_Some [OF assms(1,2)] by simp
  then have "{x \<in> set (upd_rows key (key r) f rows). P x} = {x \<in> set rows. P x}"
    using assms(4) False by auto
  then show ?thesis by simp
qed

lemma keys_lost:
  assumes "distinct_keys key rows" "r \<in> set rows" "\<not> P (f r)"
    "\<And>x. x \<in> set rows \<Longrightarrow> P x \<Longrightarrow> g x = g r \<Longrightarrow> x = r"
  shows "g ` {x \<in> set (upd_rows key (key r) f rows). P x} = g ` {x \<in> set rows. P x} - {g r}"
proof -
  have "set (upd_rows key (key r) f rows) = insert (f r) (set rows - {r})"
    using upd_rows_in_Some [OF assms(1,2)] by simp
  then have "{x \<in> set (upd_rows key (key r) f rows). P x} = {x \<in> set rows. P x} - {r}"
    using assms(3) by auto
  with assms(4) show ?thesis by auto
qed

datatype 'k pool_op = Take | Give 'k

fun pool_step ::
  "('s \<Rightarrow> ('k \<times> 's) option) \<Rightarrow> ('k \<Rightarrow> 's \<Rightarrow> 's) \<Rightarrow> 'k pool_op \<Rightarrow> 'k list \<times> 's \<Rightarrow> 'k list \<times> 's" where
  "pool_step alloc release Take (held, s) =
     (case alloc s of None \<Rightarrow> (held, s) | Some (k, s') \<Rightarrow> (k # held, s'))"
| "pool_step alloc release (Give k) (held, s) =
     (if k \<in> set held then (removeAll k held, release k s) else (held, s))"

definition pool_run ::
  "('s \<Rightarrow> ('k \<times> 's) option) \<Rightarrow> ('k \<Rightarrow> 's \<Rightarrow> 's) \<Rightarrow> 'k pool_op list \<Rightarrow> 'k list \<times> 's \<Rightarrow> 'k list \<times> 's" where
  "pool_run alloc release ops c = fold (pool_step alloc release) ops c"

lemma pool_run_simps [simp]:
  "pool_run alloc release [] c = c"
  "pool_run alloc release (x # ops) c = pool_run alloc release ops (pool_step alloc release x c)"
  by (simp_all add: pool_run_def)

locale resource_pool =
  fixes inv :: "'s \<Rightarrow> bool"
    and free :: "'s \<Rightarrow> 'k set"
    and owned :: "'s \<Rightarrow> 'k set"
    and alloc :: "'s \<Rightarrow> ('k \<times> 's) option"
    and release :: "'k \<Rightarrow> 's \<Rightarrow> 's"
  assumes free_owned: "inv s \<Longrightarrow> free s \<subseteq> owned s"
    and alloc_Some: "inv s \<Longrightarrow> alloc s = Some (k, s') \<Longrightarrow>
      k \<in> free s \<and> free s' = free s - {k} \<and> owned s' = owned s \<and> inv s'"
    and alloc_None: "inv s \<Longrightarrow> alloc s = None \<longleftrightarrow> free s = {}"
    and release: "inv s \<Longrightarrow> k \<in> owned s \<Longrightarrow>
      free (release k s) = insert k (free s) \<and> owned (release k s) = owned s \<and> inv (release k s)"
begin

definition consistent :: "'k list \<times> 's \<Rightarrow> bool" where
  "consistent c \<longleftrightarrow> inv (snd c) \<and> distinct (fst c) \<and> set (fst c) \<inter> free (snd c) = {} \<and>
     set (fst c) \<subseteq> owned (snd c)"

lemma step_consistent:
  assumes "consistent c"
  shows "consistent (pool_step alloc release x c) \<and>
    set (fst (pool_step alloc release x c)) \<union> free (snd (pool_step alloc release x c)) =
      set (fst c) \<union> free (snd c)"
proof -
  obtain held s where c: "c = (held, s)" by (cases c)
  show ?thesis
  proof (cases x)
    case Take
    show ?thesis
    proof (cases "alloc s")
      case None
      then show ?thesis using assms c Take by simp
    next
      case (Some ks)
      obtain k s' where ks: "ks = (k, s')" by (cases ks)
      have "inv s" using assms c by (simp add: consistent_def)
      with alloc_Some [of s k s'] Some ks
      have "k \<in> free s" "free s' = free s - {k}" "owned s' = owned s" "inv s'" by auto
      then show ?thesis
        using assms c Take Some ks free_owned [OF \<open>inv s\<close>] by (auto simp: consistent_def)
    qed
  next
    case (Give k)
    show ?thesis
    proof (cases "k \<in> set held")
      case True
      have "inv s" "k \<in> owned s" using assms c True by (auto simp: consistent_def)
      with release [of s k] show ?thesis
        using assms c Give True by (auto simp: consistent_def distinct_removeAll)
    next
      case False
      then show ?thesis using assms c Give by simp
    qed
  qed
qed

lemma run_consistent:
  "consistent c \<Longrightarrow> consistent (pool_run alloc release ops c) \<and>
    set (fst (pool_run alloc release ops c)) \<union> free (snd (pool_run alloc release ops c)) =
      set (fst c) \<union> free (snd c)"
proof (induction ops arbitrary: c)
  case Nil
  then show ?case by simp
next
  case (Cons x ops)
  from step_consistent [OF Cons.prems] Cons.IH show ?case by fastforce
qed

lemma no_double_allocation:
  assumes "inv s"
  shows "distinct (fst (pool_run alloc release ops ([], s)))"
    and "set (fst (pool_run alloc release ops ([], s))) \<inter> free (snd (pool_run alloc release ops ([], s))) = {}"
    and "set (fst (pool_run alloc release ops ([], s))) \<union> free (snd (pool_run alloc release ops ([], s))) = free s"
  using run_consistent [of "([], s)" ops] assms by (simp_all add: consistent_def)

lemma alloc_succeeds: "inv s \<Longrightarrow> free s \<noteq> {} \<Longrightarrow> \<exists>k s'. alloc s = Some (k, s') \<and> k \<in> free s"
  using alloc_None [of s] alloc_Some [of s] by (cases "alloc s") auto

end

end
