(* ===== verification/Networks.thy ===== *)
theory Networks
  imports Iam_Api Resource_Pool
begin

text \<open>
  Subnets, VLAN numbers and tenant networks: \<open>app/services/ipam.py\<close> and
  \<open>app/api/networks.py\<close>.

  \<open>SELECT ... FOR UPDATE SKIP LOCKED\<close> passes over the rows locked by concurrent transactions: their
  ids are the argument \<open>lk\<close> of the allocators. The allocators interpret \<open>resource_pool\<close>.
  A handler that raises before its \<open>db.commit()\<close> leaves the database as it was, so it returns the
  state \<open>d\<close> it started from. The hypervisor call of \<open>create_network\<close> is wrapped in
  \<open>try ... except\<close> that only logs, so its outcome does not appear.
\<close>

section \<open>Allocation (services/ipam.py)\<close>

definition free_subnet :: "int set \<Rightarrow> string \<Rightarrow> ip_pool_row \<Rightarrow> bool" where
  "free_subnet lk pool_name r \<longleftrightarrow>
     ipp_pool r = pool_name \<and> ipp_status r = ''free'' \<and> ipp_id r \<notin> lk"

definition take_subnet :: "int \<Rightarrow> ip_pool_row \<Rightarrow> ip_pool_row" where
  "take_subnet now r = r\<lparr>ipp_status := ''allocated'', ipp_allocated_at := Some now\<rparr>"

fun allocate_from ::
  "string list \<Rightarrow> int set \<Rightarrow> int \<Rightarrow> db \<Rightarrow> py_exc + ip_pool_row \<times> db" where
  "allocate_from [] lk now d = Inl (ValueError ''IP space exhausted across all pools'')"
| "allocate_from (p # ps) lk now d =
     (case first_row (free_subnet lk p) (ip_pool d) of
        Some r \<Rightarrow> Inr (take_subnet now r,
          d\<lparr>ip_pool := upd_rows ipp_id (ipp_id r) (take_subnet now) (ip_pool d)\<rparr>)
      | None \<Rightarrow> allocate_from ps lk now d)"

definition allocate_subnet :: "int set \<Rightarrow> int \<Rightarrow> db \<Rightarrow> py_exc + ip_pool_row \<times> db" where
  "allocate_subnet lk now d = allocate_from [''safe'', ''overflow''] lk now d"

definition free_vlan :: "int set \<Rightarrow> int \<Rightarrow> vlan_row \<Rightarrow> bool" where
  "free_vlan lk pod r \<longleftrightarrow> vl_pod_id r = pod \<and> vl_status r = ''free'' \<and> vl_id r \<notin> lk"

definition take_vlan :: "vlan_row \<Rightarrow> vlan_row" where
  "take_vlan r = r\<lparr>vl_status := ''allocated''\<rparr>"

definition allocate_vlan :: "int set \<Rightarrow> int \<Rightarrow> db \<Rightarrow> py_exc + vlan_row \<times> db" where
  "allocate_vlan lk pod d =
     (case first_row (free_vlan lk pod) (vlans d) of
        None \<Rightarrow> Inl (ValueError (''Pod '' @ show_int pod @ '' has no free VLAN IDs''))
      | Some r \<Rightarrow> Inr (take_vlan r, d\<lparr>vlans := upd_rows vl_id (vl_id r) take_vlan (vlans d)\<rparr>))"

definition give_subnet :: "ip_pool_row \<Rightarrow> ip_pool_row" where
  "give_subnet r = r\<lparr>ipp_status := ''free'', ipp_tenant_network_id := None, ipp_allocated_at := None\<rparr>"

definition release_subnet :: "int \<Rightarrow> db \<Rightarrow> db" where
  "release_subnet i d = d\<lparr>ip_pool := upd_rows ipp_id i give_subnet (ip_pool d)\<rparr>"

definition give_vlan :: "vlan_row \<Rightarrow> vlan_row" where
  "give_vlan r = r\<lparr>vl_status := ''free'', vl_tenant_network_id := None\<rparr>"

definition release_vlan :: "int \<Rightarrow> int \<Rightarrow> db \<Rightarrow> db" where
  "release_vlan pod vid d =
     (case first_row (\<lambda>r. vl_pod_id r = pod \<and> vl_vlan_id r = vid) (vlans d) of
        None \<Rightarrow> d
      | Some r \<Rightarrow> d\<lparr>vlans := upd_rows vl_id (vl_id r) give_vlan (vlans d)\<rparr>)"

lemma take_give_sel [row_simps, simp]:
  "ipp_id (take_subnet now r) = ipp_id r" "ipp_pool (take_subnet now r) = ipp_pool r"
  "ipp_status (take_subnet now r) = ''allocated''" "ipp_cidr (take_subnet now r) = ipp_cidr r"
  "ipp_gateway_ip (take_subnet now r) = ipp_gateway_ip r"
  "ipp_id (give_subnet r) = ipp_id r" "ipp_pool (give_subnet r) = ipp_pool r"
  "ipp_status (give_subnet r) = ''free''" "ipp_cidr (give_subnet r) = ipp_cidr r"
  "vl_id (take_vlan v) = vl_id v" "vl_pod_id (take_vlan v) = vl_pod_id v"
  "vl_vlan_id (take_vlan v) = vl_vlan_id v" "vl_status (take_vlan v) = ''allocated''"
  "vl_id (give_vlan v) = vl_id v" "vl_pod_id (give_vlan v) = vl_pod_id v"
  "vl_vlan_id (give_vlan v) = vl_vlan_id v" "vl_status (give_vlan v) = ''free''"
  by (simp_all add: take_subnet_def give_subnet_def take_vlan_def give_vlan_def)

section \<open>The allocators as resource pools\<close>

definition managed :: "ip_pool_row \<Rightarrow> bool" where
  "managed r \<longleftrightarrow> ipp_pool r \<in> {''safe'', ''overflow''}"

definition subnet_ids :: "db \<Rightarrow> int set" where
  "subnet_ids d = ipp_id ` {r \<in> set (ip_pool d). managed r}"

definition free_subnet_ids :: "db \<Rightarrow> int set" where
  "free_subnet_ids d = ipp_id ` {r \<in> set (ip_pool d). managed r \<and> ipp_status r = ''free''}"

definition vlan_numbers :: "int \<Rightarrow> db \<Rightarrow> int set" where
  "vlan_numbers pod d = vl_vlan_id ` {r \<in> set (vlans d). vl_pod_id r = pod}"

definition free_vlan_numbers :: "int \<Rightarrow> db \<Rightarrow> int set" where
  "free_vlan_numbers pod d = vl_vlan_id ` {r \<in> set (vlans d). vl_pod_id r = pod \<and> vl_status r = ''free''}"

definition vlans_wf :: "db \<Rightarrow> bool" where
  "vlans_wf d \<longleftrightarrow> distinct_keys vl_id (vlans d) \<and> distinct_keys (\<lambda>r. (vl_pod_id r, vl_vlan_id r)) (vlans d)"

text \<open>The key of the granted row, and the state, of a successful allocation.\<close>

definition granted :: "('r \<Rightarrow> 'k) \<Rightarrow> py_exc + 'r \<times> db \<Rightarrow> ('k \<times> db) option" where
  "granted key r = (case r of Inl _ \<Rightarrow> None | Inr (x, d) \<Rightarrow> Some (key x, d))"

lemma granted_simps [row_simps, simp]:
  "granted key (Inl e) = None" "granted key (Inr (x, d)) = Some (key x, d)"
  by (simp_all add: granted_def)

lemma granted_None: "granted key r = None \<longleftrightarrow> (\<exists>e. r = Inl e)"
  by (cases r) auto

lemma allocate_from_Inr:
  "allocate_from ps lk now d = Inr (x, d') \<Longrightarrow>
    \<exists>r p. p \<in> set ps \<and> r \<in> set (ip_pool d) \<and> free_subnet lk p r \<and> x = take_subnet now r \<and>
      d' = d\<lparr>ip_pool := upd_rows ipp_id (ipp_id r) (take_subnet now) (ip_pool d)\<rparr>"
proof (induction ps)
  case (Cons p ps)
  show ?case
  proof (cases "first_row (free_subnet lk p) (ip_pool d)")
    case None
    with Cons show ?thesis by fastforce
  next
    case (Some r)
    with Cons.prems first_row_Some [OF Some] show ?thesis by auto
  qed
qed simp

lemma allocate_from_Inl:
  "allocate_from ps lk now d = Inl e \<longleftrightarrow>
    e = ValueError ''IP space exhausted across all pools'' \<and>
    (\<forall>p \<in> set ps. \<forall>r \<in> set (ip_pool d). \<not> free_subnet lk p r)"
proof (induction ps)
  case (Cons p ps)
  show ?case
  proof (cases "first_row (free_subnet lk p) (ip_pool d)")
    case None
    then have "\<forall>r \<in> set (ip_pool d). \<not> free_subnet lk p r" by (simp add: first_row_None)
    with None Cons show ?thesis by auto
  next
    case (Some r)
    with first_row_Some [OF Some] show ?thesis by auto
  qed
qed auto

lemma allocate_subnet_Inl:
  "allocate_subnet lk now d = Inl e \<Longrightarrow> r \<in> set (ip_pool d) \<Longrightarrow> managed r \<Longrightarrow> ipp_status r = ''free'' \<Longrightarrow>
    ipp_id r \<in> lk"
  unfolding allocate_subnet_def allocate_from_Inl by (auto simp: free_subnet_def managed_def)

lemma allocate_subnet_Inr:
  assumes "allocate_subnet lk now d = Inr (x, d')"
  obtains r where "r \<in> set (ip_pool d)" "managed r" "ipp_status r = ''free''" "ipp_id r \<notin> lk"
    "x = take_subnet now r" "d' = d\<lparr>ip_pool := upd_rows ipp_id (ipp_id r) (take_subnet now) (ip_pool d)\<rparr>"
  using allocate_from_Inr [of "[''safe'', ''overflow'']" lk now d x d'] assms
  by (auto simp: allocate_subnet_def free_subnet_def managed_def)

lemma allocate_vlan_Inr:
  assumes "allocate_vlan lk pod d = Inr (x, d')"
  obtains r where "r \<in> set (vlans d)" "vl_pod_id r = pod" "vl_status r = ''free''" "vl_id r \<notin> lk"
    "x = take_vlan r" "d' = d\<lparr>vlans := upd_rows vl_id (vl_id r) take_vlan (vlans d)\<rparr>"
  using assms by (auto simp: allocate_vlan_def free_vlan_def split: option.splits dest!: first_row_Some)

lemma allocate_vlan_Inl:
  "(\<exists>e. allocate_vlan lk pod d = Inl e) \<longleftrightarrow> (\<forall>r \<in> set (vlans d). \<not> free_vlan lk pod r)"
  by (auto simp: allocate_vlan_def first_row_None split: option.splits dest: first_row_Some)

interpretation subnets: resource_pool "\<lambda>d. distinct_keys ipp_id (ip_pool d)" free_subnet_ids subnet_ids
  "\<lambda>d. granted ipp_id (allocate_subnet {} now d)" release_subnet for now :: int
proof
  fix d :: db and k d'
  assume inv: "distinct_keys ipp_id (ip_pool d)"
  show "free_subnet_ids d \<subseteq> subnet_ids d" by (auto simp: free_subnet_ids_def subnet_ids_def)
  show "granted ipp_id (allocate_subnet {} now d) = None \<longleftrightarrow> free_subnet_ids d = {}"
  proof (cases "allocate_subnet {} now d")
    case (Inl e)
    then show ?thesis using allocate_subnet_Inl [OF Inl] by (auto simp: free_subnet_ids_def)
  next
    case (Inr x)
    then obtain y d1 where "allocate_subnet {} now d = Inr (y, d1)" by (cases x) auto
    then show ?thesis by (elim allocate_subnet_Inr) (auto simp: Inr free_subnet_ids_def granted_None)
  qed
  show "k \<in> free_subnet_ids d \<and> free_subnet_ids d' = free_subnet_ids d - {k} \<and>
      subnet_ids d' = subnet_ids d \<and> distinct_keys ipp_id (ip_pool d')"
    if got: "granted ipp_id (allocate_subnet {} now d) = Some (k, d')"
  proof -
    obtain x where x: "allocate_subnet {} now d = Inr (x, d')" "k = ipp_id x"
      using got by (auto simp: granted_def split: sum.splits)
    from x(1) obtain r where r: "r \<in> set (ip_pool d)" "managed r" "ipp_status r = ''free''"
        "x = take_subnet now r" "d' = d\<lparr>ip_pool := upd_rows ipp_id (ipp_id r) (take_subnet now) (ip_pool d)\<rparr>"
      by (rule allocate_subnet_Inr)
    have "free_subnet_ids d' = free_subnet_ids d - {ipp_id r}"
      unfolding free_subnet_ids_def r(5) using distinct_keys_eq [OF inv _ r(1)]
      by (simp, intro keys_lost inv r(1)) auto
    moreover have "subnet_ids d' = subnet_ids d"
      unfolding subnet_ids_def r(5)
      by (simp, intro keys_kept inv r(1)) (simp_all add: managed_def)
    ultimately show ?thesis
      using r x(2) inv by (auto simp: free_subnet_ids_def distinct_keys_upd_rows)
  qed
next
  fix d :: db and k
  assume inv: "distinct_keys ipp_id (ip_pool d)" and "k \<in> subnet_ids d"
  then obtain r where r: "r \<in> set (ip_pool d)" "managed r" "k = ipp_id r" by (auto simp: subnet_ids_def)
  have "free_subnet_ids (release_subnet k d) = insert (ipp_id r) (free_subnet_ids d)"
    unfolding free_subnet_ids_def release_subnet_def r(3)
    by (simp, intro keys_gained inv r(1)) (use r(2) in \<open>simp_all add: managed_def\<close>)
  moreover have "subnet_ids (release_subnet k d) = subnet_ids d"
    unfolding subnet_ids_def release_subnet_def r(3)
    by (simp, intro keys_kept inv r(1)) (simp_all add: managed_def)
  ultimately show "free_subnet_ids (release_subnet k d) = insert k (free_subnet_ids d) \<and>
      subnet_ids (release_subnet k d) = subnet_ids d \<and> distinct_keys ipp_id (ip_pool (release_subnet k d))"
    using r(3) inv by (simp add: release_subnet_def distinct_keys_upd_rows)
qed

interpretation vlan_pool: resource_pool vlans_wf "free_vlan_numbers pod" "vlan_numbers pod"
  "\<lambda>d. granted vl_vlan_id (allocate_vlan {} pod d)" "release_vlan pod" for pod :: int
proof
  fix d :: db and k d'
  assume wf: "vlans_wf d"
  then have inv: "distinct_keys vl_id (vlans d)" "distinct_keys (\<lambda>r. (vl_pod_id r, vl_vlan_id r)) (vlans d)"
    by (simp_all add: vlans_wf_def)
  show "free_vlan_numbers pod d \<subseteq> vlan_numbers pod d" by (auto simp: free_vlan_numbers_def vlan_numbers_def)
  show "granted vl_vlan_id (allocate_vlan {} pod d) = None \<longleftrightarrow> free_vlan_numbers pod d = {}"
  proof (cases "allocate_vlan {} pod d")
    case (Inl e)
    then show ?thesis using allocate_vlan_Inl [of "{}" pod d] by (auto simp: free_vlan_numbers_def free_vlan_def)
  next
    case (Inr x)
    then obtain y d1 where "allocate_vlan {} pod d = Inr (y, d1)" by (cases x) auto
    then show ?thesis by (elim allocate_vlan_Inr) (auto simp: Inr free_vlan_numbers_def granted_None)
  qed
  show "k \<in> free_vlan_numbers pod d \<and> free_vlan_numbers pod d' = free_vlan_numbers pod d - {k} \<and>
      vlan_numbers pod d' = vlan_numbers pod d \<and> vlans_wf d'"
    if got: "granted vl_vlan_id (allocate_vlan {} pod d) = Some (k, d')"
  proof -
    obtain x where x: "allocate_vlan {} pod d = Inr (x, d')" "k = vl_vlan_id x"
      using got by (auto simp: granted_def split: sum.splits)
    from x(1) obtain r where r: "r \<in> set (vlans d)" "vl_pod_id r = pod" "vl_status r = ''free''"
        "x = take_vlan r" "d' = d\<lparr>vlans := upd_rows vl_id (vl_id r) take_vlan (vlans d)\<rparr>"
      by (rule allocate_vlan_Inr)
    have "free_vlan_numbers pod d' = free_vlan_numbers pod d - {vl_vlan_id r}"
      unfolding free_vlan_numbers_def r(5) using r(2) distinct_keys_eq [OF inv(2) _ r(1)]
      by (simp, intro keys_lost inv(1) r(1)) auto
    moreover have "vlan_numbers pod d' = vlan_numbers pod d"
      unfolding vlan_numbers_def r(5) by (simp, intro keys_kept inv(1) r(1)) simp_all
    ultimately show ?thesis
      using r x(2) inv by (auto simp: free_vlan_numbers_def vlans_wf_def distinct_keys_upd_rows)
  qed
next
  fix d :: db and k
  assume wf: "vlans_wf d" and "k \<in> vlan_numbers pod d"
  then have inv: "distinct_keys vl_id (vlans d)" "distinct_keys (\<lambda>r. (vl_pod_id r, vl_vlan_id r)) (vlans d)"
    by (simp_all add: vlans_wf_def)
  obtain r0 where r0: "r0 \<in> set (vlans d)" "vl_pod_id r0 = pod" "vl_vlan_id r0 = k"
    using \<open>k \<in> vlan_numbers pod d\<close> by (auto simp: vlan_numbers_def)
  then obtain r where fr: "first_row (\<lambda>r. vl_pod_id r = pod \<and> vl_vlan_id r = k) (vlans d) = Some r"
    by (metis (mono_tags, lifting) first_row_ex)
  then have r: "r \<in> set (vlans d)" "vl_pod_id r = pod" "vl_vlan_id r = k" by (auto dest: first_row_Some)
  have rel: "release_vlan pod k d = d\<lparr>vlans := upd_rows vl_id (vl_id r) give_vlan (vlans d)\<rparr>"
    using fr by (simp add: release_vlan_def)
  have "free_vlan_numbers pod (release_vlan pod k d) = insert (vl_vlan_id r) (free_vlan_numbers pod d)"
    unfolding free_vlan_numbers_def rel by (simp, intro keys_gained inv(1) r(1)) (use r(2) in simp_all)
  moreover have "vlan_numbers pod (release_vlan pod k d) = vlan_numbers pod d"
    unfolding vlan_numbers_def rel by (simp, intro keys_kept inv(1) r(1)) simp_all
  ultimately show "free_vlan_numbers pod (release_vlan pod k d) = insert k (free_vlan_numbers pod d) \<and>
      vlan_numbers pod (release_vlan pod k d) = vlan_numbers pod d \<and> vlans_wf (release_vlan pod k d)"
    using r inv by (simp add: rel vlans_wf_def distinct_keys_upd_rows)
qed

section \<open>Endpoints (api/networks.py)\<close>

definition list_networks :: "tenant \<Rightarrow> db \<Rightarrow> int \<times> tenant_network list" where
  "list_networks ct d =
     (let ns = filter (\<lambda>n. n_tenant_id n = t_id ct) (networks d) in (int (length ns), ns))"

definition find_network :: "int \<Rightarrow> tenant \<Rightarrow> db \<Rightarrow> tenant_network option" where
  "find_network i ct d = first_row (\<lambda>n. n_id n = i \<and> n_tenant_id n = t_id ct) (networks d)"

definition get_network :: "int \<Rightarrow> tenant \<Rightarrow> db \<Rightarrow> (tenant_network, db) result" where
  "get_network i ct d =
     (case find_network i ct d of None \<Rightarrow> http 404 ''Network not found'' d | Some n \<Rightarrow> ok n d)"

definition get_network_logs :: "int \<Rightarrow> tenant \<Rightarrow> db \<Rightarrow> (string list \<times> int, db) result" where
  "get_network_logs i ct d =
     (case find_network i ct d of None \<Rightarrow> http 404 ''Network not found'' d | Some n \<Rightarrow> ok ([], i) d)"

definition network_audit :: "request \<Rightarrow> tenant \<Rightarrow> user \<Rightarrow> string \<Rightarrow> int \<Rightarrow> string \<Rightarrow> audit_entry" where
  "network_audit req ct cu act i nm =
     with_request req (Some (t_id ct))
       ((audit_event (audit_action act) ''network'' cu)\<lparr>a_target_id := Some i, a_target_name := Some nm\<rparr>)"

text \<open>
  The dash of the message for a tenant without a pod is an ASCII one here.
  \<open>network.id\<close> is still \<open>None\<close> when it is copied to the subnet and VLAN rows: the row gets its id
  at the flush of \<open>db.commit()\<close>.
\<close>

definition additional_network :: "tenant \<Rightarrow> string \<Rightarrow> int \<Rightarrow> tenant_network \<Rightarrow> ip_pool_row \<Rightarrow> vlan_row \<Rightarrow> int \<Rightarrow> tenant_network" where
  "additional_network ct name pod dn sub vl i =
     \<lparr>n_id = i, n_tenant_id = t_id ct, n_pod_id = pod, n_ip_pool_id = Some (ipp_id sub),
      n_cidr = ipp_cidr sub, n_gateway_ip = ipp_gateway_ip sub, n_vlan_id = Some (vl_vlan_id vl),
      n_name = name, n_is_default = False, n_status = ''pending'', n_provider_ref = n_provider_ref dn,
      n_opnsense_interface = None\<rparr>"

definition create_network ::
  "user \<Rightarrow> request \<Rightarrow> tenant \<Rightarrow> string \<Rightarrow> db \<Rightarrow> (tenant_network, db) result" where
  "create_network cu req ct name d =
     (if \<not> truthy_id (t_pod_id ct)
      then http 400 ''Tenant not fully provisioned - no pod assigned'' d
      else case allocate_subnet {} (req_now req) d of
        Inl e \<Rightarrow> raise e d
      | Inr (sub, d1) \<Rightarrow>
          (case allocate_vlan {} (the (t_pod_id ct)) d1 of
             Inl e \<Rightarrow> raise e d
           | Inr (vl, d2) \<Rightarrow>
               (case first_row (\<lambda>n. n_tenant_id n = t_id ct \<and> n_is_default n) (networks d2) of
                  None \<Rightarrow> http 400 ''Tenant has no default network'' d
                | Some dn \<Rightarrow>
                    (let n = additional_network ct name (the (t_pod_id ct)) dn sub vl (next_id TNetworks d2);
                         d3 = bump_seq TNetworks (d2\<lparr>networks := networks d2 @ [n],
                           ip_pool := upd_rows ipp_id (ipp_id sub) (\<lambda>r. r\<lparr>ipp_tenant_network_id := None\<rparr>) (ip_pool d2),
                           vlans := upd_rows vl_id (vl_id vl) (\<lambda>r. r\<lparr>vl_tenant_network_id := None\<rparr>) (vlans d2)\<rparr>);
                         d4 = send_task (CreateOpnsenseVlan (t_id ct) (vl_vlan_id vl) (ipp_gateway_ip sub) 24) d3
                     in ok n (log_audit_event
                          ((network_audit req ct cu ''NETWORK_CREATE'' (n_id n) (n_name n))
                             \<lparr>a_new_value := Some (''cidr='' @ n_cidr n @ '',vlan_id='' @ show_opt show_int (n_vlan_id n) @
                                '',gateway='' @ n_gateway_ip n)\<rparr>) None d4)))))"

definition delete_network ::
  "user \<Rightarrow> request \<Rightarrow> tenant \<Rightarrow> int \<Rightarrow> db \<Rightarrow> (unit, db) result" where
  "delete_network cu req ct i d =
     (case find_network i ct d of
        None \<Rightarrow> http 404 ''Network not found'' d
      | Some n \<Rightarrow>
          (if n_is_default n then http 400 ''Cannot delete the default network'' d
           else
             (let d1 = (if truthy_id (n_ip_pool_id n) then release_subnet (the (n_ip_pool_id n)) d else d);
                  d2 = (if truthy_id (n_vlan_id n) then release_vlan (n_pod_id n) (the (n_vlan_id n)) d1 else d1);
                  d3 = d2\<lparr>networks := upd_rows n_id i (\<lambda>x. x\<lparr>n_status := ''deleted''\<rparr>) (networks d2)\<rparr>
              in ok () (log_audit_event
                   ((network_audit req ct cu ''NETWORK_DELETE'' i (n_name n))
                      \<lparr>a_old_value := Some (''cidr='' @ n_cidr n)\<rparr>) None d3))))"

section \<open>No two networks share a subnet or a VLAN\<close>

definition live :: "tenant_network \<Rightarrow> bool" where
  "live n \<longleftrightarrow> n_status n \<noteq> ''deleted''"

definition backed :: "db \<Rightarrow> tenant_network \<Rightarrow> bool" where
  "backed d n \<longleftrightarrow>
     (\<forall>i. n_ip_pool_id n = Some i \<longrightarrow>
        (\<exists>r \<in> set (ip_pool d). ipp_id r = i \<and> ipp_status r \<noteq> ''free'' \<and> ipp_cidr r = n_cidr n)) \<and>
     (\<forall>v. n_vlan_id n = Some v \<longrightarrow>
        (\<exists>r \<in> set (vlans d). vl_pod_id r = n_pod_id n \<and> vl_vlan_id r = v \<and> vl_status r \<noteq> ''free''))"

definition shares :: "tenant_network \<Rightarrow> tenant_network \<Rightarrow> bool" where
  "shares n m \<longleftrightarrow> (n_ip_pool_id n \<noteq> None \<and> n_ip_pool_id n = n_ip_pool_id m) \<or>
     (n_vlan_id n \<noteq> None \<and> n_vlan_id n = n_vlan_id m \<and> n_pod_id n = n_pod_id m)"

definition networks_wf :: "db \<Rightarrow> bool" where
  "networks_wf d \<longleftrightarrow>
     distinct_keys n_id (networks d) \<and> (\<forall>n \<in> set (networks d). n_id n < seqs d TNetworks) \<and>
     distinct_keys ipp_id (ip_pool d) \<and> distinct_keys ipp_cidr (ip_pool d) \<and> vlans_wf d \<and>
     (\<forall>n \<in> set (networks d). live n \<longrightarrow> backed d n) \<and>
     (\<forall>n \<in> set (networks d). \<forall>m \<in> set (networks d). live n \<longrightarrow> live m \<longrightarrow> shares n m \<longrightarrow> n = m)"

text \<open>\<open>backed\<close> survives updates of rows that were free, and updates that keep key, status and CIDR.\<close>

lemma backed_ip_pool:
  assumes "backed d n" "\<And>r. r \<in> set (ip_pool d) \<Longrightarrow> ipp_id r = k \<Longrightarrow> n_ip_pool_id n = Some k \<Longrightarrow>
      ipp_status (f r) \<noteq> ''free''"
    and "\<And>r. ipp_id (f r) = ipp_id r" "\<And>r. ipp_cidr (f r) = ipp_cidr r"
  shows "backed (d\<lparr>ip_pool := upd_rows ipp_id k f (ip_pool d)\<rparr>) n"
proof -
  have "\<exists>r \<in> set (upd_rows ipp_id k f (ip_pool d)). ipp_id r = i \<and> ipp_status r \<noteq> ''free'' \<and> ipp_cidr r = n_cidr n"
    if i: "n_ip_pool_id n = Some i" for i
  proof -
    obtain r where r: "r \<in> set (ip_pool d)" "ipp_id r = i" "ipp_status r \<noteq> ''free''" "ipp_cidr r = n_cidr n"
      using assms(1) i by (auto simp: backed_def)
    show ?thesis
    proof (cases "i = k")
      case True
      then show ?thesis
        using r assms(2) [OF r(1)] i upd_rows_hit [of r "ip_pool d" ipp_id k f] assms(3,4) by (intro bexI [of _ "f r"]) auto
    next
      case False
      then show ?thesis using r upd_rows_other [of r "ip_pool d" ipp_id k f] by (intro bexI [of _ r]) auto
    qed
  qed
  with assms(1) show ?thesis by (simp add: backed_def)
qed

lemma backed_vlans:
  assumes "backed d n" "\<And>r. r \<in> set (vlans d) \<Longrightarrow> vl_id r = k \<Longrightarrow> n_pod_id n = vl_pod_id r \<Longrightarrow>
      n_vlan_id n = Some (vl_vlan_id r) \<Longrightarrow> vl_status r \<noteq> ''free'' \<Longrightarrow> vl_status (f r) \<noteq> ''free''"
    and "\<And>r. vl_pod_id (f r) = vl_pod_id r" "\<And>r. vl_vlan_id (f r) = vl_vlan_id r"
  shows "backed (d\<lparr>vlans := upd_rows vl_id k f (vlans d)\<rparr>) n"
proof -
  have "\<exists>r \<in> set (upd_rows vl_id k f (vlans d)). vl_pod_id r = n_pod_id n \<and> vl_vlan_id r = v \<and> vl_status r \<noteq> ''free''"
    if v: "n_vlan_id n = Some v" for v
  proof -
    obtain r where r: "r \<in> set (vlans d)" "vl_pod_id r = n_pod_id n" "vl_vlan_id r = v" "vl_status r \<noteq> ''free''"
      using assms(1) v by (auto simp: backed_def)
    show ?thesis
    proof (cases "vl_id r = k")
      case True
      then show ?thesis
        using r assms(2) [OF r(1)] v upd_rows_hit [of r "vlans d" vl_id k f] assms(3,4) by (intro bexI [of _ "f r"]) auto
    next
      case False
      then show ?thesis using r upd_rows_other [of r "vlans d" vl_id k f] by (intro bexI [of _ r]) auto
    qed
  qed
  with assms(1) show ?thesis by (simp add: backed_def)
qed

lemma backed_code [code]:
  "backed d n \<longleftrightarrow>
     (case n_ip_pool_id n of None \<Rightarrow> True | Some i \<Rightarrow>
        (\<exists>r \<in> set (ip_pool d). ipp_id r = i \<and> ipp_status r \<noteq> ''free'' \<and> ipp_cidr r = n_cidr n)) \<and>
     (case n_vlan_id n of None \<Rightarrow> True | Some v \<Rightarrow>
        (\<exists>r \<in> set (vlans d). vl_pod_id r = n_pod_id n \<and> vl_vlan_id r = v \<and> vl_status r \<noteq> ''free''))"
  by (simp add: backed_def split: option.split)

lemma backed_subnet: "backed d n \<Longrightarrow> n_ip_pool_id n = Some i \<Longrightarrow>
    \<exists>r \<in> set (ip_pool d). ipp_id r = i \<and> ipp_cidr r = n_cidr n"
  by (auto simp: backed_def)

lemma backed_frame: "ip_pool d' = ip_pool d \<Longrightarrow> vlans d' = vlans d \<Longrightarrow> backed d' n = backed d n"
  by (simp add: backed_def)

definition linked_subnet :: "int \<Rightarrow> ip_pool_row \<Rightarrow> ip_pool_row" where
  "linked_subnet now r = (take_subnet now r)\<lparr>ipp_tenant_network_id := None\<rparr>"

definition linked_vlan :: "vlan_row \<Rightarrow> vlan_row" where
  "linked_vlan r = (take_vlan r)\<lparr>vl_tenant_network_id := None\<rparr>"

lemma linked_sel [row_simps, simp]:
  "ipp_id (linked_subnet now r) = ipp_id r" "ipp_cidr (linked_subnet now r) = ipp_cidr r"
  "ipp_status (linked_subnet now r) = ''allocated''" "ipp_tenant_network_id (linked_subnet now r) = None"
  "vl_id (linked_vlan v) = vl_id v" "vl_pod_id (linked_vlan v) = vl_pod_id v"
  "vl_vlan_id (linked_vlan v) = vl_vlan_id v" "vl_status (linked_vlan v) = ''allocated''"
  "vl_tenant_network_id (linked_vlan v) = None"
  by (simp_all add: linked_subnet_def linked_vlan_def)

lemma upd_rows_twice: "(\<And>r. key (g r) = key r) \<Longrightarrow> upd_rows key k f (upd_rows key k g rows) = upd_rows key k (\<lambda>r. f (g r)) rows"
  by (induction rows) auto

lemma create_network_ok:
  assumes "create_network cu req ct name d = (Inr n, d')"
  obtains s v dn where "s \<in> set (ip_pool d)" "ipp_status s = ''free''" "managed s"
    "v \<in> set (vlans d)" "vl_status v = ''free''" "t_pod_id ct = Some (vl_pod_id v)"
    "n = additional_network ct name (vl_pod_id v) dn s v (seqs d TNetworks)"
    "networks d' = networks d @ [n]" "seqs d' = (seqs d)(TNetworks := seqs d TNetworks + 1)"
    "ip_pool d' = upd_rows ipp_id (ipp_id s) (linked_subnet (req_now req)) (ip_pool d)"
    "vlans d' = upd_rows vl_id (vl_id v) linked_vlan (vlans d)"
    "dn \<in> set (networks d)" "n_tenant_id dn = t_id ct" "n_is_default dn"
    "queue d' = queue d @ [CreateOpnsenseVlan (t_id ct) (vl_vlan_id v) (ipp_gateway_ip s) 24]"
proof -
  obtain sub d1 where sub: "allocate_subnet {} (req_now req) d = Inr (sub, d1)" "truthy_id (t_pod_id ct)"
    using assms by (auto simp: create_network_def split: if_splits sum.splits)
  obtain vl d2 where vl: "allocate_vlan {} (the (t_pod_id ct)) d1 = Inr (vl, d2)"
    using assms sub by (auto simp: create_network_def split: sum.splits)
  from sub(1) obtain s where s: "s \<in> set (ip_pool d)" "managed s" "ipp_status s = ''free''"
      "sub = take_subnet (req_now req) s"
      "d1 = d\<lparr>ip_pool := upd_rows ipp_id (ipp_id s) (take_subnet (req_now req)) (ip_pool d)\<rparr>"
    by (rule allocate_subnet_Inr)
  from vl obtain v where v: "v \<in> set (vlans d1)" "vl_pod_id v = the (t_pod_id ct)" "vl_status v = ''free''"
      "vl = take_vlan v" "d2 = d1\<lparr>vlans := upd_rows vl_id (vl_id v) take_vlan (vlans d1)\<rparr>"
    by (rule allocate_vlan_Inr)
  obtain dn where dn: "first_row (\<lambda>n. n_tenant_id n = t_id ct \<and> n_is_default n) (networks d) = Some dn"
    using assms sub vl s(5) v(5) by (auto simp: create_network_def split: option.splits)
  have pod: "t_pod_id ct = Some (vl_pod_id v)" using sub(2) v(2) by (auto simp: truthy_id_def split: option.splits)
  have dn2: "first_row (\<lambda>n. n_tenant_id n = t_id ct \<and> n_is_default n) (networks d2) = Some dn"
    using dn s(5) v(5) by simp
  let ?n = "additional_network ct name (vl_pod_id v) dn sub vl (next_id TNetworks d2)"
  obtain e where n: "n = ?n" and d': "d' = log_audit_event e None
      (send_task (CreateOpnsenseVlan (t_id ct) (vl_vlan_id vl) (ipp_gateway_ip sub) 24)
        (bump_seq TNetworks (d2\<lparr>networks := networks d2 @ [?n],
           ip_pool := upd_rows ipp_id (ipp_id sub) (\<lambda>r. r\<lparr>ipp_tenant_network_id := None\<rparr>) (ip_pool d2),
           vlans := upd_rows vl_id (vl_id vl) (\<lambda>r. r\<lparr>vl_tenant_network_id := None\<rparr>) (vlans d2)\<rparr>)))"
    using assms sub(2) by (fastforce simp: create_network_def sub(1) vl [unfolded pod option.sel] dn2 Let_def pod)
  have n': "n = additional_network ct name (vl_pod_id v) dn s v (seqs d TNetworks)"
    unfolding n by (simp add: additional_network_def s(4,5) v(4,5) next_id_def)
  note dn3 = first_row_Some [OF dn]
  show thesis
  proof (rule that [OF s(1,3,2) _ v(3) pod n'])
    show "v \<in> set (vlans d)" using v(1) s(5) by simp
    show "networks d' = networks d @ [n]" unfolding d' n by (simp add: s(5) v(5))
    show "seqs d' = (seqs d)(TNetworks := seqs d TNetworks + 1)"
      unfolding d' by (simp add: s(5) v(5) bump_seq_def)
    show "ip_pool d' = upd_rows ipp_id (ipp_id s) (linked_subnet (req_now req)) (ip_pool d)"
      unfolding d' by (simp add: s(4,5) v(5) upd_rows_twice linked_subnet_def [abs_def])
    show "vlans d' = upd_rows vl_id (vl_id v) linked_vlan (vlans d)"
      unfolding d' by (simp add: s(5) v(4,5) upd_rows_twice linked_vlan_def [abs_def])
    show "queue d' = queue d @ [CreateOpnsenseVlan (t_id ct) (vl_vlan_id v) (ipp_gateway_ip s) 24]"
      unfolding d' by (simp add: s(4,5) v(4,5))
  qed (use dn3 in simp_all)
qed

lemma delete_network_ok:
  assumes "delete_network cu req ct i d = (Inr (), d')"
  obtains n where "find_network i ct d = Some n" "\<not> n_is_default n"
    "networks d' = upd_rows n_id i (\<lambda>x. x\<lparr>n_status := ''deleted''\<rparr>) (networks d)" "seqs d' = seqs d"
    "ip_pool d' = (if truthy_id (n_ip_pool_id n) then upd_rows ipp_id (the (n_ip_pool_id n)) give_subnet (ip_pool d)
       else ip_pool d)"
    "vlans d' = (if truthy_id (n_vlan_id n) then vlans (release_vlan (n_pod_id n) (the (n_vlan_id n)) d) else vlans d)"
proof -
  obtain n where n: "find_network i ct d = Some n" "\<not> n_is_default n"
    using assms by (auto simp: delete_network_def split: option.splits if_splits)
  then show thesis
    using that [of n] assms
    by (auto simp: delete_network_def Let_def release_subnet_def release_vlan_def split: option.splits)
qed


lemma create_preserves_wf:
  assumes wf: "networks_wf d" and c: "create_network cu req ct name d = (Inr n, d')"
  shows "networks_wf d'"
proof -
  from c obtain s v dn where e: "s \<in> set (ip_pool d)" "ipp_status s = ''free''"
    "v \<in> set (vlans d)" "vl_status v = ''free''"
    "n = additional_network ct name (vl_pod_id v) dn s v (seqs d TNetworks)"
    "networks d' = networks d @ [n]" "seqs d' = (seqs d)(TNetworks := seqs d TNetworks + 1)"
    "ip_pool d' = upd_rows ipp_id (ipp_id s) (linked_subnet (req_now req)) (ip_pool d)"
    "vlans d' = upd_rows vl_id (vl_id v) linked_vlan (vlans d)"
    by (elim create_network_ok)
  have unique: "r \<in> set (ip_pool d) \<Longrightarrow> ipp_id r = ipp_id s \<Longrightarrow> ipp_status r = ''free''"
      "q \<in> set (vlans d) \<Longrightarrow> vl_pod_id q = vl_pod_id v \<Longrightarrow> vl_vlan_id q = vl_vlan_id v \<Longrightarrow> vl_status q = ''free''"
    for r q
    using distinct_keys_eq [of ipp_id "ip_pool d" r s] e(1-4) wf
      distinct_keys_eq [of "\<lambda>r. (vl_pod_id r, vl_vlan_id r)" "vlans d" q v]
    by (auto simp: networks_wf_def vlans_wf_def)
  have old: "backed d m" "n_ip_pool_id m \<noteq> Some (ipp_id s)"
      "\<not> (n_pod_id m = vl_pod_id v \<and> n_vlan_id m = Some (vl_vlan_id v))"
    if "m \<in> set (networks d)" "live m" for m
  proof -
    show b: "backed d m" using wf that by (auto simp: networks_wf_def)
    show "n_ip_pool_id m \<noteq> Some (ipp_id s)"
      using b unique by (auto simp: backed_def)
    show "\<not> (n_pod_id m = vl_pod_id v \<and> n_vlan_id m = Some (vl_vlan_id v))"
      using b unique by (auto simp: backed_def)
  qed
  let ?d1 = "d\<lparr>ip_pool := ip_pool d'\<rparr>"
  have step: "backed d' m" if "backed d m" for m
  proof -
    have "backed ?d1 m" unfolding e(8) by (rule backed_ip_pool [OF that]) simp_all
    then have "backed (?d1\<lparr>vlans := upd_rows vl_id (vl_id v) linked_vlan (vlans ?d1)\<rparr>) m"
      by (rule backed_vlans) simp_all
    then show ?thesis by (rule iffD1 [OF backed_frame, rotated -1]) (simp_all add: e(8,9))
  qed
  have rows: "linked_subnet (req_now req) s \<in> set (ip_pool d')" "linked_vlan v \<in> set (vlans d')"
    unfolding e(8,9) using e(1,3) by (simp_all add: upd_rows_hit)
  have "backed d' n"
    unfolding backed_def
  proof (intro conjI allI impI)
    fix i assume "n_ip_pool_id n = Some i"
    then show "\<exists>r \<in> set (ip_pool d'). ipp_id r = i \<and> ipp_status r \<noteq> ''free'' \<and> ipp_cidr r = n_cidr n"
      by (intro bexI [OF _ rows(1)]) (simp add: e(5) additional_network_def)
  next
    fix w assume "n_vlan_id n = Some w"
    then show "\<exists>r \<in> set (vlans d'). vl_pod_id r = n_pod_id n \<and> vl_vlan_id r = w \<and> vl_status r \<noteq> ''free''"
      by (intro bexI [OF _ rows(2)]) (simp add: e(5) additional_network_def)
  qed
  moreover have "\<not> shares n m" "\<not> shares m n" if "m \<in> set (networks d)" "live m" for m
    using old [OF that] by (auto simp: shares_def e(5) additional_network_def)
  moreover have nid: "n_id n = seqs d TNetworks" by (simp add: e(5) additional_network_def)
  moreover have "distinct_keys n_id (networks d')" "\<forall>m \<in> set (networks d'). n_id m < seqs d' TNetworks"
    using wf nid by (force simp: networks_wf_def e(6,7) distinct_keys_append)+
  moreover have "distinct_keys ipp_id (ip_pool d')" "distinct_keys ipp_cidr (ip_pool d')" "vlans_wf d'"
    using wf by (simp_all add: networks_wf_def vlans_wf_def e(8,9) distinct_keys_upd_rows)
  moreover have "m = m'" if "m \<in> set (networks d)" "m' \<in> set (networks d)" "live m" "live m'" "shares m m'" for m m'
    using wf that by (simp add: networks_wf_def)
  ultimately show ?thesis
    using step old(1) unfolding networks_wf_def e(6) by auto
qed

lemma delete_preserves_wf:
  assumes wf: "networks_wf d" and del: "delete_network cu req ct i d = (Inr (), d')"
    and lv: "\<forall>n. find_network i ct d = Some n \<longrightarrow> live n"
  shows "networks_wf d'"
proof -
  from del obtain n where e: "find_network i ct d = Some n"
    "networks d' = upd_rows n_id i (\<lambda>x. x\<lparr>n_status := ''deleted''\<rparr>) (networks d)" "seqs d' = seqs d"
    "ip_pool d' = (if truthy_id (n_ip_pool_id n) then upd_rows ipp_id (the (n_ip_pool_id n)) give_subnet (ip_pool d)
       else ip_pool d)"
    "vlans d' = (if truthy_id (n_vlan_id n) then vlans (release_vlan (n_pod_id n) (the (n_vlan_id n)) d) else vlans d)"
    by (elim delete_network_ok)
  have n: "n \<in> set (networks d)" "n_id n = i" "live n"
    using e(1) lv by (auto simp: find_network_def dest: first_row_Some)
  have inv: "distinct_keys n_id (networks d)" "vlans_wf d" using wf by (auto simp: networks_wf_def)
  have nets: "set (networks d') = insert (n\<lparr>n_status := ''deleted''\<rparr>) (set (networks d) - {n})"
    using upd_rows_in_Some [OF inv(1) n(1)] n(2) by (simp add: e(2))
  have other: "\<not> shares n m" "\<not> shares m n" "backed d m" if "m \<in> set (networks d)" "m \<noteq> n" "live m" for m
    using wf n that by (auto simp: networks_wf_def)
  have "backed d' m" if m: "m \<in> set (networks d)" "m \<noteq> n" "live m" for m
  proof -
    let ?d1 = "d\<lparr>ip_pool := ip_pool d'\<rparr>"
    have 1: "backed ?d1 m"
    proof (cases "truthy_id (n_ip_pool_id n)")
      case True
      show ?thesis unfolding e(4) if_P [OF True]
        by (rule backed_ip_pool [OF other(3) [OF m]])
          (use other(1) [OF m] True in \<open>auto simp: shares_def truthy_id_def split: option.splits\<close>)
    qed (use other(3) [OF m] in \<open>simp add: e(4) backed_def\<close>)
    show ?thesis
    proof (cases "truthy_id (n_vlan_id n) \<and> release_vlan (n_pod_id n) (the (n_vlan_id n)) d \<noteq> d")
      case True
      then obtain r where fr: "first_row (\<lambda>r. vl_pod_id r = n_pod_id n \<and> vl_vlan_id r = the (n_vlan_id n)) (vlans d) = Some r"
        by (auto simp: release_vlan_def split: option.splits)
      then have r: "r \<in> set (vlans d)" "vl_pod_id r = n_pod_id n" "vl_vlan_id r = the (n_vlan_id n)"
        by (auto dest: first_row_Some)
      have v: "vlans d' = upd_rows vl_id (vl_id r) give_vlan (vlans ?d1)"
        using True fr by (simp add: e(5) release_vlan_def)
      have "backed (?d1\<lparr>vlans := upd_rows vl_id (vl_id r) give_vlan (vlans ?d1)\<rparr>) m"
      proof (rule backed_vlans [OF 1])
        fix q assume q: "q \<in> set (vlans ?d1)" "vl_id q = vl_id r" "n_pod_id m = vl_pod_id q"
          "n_vlan_id m = Some (vl_vlan_id q)"
        have "q = r" using distinct_keys_eq [of vl_id "vlans d" q r] inv(2) q r by (simp add: vlans_wf_def)
        with q r other(1) [OF m] True show "vl_status (give_vlan q) \<noteq> ''free''"
          by (auto simp: shares_def truthy_id_def split: option.splits)
      qed simp_all
      then show ?thesis by (rule iffD1 [OF backed_frame, rotated -1]) (simp_all add: v)
    next
      case False
      then have "vlans d' = vlans d" by (auto simp: e(5))
      with 1 show ?thesis by (simp add: backed_def)
    qed
  qed
  moreover have "vlans_wf d'"
    using inv(2) by (auto simp: e(5) vlans_wf_def release_vlan_def distinct_keys_upd_rows split: option.splits)
  ultimately show ?thesis
    using wf nets
    by (auto simp: networks_wf_def e(2-4) distinct_keys_upd_rows live_def n(1))
qed


section \<open>Any sequence of calls\<close>

text \<open>
  Calls by any tenants' users, in any order; a deletion is of a network that is not yet deleted.
\<close>

inductive net_reach :: "db \<Rightarrow> db \<Rightarrow> bool" where
  start: "net_reach d d"
| create: "net_reach d d' \<Longrightarrow> net_reach d (snd (create_network cu req ct name d'))"
| delete: "net_reach d d' \<Longrightarrow> \<forall>n. find_network i ct d' = Some n \<longrightarrow> live n \<Longrightarrow>
    net_reach d (snd (delete_network cu req ct i d'))"

lemma create_network_atomic: "atomic (create_network cu req ct name d) d"
  unfolding create_network_def by simp

lemma delete_network_atomic: "atomic (delete_network cu req ct i d) d"
  unfolding delete_network_def by simp

lemma net_reach_wf: "net_reach d d' \<Longrightarrow> networks_wf d \<Longrightarrow> networks_wf d'"
proof (induction rule: net_reach.induct)
  case (start d)
  then show ?case .
next
  case (create d d' cu req ct name)
  show ?case
  proof (cases "create_network cu req ct name d'")
    case (Pair r d2)
    then show ?thesis
      using create create_preserves_wf [of d' cu req ct name _ d2] atomicD [OF create_network_atomic, of cu req ct name d']
      by (cases r) auto
  qed
next
  case (delete d d' i ct cu req)
  show ?case
  proof (cases "delete_network cu req ct i d'")
    case (Pair r d2)
    then show ?thesis
      using delete delete_preserves_wf [of d' cu req ct i d2] atomicD [OF delete_network_atomic, of cu req ct i d']
      by (cases r) auto
  qed
qed

text \<open>
  C5: network isolation: through any sequence of network creations and deletions by any tenants,
  two different networks that are not deleted have different subnet rows and different (pod, VLAN)
  pairs, and their CIDRs differ.
\<close>
theorem networks_never_share:
  assumes "net_reach d d'" "networks_wf d" "n \<in> set (networks d')" "m \<in> set (networks d')"
    "live n" "live m" "n \<noteq> m"
  shows "\<not> shares n m \<and> (n_ip_pool_id n \<noteq> None \<and> n_ip_pool_id m \<noteq> None \<longrightarrow> n_cidr n \<noteq> n_cidr m)"
proof -
  have wf: "networks_wf d'" using net_reach_wf assms(1,2) by blast
  then have ns: "\<not> shares n m" and b: "backed d' n" "backed d' m"
    using assms(3-7) by (auto simp: networks_wf_def)
  have "n_cidr n \<noteq> n_cidr m" if ids: "n_ip_pool_id n = Some i" "n_ip_pool_id m = Some j" for i j
  proof
    assume eq: "n_cidr n = n_cidr m"
    obtain r q where "r \<in> set (ip_pool d')" "ipp_id r = i" "ipp_cidr r = n_cidr n"
        "q \<in> set (ip_pool d')" "ipp_id q = j" "ipp_cidr q = n_cidr m"
      using backed_subnet [OF b(1) ids(1)] backed_subnet [OF b(2) ids(2)] by metis
    then have "i = j" using wf eq distinct_keys_eq [of ipp_cidr "ip_pool d'" r q] by (auto simp: networks_wf_def)
    with ns ids show False by (simp add: shares_def)
  qed
  with ns show ?thesis by auto
qed

text \<open>
  \<open>delete_network\<close> does not look at the status: deleting a network a second time frees its
  subnet row again, although the row has meanwhile been given to another live network, which keeps
  using it.
\<close>
theorem second_delete_frees_reused_subnet:
  assumes "find_network i ct d = Some n" "\<not> n_is_default n" "n_ip_pool_id n = Some k" "k \<noteq> 0"
    "m \<in> set (networks d)" "n_id m \<noteq> i" "live m" "n_ip_pool_id m = Some k"
    "k \<in> subnet_ids d" "distinct_keys ipp_id (ip_pool d)"
  shows "fst (delete_network cu req ct i d) = Inr () \<and>
    k \<in> free_subnet_ids (snd (delete_network cu req ct i d)) \<and>
    m \<in> set (networks (snd (delete_network cu req ct i d)))"
proof -
  have ok: "fst (delete_network cu req ct i d) = Inr ()"
    using assms by (simp add: delete_network_def Let_def)
  then obtain d' where d': "delete_network cu req ct i d = (Inr (), d')"
    by (metis prod.collapse)
  then obtain n' where e: "find_network i ct d = Some n'"
    "networks d' = upd_rows n_id i (\<lambda>x. x\<lparr>n_status := ''deleted''\<rparr>) (networks d)"
    "ip_pool d' = (if truthy_id (n_ip_pool_id n') then upd_rows ipp_id (the (n_ip_pool_id n')) give_subnet (ip_pool d)
       else ip_pool d)"
    by (elim delete_network_ok)
  have "ip_pool d' = ip_pool (release_subnet k d)"
    using e assms by (simp add: truthy_id_def release_subnet_def)
  then have "free_subnet_ids d' = insert k (free_subnet_ids d)"
    using subnets.release [OF assms(10,9)] by (simp add: free_subnet_ids_def)
  moreover have "m \<in> set (networks d')" using assms(5,6) by (simp add: e(2) upd_rows_other)
  ultimately show ?thesis using d' by simp
qed

text \<open>
  The back references are never set: \<open>network.id\<close> is read before the flush, so after a
  successful creation the subnet row and the VLAN row of the network carry no network id.
\<close>
theorem network_rows_not_linked:
  assumes "create_network cu req ct name d = (Inr n, d')" "r \<in> set (ip_pool d')"
    "n_ip_pool_id n = Some (ipp_id r)"
  shows "ipp_tenant_network_id r = None \<and> ipp_status r = ''allocated''"
  using assms(1)
proof (rule create_network_ok)
  fix s v dn
  assume n: "n = additional_network ct name (vl_pod_id v) dn s v (seqs d TNetworks)"
    and rows: "ip_pool d' = upd_rows ipp_id (ipp_id s) (linked_subnet (req_now req)) (ip_pool d)"
  have "ipp_id r = ipp_id s" using assms(3) by (simp add: n additional_network_def)
  moreover have "r \<in> {r \<in> set (ip_pool d). ipp_id r \<noteq> ipp_id s} \<union>
      linked_subnet (req_now req) ` {r \<in> set (ip_pool d). ipp_id r = ipp_id s}"
    using assms(2) by (simp add: rows set_upd_rows)
  ultimately obtain q where "r = linked_subnet (req_now req) q" by blast
  then show ?thesis by simp
qed

text \<open>
  Two transactions that allocate from the same committed state, the second one skipping the rows
  the first has locked, get different subnets; a subnet of the overflow pool is given only when
  the safe pool has no row that is free and not locked.
\<close>
theorem concurrent_subnets_differ:
  assumes "allocate_subnet lk now d = Inr (s, d1)" "allocate_subnet (insert (ipp_id s) lk) now' d = Inr (s', d2)"
  shows "ipp_id s \<noteq> ipp_id s' \<and>
    (ipp_pool s = ''overflow'' \<longrightarrow> (\<forall>r \<in> set (ip_pool d). ipp_pool r = ''safe'' \<longrightarrow> ipp_status r = ''free'' \<longrightarrow> ipp_id r \<in> lk))"
proof -
  have "ipp_id s \<noteq> ipp_id s'" using assms(2) by (elim allocate_subnet_Inr) auto
  moreover have "ipp_id r \<in> lk" if "ipp_pool s = ''overflow''" "r \<in> set (ip_pool d)" "ipp_pool r = ''safe''"
    "ipp_status r = ''free''" for r
  proof (cases "first_row (free_subnet lk ''safe'') (ip_pool d)")
    case None
    then show ?thesis using that by (auto simp: first_row_None free_subnet_def)
  next
    case (Some q)
    with assms(1) that(1) first_row_Some [OF Some] show ?thesis
      by (auto simp: allocate_subnet_def free_subnet_def)
  qed
  ultimately show ?thesis by blast
qed

text \<open>
  C14: whatever sequence of allocations and returns of subnets (of the managed pools) or of VLAN
  numbers of a pod is performed, nothing is held twice, nothing held is free, and nothing is lost.
\<close>
theorem allocators_never_hand_out_twice:
  assumes "distinct_keys ipp_id (ip_pool d)" "vlans_wf d"
  shows "(let (held, d') = pool_run (\<lambda>d. granted ipp_id (allocate_subnet {} now d)) release_subnet ops ([], d)
          in distinct held \<and> set held \<inter> free_subnet_ids d' = {} \<and> set held \<union> free_subnet_ids d' = free_subnet_ids d) \<and>
    (let (held, d') = pool_run (\<lambda>d. granted vl_vlan_id (allocate_vlan {} pod d)) (release_vlan pod) ops' ([], d)
          in distinct held \<and> set held \<inter> free_vlan_numbers pod d' = {} \<and>
             set held \<union> free_vlan_numbers pod d' = free_vlan_numbers pod d)"
  using subnets.no_double_allocation [OF assms(1), of now ops] vlan_pool.no_double_allocation [OF assms(2), of pod ops']
  by (simp add: case_prod_beta Let_def)


section \<open>Witnesses\<close>

definition net_tenant :: tenant where
  "net_tenant = (new_tenant 1 ''One'' ''one'')\<lparr>t_pod_id := Some 1\<rparr>"

definition net_user :: user where
  "net_user = new_user 1 ''ann'' ''ann@x.io'' ''h'' None (Some 1)"

definition net_db :: db where
  "net_db = (bump_seq TNetworks empty_db)\<lparr>
     tenants := [net_tenant],
     ip_pool := map (\<lambda>(i, c). \<lparr>ipp_id = i, ipp_cidr = c, ipp_gateway_ip = c, ipp_pool = ''safe'',
        ipp_status = ''free'', ipp_tenant_network_id = None, ipp_allocated_at = None\<rparr>)
        [(1, ''172.16.0.0/24''), (2, ''172.16.1.0/24'')],
     vlans := map (\<lambda>i. \<lparr>vl_id = i, vl_pod_id = 1, vl_vlan_id = 9 + i, vl_status = ''free'', vl_tenant_network_id = None\<rparr>)
        [1, 2, 3],
     networks := [\<lparr>n_id = 1, n_tenant_id = 1, n_pod_id = 1, n_ip_pool_id = None, n_cidr = ''lan'', n_gateway_ip = ''gw'',
        n_vlan_id = None, n_name = ''default'', n_is_default = True, n_status = ''active'',
        n_provider_ref = Some ''vmbr100'', n_opnsense_interface = None\<rparr>]\<rparr>"

definition net_create :: "string \<Rightarrow> db \<Rightarrow> db" where
  "net_create name d = snd (create_network net_user (plain_request [] 0) net_tenant name d)"

definition net_delete :: "int \<Rightarrow> db \<Rightarrow> db" where
  "net_delete i d = snd (delete_network net_user (plain_request [] 0) net_tenant i d)"

lemma net_db_wf: "networks_wf net_db"
  by code_simp

lemma networks_never_share_witness:
  "let d' = net_create ''b'' (net_create ''a'' net_db)
   in n_cidr (networks d' ! 1) \<noteq> n_cidr (networks d' ! 2)"
proof -
  let ?d = "net_create ''b'' (net_create ''a'' net_db)"
  have r: "net_reach net_db ?d" unfolding net_create_def by (intro net_reach.intros)
  have len: "length (networks ?d) = 3" by code_simp
  then have mem: "networks ?d ! 1 \<in> set (networks ?d)" "networks ?d ! 2 \<in> set (networks ?d)" by simp_all
  have "live (networks ?d ! 1) \<and> live (networks ?d ! 2) \<and> networks ?d ! 1 \<noteq> networks ?d ! 2 \<and>
      n_ip_pool_id (networks ?d ! 1) \<noteq> None \<and> n_ip_pool_id (networks ?d ! 2) \<noteq> None" by code_simp
  with networks_never_share [OF r net_db_wf mem] show ?thesis by (simp add: Let_def)
qed

lemma second_delete_frees_reused_subnet_witness:
  "let d = net_create ''b'' (net_delete 2 (net_create ''a'' net_db))
   in 1 \<in> free_subnet_ids (net_delete 2 d) \<and>
      networks d ! 2 \<in> set (networks (net_delete 2 d)) \<and> live (networks d ! 2)"
proof -
  let ?d = "net_create ''b'' (net_delete 2 (net_create ''a'' net_db))"
  have f: "find_network 2 net_tenant ?d = Some (networks ?d ! 1)" by code_simp
  have n: "\<not> n_is_default (networks ?d ! 1)" "n_ip_pool_id (networks ?d ! 1) = Some 1" by code_simp+
  have m: "n_id (networks ?d ! 2) \<noteq> 2" "live (networks ?d ! 2)" "n_ip_pool_id (networks ?d ! 2) = Some 1"
    "length (networks ?d) = 3" "1 \<in> subnet_ids ?d" "distinct_keys ipp_id (ip_pool ?d)" by code_simp+
  from second_delete_frees_reused_subnet [OF f n _ _ m(1-3,5,6), of net_user "plain_request [] 0"] m(2,4)
  show ?thesis by (simp add: net_delete_def Let_def)
qed

lemma network_rows_not_linked_witness:
  "ipp_tenant_network_id (ip_pool (net_create ''a'' net_db) ! 0) = None"
proof -
  let ?c = "create_network net_user (plain_request [] 0) net_tenant ''a'' net_db"
  have "is_ok ?c \<and> n_ip_pool_id (projr (fst ?c)) = Some (ipp_id (ip_pool (snd ?c) ! 0)) \<and> ip_pool (snd ?c) \<noteq> []"
    by code_simp
  then obtain n d' where c: "?c = (Inr n, d')" "n_ip_pool_id n = Some (ipp_id (ip_pool d' ! 0))" "ip_pool d' \<noteq> []"
    by (auto simp: is_ok_conv)
  from network_rows_not_linked [OF c(1) _ c(2)] c(1,3) show ?thesis by (simp add: net_create_def)
qed

lemma concurrent_subnets_differ_witness:
  "ipp_id (fst (projr (allocate_subnet {} 0 net_db))) \<noteq> ipp_id (fst (projr (allocate_subnet {1} 5 net_db)))"
proof -
  have "\<exists>s d1 s' d2. allocate_subnet {} 0 net_db = Inr (s, d1) \<and> ipp_id s = 1 \<and>
      allocate_subnet {1} 5 net_db = Inr (s', d2)"
    by (simp add: allocate_subnet_def net_db_def free_subnet_def)
  then obtain s d1 s' d2 where a: "allocate_subnet {} 0 net_db = Inr (s, d1)"
      "allocate_subnet (insert (ipp_id s) {}) 5 net_db = Inr (s', d2)" "ipp_id s = 1" by auto
  from concurrent_subnets_differ [OF a(1,2)] a show ?thesis by simp
qed

lemma allocators_never_hand_out_twice_witness:
  "distinct (fst (pool_run (\<lambda>d. granted ipp_id (allocate_subnet {} 0 d)) release_subnet
     [Take, Give 1, Take, Take] ([], net_db)))"
proof -
  have "distinct_keys ipp_id (ip_pool net_db)" "vlans_wf net_db" by code_simp+
  from allocators_never_hand_out_twice [OF this, of 0 "[Take, Give 1, Take, Take]" 1 "[]"]
  show ?thesis by (simp add: case_prod_beta Let_def)
qed

end
