(* ===== verification/Quota.thy ===== *)
theory Quota
  imports Json Networks
begin

text \<open>
  Resource quotas: \<open>app/services/quota.py\<close> and \<open>QuotaSettings\<close> of \<open>app/schemas/tenant.py\<close>.

  The settings are JSON text in a column of the tenant. Disk sizes in GB are
  \<open>round(mb / 1024, 1)\<close>; they are kept in tenths, so \<open>us_disk_gb10\<close> is
  \<open>round_div (10 * mb) 1024\<close>, and a limit of \<open>m\<close> GB is \<open>10 * m\<close>. The percentages of
  \<open>get_quota_status\<close>, which are only displayed, are left out.
\<close>

section \<open>Settings (schemas/tenant.py)\<close>

record quota =
  q_max_vms :: "int option"
  q_max_cpu_cores :: "int option"
  q_max_ram_mb :: "int option"
  q_max_disk_gb :: "int option"
  q_max_networks :: "int option"

definition no_quota :: quota where
  "no_quota = \<lparr>q_max_vms = None, q_max_cpu_cores = None, q_max_ram_mb = None, q_max_disk_gb = None,
     q_max_networks = None\<rparr>"

definition model_dump :: "quota \<Rightarrow> (string \<times> json) list" where
  "model_dump q =
     (let j = (\<lambda>x. case x of None \<Rightarrow> JNull | Some i \<Rightarrow> JInt i)
      in [(''max_vms'', j (q_max_vms q)), (''max_cpu_cores'', j (q_max_cpu_cores q)),
          (''max_ram_mb'', j (q_max_ram_mb q)), (''max_disk_gb'', j (q_max_disk_gb q)),
          (''max_networks'', j (q_max_networks q))])"

definition to_settings_json :: "quota \<Rightarrow> string" where
  "to_settings_json q = json_dump '', '' '': '' (JObj (model_dump q))"

definition model_dump_json :: "quota \<Rightarrow> string" where
  "model_dump_json q = json_dump '','' '':'' (JObj (model_dump q))"

text \<open>
  One field: the \<open>mode='before'\<close> validator compares the raw value with 0, which is a
  \<open>TypeError\<close> for text, arrays and objects; then pydantic converts booleans and whole floats.
\<close>

datatype field_outcome = Accepted "int option" | Rejected | TypeFault

definition validate_positive_or_null :: "json \<Rightarrow> field_outcome" where
  "validate_positive_or_null v =
     (case v of
        JNull \<Rightarrow> Accepted None
      | JBool b \<Rightarrow> Accepted (Some (if b then 1 else 0))
      | JInt i \<Rightarrow> if i < 0 then Rejected else Accepted (Some i)
      | JFloat m e \<Rightarrow>
          if m < 0 then Rejected
          else if 0 \<le> e then Accepted (Some (m * 10 ^ nat e))
          else if m mod 10 ^ nat (- e) = 0 then Accepted (Some (m div 10 ^ nat (- e)))
          else Rejected
      | JNonFinite \<Rightarrow> Rejected
      | _ \<Rightarrow> TypeFault)"

definition field :: "string \<Rightarrow> (string \<times> json) list \<Rightarrow> field_outcome" where
  "field k ms = (case member k ms of None \<Rightarrow> Accepted None | Some v \<Rightarrow> validate_positive_or_null v)"

definition accepted :: "field_outcome \<Rightarrow> int option" where
  "accepted f = (case f of Accepted x \<Rightarrow> x | _ \<Rightarrow> None)"

definition from_settings_json :: "string option \<Rightarrow> py_exc + quota" where
  "from_settings_json s =
     (if \<not> truthy s then Inr no_quota
      else case loads (the s) of
        None \<Rightarrow> Inr no_quota
      | Some (JObj ms) \<Rightarrow>
          (let fs = map (\<lambda>k. field k ms)
             [''max_vms'', ''max_cpu_cores'', ''max_ram_mb'', ''max_disk_gb'', ''max_networks'']
           in if TypeFault \<in> set fs then Inr no_quota
              else if Rejected \<in> set fs then Inl (ValueError ''Value must be positive or null'')
              else Inr \<lparr>q_max_vms = accepted (fs ! 0), q_max_cpu_cores = accepted (fs ! 1),
                q_max_ram_mb = accepted (fs ! 2), q_max_disk_gb = accepted (fs ! 3),
                q_max_networks = accepted (fs ! 4)\<rparr>)
      | Some _ \<Rightarrow> Inl (AttributeError ''items''))"

section \<open>Usage and checks (services/quota.py)\<close>

record usage =
  us_vm_count :: int
  us_cpu_cores :: int
  us_ram_mb :: int
  us_disk_mb :: int
  us_disk_gb10 :: int
  us_network_count :: int

definition get_quota_settings :: "int \<Rightarrow> db \<Rightarrow> py_exc + quota" where
  "get_quota_settings tid d =
     (case first_row (\<lambda>t. t_id t = tid) (tenants d) of
        None \<Rightarrow> Inr no_quota
      | Some t \<Rightarrow> from_settings_json (t_settings t))"

definition tenant_vms :: "int \<Rightarrow> db \<Rightarrow> vm list" where
  "tenant_vms tid d = filter (\<lambda>v. v_tenant_id v = tid) (vms d)"

definition get_current_usage :: "int \<Rightarrow> db \<Rightarrow> usage" where
  "get_current_usage tid d =
     (let vs = tenant_vms tid d; mb = sum_by v_disk_size_mb vs
      in \<lparr>us_vm_count = int (length vs), us_cpu_cores = sum_by v_cpu vs, us_ram_mb = sum_by v_ram vs,
          us_disk_mb = mb, us_disk_gb10 = round_div (10 * mb) 1024,
          us_network_count = count_rows (\<lambda>n. n_tenant_id n = tid \<and> n_status n = ''active'') (networks d)\<rparr>)"

definition over :: "int option \<Rightarrow> int \<Rightarrow> bool" where
  "over limit n = (case limit of None \<Rightarrow> False | Some m \<Rightarrow> m < n)"

text \<open>For \<open>max_disk_gb\<close> the reported current usage is in tenths of a GB.\<close>

definition check_vm_quota :: "int \<Rightarrow> int \<Rightarrow> int \<Rightarrow> int \<Rightarrow> db \<Rightarrow> py_exc + unit" where
  "check_vm_quota tid cpu ram disk_size d =
     (case get_quota_settings tid d of
        Inl e \<Rightarrow> Inl e
      | Inr q \<Rightarrow>
          (let u = get_current_usage tid d
           in if over (q_max_vms q) (us_vm_count u + 1)
                then Inl (QuotaExceededError ''max_vms'' (the (q_max_vms q)) (us_vm_count u) 1)
              else if over (q_max_cpu_cores q) (us_cpu_cores u + cpu)
                then Inl (QuotaExceededError ''max_cpu_cores'' (the (q_max_cpu_cores q)) (us_cpu_cores u) cpu)
              else if over (q_max_ram_mb q) (us_ram_mb u + ram)
                then Inl (QuotaExceededError ''max_ram_mb'' (the (q_max_ram_mb q)) (us_ram_mb u) ram)
              else if over (map_option ((*) 10) (q_max_disk_gb q)) (us_disk_gb10 u + 10 * disk_size)
                then Inl (QuotaExceededError ''max_disk_gb'' (the (q_max_disk_gb q)) (us_disk_gb10 u) disk_size)
              else Inr ()))"

definition check_network_quota :: "int \<Rightarrow> db \<Rightarrow> py_exc + unit" where
  "check_network_quota tid d =
     (case get_quota_settings tid d of
        Inl e \<Rightarrow> Inl e
      | Inr q \<Rightarrow>
          (let u = get_current_usage tid d
           in if over (q_max_networks q) (us_network_count u + 1)
                then Inl (QuotaExceededError ''max_networks'' (the (q_max_networks q)) (us_network_count u) 1)
              else Inr ()))"

definition check_disk_resize_quota :: "int \<Rightarrow> int \<Rightarrow> db \<Rightarrow> py_exc + unit" where
  "check_disk_resize_quota tid additional_mib d =
     (case get_quota_settings tid d of
        Inl e \<Rightarrow> Inl e
      | Inr q \<Rightarrow>
          (let u = get_current_usage tid d
           in if over (map_option ((*) 10) (q_max_disk_gb q)) (round_div (10 * (us_disk_mb u + additional_mib)) 1024)
                then Inl (QuotaExceededError ''max_disk_gb'' (the (q_max_disk_gb q)) (us_disk_gb10 u)
                  (round_div (10 * additional_mib) 1024))
              else Inr ()))"

definition calc_remaining :: "int option \<Rightarrow> int \<Rightarrow> int option" where
  "calc_remaining limit current = map_option (\<lambda>m. max 0 (m - current)) limit"

record quota_status =
  qs_quota :: quota
  qs_usage :: usage
  qs_vms_left :: "int option"
  qs_cpu_left :: "int option"
  qs_ram_left :: "int option"
  qs_disk_left10 :: "int option"
  qs_networks_left :: "int option"

definition get_quota_status :: "int \<Rightarrow> db \<Rightarrow> py_exc + quota_status" where
  "get_quota_status tid d =
     (case get_quota_settings tid d of
        Inl e \<Rightarrow> Inl e
      | Inr q \<Rightarrow>
          (let u = get_current_usage tid d
           in Inr \<lparr>qs_quota = q, qs_usage = u,
                qs_vms_left = calc_remaining (q_max_vms q) (us_vm_count u),
                qs_cpu_left = calc_remaining (q_max_cpu_cores q) (us_cpu_cores u),
                qs_ram_left = calc_remaining (q_max_ram_mb q) (us_ram_mb u),
                qs_disk_left10 = calc_remaining (map_option ((*) 10) (q_max_disk_gb q)) (us_disk_gb10 u),
                qs_networks_left = calc_remaining (q_max_networks q) (us_network_count u)\<rparr>))"

section \<open>Round trip of the settings\<close>

definition quota_ok :: "quota \<Rightarrow> bool" where
  "quota_ok q \<longleftrightarrow> (\<forall>x \<in> {q_max_vms q, q_max_cpu_cores q, q_max_ram_mb q, q_max_disk_gb q, q_max_networks q}.
     case x of None \<Rightarrow> True | Some i \<Rightarrow> 0 \<le> i)"

lemma model_dump_flat: "\<forall>(k, v) \<in> set (model_dump q). plain_key k \<and> flat_value v"
proof -
  have "plain_key ''max_vms''" "plain_key ''max_cpu_cores''" "plain_key ''max_ram_mb''"
    "plain_key ''max_disk_gb''" "plain_key ''max_networks''" by code_simp+
  then show ?thesis by (auto simp: model_dump_def Let_def flat_value_def split: option.split)
qed

lemma settings_round_trip:
  assumes "quota_ok q" "separators isep ksep"
  shows "from_settings_json (Some (json_dump isep ksep (JObj (model_dump q)))) = Inr q"
proof -
  have "model_dump q \<noteq> []" by (simp add: model_dump_def Let_def)
  then have l: "loads (json_dump isep ksep (JObj (model_dump q))) = Some (JObj (model_dump q))"
    using loads_dumps_flat assms(2) model_dump_flat by blast
  have t: "truthy (Some (json_dump isep ksep (JObj ms)))" for ms
    by (simp add: truthy_def)
  have f: "(case x of None \<Rightarrow> True | Some i \<Rightarrow> 0 \<le> i) \<Longrightarrow>
      validate_positive_or_null (case x of None \<Rightarrow> JNull | Some i \<Rightarrow> JInt i) = Accepted x" for x
    by (cases x) (simp_all add: validate_positive_or_null_def)
  have fs: "map (\<lambda>k. field k (model_dump q))
      [''max_vms'', ''max_cpu_cores'', ''max_ram_mb'', ''max_disk_gb'', ''max_networks''] =
    [Accepted (q_max_vms q), Accepted (q_max_cpu_cores q), Accepted (q_max_ram_mb q),
     Accepted (q_max_disk_gb q), Accepted (q_max_networks q)]"
    using assms(1) by (simp add: field_def member_def model_dump_def Let_def f quota_ok_def)
  show ?thesis
    by (simp only: from_settings_json_def t l option.sel option.case json.case fs Let_def)
      (simp add: accepted_def)
qed

text \<open>
  C36: the quota a super admin sets is the quota that is enforced: for every quota without negative
  limits, reading back what either writer of the settings column stores gives that quota.
\<close>
theorem quota_settings_round_trip:
  assumes "quota_ok q"
  shows "from_settings_json (Some (to_settings_json q)) = Inr q \<and>
    from_settings_json (Some (model_dump_json q)) = Inr q"
  unfolding to_settings_json_def model_dump_json_def
  by (intro conjI settings_round_trip assms) (simp_all add: separators_def)

lemma quota_settings_round_trip_witness:
  "from_settings_json (Some (to_settings_json \<lparr>q_max_vms = Some 3, q_max_cpu_cores = None, q_max_ram_mb = Some 4096,
     q_max_disk_gb = Some 0, q_max_networks = None\<rparr>)) =
   Inr \<lparr>q_max_vms = Some 3, q_max_cpu_cores = None, q_max_ram_mb = Some 4096,
     q_max_disk_gb = Some 0, q_max_networks = None\<rparr>"
  by (rule quota_settings_round_trip [THEN conjunct1]) (simp add: quota_ok_def)

section \<open>Admission\<close>

definition within_vm_quota :: "quota \<Rightarrow> usage \<Rightarrow> bool" where
  "within_vm_quota q u \<longleftrightarrow> \<not> over (q_max_vms q) (us_vm_count u) \<and> \<not> over (q_max_cpu_cores q) (us_cpu_cores u) \<and>
     \<not> over (q_max_ram_mb q) (us_ram_mb u) \<and> \<not> over (map_option ((*) 10) (q_max_disk_gb q)) (us_disk_gb10 u)"

text \<open>What a tenant uses once a VM has been added.\<close>

definition with_vm :: "int \<Rightarrow> int \<Rightarrow> int \<Rightarrow> usage \<Rightarrow> usage" where
  "with_vm cpu ram disk_size u =
     u\<lparr>us_vm_count := us_vm_count u + 1, us_cpu_cores := us_cpu_cores u + cpu, us_ram_mb := us_ram_mb u + ram,
       us_disk_mb := us_disk_mb u + 1024 * disk_size, us_disk_gb10 := us_disk_gb10 u + 10 * disk_size\<rparr>"

lemma check_vm_quota_ok:
  "check_vm_quota tid cpu ram disk_size d = Inr () \<longleftrightarrow>
    (\<exists>q. get_quota_settings tid d = Inr q \<and> within_vm_quota q (with_vm cpu ram disk_size (get_current_usage tid d)))"
  by (auto simp: check_vm_quota_def within_vm_quota_def with_vm_def Let_def split: sum.splits)

lemma round_div_add: "0 < b \<Longrightarrow> even c \<Longrightarrow> round_div (a + b * c) b = round_div a b + c"
  by (simp add: round_div_def Let_def)

lemma usage_added_vm:
  assumes "v_tenant_id v = tid" "v_disk_size_mb v = disk_size * 1024"
  shows "get_current_usage tid (d\<lparr>vms := vms d @ [v]\<rparr>) = with_vm (v_cpu v) (v_ram v) disk_size (get_current_usage tid d)"
proof -
  have "round_div (10 * sum_by v_disk_size_mb vs + 1024 * (10 * disk_size)) 1024 =
      round_div (10 * sum_by v_disk_size_mb vs) 1024 + 10 * disk_size" for vs
    by (rule round_div_add) simp_all
  then have "round_div (10 * (sum_by v_disk_size_mb vs + disk_size * 1024)) 1024 =
      round_div (10 * sum_by v_disk_size_mb vs) 1024 + 10 * disk_size" for vs
    by (simp add: algebra_simps)
  then show ?thesis
    using assms by (simp add: get_current_usage_def tenant_vms_def with_vm_def Let_def)
qed

text \<open>
  C34: a VM that passes the quota check and is then stored with the checked sizes leaves the tenant
  within every limit: the check is exact, rounding of gigabytes included. It refuses exactly the
  requests that would exceed a limit.
\<close>
theorem vm_quota_exact:
  assumes "get_quota_settings tid d = Inr q"
    "v_tenant_id v = tid" "v_cpu v = cpu" "v_ram v = ram" "v_disk_size_mb v = disk_size * 1024"
  shows "check_vm_quota tid cpu ram disk_size d = Inr () \<longleftrightarrow>
    within_vm_quota q (get_current_usage tid (d\<lparr>vms := vms d @ [v]\<rparr>))"
  using usage_added_vm [OF assms(2,5), of d] assms by (simp add: check_vm_quota_ok)

definition quota_db :: db where
  "quota_db = empty_db\<lparr>tenants := [(new_tenant 1 ''One'' ''one'')\<lparr>t_settings := Some (CHR ''{'' # dquote_char #
     ''max_vms'' @ dquote_char # '':1}'')\<rparr>]\<rparr>"

definition small_vm :: "int \<Rightarrow> int \<Rightarrow> vm" where
  "small_vm i gb = \<lparr>v_id = i, v_name = ''web'', v_description = None, v_provider = ''proxmox'', v_image = None, v_cpu = 1,
     v_ram = 1024, v_disk_size_mb = gb * 1024, v_ip_address = None, v_status = ''running'', v_terraform_job_id = None,
     v_celery_task_id = None, v_proxmox_vm_id = None, v_template_id = None, v_error = None, v_owner_id = 1,
     v_network_id = None, v_tenant_id = 1, v_ssh_user = ''ubuntu'', v_ssh_public_key = None,
     v_ssh_private_key_enc = None\<rparr>"

lemma vm_quota_exact_witness:
  "check_vm_quota 1 1 1024 10 quota_db = Inr () \<longleftrightarrow>
    within_vm_quota (no_quota\<lparr>q_max_vms := Some 1\<rparr>) (get_current_usage 1 (quota_db\<lparr>vms := vms quota_db @ [small_vm 1 10]\<rparr>))"
proof (rule vm_quota_exact)
  show "get_quota_settings 1 quota_db = Inr (no_quota\<lparr>q_max_vms := Some 1\<rparr>)" by code_simp
qed (simp_all add: small_vm_def)

section \<open>What is not checked\<close>

lemma allocate_from_tenants:
  "allocate_from ps lk now (d\<lparr>tenants := ts\<rparr>) = map_sum id (map_prod id (tenants_update (\<lambda>_. ts))) (allocate_from ps lk now d)"
  by (induction ps) (auto split: option.split)

lemma allocate_vlan_tenants:
  "allocate_vlan lk pod (d\<lparr>tenants := ts\<rparr>) = map_sum id (map_prod id (tenants_update (\<lambda>_. ts))) (allocate_vlan lk pod d)"
  by (auto simp: allocate_vlan_def split: option.split)

text \<open>
  The \<open>max_networks\<close> limit does not bind \<open>create_network\<close>: its answer does not depend on the
  tenants table, hence not on any quota stored there. (\<open>check_network_quota\<close> is called for WireGuard
  tunnels only.)
\<close>
theorem create_network_ignores_quota:
  "fst (create_network cu req ct name (d\<lparr>tenants := ts\<rparr>)) = fst (create_network cu req ct name d)"
proof (cases "allocate_subnet {} (req_now req) d")
  case (Inl e)
  then show ?thesis by (simp add: create_network_def allocate_subnet_def allocate_from_tenants)
next
  case (Inr x)
  obtain sub d1 where sub: "allocate_subnet {} (req_now req) d = Inr (sub, d1)"
    "allocate_subnet {} (req_now req) (d\<lparr>tenants := ts\<rparr>) = Inr (sub, d1\<lparr>tenants := ts\<rparr>)"
    using Inr by (cases x) (simp add: allocate_subnet_def allocate_from_tenants)
  show ?thesis
  proof (cases "allocate_vlan {} (the (t_pod_id ct)) d1")
    case (Inl e)
    then show ?thesis by (simp add: create_network_def sub allocate_vlan_tenants)
  next
    case (Inr y)
    obtain vl d2 where "allocate_vlan {} (the (t_pod_id ct)) d1 = Inr (vl, d2)"
      "allocate_vlan {} (the (t_pod_id ct)) (d1\<lparr>tenants := ts\<rparr>) = Inr (vl, d2\<lparr>tenants := ts\<rparr>)"
      using Inr by (cases y) (simp add: allocate_vlan_tenants)
    then show ?thesis
      by (simp add: create_network_def sub Let_def next_id_def split: option.split)
  qed
qed

end
