(* ===== verification/Provisioning.thy ===== *)
theory Provisioning
  imports Quota
begin

text \<open>
  Tenant provisioning: \<open>app/services/provisioning.py\<close>, the approval and deletion endpoints of
  \<open>app/api/admin.py\<close>, \<open>verify_tenant\<close> of \<open>app/api/tenant.py\<close>, and
  \<open>destroy_tenant_task\<close> of \<open>app/workers/tasks/tenant.py\<close>.

  The hypervisor is a service: \<open>hv bridge_id tenant_id\<close> is the error message of
  \<open>provider.create_bridge\<close>, or \<open>None\<close> when it succeeds. \<open>rl\<close> is the exception of
  \<open>check_rate_limit\<close>, if it raises. \<open>approve_tenant\<close> commits once, at its end: whatever it
  raises before, its callers roll back or close the session, so the state is the one it started from.
\<close>

section \<open>Bridges and pods\<close>

definition take_bridge :: "int \<Rightarrow> int \<Rightarrow> bridge \<Rightarrow> bridge" where
  "take_bridge tid now b = b\<lparr>br_status := ''in_use'', br_tenant_id := Some tid, br_allocated_at := Some now\<rparr>"

definition allocate_bridge :: "int \<Rightarrow> int \<Rightarrow> db \<Rightarrow> (int \<times> db) option" where
  "allocate_bridge tid now d =
     (case first_row (\<lambda>b. br_status b = ''available'') (bridges d) of
        None \<Rightarrow> None
      | Some b \<Rightarrow> Some (br_bridge_id b,
          d\<lparr>bridges := upd_rows br_bridge_id (br_bridge_id b) (take_bridge tid now) (bridges d)\<rparr>))"

definition give_bridge :: "bridge \<Rightarrow> bridge" where
  "give_bridge b = b\<lparr>br_status := ''available'', br_tenant_id := None, br_allocated_at := None\<rparr>"

definition free_bridge :: "int \<Rightarrow> db \<Rightarrow> db" where
  "free_bridge i d = d\<lparr>bridges := upd_rows br_bridge_id i give_bridge (bridges d)\<rparr>"

text \<open>The service's \<open>release_bridge\<close>, by tenant.\<close>

definition release_tenant_bridge :: "int \<Rightarrow> db \<Rightarrow> bool \<times> db" where
  "release_tenant_bridge tid d =
     (case first_row (\<lambda>b. br_tenant_id b = Some tid) (bridges d) of
        None \<Rightarrow> (False, d)
      | Some b \<Rightarrow> (True, free_bridge (br_bridge_id b) d))"

definition pod_open :: "int set \<Rightarrow> pod \<Rightarrow> bool" where
  "pod_open lk p \<longleftrightarrow> pod_status p = ''active'' \<and> pod_tenant_count p < pod_max_tenants p \<and> pod_id p \<notin> lk"

definition assign_pod :: "int set \<Rightarrow> db \<Rightarrow> pod option" where
  "assign_pod lk d =
     (case sort_key (\<lambda>p. - pod_tenant_count p) (filter (pod_open lk) (pods d)) of [] \<Rightarrow> None | p # _ \<Rightarrow> Some p)"

section \<open>Approval (services/provisioning.py)\<close>

record provision_result =
  pr_tenant_id :: int
  pr_bridge_id :: int
  pr_vm_id :: int
  pr_vm_name :: string
  pr_bridge_name :: string
  pr_lan_ip :: string
  pr_cidr :: string

definition approvable :: "string \<Rightarrow> bool" where
  "approvable st \<longleftrightarrow> st \<in> {''pending_approval'', ''verified'', ''error''}"

definition bridge_name :: "int \<Rightarrow> string" where
  "bridge_name b = ''vmbr'' @ show_int b"

definition default_network :: "tenant \<Rightarrow> pod \<Rightarrow> ip_pool_row \<Rightarrow> int \<Rightarrow> int \<Rightarrow> tenant_network" where
  "default_network t p sub b i =
     \<lparr>n_id = i, n_tenant_id = t_id t, n_pod_id = pod_id p, n_ip_pool_id = Some (ipp_id sub),
      n_cidr = ipp_cidr sub, n_gateway_ip = ipp_gateway_ip sub, n_vlan_id = None, n_name = ''default'',
      n_is_default = True, n_status = ''active'', n_provider_ref = Some (bridge_name b),
      n_opnsense_interface = None\<rparr>"

definition provisioning_tenant ::
  "pod \<Rightarrow> int \<Rightarrow> ip_pool_row \<Rightarrow> string option \<Rightarrow> string option \<Rightarrow> tenant \<Rightarrow> tenant" where
  "provisioning_tenant p b sub dhcp_start dhcp_end t =
     t\<lparr>t_pod_id := Some (pod_id p), t_bridge_id := Some b, t_opnsense_vm_id := Some (10000 + (b - 100)),
       t_opnsense_vm_name := Some (''VM_OPNsense_'' @ show_int (t_id t)),
       t_lan_ip := Some (ipp_gateway_ip sub), t_dhcp_pool_start := dhcp_start,
       t_dhcp_pool_end := dhcp_end, t_status := ''provisioning''\<rparr>"

definition approve_tenant ::
  "(int \<Rightarrow> int \<Rightarrow> string option) \<Rightarrow> int \<Rightarrow> int \<Rightarrow> string option \<Rightarrow> string option \<Rightarrow> db \<Rightarrow>
    (provision_result, db) result" where
  "approve_tenant hv now tid dhcp_start dhcp_end d =
     (case first_row (\<lambda>t. t_id t = tid) (tenants d) of
        None \<Rightarrow> raise (ValueError ''Tenant not found'') d
      | Some t \<Rightarrow>
          (if \<not> approvable (t_status t)
             then raise (ValueError (''Tenant is not in pending_approval, verified, or error status. Current: '' @ t_status t)) d
           else if truthy_id (t_bridge_id t)
             then raise (ValueError ''Tenant already has a bridge allocated'') d
           else case assign_pod {} d of
             None \<Rightarrow> raise (ValueError ''No pod capacity available'') d
           | Some p \<Rightarrow>
               (case allocate_bridge tid now d of
                  None \<Rightarrow> raise (ValueError ''No bridge capacity available'') d
                | Some (b, d1) \<Rightarrow>
                    (if b = 0 then raise (ValueError ''No bridge capacity available'') d
                     else case allocate_subnet {} now d1 of
                       Inl e \<Rightarrow> raise e d
                     | Inr (sub, d2) \<Rightarrow>
                         (case hv b tid of
                            Some msg \<Rightarrow> raise (ValueError (''Failed to create bridge: '' @ msg)) d
                          | None \<Rightarrow>
                              (let d3 = bump_seq TNetworks (d2\<lparr>
                                     pods := upd_rows pod_id (pod_id p) (\<lambda>x. x\<lparr>pod_tenant_count := pod_tenant_count x + 1\<rparr>) (pods d2),
                                     tenants := upd_rows t_id tid (provisioning_tenant p b sub dhcp_start dhcp_end) (tenants d2),
                                     networks := networks d2 @ [default_network t p sub b (next_id TNetworks d2)],
                                     ip_pool := upd_rows ipp_id (ipp_id sub) (\<lambda>r. r\<lparr>ipp_tenant_network_id := None\<rparr>) (ip_pool d2)\<rparr>)
                               in ok \<lparr>pr_tenant_id = tid, pr_bridge_id = b, pr_vm_id = 10000 + (b - 100),
                                     pr_vm_name = ''VM_OPNsense_'' @ show_int tid, pr_bridge_name = bridge_name b,
                                     pr_lan_ip = ipp_gateway_ip sub, pr_cidr = ipp_cidr sub\<rparr>
                                  (send_task (ProvisionTenant tid (pod_id p) b (ipp_gateway_ip sub) (ipp_cidr sub)) d3)))))))"

definition destroy_tenant :: "int \<Rightarrow> db \<Rightarrow> (int \<times> string, db) result" where
  "destroy_tenant tid d =
     (case first_row (\<lambda>t. t_id t = tid) (tenants d) of
        None \<Rightarrow> raise (ValueError ''Tenant not found'') d
      | Some t \<Rightarrow> ok (tid, ''deprovisioning_started'') (send_task (DestroyTenant tid) d))"

section \<open>The destroy task (workers/tasks/tenant.py)\<close>

definition destroy_tenant_task :: "int \<Rightarrow> db \<Rightarrow> (int \<times> string, db) result" where
  "destroy_tenant_task tid d = destroy_tenant tid d"

text \<open>
  One step of a worker on the head of the queue, for the destroy task; other tasks are left to
  their own models.
\<close>

definition worker_step :: "db \<Rightarrow> db" where
  "worker_step d =
     (case queue d of
        DestroyTenant tid # q \<Rightarrow> snd (destroy_tenant_task tid (d\<lparr>queue := q\<rparr>))
      | _ \<Rightarrow> d)"

section \<open>Endpoints of api/admin.py and api/tenant.py\<close>

definition require_admin :: "user \<Rightarrow> db \<Rightarrow> bool" where
  "require_admin cu d \<longleftrightarrow>
     is_super_admin cu d \<or>
     (\<exists>r \<in> set (roles_of (u_id cu) (u_tenant_id cu) d). r_name r = ''tenant_admin'')"

definition to_http :: "py_exc \<Rightarrow> string \<Rightarrow> py_exc" where
  "to_http e what = (case e of ValueError m \<Rightarrow> HTTPException 400 m | _ \<Rightarrow> HTTPException 500 what)"

definition admin_approve_tenant ::
  "py_exc option \<Rightarrow> (int \<Rightarrow> int \<Rightarrow> string option) \<Rightarrow> user \<Rightarrow> request \<Rightarrow> int \<Rightarrow>
    (string option \<times> string option) option \<Rightarrow> db \<Rightarrow> (provision_result, db) result" where
  "admin_approve_tenant rl hv cu req tid body d =
     (case rl of Some e \<Rightarrow> raise e d
      | None \<Rightarrow>
        (if \<not> require_admin cu d then http 403 ''Admin access required'' d
         else case first_row (\<lambda>t. t_id t = tid) (tenants d) of
           None \<Rightarrow> http 404 ''Tenant not found'' d
         | Some t \<Rightarrow>
             (if t_status t \<noteq> ''pending_approval''
              then http 409 (''Cannot approve tenant with status '' @ repr_str (t_status t) @
                     ''. Tenant must be in '' @ repr_str ''pending_approval'' @ '' state.'') d
              else
                (let (r, d1) = approve_tenant hv (req_now req) tid (Option.bind body fst) (Option.bind body snd) d
                 in case r of
                      Inl e \<Rightarrow> raise (to_http e ''Failed to approve tenant'') d
                    | Inr p \<Rightarrow> ok p (log_audit_event
                        ((audit_event (audit_action ''TENANT_APPROVED'') ''tenant'' cu)
                          \<lparr>a_target_id := Some tid, a_target_name := Some (t_name t),
                           a_new_value := Some (''bridge_id='' @ show_int (pr_bridge_id p) @ '', vm_id='' @ show_int (pr_vm_id p)),
                           a_details := Some ''Tenant approved for provisioning''\<rparr>) None d1)))))"

definition admin_delete_tenant ::
  "py_exc option \<Rightarrow> user \<Rightarrow> request \<Rightarrow> int \<Rightarrow> db \<Rightarrow> (int \<times> string, db) result" where
  "admin_delete_tenant rl cu req tid d =
     (case rl of Some e \<Rightarrow> raise e d
      | None \<Rightarrow>
        (if \<not> require_admin cu d then http 403 ''Admin access required'' d
         else case first_row (\<lambda>t. t_id t = tid) (tenants d) of
           None \<Rightarrow> http 404 ''Tenant not found'' d
         | Some t \<Rightarrow>
             (let (r, d1) = destroy_tenant tid d
              in case r of
                   Inl e \<Rightarrow> http 500 ''Failed to delete tenant'' d1
                 | Inr p \<Rightarrow> ok p (log_audit_event
                     ((audit_event ''tenant_deleted'' ''tenant'' cu)
                       \<lparr>a_target_id := Some tid, a_target_name := Some (t_name t),
                        a_old_value := Some (''bridge_id='' @ show_opt show_int (t_bridge_id t) @
                          '', vm_id='' @ show_opt show_int (t_opnsense_vm_id t)),
                        a_details := Some ''Tenant deleted and resources destroyed''\<rparr>) None d1))))"

record verify_response =
  vr_id :: int
  vr_status :: string
  vr_is_verified :: bool
  vr_error :: "py_exc option"

definition reset_tenant :: "tenant \<Rightarrow> tenant" where
  "reset_tenant t =
     t\<lparr>t_status := ''pending_approval'', t_bridge_id := None, t_opnsense_vm_id := None,
       t_opnsense_vm_name := None, t_lan_ip := None, t_wan_ip := None, t_opnsense_api_key := None,
       t_opnsense_api_secret := None\<rparr>"

text \<open>
  \<open>tenant.status = ERROR\<close> in the exception branch is undone by the \<open>db.rollback()\<close> after it.
\<close>

definition verify_tenant ::
  "(int \<Rightarrow> int \<Rightarrow> string option) \<Rightarrow> user \<Rightarrow> request \<Rightarrow> int \<Rightarrow> quota \<Rightarrow> db \<Rightarrow> (verify_response, db) result" where
  "verify_tenant hv cu req tid quota d =
     (if \<not> is_super_admin cu d then http 403 ''Super admin access required'' d
      else case first_row (\<lambda>t. t_id t = tid) (tenants d) of
        None \<Rightarrow> http 404 ''Tenant not found'' d
      | Some t \<Rightarrow>
          (if t_is_verified t then http 400 ''Tenant is already verified'' d
           else
             (let d0 = (if t_status t = ''error'' then d\<lparr>tenants := upd_rows t_id tid reset_tenant (tenants d)\<rparr> else d);
                  (r, d1) = approve_tenant hv (req_now req) tid None None d0;
                  d2 = (case r of Inl _ \<Rightarrow> d0
                     | Inr _ \<Rightarrow> d1\<lparr>tenants := upd_rows t_id tid
                         (\<lambda>x. x\<lparr>t_is_verified := True, t_settings := Some (model_dump_json quota)\<rparr>) (tenants d1)\<rparr>);
                  d3 = log_audit_event
                     (with_request req None ((audit_event (audit_action ''TENANT_UPDATE'') ''tenant'' cu)
                       \<lparr>a_target_id := Some tid, a_target_name := Some (t_name t),
                        a_details := Some (''Tenant verified with quota: max_vms='' @ show_opt show_int (q_max_vms quota) @
                          '', max_cpu='' @ show_opt show_int (q_max_cpu_cores quota) @
                          '', max_ram='' @ show_opt show_int (q_max_ram_mb quota))\<rparr>)) None d2
              in ok (case first_row (\<lambda>t. t_id t = tid) (tenants d3) of
                       None \<Rightarrow> \<lparr>vr_id = tid, vr_status = ''provisioning'', vr_is_verified = False, vr_error = None\<rparr>
                     | Some t' \<Rightarrow> \<lparr>vr_id = tid,
                         vr_status = (case r of Inr _ \<Rightarrow> ''provisioning'' | Inl _ \<Rightarrow> t_status t'),
                         vr_is_verified = t_is_verified t',
                         vr_error = (case r of Inr _ \<Rightarrow> None | Inl e \<Rightarrow> Some e)\<rparr>) d3)))"

section \<open>Lemmas\<close>

lemma take_bridge_sel [row_simps, simp]:
  "br_bridge_id (take_bridge t now b) = br_bridge_id b" "br_status (take_bridge t now b) = ''in_use''"
  "br_tenant_id (take_bridge t now b) = Some t" "br_bridge_id (give_bridge b) = br_bridge_id b"
  "br_status (give_bridge b) = ''available''" "br_tenant_id (give_bridge b) = None"
  by (simp_all add: take_bridge_def give_bridge_def)

definition bridge_ids :: "db \<Rightarrow> int set" where
  "bridge_ids d = br_bridge_id ` {b \<in> set (bridges d). True}"

definition available_bridges :: "db \<Rightarrow> int set" where
  "available_bridges d = br_bridge_id ` {b \<in> set (bridges d). br_status b = ''available''}"

lemma allocate_bridge_Some:
  assumes "allocate_bridge tid now d = Some (k, d')"
  obtains b where "b \<in> set (bridges d)" "br_status b = ''available''" "k = br_bridge_id b"
    "d' = d\<lparr>bridges := upd_rows br_bridge_id k (take_bridge tid now) (bridges d)\<rparr>"
  using assms by (auto simp: allocate_bridge_def split: option.splits dest!: first_row_Some)

interpretation bridge_pool: resource_pool "\<lambda>d. distinct_keys br_bridge_id (bridges d)" available_bridges bridge_ids
  "allocate_bridge tid now" free_bridge for tid now :: int
proof
  fix d :: db and k d'
  assume inv: "distinct_keys br_bridge_id (bridges d)"
  show "available_bridges d \<subseteq> bridge_ids d" by (auto simp: available_bridges_def bridge_ids_def)
  show "allocate_bridge tid now d = None \<longleftrightarrow> available_bridges d = {}"
    by (auto simp: allocate_bridge_def available_bridges_def first_row_None split: option.splits dest: first_row_Some)
  show "k \<in> available_bridges d \<and> available_bridges d' = available_bridges d - {k} \<and>
      bridge_ids d' = bridge_ids d \<and> distinct_keys br_bridge_id (bridges d')"
    if got: "allocate_bridge tid now d = Some (k, d')"
    using got
  proof (rule allocate_bridge_Some)
    fix b assume b: "b \<in> set (bridges d)" "br_status b = ''available''" "k = br_bridge_id b"
      "d' = d\<lparr>bridges := upd_rows br_bridge_id k (take_bridge tid now) (bridges d)\<rparr>"
    have "available_bridges d' = available_bridges d - {br_bridge_id b}"
      unfolding available_bridges_def b(3,4) using distinct_keys_eq [OF inv _ b(1)]
      by (simp, intro keys_lost inv b(1)) auto
    moreover have "bridge_ids d' = bridge_ids d"
      unfolding bridge_ids_def b(3,4)
      using keys_kept [OF inv b(1), of br_bridge_id "take_bridge tid now" "\<lambda>_. True"] by simp
    ultimately show ?thesis
      using b inv by (auto simp: available_bridges_def distinct_keys_upd_rows)
  qed
next
  fix d :: db and k
  assume inv: "distinct_keys br_bridge_id (bridges d)" and "k \<in> bridge_ids d"
  then obtain b where b: "b \<in> set (bridges d)" "k = br_bridge_id b" by (auto simp: bridge_ids_def)
  have "available_bridges (free_bridge k d) = insert (br_bridge_id b) (available_bridges d)"
    unfolding available_bridges_def free_bridge_def b(2) by (simp, intro keys_gained inv b(1)) simp_all
  moreover have "bridge_ids (free_bridge k d) = bridge_ids d"
    unfolding bridge_ids_def free_bridge_def b(2)
    using keys_kept [OF inv b(1), of br_bridge_id give_bridge "\<lambda>_. True"] by simp
  ultimately show "available_bridges (free_bridge k d) = insert k (available_bridges d) \<and>
      bridge_ids (free_bridge k d) = bridge_ids d \<and> distinct_keys br_bridge_id (bridges (free_bridge k d))"
    using b(2) inv by (simp add: free_bridge_def distinct_keys_upd_rows)
qed

lemma assign_pod_Some: "assign_pod lk d = Some p \<Longrightarrow>
    p \<in> set (pods d) \<and> pod_open lk p \<and>
    (\<forall>q \<in> set (pods d). pod_open lk q \<longrightarrow> pod_tenant_count q \<le> pod_tenant_count p)"
proof -
  assume a: "assign_pod lk d = Some p"
  let ?s = "sort_key (\<lambda>p. - pod_tenant_count p) (filter (pod_open lk) (pods d))"
  obtain qs where s: "?s = p # qs" using a by (auto simp: assign_pod_def split: list.splits)
  have set: "set ?s = {q \<in> set (pods d). pod_open lk q}" by simp
  have "sorted (map (\<lambda>p. - pod_tenant_count p) ?s)" by simp
  then have "\<forall>q \<in> set ?s. pod_tenant_count q \<le> pod_tenant_count p" unfolding s by auto
  moreover have "p \<in> set ?s" unfolding s by simp
  ultimately show ?thesis using set by blast
qed

lemma assign_pod_None: "assign_pod lk d = None \<longleftrightarrow> (\<forall>q \<in> set (pods d). \<not> pod_open lk q)"
proof -
  have "assign_pod lk d = None \<longleftrightarrow> sort_key (\<lambda>p. - pod_tenant_count p) (filter (pod_open lk) (pods d)) = []"
    by (simp add: assign_pod_def split: list.split)
  also have "\<dots> \<longleftrightarrow> set (sort_key (\<lambda>p. - pod_tenant_count p) (filter (pod_open lk) (pods d))) = {}"
    by (metis set_empty)
  finally show ?thesis by (auto simp: filter_empty_conv)
qed

lemma approve_atomic: "atomic (approve_tenant hv now tid s e d) d"
  unfolding approve_tenant_def by simp

lemma approve_ok:
  assumes "approve_tenant hv now tid ds de d = (Inr r, d')"
  obtains t p b s where "first_row (\<lambda>t. t_id t = tid) (tenants d) = Some t" "approvable (t_status t)"
    "\<not> truthy_id (t_bridge_id t)" "assign_pod {} d = Some p"
    "b \<in> set (bridges d)" "br_status b = ''available''" "br_bridge_id b \<noteq> 0" "hv (br_bridge_id b) tid = None"
    "s \<in> set (ip_pool d)" "managed s" "ipp_status s = ''free''"
    "bridges d' = upd_rows br_bridge_id (br_bridge_id b) (take_bridge tid now) (bridges d)"
    "pods d' = upd_rows pod_id (pod_id p) (\<lambda>x. x\<lparr>pod_tenant_count := pod_tenant_count x + 1\<rparr>) (pods d)"
    "tenants d' = upd_rows t_id tid (provisioning_tenant p (br_bridge_id b) (take_subnet now s) ds de) (tenants d)"
    "networks d' = networks d @ [default_network t p (take_subnet now s) (br_bridge_id b) (seqs d TNetworks)]"
    "ip_pool d' = upd_rows ipp_id (ipp_id s) (linked_subnet now) (ip_pool d)"
    "vlans d' = vlans d" "seqs d' = (seqs d)(TNetworks := seqs d TNetworks + 1)"
    "queue d' = queue d @ [ProvisionTenant tid (pod_id p) (br_bridge_id b) (ipp_gateway_ip s) (ipp_cidr s)]"
    "pr_bridge_id r = br_bridge_id b" "pr_vm_id r = 10000 + (br_bridge_id b - 100)" "pr_cidr r = ipp_cidr s"
    "pr_tenant_id r = tid"
proof -
  obtain t where t: "first_row (\<lambda>t. t_id t = tid) (tenants d) = Some t" "approvable (t_status t)"
      "\<not> truthy_id (t_bridge_id t)"
    using assms by (auto simp: approve_tenant_def split: option.splits if_splits)
  obtain p where p: "assign_pod {} d = Some p"
    using assms t by (auto simp: approve_tenant_def split: option.splits)
  obtain k d1 where k: "allocate_bridge tid now d = Some (k, d1)" "k \<noteq> 0"
    using assms t p by (auto simp: approve_tenant_def split: option.splits if_splits)
  obtain sub d2 where sub: "allocate_subnet {} now d1 = Inr (sub, d2)"
    using assms t p k by (auto simp: approve_tenant_def split: sum.splits)
  have hv: "hv k tid = None"
    using assms t p k sub by (auto simp: approve_tenant_def split: option.splits)
  from k(1) obtain b where b: "b \<in> set (bridges d)" "br_status b = ''available''" "k = br_bridge_id b"
      "d1 = d\<lparr>bridges := upd_rows br_bridge_id k (take_bridge tid now) (bridges d)\<rparr>"
    by (rule allocate_bridge_Some)
  from sub obtain s where s: "s \<in> set (ip_pool d1)" "managed s" "ipp_status s = ''free''" "sub = take_subnet now s"
      "d2 = d1\<lparr>ip_pool := upd_rows ipp_id (ipp_id s) (take_subnet now) (ip_pool d1)\<rparr>"
    by (rule allocate_subnet_Inr)
  let ?d3 = "bump_seq TNetworks (d2\<lparr>
     pods := upd_rows pod_id (pod_id p) (\<lambda>x. x\<lparr>pod_tenant_count := pod_tenant_count x + 1\<rparr>) (pods d2),
     tenants := upd_rows t_id tid (provisioning_tenant p k sub ds de) (tenants d2),
     networks := networks d2 @ [default_network t p sub k (next_id TNetworks d2)],
     ip_pool := upd_rows ipp_id (ipp_id sub) (\<lambda>r. r\<lparr>ipp_tenant_network_id := None\<rparr>) (ip_pool d2)\<rparr>)"
  have d': "d' = send_task (ProvisionTenant tid (pod_id p) k (ipp_gateway_ip sub) (ipp_cidr sub)) ?d3"
    and r: "r = \<lparr>pr_tenant_id = tid, pr_bridge_id = k, pr_vm_id = 10000 + (k - 100),
       pr_vm_name = ''VM_OPNsense_'' @ show_int tid, pr_bridge_name = bridge_name k,
       pr_lan_ip = ipp_gateway_ip sub, pr_cidr = ipp_cidr sub\<rparr>"
    using assms by (simp_all add: approve_tenant_def t p k sub hv Let_def)
  show thesis
  proof (rule that [OF t p b(1,2)])
    show "s \<in> set (ip_pool d)" using s(1) b(4) by simp
    show "ip_pool d' = upd_rows ipp_id (ipp_id s) (linked_subnet now) (ip_pool d)"
      unfolding d' by (simp add: s(4,5) b(4) upd_rows_twice linked_subnet_def [abs_def])
  qed (use k(2) b hv s in \<open>simp_all add: d' r next_id_def bump_seq_def\<close>)
qed


section \<open>What approval does\<close>


text \<open>
  C40: the destroy task only queues itself again: once it is the queue's only task, any number of
  worker steps leaves the database, queue included, exactly as it is. No resource is ever freed.
\<close>
theorem destroy_never_finishes:
  assumes "first_row (\<lambda>t. t_id t = tid) (tenants d) \<noteq> None" "queue d = [DestroyTenant tid]"
  shows "(worker_step ^^ n) d = d"
proof -
  have "worker_step d = d"
    using assms by (cases d) (auto simp: worker_step_def destroy_tenant_task_def destroy_tenant_def send_task_def)
  then show ?thesis by (induction n) simp_all
qed

text \<open>
  the deletion endpoint asks for an admin of any tenant, not of the tenant that is deleted: the
  admin of one tenant can start the destruction of every other one.
\<close>
theorem any_tenant_admin_deletes_any_tenant:
  assumes "is_tenant_admin cu home d" "u_tenant_id cu = Some home" "t \<in> set (tenants d)"
  shows "fst (admin_delete_tenant None cu req (t_id t) d) = Inr (t_id t, ''deprovisioning_started'') \<and>
    queue (snd (admin_delete_tenant None cu req (t_id t) d)) = queue d @ [DestroyTenant (t_id t)]"
proof -
  obtain q where "first_row (\<lambda>x. t_id x = t_id t) (tenants d) = Some q"
    using assms(3) by (metis (mono_tags, lifting) first_row_ex)
  moreover have "require_admin cu d"
    using assms(1,2) by (auto simp: require_admin_def is_tenant_admin_def)
  ultimately show ?thesis
    by (simp add: admin_delete_tenant_def destroy_tenant_def ok_def send_task_def)
qed

text \<open>
  When provisioning fails during verification, the tenant is not marked: its status after the call
  is not \<open>error\<close>, because the assignment is rolled back, and it is not verified either.
\<close>
theorem failed_verification_not_marked:
  assumes "verify_tenant hv cu req tid q d = (Inr vr, d')" "vr_error vr = Some e" "t \<in> set (tenants d')"
    "t_id t = tid" "distinct_keys t_id (tenants d)"
  shows "t_status t \<noteq> ''error'' \<and> \<not> t_is_verified t"
proof -
  obtain t0 where t0: "first_row (\<lambda>t. t_id t = tid) (tenants d) = Some t0" "\<not> t_is_verified t0" "is_super_admin cu d"
    using assms(1) by (auto simp: verify_tenant_def split: option.splits if_splits)
  let ?d0 = "if t_status t0 = ''error'' then d\<lparr>tenants := upd_rows t_id tid reset_tenant (tenants d)\<rparr> else d"
  obtain r d1 where r: "approve_tenant hv (req_now req) tid None None ?d0 = (r, d1)" by (cases "approve_tenant hv (req_now req) tid None None ?d0")
  have "\<exists>x. r = Inl x"
    using assms(1,2) t0 r by (cases r) (auto simp: verify_tenant_def Let_def split: option.splits)
  then have tens: "tenants d' = tenants ?d0"
    using assms(1) t0 r by (auto simp: verify_tenant_def Let_def)
  have in0: "t0 \<in> set (tenants d)" "t_id t0 = tid" using first_row_Some [OF t0(1)] by auto
  show ?thesis
  proof (cases "t_status t0 = ''error''")
    case True
    then have "set (tenants d') = insert (reset_tenant t0) (set (tenants d) - {t0})"
      using tens upd_rows_in_Some [OF assms(5) in0, of reset_tenant] by simp
    moreover have "t \<notin> set (tenants d) - {t0}"
      using distinct_keys_eq [OF assms(5) _ in0(1)] assms(4) in0(2) by auto
    ultimately have "t = reset_tenant t0" using assms(3) by blast
    then show ?thesis using t0(2) by (simp add: reset_tenant_def)
  next
    case False
    then have "t = t0" using distinct_keys_eq [OF assms(5) _ in0(1)] assms(3,4) in0(2) tens by auto
    with False t0(2) show ?thesis by simp
  qed
qed

text \<open>
  Verifying a tenant whose provisioning had failed loses its first bridge: the reset forgets the
  bridge without returning it, so after the retry the pool row of the old bridge is still in use by the
  tenant, which now has a different one.
\<close>
theorem retry_leaks_bridge:
  assumes "verify_tenant hv cu req tid q d = (Inr vr, d')" "vr_error vr = None"
    "first_row (\<lambda>t. t_id t = tid) (tenants d) = Some t" "t_status t = ''error''" "t_bridge_id t = Some b0"
    "r0 \<in> set (bridges d)" "br_bridge_id r0 = b0" "br_status r0 = ''in_use''"
    "distinct_keys br_bridge_id (bridges d)"
  shows "r0 \<in> set (bridges d') \<and>
    (\<forall>t' \<in> set (tenants d'). t_id t' = tid \<longrightarrow> t_bridge_id t' \<noteq> Some b0)"
proof -
  let ?d0 = "d\<lparr>tenants := upd_rows t_id tid reset_tenant (tenants d)\<rparr>"
  have nv: "\<not> t_is_verified t" "is_super_admin cu d"
    using assms(1,3) by (auto simp: verify_tenant_def split: if_splits)
  obtain r d1 where r: "approve_tenant hv (req_now req) tid None None ?d0 = (r, d1)"
    by (cases "approve_tenant hv (req_now req) tid None None ?d0")
  obtain p where p: "r = Inr p"
  proof (cases r)
    case (Inl e)
    have "first_row (\<lambda>t. t_id t = tid) (tenants ?d0) = Some (reset_tenant t)"
      using assms(3) by (simp add: first_row_upd_rows reset_tenant_def)
    then show thesis
      using assms(1,2,3,4) nv r Inl by (auto simp: verify_tenant_def Let_def)
  qed (use that in blast)
  have d': "tenants d' = upd_rows t_id tid (\<lambda>x. x\<lparr>t_is_verified := True, t_settings := Some (model_dump_json q)\<rparr>) (tenants d1)"
      "bridges d' = bridges d1"
    using assms(1,3,4) nv r p by (auto simp: verify_tenant_def Let_def)
  from r [unfolded p] show ?thesis
  proof (rule approve_ok)
    fix t1 p1 b s
    assume b: "b \<in> set (bridges ?d0)" "br_status b = ''available''"
      and e: "bridges d1 = upd_rows br_bridge_id (br_bridge_id b) (take_bridge tid (req_now req)) (bridges ?d0)"
        "tenants d1 = upd_rows t_id tid (provisioning_tenant p1 (br_bridge_id b) (take_subnet (req_now req) s) None None) (tenants ?d0)"
    have ne: "br_bridge_id b \<noteq> b0"
      using distinct_keys_eq [OF assms(9), of b r0] b assms(6-8) by auto
    then have "r0 \<in> set (bridges d')"
      unfolding d'(2) e(1) using assms(6,7) by (auto intro: upd_rows_other)
    moreover have "t_bridge_id t' = Some (br_bridge_id b)" if t': "t' \<in> set (tenants d')" "t_id t' = tid" for t'
    proof -
      let ?mark = "\<lambda>x. x\<lparr>t_is_verified := True, t_settings := Some (model_dump_json q)\<rparr>"
      let ?prov = "provisioning_tenant p1 (br_bridge_id b) (take_subnet (req_now req) s) None None"
      obtain y where y: "y \<in> set (tenants d1)" "t_id y = tid" "t' = ?mark y"
        using upd_rows_at [of t' t_id tid ?mark "tenants d1"] t' d'(1) by metis
      obtain z where "y = ?prov z"
        using upd_rows_at [of y t_id tid ?prov "tenants ?d0"] y(1,2) e(2) by metis
      then show ?thesis by (simp add: y(3) provisioning_tenant_def)
    qed
    ultimately show ?thesis using ne by auto
  qed
qed


section \<open>Witnesses\<close>

definition demo_root :: user where
  "demo_root = new_user 9 ''root'' ''root@x.io'' ''h'' None None"

definition demo_admin :: user where
  "demo_admin = new_user 1 ''ann'' ''ann@x.io'' ''h'' None (Some 1)"

definition two_roles_db :: db where
  "two_roles_db = empty_db\<lparr>users := [demo_admin, demo_root],
     roles := [\<lparr>r_id = 1, r_name = ''tenant_admin'', r_description = None, r_tenant_id = None,
        r_is_preset = True, r_is_system = False, r_permissions = []\<rparr>,
        \<lparr>r_id = 2, r_name = ''super_admin'', r_description = None, r_tenant_id = None,
        r_is_preset = True, r_is_system = True, r_permissions = []\<rparr>],
     user_roles := [\<lparr>ur_id = 1, ur_user_id = 1, ur_tenant_id = Some 1, ur_role_id = 1, ur_granted_by = None\<rparr>,
        \<lparr>ur_id = 2, ur_user_id = 9, ur_tenant_id = None, ur_role_id = 2, ur_granted_by = None\<rparr>]\<rparr>"

definition prov_db :: "string \<Rightarrow> int option \<Rightarrow> db" where
  "prov_db st b0 = two_roles_db\<lparr>
     tenants := [(new_tenant 1 ''One'' ''one'')\<lparr>t_status := st, t_bridge_id := b0\<rparr>, new_tenant 2 ''Two'' ''two''],
     pods := [\<lparr>pod_id = 1, pod_name = ''pod-1'', pod_provider_type = ''proxmox'', pod_node_names = ''pve1'',
        pod_max_tenants = 100, pod_tenant_count = 0, pod_status = ''active''\<rparr>],
     ip_pool := ip_pool net_db, seqs := (\<lambda>_. 10),
     bridges := [\<lparr>br_bridge_id = 100, br_status = ''in_use'', br_tenant_id = Some 1, br_allocated_at = Some 0\<rparr>,
        \<lparr>br_bridge_id = 101, br_status = ''available'', br_tenant_id = None, br_allocated_at = None\<rparr>]\<rparr>"


lemma destroy_never_finishes_witness:
  "(worker_step ^^ 3) ((prov_db ''active'' None)\<lparr>queue := [DestroyTenant 1]\<rparr>) =
    (prov_db ''active'' None)\<lparr>queue := [DestroyTenant 1]\<rparr>"
  by (rule destroy_never_finishes [of 1]) (simp_all add: prov_db_def new_tenant_def)

lemma any_tenant_admin_deletes_any_tenant_witness:
  "queue (snd (admin_delete_tenant None demo_admin (plain_request [] 0) 2 (prov_db ''active'' None))) =
    queue (prov_db ''active'' None) @ [DestroyTenant 2]"
proof -
  have "is_tenant_admin demo_admin 1 (prov_db ''active'' None)" by code_simp
  moreover have "new_tenant 2 ''Two'' ''two'' \<in> set (tenants (prov_db ''active'' None))" by (simp add: prov_db_def)
  ultimately show ?thesis
    using any_tenant_admin_deletes_any_tenant [of demo_admin 1 "prov_db ''active'' None" "new_tenant 2 ''Two'' ''two''"]
    by (simp add: new_tenant_def demo_admin_def new_user_def)
qed

lemma failed_verification_not_marked_witness:
  "\<exists>vr d'. verify_tenant (\<lambda>_ _. Some ''timeout'') demo_root (plain_request [] 0) 1 no_quota (prov_db ''pending_approval'' None) = (Inr vr, d') \<and>
     (\<forall>t \<in> set (tenants d'). t_id t = 1 \<longrightarrow> t_status t \<noteq> ''error'')"
proof -
  let ?v = "verify_tenant (\<lambda>_ _. Some ''timeout'') demo_root (plain_request [] 0) 1 no_quota (prov_db ''pending_approval'' None)"
  have "is_ok ?v \<and> vr_error (projr (fst ?v)) \<noteq> None \<and> distinct_keys t_id (tenants (prov_db ''pending_approval'' None))"
    by code_simp
  then obtain vr d' e where v: "?v = (Inr vr, d')" "vr_error vr = Some e"
      "distinct_keys t_id (tenants (prov_db ''pending_approval'' None))"
    by (auto simp: is_ok_conv)
  from failed_verification_not_marked [OF v(1,2) _ _ v(3)] v(1) show ?thesis by blast
qed

lemma retry_leaks_bridge_witness:
  "\<exists>vr d'. verify_tenant (\<lambda>_ _. None) demo_root (plain_request [] 0) 1 no_quota (prov_db ''error'' (Some 100)) = (Inr vr, d') \<and>
     \<lparr>br_bridge_id = 100, br_status = ''in_use'', br_tenant_id = Some 1, br_allocated_at = Some 0\<rparr> \<in> set (bridges d')"
proof -
  let ?d = "prov_db ''error'' (Some 100)"
  let ?v = "verify_tenant (\<lambda>_ _. None) demo_root (plain_request [] 0) 1 no_quota ?d"
  have "is_ok ?v \<and> vr_error (projr (fst ?v)) = None" by code_simp
  then obtain vr d' where v: "?v = (Inr vr, d')" "vr_error vr = None" by (auto simp: is_ok_conv)
  have t: "first_row (\<lambda>t. t_id t = 1) (tenants ?d) = Some ((new_tenant 1 ''One'' ''one'')\<lparr>t_status := ''error'', t_bridge_id := Some 100\<rparr>)"
    by (simp add: prov_db_def new_tenant_def)
  have "distinct_keys br_bridge_id (bridges ?d)" by code_simp
  from retry_leaks_bridge [OF v t _ _ _ _ _ this] v(1) show ?thesis
    by (simp add: prov_db_def)
qed

end
