(* ===== verification/Pods.thy ===== *)
theory Pods
  imports Provisioning
begin

text \<open>
  Pods and the bridge pool: \<open>app/api/pods.py\<close>, \<open>app/api/bridge_pool.py\<close> and
  \<open>seed_vlan_pool\<close> of \<open>app/services/seed.py\<close>. The foreign keys to \<open>pods\<close> have no
  \<open>ON DELETE\<close> action: deleting a pod that a VLAN row, a network or a tenant refers to is an
  \<open>IntegrityError\<close>. The invariants of the admin operations together with those of
  \<open>Provisioning\<close> are at the end.
\<close>

section \<open>VLAN rows of a pod (services/seed.py)\<close>

definition insert_vlan :: "int \<Rightarrow> int \<Rightarrow> db \<Rightarrow> db" where
  "insert_vlan pod v d =
     (let d1 = bump_seq TVlans d
      in if \<exists>r \<in> set (vlans d). vl_pod_id r = pod \<and> vl_vlan_id r = v then d1
         else d1\<lparr>vlans := vlans d1 @ [\<lparr>vl_id = next_id TVlans d, vl_pod_id = pod, vl_vlan_id = v,
           vl_status = ''free'', vl_tenant_network_id = None\<rparr>]\<rparr>)"

definition tenant_vlans :: "int list" where
  "tenant_vlans = [10..4094]"

definition seed_vlan_pool :: "int \<Rightarrow> db \<Rightarrow> db" where
  "seed_vlan_pool pod d = fold (insert_vlan pod) tenant_vlans d"

section \<open>Pods (api/pods.py)\<close>

record pod_create =
  pc_name :: string
  pc_provider_type :: string
  pc_node_names :: string
  pc_max_tenants :: int

record pod_update =
  pu_name :: "string option"
  pu_max_tenants :: "int option"
  pu_status :: "string option"

definition list_pods :: "user \<Rightarrow> db \<Rightarrow> (int \<times> pod list, db) result" where
  "list_pods cu d =
     (if \<not> is_super_admin cu d then http 403 ''Super admin access required'' d
      else ok (int (length (pods d)), pods d) d)"

definition get_pod :: "user \<Rightarrow> int \<Rightarrow> db \<Rightarrow> (pod, db) result" where
  "get_pod cu i d =
     (if \<not> is_super_admin cu d then http 403 ''Super admin access required'' d
      else case first_row (\<lambda>p. pod_id p = i) (pods d) of
        None \<Rightarrow> http 404 ''Pod not found'' d | Some p \<Rightarrow> ok p d)"

definition pod_audit :: "user \<Rightarrow> int \<Rightarrow> string \<Rightarrow> string \<Rightarrow> db \<Rightarrow> db" where
  "pod_audit cu i nm details d =
     log_audit_event ((audit_event (audit_action ''ADMIN_ACTION'') ''pod'' cu)
       \<lparr>a_target_id := Some i, a_target_name := Some nm, a_details := Some details\<rparr>) None d"

definition valid_providers :: "string list" where
  "valid_providers = [''proxmox'', ''vsphere'', ''kvm'', ''hyperv'']"

definition create_pod :: "user \<Rightarrow> pod_create \<Rightarrow> db \<Rightarrow> (pod, db) result" where
  "create_pod cu b d =
     (if \<not> is_super_admin cu d then http 403 ''Super admin access required'' d
      else if \<exists>p \<in> set (pods d). pod_name p = pc_name b then http 400 ''Pod with this name already exists'' d
      else if pc_provider_type b \<notin> set valid_providers
        then http 400 (''Invalid provider_type. Must be one of: '' @ show_list valid_providers) d
      else
        (let p = \<lparr>pod_id = next_id TPods d, pod_name = pc_name b, pod_provider_type = pc_provider_type b,
                  pod_node_names = pc_node_names b, pod_max_tenants = pc_max_tenants b,
                  pod_tenant_count = 0, pod_status = ''active''\<rparr>;
             d1 = seed_vlan_pool (pod_id p) (bump_seq TPods (d\<lparr>pods := pods d @ [p]\<rparr>))
         in ok p (pod_audit cu (pod_id p) (pod_name p)
              (''Created pod: '' @ pod_provider_type p @ '' ('' @ pod_node_names p @ '')'') d1)))"

definition valid_statuses :: "string list" where
  "valid_statuses = [''active'', ''maintenance'', ''full'']"

definition updated_pod :: "pod_update \<Rightarrow> pod \<Rightarrow> pod" where
  "updated_pod b p =
     p\<lparr>pod_name := (case pu_name b of None \<Rightarrow> pod_name p | Some n \<Rightarrow> n),
       pod_max_tenants := (case pu_max_tenants b of None \<Rightarrow> pod_max_tenants p | Some m \<Rightarrow> m),
       pod_status := (case pu_status b of None \<Rightarrow> pod_status p | Some s \<Rightarrow> s)\<rparr>"

definition update_pod :: "user \<Rightarrow> int \<Rightarrow> pod_update \<Rightarrow> db \<Rightarrow> (pod, db) result" where
  "update_pod cu i b d =
     (if \<not> is_super_admin cu d then http 403 ''Super admin access required'' d
      else case first_row (\<lambda>p. pod_id p = i) (pods d) of
        None \<Rightarrow> http 404 ''Pod not found'' d
      | Some p \<Rightarrow>
          (if pu_name b \<noteq> None \<and> (\<exists>q \<in> set (pods d). pod_name q = the (pu_name b) \<and> pod_id q \<noteq> i)
             then http 400 ''Pod name already exists'' d
           else if pu_max_tenants b \<noteq> None \<and> the (pu_max_tenants b) < pod_tenant_count p
             then http 400 ''max_tenants cannot be less than current tenant_count'' d
           else if pu_status b \<noteq> None \<and> the (pu_status b) \<notin> set valid_statuses
             then http 400 (''Invalid status. Must be one of: '' @ show_list valid_statuses) d
           else
             (let p' = updated_pod b p
              in ok p' (pod_audit cu (pod_id p') (pod_name p')
                   (''Updated pod: status='' @ pod_status p' @ '', max_tenants='' @ show_int (pod_max_tenants p'))
                   (d\<lparr>pods := upd_rows pod_id i (\<lambda>_. p') (pods d)\<rparr>)))))"

definition pod_referenced :: "int \<Rightarrow> db \<Rightarrow> bool" where
  "pod_referenced i d \<longleftrightarrow> i \<in> vl_pod_id ` set (vlans d) \<or> i \<in> n_pod_id ` set (networks d) \<or>
     Some i \<in> t_pod_id ` set (tenants d)"

definition delete_pod :: "user \<Rightarrow> int \<Rightarrow> db \<Rightarrow> (unit, db) result" where
  "delete_pod cu i d =
     (if \<not> is_super_admin cu d then http 403 ''Super admin access required'' d
      else case first_row (\<lambda>p. pod_id p = i) (pods d) of
        None \<Rightarrow> http 404 ''Pod not found'' d
      | Some p \<Rightarrow>
          (if 0 < pod_tenant_count p then http 400 ''Cannot delete pod with existing tenants'' d
           else if pod_referenced i d then raise (IntegrityError ''pods'') d
           else ok () (pod_audit cu i (pod_name p) ''Deleted pod'' (d\<lparr>pods := del_rows pod_id i (pods d)\<rparr>))))"

section \<open>Bridges (api/bridge_pool.py)\<close>

record bridge_entry =
  be_bridge_id :: int
  be_status :: string
  be_tenant_id :: "int option"
  be_tenant_name :: "string option"
  be_allocated_at :: "int option"

record bridge_stats =
  bs_total :: int
  bs_available :: int
  bs_in_use :: int

record bridge_page = bridge_stats +
  bp_bridges :: "bridge_entry list"
  bp_skip :: int
  bp_limit :: int
  bp_total_filtered :: int

definition bridge_counts :: "db \<Rightarrow> bridge_stats" where
  "bridge_counts d =
     \<lparr>bs_total = int (length (bridges d)),
      bs_available = count_rows (\<lambda>b. br_status b = ''available'') (bridges d),
      bs_in_use = count_rows (\<lambda>b. br_status b = ''in_use'') (bridges d)\<rparr>"

definition bridge_entry_of :: "db \<Rightarrow> bridge \<Rightarrow> bridge_entry" where
  "bridge_entry_of d b =
     \<lparr>be_bridge_id = br_bridge_id b, be_status = br_status b, be_tenant_id = br_tenant_id b,
      be_tenant_name = (if truthy_id (br_tenant_id b)
        then map_option t_name (first_row (\<lambda>t. Some (t_id t) = br_tenant_id b) (tenants d)) else None),
      be_allocated_at = br_allocated_at b\<rparr>"

definition list_bridges ::
  "user \<Rightarrow> string option \<Rightarrow> int \<Rightarrow> int \<Rightarrow> db \<Rightarrow> (bridge_page, db) result" where
  "list_bridges cu status_filter skip limit d =
     (if \<not> is_super_admin cu d then http 403 ''Super admin access required'' d
      else
        (let c = bridge_counts d;
             rows = sort_key br_bridge_id (filter (\<lambda>b. truthy status_filter \<longrightarrow> br_status b = the status_filter) (bridges d))
         in case page skip limit rows of
              Inl e \<Rightarrow> raise e d
            | Inr ps \<Rightarrow> ok \<lparr>bs_total = bs_total c,
                bs_available = bs_available c + count_rows (\<lambda>b. br_status b = ''available'') ps,
                bs_in_use = bs_in_use c + count_rows (\<lambda>b. br_status b \<noteq> ''available'') ps,
                bp_bridges = map (bridge_entry_of d) ps, bp_skip = skip, bp_limit = limit,
                bp_total_filtered = int (length rows)\<rparr> d))"

definition get_bridge_stats :: "user \<Rightarrow> db \<Rightarrow> (bridge_stats, db) result" where
  "get_bridge_stats cu d =
     (if \<not> is_super_admin cu d then http 403 ''Super admin access required'' d
      else ok (bridge_counts d) d)"

definition detached_tenant :: "tenant \<Rightarrow> tenant" where
  "detached_tenant t =
     t\<lparr>t_bridge_id := None, t_opnsense_vm_id := None, t_status := ''error'',
       t_error := Some ''Bridge manually released by admin''\<rparr>"

definition release_bridge :: "user \<Rightarrow> request \<Rightarrow> int \<Rightarrow> db \<Rightarrow> (bridge_entry, db) result" where
  "release_bridge cu req i d =
     (if \<not> is_super_admin cu d then http 403 ''Super admin access required'' d
      else case first_row (\<lambda>b. br_bridge_id b = i) (bridges d) of
        None \<Rightarrow> http 404 (''Bridge '' @ show_int i @ '' not found'') d
      | Some b \<Rightarrow>
          (if br_status b = ''available'' then http 400 (''Bridge '' @ show_int i @ '' is already available'') d
           else
             (let d1 = (if truthy_id (br_tenant_id b)
                        then d\<lparr>tenants := upd_rows t_id (the (br_tenant_id b)) detached_tenant (tenants d)\<rparr> else d);
                  d2 = free_bridge i d1
              in ok \<lparr>be_bridge_id = i, be_status = ''available'', be_tenant_id = None, be_tenant_name = None,
                     be_allocated_at = None\<rparr>
                   (log_audit_event (with_request req None
                     ((audit_event (audit_action ''ADMIN_ACTION'') ''bridge'' cu)
                       \<lparr>a_target_id := Some i, a_target_name := Some (bridge_name i),
                        a_old_value := Some (''tenant_id='' @ show_opt show_int (br_tenant_id b) @ '',status=in_use''),
                        a_new_value := Some ''tenant_id=None,status=available'',
                        a_details := Some ''Bridge manually released by super admin''\<rparr>)) None d2))))"

section \<open>Seeding the VLAN rows\<close>

lemma fold_frame: "(\<And>x y. f (g x y) = f y) \<Longrightarrow> f (fold g xs y) = f y"
  by (induction xs arbitrary: y) auto

lemma insert_vlan_frame:
  "pods (insert_vlan i v d) = pods d" "tenants (insert_vlan i v d) = tenants d"
  "bridges (insert_vlan i v d) = bridges d" "roles (insert_vlan i v d) = roles d"
  "user_roles (insert_vlan i v d) = user_roles d" "networks (insert_vlan i v d) = networks d"
  "seqs (insert_vlan i v d) TPods = seqs d TPods" "ip_pool (insert_vlan i v d) = ip_pool d"
  by (simp_all add: insert_vlan_def Let_def bump_seq_def)

lemma seed_vlan_frame [row_simps, simp]:
  "pods (seed_vlan_pool i d) = pods d" "tenants (seed_vlan_pool i d) = tenants d"
  "bridges (seed_vlan_pool i d) = bridges d" "roles (seed_vlan_pool i d) = roles d"
  "user_roles (seed_vlan_pool i d) = user_roles d" "networks (seed_vlan_pool i d) = networks d"
  "seqs (seed_vlan_pool i d) TPods = seqs d TPods" "ip_pool (seed_vlan_pool i d) = ip_pool d"
  unfolding seed_vlan_pool_def by (rule fold_frame, rule insert_vlan_frame)+

definition vlan_ids_wf :: "db \<Rightarrow> bool" where
  "vlan_ids_wf d \<longleftrightarrow> vlans_wf d \<and> (\<forall>r \<in> set (vlans d). vl_id r < seqs d TVlans)"

lemma insert_vlan_wf: "vlan_ids_wf d \<Longrightarrow> vlan_ids_wf (insert_vlan i v d)"
  by (force simp: vlan_ids_wf_def vlans_wf_def insert_vlan_def Let_def bump_seq_def next_id_def distinct_keys_append)

lemma insert_vlan_rows:
  "vlans (insert_vlan i v d) = vlans d \<and> v \<in> vlan_numbers i d \<or>
   (\<exists>r. vlans (insert_vlan i v d) = vlans d @ [r] \<and> vl_pod_id r = i \<and> vl_vlan_id r = v \<and> vl_status r = ''free'')"
  by (auto simp: insert_vlan_def Let_def vlan_numbers_def)

lemma insert_vlan_numbers:
  "vlan_numbers j (insert_vlan i v d) = (if j = i then insert v (vlan_numbers j d) else vlan_numbers j d)"
  using insert_vlan_rows [of i v d]
  by (elim disjE exE conjE) (auto simp: vlan_numbers_def keys_appended simp del: set_append)

lemma insert_vlan_free:
  "vlan_numbers i d = free_vlan_numbers i d \<Longrightarrow> vlan_numbers i (insert_vlan i v d) = free_vlan_numbers i (insert_vlan i v d)"
  using insert_vlan_rows [of i v d]
  by (elim disjE exE conjE) (auto simp: vlan_numbers_def free_vlan_numbers_def keys_appended simp del: set_append)

lemma fold_insert_vlan:
  "vlan_ids_wf d \<Longrightarrow> vlan_ids_wf (fold (insert_vlan i) vs d)"
  "vlan_numbers j (fold (insert_vlan i) vs d) = vlan_numbers j d \<union> (if j = i then set vs else {})"
  by (induction vs arbitrary: d; simp add: insert_vlan_wf insert_vlan_numbers)+

lemma fold_insert_vlan_free:
  "vlan_numbers i d = free_vlan_numbers i d \<Longrightarrow>
    vlan_numbers i (fold (insert_vlan i) vs d) = free_vlan_numbers i (fold (insert_vlan i) vs d)"
  by (induction vs arbitrary: d) (simp_all add: insert_vlan_free)

lemma tenant_vlans_set: "set tenant_vlans = {10..4094}"
  unfolding tenant_vlans_def by (rule set_upto)

text \<open>
  a new pod gets exactly the VLAN numbers 10 to 4094, every one of them free, each in one row;
  the reserved numbers 1 to 9 are never given out; the numbers of other pods are untouched.
\<close>
theorem seeded_vlans_exact:
  assumes "vlan_ids_wf d" "vlan_numbers pod d = {}" "other \<noteq> pod"
  shows "vlan_numbers pod (seed_vlan_pool pod d) = {10..4094} \<and>
    free_vlan_numbers pod (seed_vlan_pool pod d) = {10..4094} \<and>
    vlan_numbers other (seed_vlan_pool pod d) = vlan_numbers other d \<and> vlans_wf (seed_vlan_pool pod d)"
proof -
  have "free_vlan_numbers pod d = vlan_numbers pod d"
    using assms(2) by (auto simp: vlan_numbers_def free_vlan_numbers_def)
  then have "vlan_numbers pod (seed_vlan_pool pod d) = free_vlan_numbers pod (seed_vlan_pool pod d)"
    unfolding seed_vlan_pool_def by (intro fold_insert_vlan_free) simp
  moreover have "vlan_numbers pod (seed_vlan_pool pod d) = {10..4094}"
    by (simp add: seed_vlan_pool_def fold_insert_vlan(2) assms(2) tenant_vlans_set)
  moreover have "vlan_numbers other (seed_vlan_pool pod d) = vlan_numbers other d"
    using assms(3) by (simp add: seed_vlan_pool_def fold_insert_vlan(2))
  moreover have "vlan_ids_wf (seed_vlan_pool pod d)"
    unfolding seed_vlan_pool_def by (rule fold_insert_vlan(1) [OF assms(1)])
  ultimately show ?thesis by (simp add: vlan_ids_wf_def)
qed

lemma seeded_vlans_exact_witness:
  "vlan_numbers 1 (seed_vlan_pool 1 empty_db) = {10..4094}"
  using seeded_vlans_exact [of empty_db 1 2]
  by (simp add: vlan_ids_wf_def vlans_wf_def empty_db_def vlan_numbers_def)

section \<open>Deleting pods\<close>

lemma create_pod_ok:
  assumes "create_pod cu b d = (Inr p, d')"
  shows "is_super_admin cu d" "pod_id p = seqs d TPods" "pod_tenant_count p = 0" "pod_max_tenants p = pc_max_tenants b"
    "pods d' = pods d @ [p]" "tenants d' = tenants d" "bridges d' = bridges d" "roles d' = roles d"
    "user_roles d' = user_roles d" "seqs d' TPods = seqs d TPods + 1"
    "10 \<in> vlan_numbers (pod_id p) d'"
proof -
  have c: "is_super_admin cu d" "p = \<lparr>pod_id = next_id TPods d, pod_name = pc_name b, pod_provider_type = pc_provider_type b,
      pod_node_names = pc_node_names b, pod_max_tenants = pc_max_tenants b, pod_tenant_count = 0, pod_status = ''active''\<rparr>"
    "\<exists>det. d' = pod_audit cu (pod_id p) (pod_name p) det (seed_vlan_pool (pod_id p) (bump_seq TPods (d\<lparr>pods := pods d @ [p]\<rparr>)))"
    using assms by (auto simp: create_pod_def Let_def split: if_splits)
  obtain det where d': "d' = pod_audit cu (pod_id p) (pod_name p) det (seed_vlan_pool (pod_id p) (bump_seq TPods (d\<lparr>pods := pods d @ [p]\<rparr>)))"
    using c(3) by blast
  show "is_super_admin cu d" by (rule c(1))
  show "pod_id p = seqs d TPods" "pod_tenant_count p = 0" "pod_max_tenants p = pc_max_tenants b"
    by (simp_all add: c(2) next_id_def)
  show "pods d' = pods d @ [p]" "tenants d' = tenants d" "bridges d' = bridges d" "roles d' = roles d"
    "user_roles d' = user_roles d" "seqs d' TPods = seqs d TPods + 1"
    unfolding d' by (simp_all add: pod_audit_def) (simp add: bump_seq_def)
  have "vlan_numbers (pod_id p) d' = vlan_numbers (pod_id p) (seed_vlan_pool (pod_id p) (bump_seq TPods (d\<lparr>pods := pods d @ [p]\<rparr>)))"
    unfolding d' by (simp add: pod_audit_def vlan_numbers_def)
  then show "10 \<in> vlan_numbers (pod_id p) d'"
    by (simp add: seed_vlan_pool_def fold_insert_vlan(2) tenant_vlans_set)
qed

text \<open>
  A pod that was created can never be deleted: its own VLAN rows refer to it, so
  \<open>delete_pod\<close> ends in an \<open>IntegrityError\<close>, although the pod has no tenants.
\<close>
theorem created_pod_undeletable:
  assumes "create_pod cu b d = (Inr p, d')" "\<forall>q \<in> set (pods d). pod_id q < seqs d TPods"
  shows "pod_tenant_count p = 0 \<and> fst (delete_pod cu (pod_id p) d') = Inl (IntegrityError ''pods'')"
proof -
  note c = create_pod_ok [OF assms(1)]
  have "is_super_admin cu d'" using c(1,8,9) by (simp add: is_super_admin_def roles_of_def find_role_def)
  moreover have "first_row (\<lambda>q. pod_id q = pod_id p) (pods d) = None"
    using assms(2) c(2) by (fastforce simp: first_row_None)
  then have "first_row (\<lambda>q. pod_id q = pod_id p) (pods d') = Some p"
    by (simp add: c(5) first_row_append)
  moreover have "pod_referenced (pod_id p) d'"
    using c(11) by (force simp: pod_referenced_def vlan_numbers_def)
  ultimately show ?thesis using c(3) by (simp add: delete_pod_def)
qed

text \<open>
  The bridge list counts every row of its page twice: the reported numbers of available bridges
  and bridges in use exceed the true ones (those of \<open>get_bridge_stats\<close>) by the rows of the page.
\<close>
theorem bridge_list_counts_twice:
  assumes "list_bridges cu f skip limit d = (Inr pg, d')" "get_bridge_stats cu d = (Inr st, d'')"
    "\<forall>b \<in> set (bridges d). br_status b \<in> {''available'', ''in_use''}"
  shows "bs_available pg + bs_in_use pg = bs_total st + int (length (bp_bridges pg)) \<and>
    bs_available st + bs_in_use st = bs_total st"
proof -
  have counts: "count_rows (\<lambda>b. br_status b = ''available'') (bs :: bridge list) + count_rows (\<lambda>b. br_status b \<noteq> ''available'') bs = int (length bs)" for bs
    by (induction bs) auto
  have "count_rows (\<lambda>b. br_status b = ''in_use'') (bridges d) = count_rows (\<lambda>b. br_status b \<noteq> ''available'') (bridges d)"
    using assms(3) by (induction "bridges d" arbitrary: d) (auto simp: count_rows_def intro!: arg_cong [of _ _ length] filter_cong)
  with counts [of "bridges d"] have st: "bs_available (bridge_counts d) + bs_in_use (bridge_counts d) = bs_total (bridge_counts d)"
    by (simp add: bridge_counts_def)
  have "\<exists>ps :: bridge list. bs_available pg = bs_available (bridge_counts d) + count_rows (\<lambda>b. br_status b = ''available'') ps \<and>
      bs_in_use pg = bs_in_use (bridge_counts d) + count_rows (\<lambda>b. br_status b \<noteq> ''available'') ps \<and>
      length (bp_bridges pg) = length ps"
  proof (cases "page skip limit (sort_key br_bridge_id (filter (\<lambda>b. truthy f \<longrightarrow> br_status b = the f) (bridges d)))")
    case (Inr ps)
    then show ?thesis
      using assms(1) by (intro exI [of _ ps]) (auto simp: list_bridges_def Let_def split: if_splits)
  qed (use assms(1) in \<open>auto simp: list_bridges_def Let_def split: if_splits\<close>)
  then obtain ps :: "bridge list" where "bs_available pg = bs_available (bridge_counts d) + count_rows (\<lambda>b. br_status b = ''available'') ps"
      "bs_in_use pg = bs_in_use (bridge_counts d) + count_rows (\<lambda>b. br_status b \<noteq> ''available'') ps"
      "length (bp_bridges pg) = length ps" by blast
  moreover have "st = bridge_counts d"
    using assms(2) by (auto simp: get_bridge_stats_def split: if_splits)
  ultimately show ?thesis using st counts [of ps] by simp
qed

section \<open>The invariants of the admin operations\<close>

definition pods_wf :: "db \<Rightarrow> bool" where
  "pods_wf d \<longleftrightarrow> distinct_keys pod_id (pods d) \<and>
     (\<forall>p \<in> set (pods d). pod_id p < seqs d TPods \<and> pod_tenant_count p \<le> max 0 (pod_max_tenants p))"

definition holds_bridge :: "db \<Rightarrow> tenant \<Rightarrow> bool" where
  "holds_bridge d t \<longleftrightarrow> (case t_bridge_id t of None \<Rightarrow> True | Some b \<Rightarrow>
     (\<exists>r \<in> set (bridges d). br_bridge_id r = b \<and> br_status r \<noteq> ''available'' \<and> br_tenant_id r = Some (t_id t)))"

definition bridges_wf :: "db \<Rightarrow> bool" where
  "bridges_wf d \<longleftrightarrow> distinct_keys br_bridge_id (bridges d) \<and> distinct_keys t_id (tenants d) \<and>
     (\<forall>t \<in> set (tenants d). t_id t \<noteq> 0 \<and> holds_bridge d t)"

inductive admin_reach :: "db \<Rightarrow> db \<Rightarrow> bool" where
  start: "admin_reach d d"
| verify: "admin_reach d d' \<Longrightarrow> admin_reach d (snd (verify_tenant hv cu req tid q d'))"
| approve: "admin_reach d d' \<Longrightarrow> admin_reach d (snd (admin_approve_tenant rl hv cu req tid body d'))"
| delete_tenant: "admin_reach d d' \<Longrightarrow> admin_reach d (snd (admin_delete_tenant rl cu req tid d'))"
| create_pod: "admin_reach d d' \<Longrightarrow> admin_reach d (snd (create_pod cu b d'))"
| update_pod: "admin_reach d d' \<Longrightarrow> admin_reach d (snd (update_pod cu i u d'))"
| delete_pod: "admin_reach d d' \<Longrightarrow> admin_reach d (snd (delete_pod cu i d'))"
| release: "admin_reach d d' \<Longrightarrow> admin_reach d (snd (release_bridge cu req i d'))"

lemma pods_wf_frame: "pods d' = pods d \<Longrightarrow> seqs d' TPods = seqs d TPods \<Longrightarrow> pods_wf d' = pods_wf d"
  by (simp add: pods_wf_def)

lemma bridges_wf_frame: "tenants d' = tenants d \<Longrightarrow> bridges d' = bridges d \<Longrightarrow> bridges_wf d' = bridges_wf d"
proof -
  assume "tenants d' = tenants d" "bridges d' = bridges d"
  moreover from this have "holds_bridge d' t = holds_bridge d t" for t
    by (simp add: holds_bridge_def split: option.split)
  ultimately show ?thesis by (simp add: bridges_wf_def)
qed

text \<open>Changing the row of one tenant: its new bridge must be held, the others are not affected.\<close>

lemma bridges_wf_tenant:
  assumes "bridges_wf d" "\<And>t. t_id (f t) = t_id t"
    "\<And>t. t \<in> set (tenants d) \<Longrightarrow> t_id t = i \<Longrightarrow> holds_bridge d (f t)"
  shows "bridges_wf (d\<lparr>tenants := upd_rows t_id i f (tenants d)\<rparr>)"
proof -
  have "holds_bridge (d\<lparr>tenants := ts\<rparr>) t = holds_bridge d t" for ts t
    by (simp add: holds_bridge_def split: option.split)
  then show ?thesis
    using assms by (auto simp: bridges_wf_def set_upd_rows distinct_keys_upd_rows)
qed

text \<open>Changing the row of one bridge that no tenant holds, other than those whose row stays theirs.\<close>

lemma bridges_wf_bridge:
  assumes "bridges_wf d" "\<And>r. br_bridge_id (f r) = br_bridge_id r"
    "\<And>t. t \<in> set (tenants d) \<Longrightarrow> t_bridge_id t \<noteq> Some b"
  shows "bridges_wf (d\<lparr>bridges := upd_rows br_bridge_id b f (bridges d)\<rparr>)"
proof -
  have "holds_bridge (d\<lparr>bridges := upd_rows br_bridge_id b f (bridges d)\<rparr>) t"
    if t: "t \<in> set (tenants d)" for t
  proof (cases "t_bridge_id t")
    case (Some k)
    then obtain r where "r \<in> set (bridges d)" "br_bridge_id r = k" "br_status r \<noteq> ''available''"
        "br_tenant_id r = Some (t_id t)"
      using assms(1) t by (auto simp: bridges_wf_def holds_bridge_def split: option.splits)
    moreover have "k \<noteq> b" using assms(3) [OF t] Some by auto
    ultimately show ?thesis using Some by (auto simp: holds_bridge_def intro!: bexI [of _ r] upd_rows_other)
  qed (simp add: holds_bridge_def)
  then show ?thesis using assms(1,2) by (simp add: bridges_wf_def distinct_keys_upd_rows)
qed

definition admin_inv :: "db \<Rightarrow> bool" where
  "admin_inv d \<longleftrightarrow> pods_wf d \<and> bridges_wf d"

lemma admin_inv_frame:
  "pods d' = pods d \<Longrightarrow> seqs d' TPods = seqs d TPods \<Longrightarrow> tenants d' = tenants d \<Longrightarrow> bridges d' = bridges d \<Longrightarrow>
    admin_inv d' = admin_inv d"
  using pods_wf_frame [of d' d] bridges_wf_frame [of d' d] by (simp add: admin_inv_def)

lemma pods_wf_upd:
  assumes "pods_wf d" "\<And>p. pod_id (f p) = pod_id p"
    "\<And>p. p \<in> set (pods d) \<Longrightarrow> pod_id p = i \<Longrightarrow> pod_tenant_count (f p) \<le> max 0 (pod_max_tenants (f p))"
    "pods d' = upd_rows pod_id i f (pods d)" "seqs d' TPods = seqs d TPods"
  shows "pods_wf d'"
proof -
  have "distinct_keys pod_id (pods d')"
    unfolding assms(4) using assms(1,2) by (simp add: distinct_keys_upd_rows pods_wf_def)
  moreover have "pod_id p < seqs d TPods \<and> pod_tenant_count p \<le> max 0 (pod_max_tenants p)"
    if "p \<in> set (upd_rows pod_id i f (pods d))" for p
    using that assms(1-3) unfolding set_upd_rows pods_wf_def by auto
  ultimately show ?thesis by (simp add: pods_wf_def assms(4,5))
qed

lemma available_unheld:
  assumes "bridges_wf d" "b \<in> set (bridges d)" "br_status b = ''available''" "t \<in> set (tenants d)"
  shows "t_bridge_id t \<noteq> Some (br_bridge_id b)"
proof
  assume "t_bridge_id t = Some (br_bridge_id b)"
  then obtain r where r: "r \<in> set (bridges d)" "br_bridge_id r = br_bridge_id b" "br_status r \<noteq> ''available''"
    using assms(1,4) by (auto simp: bridges_wf_def holds_bridge_def split: option.splits)
  have "distinct_keys br_bridge_id (bridges d)" using assms(1) by (simp add: bridges_wf_def)
  from distinct_keys_eq [OF this r(1) assms(2) r(2)] r(3) assms(3) show False by simp
qed

lemma approve_admin_inv:
  assumes "admin_inv d" "approve_tenant hv now tid s e d = (r, d')"
  shows "admin_inv d'"
proof (cases r)
  case (Inl x)
  then show ?thesis using atomicD [OF approve_atomic, of hv now tid s e d x] assms by simp
next
  case (Inr x)
  from assms(2) [unfolded Inr] show ?thesis
  proof (rule approve_ok)
    fix t p b sub
    assume p: "assign_pod {} d = Some p" and b: "b \<in> set (bridges d)" "br_status b = ''available''"
      and e: "bridges d' = upd_rows br_bridge_id (br_bridge_id b) (take_bridge tid now) (bridges d)"
        "pods d' = upd_rows pod_id (pod_id p) (\<lambda>x. x\<lparr>pod_tenant_count := pod_tenant_count x + 1\<rparr>) (pods d)"
        "tenants d' = upd_rows t_id tid (provisioning_tenant p (br_bridge_id b) (take_subnet now sub) s e) (tenants d)"
        "seqs d' = (seqs d)(TNetworks := seqs d TNetworks + 1)"
    have wf: "pods_wf d" "bridges_wf d" using assms(1) by (simp_all add: admin_inv_def)
    have pp: "p \<in> set (pods d)" "pod_tenant_count p < pod_max_tenants p"
      using assign_pod_Some [OF p] by (auto simp: pod_open_def)
    have "pod_tenant_count q + 1 \<le> pod_max_tenants q" if "q \<in> set (pods d)" "pod_id q = pod_id p" for q
      using distinct_keys_eq [of pod_id "pods d" q p] wf(1) that pp by (simp add: pods_wf_def)
    then have "pods_wf d'" using e(4) by (intro pods_wf_upd [OF wf(1) _ _ e(2)]) (simp_all add: le_max_iff_disj)
    moreover have "bridges_wf d'"
    proof -
      let ?d1 = "d\<lparr>bridges := bridges d'\<rparr>"
      let ?prov = "provisioning_tenant p (br_bridge_id b) (take_subnet now sub) s e"
      have "bridges_wf ?d1"
        unfolding e(1) using available_unheld [OF wf(2) b] by (intro bridges_wf_bridge wf(2)) simp_all
      moreover have "take_bridge tid now b \<in> set (bridges d')"
        unfolding e(1) using b(1) by (simp add: upd_rows_hit)
      then have "holds_bridge ?d1 (?prov t)" if "t_id t = tid" for t
        using that by (auto simp: holds_bridge_def provisioning_tenant_def intro!: bexI [of _ "take_bridge tid now b"])
      ultimately have "bridges_wf (?d1\<lparr>tenants := upd_rows t_id tid ?prov (tenants ?d1)\<rparr>)"
        by (intro bridges_wf_tenant) (simp_all add: provisioning_tenant_def)
      then show ?thesis by (rule bridges_wf_frame [THEN iffD2, rotated 2]) (simp_all add: e(1,3))
    qed
    ultimately show ?thesis by (simp add: admin_inv_def)
  qed
qed

text \<open>Changes of a tenant's row that leave its bridge alone or take it away.\<close>

lemma admin_inv_tenant:
  assumes "admin_inv d" "\<And>t. t_id (f t) = t_id t" "\<And>t. t_bridge_id (f t) \<in> {None, t_bridge_id t}"
  shows "admin_inv (d\<lparr>tenants := upd_rows t_id i f (tenants d)\<rparr>)"
proof -
  have "holds_bridge d (f t)" if "t \<in> set (tenants d)" for t
    using that assms(1,2) assms(3) [of t]
    by (auto simp: admin_inv_def bridges_wf_def holds_bridge_def split: option.splits)
  then have "bridges_wf (d\<lparr>tenants := upd_rows t_id i f (tenants d)\<rparr>)"
    using assms by (intro bridges_wf_tenant) (simp_all add: admin_inv_def)
  then show ?thesis using assms(1) by (simp add: admin_inv_def pods_wf_def)
qed

lemma verify_admin_inv:
  assumes "admin_inv d"
  shows "leaves admin_inv (verify_tenant hv cu req tid q d)"
proof -
  let ?reset = "d\<lparr>tenants := upd_rows t_id tid reset_tenant (tenants d)\<rparr>"
  have 0: "admin_inv ?reset"
    using admin_inv_tenant [OF assms, of reset_tenant] by (simp add: reset_tenant_def)
  have 2: "admin_inv (d1\<lparr>tenants := upd_rows t_id tid
      (\<lambda>x. x\<lparr>t_is_verified := True, t_settings := Some (model_dump_json q)\<rparr>) (tenants d1)\<rparr>)"
    if "approve_tenant hv (req_now req) tid None None d' = (r, d1)" "d' \<in> {d, ?reset}" for r d1 d'
    using that 0 assms by (intro admin_inv_tenant approve_admin_inv [OF _ that(1)]) auto
  have 3: "admin_inv (log_audit_event ev ip d2) = admin_inv d2" for ev ip d2
    by (rule admin_inv_frame) simp_all
  show ?thesis
    unfolding verify_tenant_def
    by (simp add: assms 3 0 Let_def split: prod.split sum.split) (use 2 in blast)
qed

lemma queued_admin_inv: "admin_inv (send_task x d) = admin_inv d"
  by (rule admin_inv_frame) simp_all

lemma delete_tenant_admin_inv:
  assumes "admin_inv d"
  shows "leaves admin_inv (admin_delete_tenant rl cu req tid d)"
proof -
  have 3: "admin_inv (log_audit_event ev ip d2) = admin_inv d2" for ev ip d2
    by (rule admin_inv_frame) simp_all
  show ?thesis
    unfolding admin_delete_tenant_def destroy_tenant_def
    by (auto simp: assms 3 queued_admin_inv ok_def raise_def leaves_def split: option.splits)
qed

lemma admin_approve_admin_inv:
  assumes "admin_inv d"
  shows "leaves admin_inv (admin_approve_tenant rl hv cu req tid body d)"
proof -
  have 3: "admin_inv (log_audit_event ev ip d2) = admin_inv d2" for ev ip d2
    by (rule admin_inv_frame) simp_all
  show ?thesis
    unfolding admin_approve_tenant_def by (simp add: assms 3) (use approve_admin_inv [OF assms] in blast)
qed

lemma create_pod_admin_inv:
  assumes "admin_inv d"
  shows "leaves admin_inv (create_pod cu b d)"
proof (cases "create_pod cu b d")
  case (Pair r d')
  show ?thesis
  proof (cases r)
    case (Inl e)
    then have "d' = d" using Pair by (auto simp: create_pod_def Let_def split: if_splits)
    then show ?thesis using Pair assms(1) by (simp add: leaves_def)
  next
    case (Inr p)
    note c = create_pod_ok [OF Pair [unfolded Inr]]
    have "pods_wf d'"
      using assms by (fastforce simp: admin_inv_def pods_wf_def c(2-5,10) distinct_keys_append)
    moreover have "bridges_wf d'" using assms(1) bridges_wf_frame [OF c(6,7)] by (simp add: admin_inv_def)
    ultimately show ?thesis using Pair by (simp add: leaves_def admin_inv_def)
  qed
qed

lemma update_pod_admin_inv:
  assumes "admin_inv d"
  shows "leaves admin_inv (update_pod cu i u d)"
proof -
  have 3: "admin_inv (pod_audit cu' j nm det d2) = admin_inv d2" for cu' j nm det d2
    by (rule admin_inv_frame) (simp_all add: pod_audit_def)
  have 4: "admin_inv (d\<lparr>pods := upd_rows pod_id i (\<lambda>_. updated_pod u p) (pods d)\<rparr>)"
    if p: "first_row (\<lambda>p. pod_id p = i) (pods d) = Some p"
      and m: "pu_max_tenants u = None \<or> pod_tenant_count p \<le> the (pu_max_tenants u)" for p
  proof -
    have pi: "p \<in> set (pods d)" "pod_id p = i" using first_row_Some [OF p] by auto
    then have "pod_tenant_count (updated_pod u p) \<le> max 0 (pod_max_tenants (updated_pod u p))"
        "pod_id (updated_pod u p) = i" "pod_id (updated_pod u p) < seqs d TPods"
      using m assms by (auto simp: updated_pod_def admin_inv_def pods_wf_def le_max_iff_disj split: option.splits)
    then have "pods_wf (d\<lparr>pods := upd_rows pod_id i (\<lambda>_. updated_pod u p) (pods d)\<rparr>)"
      using assms by (auto simp: admin_inv_def pods_wf_def distinct_keys_replace set_upd_rows)
    then show ?thesis using assms bridges_wf_frame [of "d\<lparr>pods := upd_rows pod_id i (\<lambda>_. updated_pod u p) (pods d)\<rparr>" d]
      by (simp add: admin_inv_def)
  qed
  show ?thesis
    unfolding update_pod_def by (simp add: assms 3) (use 4 in \<open>auto simp: not_less\<close>)
qed

lemma delete_pod_admin_inv:
  assumes "admin_inv d"
  shows "leaves admin_inv (delete_pod cu i d)"
proof -
  have 3: "admin_inv (pod_audit cu' j nm det d2) = admin_inv d2" for cu' j nm det d2
    by (rule admin_inv_frame) (simp_all add: pod_audit_def)
  have "pods_wf (d\<lparr>pods := del_rows pod_id i (pods d)\<rparr>)"
    using assms by (simp add: admin_inv_def pods_wf_def set_del_rows distinct_keys_del_rows)
  then have 4: "admin_inv (d\<lparr>pods := del_rows pod_id i (pods d)\<rparr>)"
    using assms bridges_wf_frame [of "d\<lparr>pods := del_rows pod_id i (pods d)\<rparr>" d] by (simp add: admin_inv_def)
  show ?thesis
    unfolding delete_pod_def by (simp add: assms 3 4)
qed

lemma release_admin_inv:
  assumes "admin_inv d"
  shows "leaves admin_inv (release_bridge cu req i d)"
proof -
  have 3: "admin_inv (log_audit_event ev ip d2) = admin_inv d2" for ev ip d2
    by (rule admin_inv_frame) simp_all
  have 4: "admin_inv (free_bridge i (if truthy_id (br_tenant_id b)
      then d\<lparr>tenants := upd_rows t_id (the (br_tenant_id b)) detached_tenant (tenants d)\<rparr> else d))"
    (is "admin_inv (free_bridge i ?d1)") if b: "first_row (\<lambda>b. br_bridge_id b = i) (bridges d) = Some b" for b
  proof -
    have wf: "distinct_keys br_bridge_id (bridges d)" "bridges_wf d"
      using assms by (simp_all add: admin_inv_def bridges_wf_def)
    have b': "b \<in> set (bridges d)" "br_bridge_id b = i" using first_row_Some [OF b] by auto
    have owner: "br_tenant_id b = Some (t_id t) \<and> t_id t \<noteq> 0" if t: "t \<in> set (tenants d)" "t_bridge_id t = Some i" for t
    proof -
      obtain r where r: "r \<in> set (bridges d)" "br_bridge_id r = i" "br_tenant_id r = Some (t_id t)" "t_id t \<noteq> 0"
        using wf(2) t by (auto simp: bridges_wf_def holds_bridge_def split: option.splits)
      have "r = b" using distinct_keys_eq [OF wf(1) r(1) b'(1)] r(2) b'(2) by simp
      with r(3,4) show ?thesis by simp
    qed
    have 1: "admin_inv ?d1"
      using assms admin_inv_tenant [OF assms, of detached_tenant "the (br_tenant_id b)"] by (simp add: detached_tenant_def)
    have 2: "t_bridge_id t \<noteq> Some i" if "t \<in> set (tenants ?d1)" for t
      using that owner by (auto simp: truthy_id_def set_upd_rows detached_tenant_def split: if_splits)
    have "bridges_wf (?d1\<lparr>bridges := upd_rows br_bridge_id i give_bridge (bridges ?d1)\<rparr>)"
      using 1 2 by (intro bridges_wf_bridge) (simp_all add: admin_inv_def)
    then show ?thesis using 1 pods_wf_frame [of "free_bridge i ?d1" ?d1]
      by (simp add: admin_inv_def free_bridge_def)
  qed
  show ?thesis
    unfolding release_bridge_def by (simp add: assms 3 Let_def) (use 4 in auto)
qed

lemma admin_reach_inv: "admin_reach d d' \<Longrightarrow> admin_inv d \<Longrightarrow> admin_inv d'"
  by (induction rule: admin_reach.induct)
    (simp_all add: verify_admin_inv admin_approve_admin_inv delete_tenant_admin_inv create_pod_admin_inv
      update_pod_admin_inv delete_pod_admin_inv release_admin_inv flip: leaves_def)

text \<open>
  C19: whatever sequence of admin calls is made (verify, approve, delete a tenant; create, change,
  delete a pod; release a bridge), no pod ever counts more tenants than its maximum, or more than none
  where it was given a negative maximum, which nothing refuses; and two tenants never hold the same bridge.
\<close>
theorem admin_calls_keep_capacity:
  assumes "admin_reach d d'" "pods_wf d" "bridges_wf d"
  shows "(\<forall>p \<in> set (pods d'). pod_tenant_count p \<le> max 0 (pod_max_tenants p)) \<and>
    (\<forall>t \<in> set (tenants d'). \<forall>u \<in> set (tenants d'). t_bridge_id t \<noteq> None \<longrightarrow> t_bridge_id t = t_bridge_id u \<longrightarrow> t = u)"
proof -
  have inv: "pods_wf d'" "bridges_wf d'"
    using admin_reach_inv [OF assms(1)] assms(2,3) by (simp_all add: admin_inv_def)
  have "t = u" if t: "t \<in> set (tenants d')" "u \<in> set (tenants d')" "t_bridge_id t = Some k" "t_bridge_id u = Some k" for t u k
  proof -
    have d: "distinct_keys br_bridge_id (bridges d')" "distinct_keys t_id (tenants d')"
      using inv(2) by (simp_all add: bridges_wf_def)
    have h: "\<exists>r \<in> set (bridges d'). br_bridge_id r = k \<and> br_tenant_id r = Some (t_id v)" if "v \<in> {t, u}" for v
      using inv(2) t that by (auto simp: bridges_wf_def holds_bridge_def split: option.splits)
    obtain r s where "r \<in> set (bridges d')" "br_bridge_id r = k" "br_tenant_id r = Some (t_id t)"
        "s \<in> set (bridges d')" "br_bridge_id s = k" "br_tenant_id s = Some (t_id u)"
      using h [of t] h [of u] by auto
    then have "t_id t = t_id u" using distinct_keys_eq [OF d(1), of r s] by auto
    then show ?thesis using distinct_keys_eq [OF d(2) t(1,2)] by simp
  qed
  then show ?thesis using inv(1) by (auto simp: pods_wf_def)
qed

section \<open>Witnesses\<close>

definition demo_pod :: pod_create where
  "demo_pod = \<lparr>pc_name = ''pod-9'', pc_provider_type = ''proxmox'', pc_node_names = ''pve1'', pc_max_tenants = 10\<rparr>"

lemma admin_calls_keep_capacity_witness:
  "\<exists>ts. ts = tenants (snd (admin_approve_tenant None (\<lambda>_ _. None) demo_root (plain_request [] 0) 2 None
      (prov_db ''active'' (Some 100)))) \<and>
    \<not> (\<exists>t \<in> set ts. \<exists>u \<in> set ts. t_bridge_id t \<noteq> None \<and> t_bridge_id t = t_bridge_id u \<and> t \<noteq> u)"
proof -
  let ?d = "prov_db ''active'' (Some 100)"
  have "admin_reach ?d (snd (admin_approve_tenant None (\<lambda>_ _. None) demo_root (plain_request [] 0) 2 None ?d))"
    by (intro admin_reach.approve admin_reach.start)
  moreover have "pods_wf ?d"
    by (simp add: pods_wf_def prov_db_def two_roles_db_def empty_db_def)
  moreover have "bridges_wf ?d"
    by (simp add: bridges_wf_def holds_bridge_def prov_db_def new_tenant_def)
  ultimately show ?thesis using admin_calls_keep_capacity by blast
qed

lemma created_pod_undeletable_witness:
  "\<exists>p d'. create_pod demo_root demo_pod two_roles_db = (Inr p, d') \<and>
     fst (delete_pod demo_root (pod_id p) d') = Inl (IntegrityError ''pods'')"
proof -
  have "is_super_admin demo_root two_roles_db" by code_simp
  then have "is_ok (create_pod demo_root demo_pod two_roles_db)"
    by (simp add: create_pod_def demo_pod_def valid_providers_def two_roles_db_def empty_db_def Let_def)
  then obtain p d' where "create_pod demo_root demo_pod two_roles_db = (Inr p, d')" by (auto simp: is_ok_conv)
  with created_pod_undeletable [OF this] show ?thesis by (auto simp: two_roles_db_def empty_db_def)
qed

lemma bridge_list_counts_twice_witness:
  "\<exists>pg. fst (list_bridges demo_root None 0 50 (prov_db ''active'' None)) = Inr pg \<and>
     bs_available pg + bs_in_use pg = 2 + int (length (bp_bridges pg))"
proof -
  let ?d = "prov_db ''active'' None"
  have "is_ok (list_bridges demo_root None 0 50 ?d)" "is_ok (get_bridge_stats demo_root ?d)" by code_simp+
  then obtain pg d' st d'' where r: "list_bridges demo_root None 0 50 ?d = (Inr pg, d')"
      "get_bridge_stats demo_root ?d = (Inr st, d'')" by (auto simp: is_ok_conv)
  have "bs_total st = 2"
    using r(2) by (auto simp: get_bridge_stats_def bridge_counts_def prov_db_def split: if_splits)
  moreover have m: "\<forall>b \<in> set (bridges ?d). br_status b \<in> {''available'', ''in_use''}" by (simp add: prov_db_def)
  moreover have "bs_available pg + bs_in_use pg = bs_total st + int (length (bp_bridges pg))"
    using bridge_list_counts_twice [OF r m] by simp
  ultimately show ?thesis using r(1) by simp
qed

end
