(* ===== verification/Vm_Service.thy ===== *)
theory Vm_Service
  imports Quota
begin

text \<open>
  The machine lifecycle below the endpoints: \<open>app/services/vm.py\<close>, the transition table of
  \<open>app/models/vm.py\<close>, \<open>app/providers/factory.py\<close> and the exception mapping of
  \<open>app/api/vm.py\<close>.

  Hypervisors and container engines are services: a \<open>provider_env\<close> says, for each call the code
  makes, which exception it raises, if any, and what it answers. \<open>pe_registered\<close> is the registry of
  container providers, which starts empty. Every function commits at its end, so a call that raises
  leaves the database as it was.
\<close>

section \<open>Providers\<close>

record provider_env =
  pe_hypervisor :: "py_exc option"
  pe_start :: "int \<Rightarrow> py_exc option"
  pe_stop :: "int \<Rightarrow> py_exc option"
  pe_delete :: "int \<Rightarrow> py_exc option"
  pe_interfaces :: "int option \<Rightarrow> nat \<Rightarrow> py_exc + string option list"
  pe_registered :: "string list"
  pe_ct_start :: "string \<Rightarrow> py_exc option"
  pe_ct_stop :: "string \<Rightarrow> py_exc option"
  pe_ct_restart :: "string \<Rightarrow> py_exc option"
  pe_ct_remove :: "string \<Rightarrow> bool \<Rightarrow> py_exc option"
  pe_ct_logs :: "string \<Rightarrow> int \<Rightarrow> py_exc + string \<times> int"
  pe_ct_snapshot :: "string \<Rightarrow> string \<Rightarrow> py_exc + string"
  pe_ct_restore :: "string \<Rightarrow> string \<Rightarrow> py_exc option"
  pe_ct_delete_snapshot :: "string \<Rightarrow> py_exc option"

definition provider_types :: "string list" where
  "provider_types = [''docker'', ''vsphere'', ''proxmox'', ''aws'', ''azure'']"

definition get_container_provider :: "provider_env \<Rightarrow> string \<Rightarrow> py_exc option" where
  "get_container_provider env provider_type =
     (let p = lower provider_type
      in if p \<notin> set provider_types
           then Some (ProviderException ''proxmox'' (''Unsupported provider type: '' @ provider_type))
         else if p \<notin> set (pe_registered env)
           then Some (ProviderException p (''Container provider ProviderType.'' @ upper p @ '' not implemented''))
         else None)"

text \<open>Calls in sequence: the first exception stops the rest.\<close>

fun first_exc :: "py_exc option list \<Rightarrow> py_exc option" where
  "first_exc [] = None"
| "first_exc (e # es) = (case e of Some x \<Rightarrow> Some x | None \<Rightarrow> first_exc es)"

section \<open>Exceptions\<close>

fun exc_str :: "py_exc \<Rightarrow> string" where
  "exc_str (HTTPException c m) = show_int c @ '': '' @ m"
| "exc_str (ProviderException p m) = ''['' @ p @ ''] '' @ m"
| "exc_str (ValueError m) = m"
| "exc_str (RuntimeError m) = m"
| "exc_str (AttributeError m) = m"
| "exc_str (IntegrityError m) = m"
| "exc_str (RedisError m) = m"
| "exc_str (OtherError m) = m"
| "exc_str (QuotaExceededError r l c q) = ''Quota exceeded for '' @ r @ '': limit='' @ show_int l @
     '', current='' @ show_int c @ '', requested='' @ show_int q"

text \<open>\<open>except ProviderException as e: e.message\<close>, \<open>except Exception as e: str(e)\<close>.\<close>

definition exc_message :: "py_exc \<Rightarrow> string" where
  "exc_message e = (case e of ProviderException p m \<Rightarrow> m | _ \<Rightarrow> exc_str e)"

definition handle_service_exception :: "py_exc \<Rightarrow> py_exc" where
  "handle_service_exception e =
     (let s = lower (exc_str e)
      in if contains_str s ''already exists'' then HTTPException 409 (exc_str e)
         else if contains_str s ''not found'' then HTTPException 404 (exc_str e)
         else if contains_str s ''invalid'' \<or> contains_str s ''cannot'' then HTTPException 400 (exc_str e)
         else HTTPException 500 ''An internal error occurred'')"

section \<open>Status transitions\<close>

definition VALID_STATUS_TRANSITIONS :: "(string \<times> string list) list" where
  "VALID_STATUS_TRANSITIONS =
    [(''pending'', [''creating'', ''provisioning'', ''running'', ''error'']),
     (''creating'', [''pending'', ''provisioning'', ''error'']),
     (''provisioning'', [''running'', ''error'']),
     (''running'', [''stopped'', ''error'']),
     (''stopped'', [''running'', ''error'']),
     (''error'', [''pending'', ''stopped''])]"

definition validate_status_transition :: "string \<Rightarrow> string \<Rightarrow> bool" where
  "validate_status_transition current target =
     (case map_of VALID_STATUS_TRANSITIONS current of None \<Rightarrow> False | Some ts \<Rightarrow> target \<in> set ts)"

definition validate_vm_action :: "vm \<Rightarrow> string \<Rightarrow> py_exc option" where
  "validate_vm_action v action =
     (if action = ''start'' then
        (if v_status v \<notin> {''stopped'', ''error''}
         then Some (ValueError (''Cannot start VM with status '' @ [quote_char] @ v_status v @ [quote_char] @
                ''. VM must be stopped or in error state.'')) else None)
      else if action = ''stop'' then
        (if v_status v \<noteq> ''running''
         then Some (ValueError (''Cannot stop VM with status '' @ [quote_char] @ v_status v @ [quote_char] @
                ''. VM must be running.'')) else None)
      else if action = ''restart'' then
        (if v_status v \<noteq> ''running''
         then Some (ValueError (''Cannot restart VM with status '' @ [quote_char] @ v_status v @ [quote_char] @
                ''. VM must be running.'')) else None)
      else if action = ''delete'' then
        (if v_status v = ''running''
         then Some (ValueError ''Cannot delete running VM. Stop it first or use force=true'') else None)
      else None)"

definition find_vm :: "int \<Rightarrow> db \<Rightarrow> vm option" where
  "find_vm i d = first_row (\<lambda>v. v_id v = i) (vms d)"

definition vm_not_found :: "int \<Rightarrow> py_exc" where
  "vm_not_found i = ValueError (''VM with ID '' @ show_int i @ '' not found'')"

definition put_vm :: "int \<Rightarrow> (vm \<Rightarrow> vm) \<Rightarrow> db \<Rightarrow> db" where
  "put_vm i f d = d\<lparr>vms := upd_rows v_id i f (vms d)\<rparr>"

section \<open>Lifecycle\<close>

definition delete_vm_logic :: "provider_env \<Rightarrow> int \<Rightarrow> bool \<Rightarrow> db \<Rightarrow> (unit, db) result" where
  "delete_vm_logic env i force d =
     (case find_vm i d of
        None \<Rightarrow> raise (vm_not_found i) d
      | Some v \<Rightarrow>
          (case (if force then None else validate_vm_action v ''delete'') of
             Some e \<Rightarrow> raise e d
           | None \<Rightarrow>
               (case (if v_provider v = ''proxmox''
                      then first_exc [pe_hypervisor env,
                        if truthy_id (v_proxmox_vm_id v) then pe_delete env (the (v_proxmox_vm_id v)) else None]
                      else first_exc [get_container_provider env (v_provider v),
                        if v_status v = ''running'' then pe_ct_stop env (v_name v) else None,
                        pe_ct_remove env (v_name v) force]) of
                  Some e \<Rightarrow> raise e d
                | None \<Rightarrow> ok () (d\<lparr>vms := del_rows v_id i (vms d),
                    snapshots := filter (\<lambda>s. s_vm_id s \<noteq> i) (snapshots d)\<rparr>))))"

definition usable_ip :: "string option \<Rightarrow> bool" where
  "usable_ip ip \<longleftrightarrow> truthy ip \<and> \<not> starts_with (the ip) ''127.'' \<and> CHR '':'' \<notin> set (the ip)"

text \<open>At most \<open>n\<close> polls of the guest agent, from attempt \<open>k\<close> on; an exception is a poll without result.\<close>

fun poll_ip :: "(nat \<Rightarrow> py_exc + string option list) \<Rightarrow> nat \<Rightarrow> nat \<Rightarrow> string option \<Rightarrow> string option" where
  "poll_ip q 0 k ip = ip"
| "poll_ip q (Suc n) k ip =
     (case q k of
        Inl e \<Rightarrow> poll_ip q n (k + 1) ip
      | Inr ifs \<Rightarrow>
          (let ip' = (case List.find usable_ip ifs of Some x \<Rightarrow> x | None \<Rightarrow> ip)
           in if truthy ip' then ip' else poll_ip q n (k + 1) ip'))"

definition failed_to :: "string \<Rightarrow> py_exc \<Rightarrow> py_exc" where
  "failed_to what e = ValueError (''Failed to '' @ what @ '': '' @ exc_message e)"

definition start_vm_logic :: "provider_env \<Rightarrow> int \<Rightarrow> db \<Rightarrow> (unit, db) result" where
  "start_vm_logic env i d =
     (case find_vm i d of
        None \<Rightarrow> raise (vm_not_found i) d
      | Some v \<Rightarrow>
          (case validate_vm_action v ''start'' of
             Some e \<Rightarrow> raise e d
           | None \<Rightarrow>
               (if v_provider v = ''proxmox'' then
                  (case first_exc [pe_hypervisor env,
                      if truthy_id (v_proxmox_vm_id v) then pe_start env (the (v_proxmox_vm_id v)) else None] of
                     Some e \<Rightarrow> raise (failed_to ''start VM'' e) d
                   | None \<Rightarrow> ok () (put_vm i (\<lambda>x. x\<lparr>v_status := ''running'',
                       v_ip_address := poll_ip (pe_interfaces env (v_proxmox_vm_id v)) 6 0 (v_ip_address v)\<rparr>) d))
                else
                  (case first_exc [get_container_provider env (v_provider v), pe_ct_start env (v_name v)] of
                     Some e \<Rightarrow> raise (failed_to ''start VM'' e) d
                   | None \<Rightarrow> ok () (put_vm i (\<lambda>x. x\<lparr>v_status := ''running''\<rparr>) d)))))"

definition stop_vm_logic :: "provider_env \<Rightarrow> int \<Rightarrow> db \<Rightarrow> (unit, db) result" where
  "stop_vm_logic env i d =
     (case find_vm i d of
        None \<Rightarrow> raise (vm_not_found i) d
      | Some v \<Rightarrow>
          (case validate_vm_action v ''stop'' of
             Some e \<Rightarrow> raise e d
           | None \<Rightarrow>
               (case (if v_provider v = ''proxmox''
                      then first_exc [pe_hypervisor env,
                        if truthy_id (v_proxmox_vm_id v) then pe_stop env (the (v_proxmox_vm_id v)) else None]
                      else first_exc [get_container_provider env (v_provider v), pe_ct_stop env (v_name v)]) of
                  Some e \<Rightarrow> raise (failed_to ''stop VM'' e) d
                | None \<Rightarrow> ok () (put_vm i (\<lambda>x. x\<lparr>v_status := ''stopped''\<rparr>) d))))"

definition restart_vm_logic :: "provider_env \<Rightarrow> int \<Rightarrow> db \<Rightarrow> (unit, db) result" where
  "restart_vm_logic env i d =
     (case find_vm i d of
        None \<Rightarrow> raise (vm_not_found i) d
      | Some v \<Rightarrow>
          (case validate_vm_action v ''restart'' of
             Some e \<Rightarrow> raise e d
           | None \<Rightarrow>
               (case (if v_provider v = ''proxmox''
                      then first_exc (pe_hypervisor env #
                        (if truthy_id (v_proxmox_vm_id v)
                         then [pe_stop env (the (v_proxmox_vm_id v)), pe_start env (the (v_proxmox_vm_id v))] else []))
                      else first_exc [get_container_provider env (v_provider v), pe_ct_restart env (v_name v)]) of
                  Some e \<Rightarrow> raise (failed_to ''restart VM'' e) d
                | None \<Rightarrow> ok () (put_vm i (\<lambda>x. x\<lparr>v_status := ''running''\<rparr>) d))))"

record vm_logs =
  lg_vm_id :: int
  lg_vm_name :: string
  lg_text :: string
  lg_lines :: int

definition get_vm_logs_logic :: "provider_env \<Rightarrow> int \<Rightarrow> int \<Rightarrow> db \<Rightarrow> (vm_logs, db) result" where
  "get_vm_logs_logic env i tail d =
     (case find_vm i d of
        None \<Rightarrow> raise (vm_not_found i) d
      | Some v \<Rightarrow>
          (if v_provider v = ''proxmox''
             then ok \<lparr>lg_vm_id = i, lg_vm_name = v_name v, lg_text = '''', lg_lines = 0\<rparr> d
           else case get_container_provider env (v_provider v) of
             Some e \<Rightarrow> raise (failed_to ''retrieve logs'' e) d
           | None \<Rightarrow>
               (case pe_ct_logs env (v_name v) tail of
                  Inl e \<Rightarrow> raise (failed_to ''retrieve logs'' e) d
                | Inr (logs, n) \<Rightarrow> ok \<lparr>lg_vm_id = i, lg_vm_name = v_name v, lg_text = logs, lg_lines = n\<rparr> d)))"

section \<open>Snapshots\<close>

text \<open>
  \<open>create_snapshot_logic\<close> reads \<open>vm.disk_size\<close>, an attribute the class does not have, before the
  row is added; the rest of the body is never reached.
\<close>

definition create_snapshot_logic :: "provider_env \<Rightarrow> int \<Rightarrow> string \<Rightarrow> db \<Rightarrow> (vm_snapshot, db) result" where
  "create_snapshot_logic env i name d =
     (case find_vm i d of
        None \<Rightarrow> raise (vm_not_found i) d
      | Some v \<Rightarrow>
          (if v_status v \<noteq> ''running''
             then raise (ValueError (''Cannot snapshot VM with status '' @ [quote_char] @ v_status v @ [quote_char] @
                    ''. VM must be running.'')) d
           else if \<exists>s \<in> set (snapshots d). s_vm_id s = i \<and> s_name s = name
             then raise (ValueError (''Snapshot with name '' @ [quote_char] @ name @ [quote_char] @
                    '' already exists for this VM'')) d
           else case get_container_provider env (v_provider v) of
             Some e \<Rightarrow> raise (failed_to ''create snapshot'' e) d
           | None \<Rightarrow>
               (case pe_ct_snapshot env (v_name v) name of
                  Inl e \<Rightarrow> raise (failed_to ''create snapshot'' e) d
                | Inr tag \<Rightarrow> raise (failed_to ''create snapshot''
                    (AttributeError ([quote_char] @ ''VM'' @ [quote_char] @ '' object has no attribute '' @
                      [quote_char] @ ''disk_size'' @ [quote_char]))) d)))"

definition list_snapshots_logic :: "int \<Rightarrow> db \<Rightarrow> (vm_snapshot list, db) result" where
  "list_snapshots_logic i d =
     (case find_vm i d of
        None \<Rightarrow> raise (vm_not_found i) d
      | Some v \<Rightarrow> ok (sort_key (\<lambda>s. - s_created_at s) (filter (\<lambda>s. s_vm_id s = i) (snapshots d))) d)"

definition find_snapshot :: "int \<Rightarrow> int \<Rightarrow> db \<Rightarrow> vm_snapshot option" where
  "find_snapshot i sid d = first_row (\<lambda>s. s_id s = sid \<and> s_vm_id s = i) (snapshots d)"

definition snapshot_not_found :: "int \<Rightarrow> int \<Rightarrow> py_exc" where
  "snapshot_not_found i sid =
     ValueError (''Snapshot with ID '' @ show_int sid @ '' not found for VM '' @ show_int i)"

definition restore_snapshot_logic :: "provider_env \<Rightarrow> int \<Rightarrow> int \<Rightarrow> db \<Rightarrow> (bool, db) result" where
  "restore_snapshot_logic env i sid d =
     (case find_vm i d of
        None \<Rightarrow> raise (vm_not_found i) d
      | Some v \<Rightarrow>
          (case find_snapshot i sid d of
             None \<Rightarrow> raise (snapshot_not_found i sid) d
           | Some s \<Rightarrow>
               (case first_exc [get_container_provider env (v_provider v),
                   if v_status v = ''running'' then pe_ct_stop env (v_name v) else None,
                   pe_ct_remove env (v_name v) True, pe_ct_restore env (s_image_tag s) (v_name v)] of
                  Some e \<Rightarrow> raise (failed_to ''restore snapshot'' e) d
                | None \<Rightarrow> ok True d)))"

definition delete_snapshot_logic :: "provider_env \<Rightarrow> int \<Rightarrow> int \<Rightarrow> db \<Rightarrow> (bool, db) result" where
  "delete_snapshot_logic env i sid d =
     (case find_vm i d of
        None \<Rightarrow> raise (vm_not_found i) d
      | Some v \<Rightarrow>
          (case find_snapshot i sid d of
             None \<Rightarrow> raise (snapshot_not_found i sid) d
           | Some s \<Rightarrow>
               (case first_exc [get_container_provider env (v_provider v), pe_ct_delete_snapshot env (s_image_tag s)] of
                  Some e \<Rightarrow> raise (failed_to ''delete snapshot'' e) d
                | None \<Rightarrow> ok True (d\<lparr>snapshots := del_rows s_id sid (snapshots d)\<rparr>))))"

section \<open>Lemmas\<close>

lemma find_vm_Some: "find_vm i d = Some v \<Longrightarrow> v \<in> set (vms d) \<and> v_id v = i"
  by (auto simp: find_vm_def dest: first_row_Some)

lemma put_vm_fields [row_simps, simp]:
  "vms (put_vm i f d) = upd_rows v_id i f (vms d)" "users (put_vm i f d) = users d"
  "tenants (put_vm i f d) = tenants d" "roles (put_vm i f d) = roles d"
  "user_roles (put_vm i f d) = user_roles d" "permissions (put_vm i f d) = permissions d"
  "networks (put_vm i f d) = networks d" "snapshots (put_vm i f d) = snapshots d"
  "audit_log (put_vm i f d) = audit_log d" "queue (put_vm i f d) = queue d" "seqs (put_vm i f d) = seqs d"
  by (simp_all add: put_vm_def)

text \<open>A call that raises changes nothing.\<close>

lemma vm_logic_atomic:
  "atomic (start_vm_logic env i d) d" "atomic (stop_vm_logic env i d) d"
  "atomic (restart_vm_logic env i d) d" "atomic (delete_vm_logic env i force d) d"
  "atomic (restore_snapshot_logic env i sid d) d" "atomic (delete_snapshot_logic env i sid d) d"
  by (simp_all add: start_vm_logic_def stop_vm_logic_def restart_vm_logic_def delete_vm_logic_def
      restore_snapshot_logic_def delete_snapshot_logic_def)

text \<open>What a successful lifecycle call does to the table of machines.\<close>

lemma start_ok:
  assumes "start_vm_logic env i d = (Inr x, d')"
  obtains v ip where "find_vm i d = Some v" "v_status v = ''stopped'' \<or> v_status v = ''error''"
    "d' = put_vm i (\<lambda>x. x\<lparr>v_status := ''running'', v_ip_address := ip x\<rparr>) d"
proof -
  obtain v where v: "find_vm i d = Some v" "validate_vm_action v ''start'' = None"
    using assms by (auto simp: start_vm_logic_def split: option.splits)
  have st: "v_status v = ''stopped'' \<or> v_status v = ''error''"
    using v(2) by (auto simp: validate_vm_action_def split: if_splits)
  show thesis
  proof (cases "v_provider v = ''proxmox''")
    case True
    show thesis
      by (rule that [OF v(1) st, of "\<lambda>_. poll_ip (pe_interfaces env (v_proxmox_vm_id v)) 6 0 (v_ip_address v)"])
        (use assms v True in \<open>simp add: start_vm_logic_def split: option.splits if_splits\<close>)
  next
    case False
    show thesis
      by (rule that [OF v(1) st, of v_ip_address])
        (use assms v False in \<open>simp add: start_vm_logic_def split: option.splits\<close>)
  qed
qed

lemma stop_ok:
  assumes "stop_vm_logic env i d = (Inr x, d')"
  obtains v where "find_vm i d = Some v" "v_status v = ''running''" "d' = put_vm i (\<lambda>x. x\<lparr>v_status := ''stopped''\<rparr>) d"
  using assms by (auto simp: stop_vm_logic_def validate_vm_action_def split: option.splits if_splits)

lemma restart_ok:
  assumes "restart_vm_logic env i d = (Inr x, d')"
  obtains v where "find_vm i d = Some v" "v_status v = ''running''" "d' = put_vm i (\<lambda>x. x\<lparr>v_status := ''running''\<rparr>) d"
  using assms by (auto simp: restart_vm_logic_def validate_vm_action_def split: option.splits if_splits)

lemma delete_ok:
  assumes "delete_vm_logic env i force d = (Inr x, d')"
  obtains v where "find_vm i d = Some v" "force \<or> v_status v \<noteq> ''running''"
    "d' = d\<lparr>vms := del_rows v_id i (vms d), snapshots := filter (\<lambda>s. s_vm_id s \<noteq> i) (snapshots d)\<rparr>"
  using assms by (auto simp: delete_vm_logic_def validate_vm_action_def split: option.splits if_splits)

text \<open>Polling for an address ends after at most \<open>n\<close> polls, with a usable address, or the old one.\<close>

lemma poll_ip_result:
  "poll_ip q n k ip = ip \<or> usable_ip (poll_ip q n k ip)"
proof (induction n arbitrary: k ip)
  case (Suc n)
  show ?case
  proof (cases "q k")
    case (Inr ifs)
    show ?thesis
    proof (cases "List.find usable_ip ifs")
      case None
      then show ?thesis using Inr Suc.IH by simp
    next
      case (Some x)
      then have "usable_ip x" by (auto simp: find_Some_iff)
      then show ?thesis using Inr Some by (simp add: usable_ip_def)
    qed
  qed (use Suc.IH in simp)
qed simp

end
