(* ===== verification/Vm_Api.thy ===== *)
theory Vm_Api
  imports Vm_Service
begin

text \<open>
  The machine endpoints of \<open>app/api/vm.py\<close>: visibility, reading, the lifecycle actions, snapshots and
  SSH keys. (Creation, resizing and the console have their own theories.)

  \<open>created_at\<close> is the insertion time, so ordering by it descending is the reverse of storage order.
  \<open>rl\<close> is the exception of \<open>check_rate_limit\<close>, if it raises; key generation and encryption are
  parameters. \<open>update_vm\<close> and \<open>disconnect_console\<close> use a name \<open>request\<close> they do not have.
\<close>

section \<open>Common parts\<close>

definition tenant_vm :: "int \<Rightarrow> tenant \<Rightarrow> db \<Rightarrow> vm option" where
  "tenant_vm i ct d = first_row (\<lambda>v. v_id v = i \<and> v_tenant_id v = t_id ct) (vms d)"

definition may_manage :: "user \<Rightarrow> tenant \<Rightarrow> vm \<Rightarrow> db \<Rightarrow> bool" where
  "may_manage cu ct v d \<longleftrightarrow> has_permission cu (t_id ct) ''vm:update'' d \<or> v_owner_id v = u_id cu"

definition on_own_vm ::
  "string \<Rightarrow> user \<Rightarrow> tenant \<Rightarrow> int \<Rightarrow> db \<Rightarrow> (vm \<Rightarrow> ('a, db) result) \<Rightarrow> ('a, db) result" where
  "on_own_vm what cu ct i d k =
     (case tenant_vm i ct d of
        None \<Rightarrow> http 404 ''VM not found'' d
      | Some v \<Rightarrow>
          (if \<not> may_manage cu ct v d
           then http 403 (''You can only '' @ what @ '' your own VMs unless you have vm_admin or admin role'') d
           else k v))"

text \<open>\<open>try: ... except Exception as e: handle_service_exception(e, vm_id)\<close>.\<close>

definition served :: "('a, db) result \<Rightarrow> ('a \<Rightarrow> db \<Rightarrow> ('b, db) result) \<Rightarrow> ('b, db) result" where
  "served r k = (case r of (Inl e, d) \<Rightarrow> raise (handle_service_exception e) d | (Inr x, d) \<Rightarrow> k x d)"

definition vm_audit :: "request \<Rightarrow> tenant \<Rightarrow> user \<Rightarrow> string \<Rightarrow> int \<Rightarrow> string \<Rightarrow> audit_entry" where
  "vm_audit req ct cu act i nm =
     with_request req (Some (t_id ct))
       ((audit_event (audit_action act) ''vm'' cu)\<lparr>a_target_id := Some i, a_target_name := Some nm\<rparr>)"

section \<open>Reading\<close>

definition get_visible_vms_query :: "user \<Rightarrow> int \<Rightarrow> db \<Rightarrow> vm list" where
  "get_visible_vms_query cu tid d =
     (if is_super_admin cu d then vms d
      else if has_permission cu tid ''vm:delete'' d \<or> has_permission cu tid ''vm:update'' d
        then filter (\<lambda>v. v_tenant_id v = tid) (vms d)
      else filter (\<lambda>v. v_tenant_id v = tid \<and> v_owner_id v = u_id cu) (vms d))"

record vm_page =
  vp_total :: int
  vp_vms :: "vm list"
  vp_offset :: int
  vp_limit :: int

definition list_vms ::
  "user \<Rightarrow> tenant \<Rightarrow> string option \<Rightarrow> string option \<Rightarrow> int option \<Rightarrow> int \<Rightarrow> int \<Rightarrow> db \<Rightarrow> (vm_page, db) result" where
  "list_vms cu ct status_filter provider_filter owner_filter limit offset d =
     (if limit < 1 \<or> 1000 < limit \<or> offset < 0 then http 422 ''Unprocessable Entity'' d
      else
        (let q0 = get_visible_vms_query cu (t_id ct) d;
             q1 = (if truthy status_filter then filter (\<lambda>v. v_status v = the status_filter) q0 else q0);
             q2 = (if truthy provider_filter then filter (\<lambda>v. v_provider v = the provider_filter) q1 else q1)
         in if truthy_id owner_filter \<and> \<not> is_super_admin cu d \<and> \<not> has_permission cu (t_id ct) ''vm:delete'' d
              then http 403 ''You can only filter by owner_id if you have admin or vm_admin role'' d
            else
              (let q3 = (if truthy_id owner_filter then filter (\<lambda>v. v_owner_id v = the owner_filter) q2 else q2)
               in ok \<lparr>vp_total = int (length q3), vp_vms = take (nat limit) (drop (nat offset) (rev q3)),
                     vp_offset = offset, vp_limit = limit\<rparr> d)))"

record vm_stats =
  vs_total_vms :: int
  vs_status_breakdown :: "(string \<times> int) list"
  vs_provider_breakdown :: "(string \<times> int) list"
  vs_cpu_total :: int
  vs_ram_total_mb :: int
  vs_disk_total_gb10 :: int

definition get_vm_stats :: "user \<Rightarrow> tenant \<Rightarrow> db \<Rightarrow> (vm_stats, db) result" where
  "get_vm_stats cu ct d =
     (if \<not> is_super_admin cu d \<and> \<not> has_permission cu (t_id ct) ''vm:delete'' d
        then http 403 ''You do not have permission to view VM statistics'' d
      else
        (let mine = (\<lambda>p. count_rows (\<lambda>v. v_tenant_id v = t_id ct \<and> p v) (vms d))
         in ok \<lparr>vs_total_vms = mine (\<lambda>v. True),
               vs_status_breakdown = map (\<lambda>s. (s, mine (\<lambda>v. v_status v = s)))
                 [''running'', ''stopped'', ''error'', ''pending''],
               vs_provider_breakdown = map (\<lambda>p. (p, mine (\<lambda>v. v_provider v = p))) [''docker'', ''vsphere''],
               vs_cpu_total = sum_by v_cpu (vms d), vs_ram_total_mb = sum_by v_ram (vms d),
               vs_disk_total_gb10 = round_div (10 * sum_by v_disk_size_mb (vms d)) 1024\<rparr> d))"

definition get_vm :: "user \<Rightarrow> tenant \<Rightarrow> int \<Rightarrow> db \<Rightarrow> (vm, db) result" where
  "get_vm cu ct i d =
     (if is_super_admin cu d
      then (case find_vm i d of None \<Rightarrow> http 404 ''VM not found'' d | Some v \<Rightarrow> ok v d)
      else on_own_vm ''view'' cu ct i d (\<lambda>v. ok v d))"

section \<open>Actions\<close>

text \<open>
  \<open>body\<close> is the \<open>description\<close> of the PATCH body: absent, null or text. The commit has been made when
  \<open>request\<close> is looked up.
\<close>

definition update_vm :: "user \<Rightarrow> tenant \<Rightarrow> int \<Rightarrow> string option option \<Rightarrow> db \<Rightarrow> (vm, db) result" where
  "update_vm cu ct i body d =
     on_own_vm ''modify'' cu ct i d (\<lambda>v.
       raise (OtherError (''name '' @ [quote_char] @ ''request'' @ [quote_char] @ '' is not defined''))
         (case body of None \<Rightarrow> d | Some desc \<Rightarrow> put_vm i (\<lambda>x. x\<lparr>v_description := desc\<rparr>) d))"

definition vm_now :: "int \<Rightarrow> vm \<Rightarrow> db \<Rightarrow> vm" where
  "vm_now i v d = (case find_vm i d of None \<Rightarrow> v | Some w \<Rightarrow> w)"

definition start_vm :: "provider_env \<Rightarrow> user \<Rightarrow> request \<Rightarrow> tenant \<Rightarrow> int \<Rightarrow> db \<Rightarrow> (vm, db) result" where
  "start_vm env cu req ct i d =
     on_own_vm ''start'' cu ct i d (\<lambda>v. served (start_vm_logic env i d) (\<lambda>_ d1.
       ok (vm_now i v d1) (log_audit_event (vm_audit req ct cu ''VM_START'' i (v_name v)) None d1)))"

definition stop_vm :: "provider_env \<Rightarrow> user \<Rightarrow> request \<Rightarrow> tenant \<Rightarrow> int \<Rightarrow> db \<Rightarrow> (vm, db) result" where
  "stop_vm env cu req ct i d =
     on_own_vm ''stop'' cu ct i d (\<lambda>v. served (stop_vm_logic env i d) (\<lambda>_ d1.
       ok (vm_now i v d1) (log_audit_event (vm_audit req ct cu ''VM_STOP'' i (v_name v)) None d1)))"

definition restart_vm :: "provider_env \<Rightarrow> user \<Rightarrow> request \<Rightarrow> tenant \<Rightarrow> int \<Rightarrow> db \<Rightarrow> (vm, db) result" where
  "restart_vm env cu req ct i d =
     on_own_vm ''restart'' cu ct i d (\<lambda>v. served (restart_vm_logic env i d) (\<lambda>_ d1.
       ok (vm_now i v d1) (log_audit_event (vm_audit req ct cu ''VM_RESTART'' i (v_name v)) None d1)))"

definition delete_vm :: "provider_env \<Rightarrow> user \<Rightarrow> request \<Rightarrow> tenant \<Rightarrow> int \<Rightarrow> bool \<Rightarrow> db \<Rightarrow> (unit, db) result" where
  "delete_vm env cu req ct i force d =
     on_own_vm ''delete'' cu ct i d (\<lambda>v. served (delete_vm_logic env i force d) (\<lambda>_ d1.
       ok () (log_audit_event ((vm_audit req ct cu ''VM_DELETE'' i (v_name v))
         \<lparr>a_details := Some (''force='' @ (if force then ''True'' else ''False''))\<rparr>) None d1)))"

definition get_vm_logs ::
  "py_exc option \<Rightarrow> provider_env \<Rightarrow> user \<Rightarrow> request \<Rightarrow> tenant \<Rightarrow> int \<Rightarrow> int \<Rightarrow> db \<Rightarrow> (vm_logs, db) result" where
  "get_vm_logs rl env cu req ct i tail d =
     (if tail < 1 \<or> 10000 < tail then http 422 ''Unprocessable Entity'' d
      else if is_super_admin cu d \<and> \<not> truthy (header req ''X-Impersonate-Tenant-ID'')
        then http 403 ''Super admins cannot access VM logs. This is to protect tenant privacy.'' d
      else case rl of Some e \<Rightarrow> raise e d
      | None \<Rightarrow>
          (case tenant_vm i ct d of
             None \<Rightarrow> http 404 ''VM not found'' d
           | Some v \<Rightarrow>
               (if \<not> may_manage cu ct v d
                then http 403 ''You can only view logs for your own VMs unless you have vm_admin or admin role'' d
                else served (get_vm_logs_logic env i tail d) ok)))"

section \<open>Snapshots\<close>

definition create_snapshot ::
  "provider_env \<Rightarrow> user \<Rightarrow> request \<Rightarrow> tenant \<Rightarrow> int \<Rightarrow> string \<Rightarrow> db \<Rightarrow> (vm_snapshot, db) result" where
  "create_snapshot env cu req ct i name d =
     on_own_vm ''snapshot'' cu ct i d (\<lambda>v. served (create_snapshot_logic env i name d) (\<lambda>s d1.
       ok s (log_audit_event ((vm_audit req ct cu ''VM_SNAPSHOT_CREATE'' (s_id s) (s_name s))
         \<lparr>a_target_type := ''vm_snapshot'', a_new_value := Some (''vm_id='' @ show_int i @ '',vm_name='' @ v_name v @
            '',image_tag='' @ s_image_tag s)\<rparr>) None d1)))"

definition list_snapshots :: "user \<Rightarrow> tenant \<Rightarrow> int \<Rightarrow> db \<Rightarrow> (vm_snapshot list, db) result" where
  "list_snapshots cu ct i d =
     (case tenant_vm i ct d of
        None \<Rightarrow> http 404 ''VM not found'' d
      | Some v \<Rightarrow>
          (if \<not> is_super_admin cu d \<and> \<not> may_manage cu ct v d
           then http 403 ''You can only view snapshots for your own VMs unless you have vm_admin or admin role'' d
           else served (list_snapshots_logic i d) ok))"

definition restore_snapshot ::
  "provider_env \<Rightarrow> user \<Rightarrow> request \<Rightarrow> tenant \<Rightarrow> int \<Rightarrow> int \<Rightarrow> db \<Rightarrow> (string, db) result" where
  "restore_snapshot env cu req ct i sid d =
     on_own_vm ''restore'' cu ct i d (\<lambda>v.
       case find_snapshot i sid d of
         None \<Rightarrow> raise (handle_service_exception (HTTPException 404 ''Snapshot not found'')) d
       | Some s \<Rightarrow> served (restore_snapshot_logic env i sid d) (\<lambda>_ d1.
           ok ''Snapshot restored successfully''
             (log_audit_event ((vm_audit req ct cu ''VM_SNAPSHOT_RESTORE'' sid (s_name s))
               \<lparr>a_target_type := ''vm_snapshot'', a_old_value := Some (''vm_id='' @ show_int i @ '',vm_name='' @ v_name v),
                a_new_value := Some (''snapshot='' @ s_image_tag s)\<rparr>) None d1)))"

definition delete_snapshot ::
  "provider_env \<Rightarrow> user \<Rightarrow> request \<Rightarrow> tenant \<Rightarrow> int \<Rightarrow> int \<Rightarrow> db \<Rightarrow> (string, db) result" where
  "delete_snapshot env cu req ct i sid d =
     (case tenant_vm i ct d of
        None \<Rightarrow> http 404 ''VM not found'' d
      | Some v \<Rightarrow>
          (if \<not> may_manage cu ct v d
           then http 403 ''You can only delete your own snapshots unless you have vm_admin or admin role'' d
           else
             (let s = first_row (\<lambda>s. s_id s = sid) (snapshots d)
              in served (delete_snapshot_logic env i sid d) (\<lambda>_ d1.
                   ok ''Snapshot deleted successfully''
                     (log_audit_event ((vm_audit req ct cu ''VM_SNAPSHOT_DELETE'' sid '''')
                       \<lparr>a_target_type := ''vm_snapshot'', a_target_name := map_option s_name s,
                        a_old_value := Some (''vm_id='' @ show_int i @ '',vm_name='' @ v_name v @ '',image_tag='' @
                          (case s of None \<Rightarrow> ''unknown'' | Some s \<Rightarrow> s_image_tag s))\<rparr>) None d1)))))"

section \<open>SSH keys\<close>

record ssh_info =
  si_vm_id :: int
  si_vm_name :: string
  si_ssh_user :: string
  si_ip_address :: "string option"
  si_ssh_public_key :: "string option"
  si_ssh_command :: "string option"
  si_has_private_key :: bool

definition login_of :: "vm \<Rightarrow> string" where
  "login_of v = (if v_ssh_user v = '''' then ''ubuntu'' else v_ssh_user v)"

definition ssh_command :: "vm \<Rightarrow> string option" where
  "ssh_command v =
     (if truthy (v_ip_address v)
      then Some (''ssh '' @ login_of v @ ''@'' @ the (v_ip_address v) @ '' -i '' @ v_name v @ ''.pem'') else None)"

definition on_tenant_vm ::
  "string \<Rightarrow> user \<Rightarrow> tenant \<Rightarrow> int \<Rightarrow> db \<Rightarrow> (vm \<Rightarrow> ('a, db) result) \<Rightarrow> ('a, db) result" where
  "on_tenant_vm perm cu ct i d k =
     (case tenant_vm i ct d of
        None \<Rightarrow> http 404 ''VM not found'' d
      | Some v \<Rightarrow> (if \<not> has_permission cu (t_id ct) perm d then http 403 ''Not authorized'' d else k v))"

definition get_ssh_info :: "user \<Rightarrow> tenant \<Rightarrow> int \<Rightarrow> db \<Rightarrow> (ssh_info, db) result" where
  "get_ssh_info cu ct i d =
     on_tenant_vm ''vm:read'' cu ct i d (\<lambda>v.
       ok \<lparr>si_vm_id = v_id v, si_vm_name = v_name v, si_ssh_user = login_of v, si_ip_address = v_ip_address v,
           si_ssh_public_key = v_ssh_public_key v, si_ssh_command = ssh_command v,
           si_has_private_key = truthy (v_ssh_private_key_enc v)\<rparr> d)"

definition download_ssh_key ::
  "(string \<Rightarrow> py_exc + string) \<Rightarrow> user \<Rightarrow> tenant \<Rightarrow> int \<Rightarrow> db \<Rightarrow> (string, db) result" where
  "download_ssh_key decrypt cu ct i d =
     on_tenant_vm ''vm:read'' cu ct i d (\<lambda>v.
       if \<not> truthy (v_ssh_private_key_enc v) then http 404 ''No SSH key'' d
       else case decrypt (the (v_ssh_private_key_enc v)) of Inl e \<Rightarrow> raise e d | Inr key \<Rightarrow> ok key d)"

text \<open>
  The new keys are committed before they are deployed: when the guest agent fails (\<open>deploy\<close>), the
  call answers 500 and the stored keys are the new ones.
\<close>

definition regenerate_ssh_key ::
  "(string \<Rightarrow> string \<times> string) \<Rightarrow> (string \<Rightarrow> string) \<Rightarrow> (int \<Rightarrow> string \<Rightarrow> py_exc option) \<Rightarrow>
    user \<Rightarrow> tenant \<Rightarrow> int \<Rightarrow> db \<Rightarrow> (string \<times> string, db) result" where
  "regenerate_ssh_key keygen encrypt deploy cu ct i d =
     on_tenant_vm ''vm:create'' cu ct i d (\<lambda>v.
       let (pub, priv) = keygen (v_name v @ ''@proxmox-iaas-platform'');
           d1 = put_vm i (\<lambda>x. x\<lparr>v_ssh_public_key := Some pub, v_ssh_private_key_enc := Some (encrypt priv)\<rparr>) d
       in case (if truthy_id (v_proxmox_vm_id v) \<and> truthy (v_ip_address v)
                then deploy (the (v_proxmox_vm_id v)) pub else None) of
            Some e \<Rightarrow> http 500 (''SSH key generated but failed to deploy to VM. The VM may still have the old key. Error: '' @
              exc_str e) d1
          | None \<Rightarrow> ok (pub, priv) d1)"

end
