(* ===== verification/Vm_Lifecycle.thy ===== *)
theory Vm_Lifecycle
  imports Vm_Api Provisioning
begin

text \<open>
  What the machine endpoints guarantee: a call leaves a database that its tenant's machines alone can
  differ from, status changes follow the transition table but for one, a failing call changes nothing,
  listing and reading agree, and what the endpoints do not guarantee (snapshots, statistics, keys).
\<close>

section \<open>Rules for the common parts\<close>

lemma leaves_on_own_vm [exc_simps, simp]:
  "leaves P (on_own_vm w cu ct i d k) \<longleftrightarrow>
     (tenant_vm i ct d = None \<longrightarrow> P d) \<and>
     (\<forall>v. tenant_vm i ct d = Some v \<longrightarrow> (if may_manage cu ct v d then leaves P (k v) else P d))"
  by (auto simp: on_own_vm_def split: option.split)

lemma leaves_on_tenant_vm [exc_simps, simp]:
  "leaves P (on_tenant_vm perm cu ct i d k) \<longleftrightarrow>
     (tenant_vm i ct d = None \<longrightarrow> P d) \<and>
     (\<forall>v. tenant_vm i ct d = Some v \<longrightarrow> (if has_permission cu (t_id ct) perm d then leaves P (k v) else P d))"
  by (auto simp: on_tenant_vm_def split: option.split)

lemma leaves_served:
  assumes "atomic r d" "P d" "\<And>x d'. r = (Inr x, d') \<Longrightarrow> leaves P (k x d')"
  shows "leaves P (served r k)"
proof (cases r)
  case (Pair y d')
  with assms show ?thesis by (cases y) (auto simp: served_def atomic_def)
qed

lemma tenant_vm_Some: "tenant_vm i ct d = Some v \<Longrightarrow> v \<in> set (vms d) \<and> v_id v = i \<and> v_tenant_id v = t_id ct"
  by (auto simp: tenant_vm_def dest: first_row_Some)

section \<open>Calls and runs\<close>

text \<open>Any endpoint that may write, called by \<open>cu\<close> for tenant \<open>ct\<close>, with any provider behaviour.\<close>

inductive vm_call :: "user \<Rightarrow> tenant \<Rightarrow> db \<Rightarrow> db \<Rightarrow> bool" for cu ct d where
  start: "vm_call cu ct d (snd (start_vm env cu req ct i d))"
| stop: "vm_call cu ct d (snd (stop_vm env cu req ct i d))"
| restart: "vm_call cu ct d (snd (restart_vm env cu req ct i d))"
| delete: "vm_call cu ct d (snd (delete_vm env cu req ct i force d))"
| update: "vm_call cu ct d (snd (update_vm cu ct i body d))"
| snapshot: "vm_call cu ct d (snd (create_snapshot env cu req ct i name d))"
| restore: "vm_call cu ct d (snd (restore_snapshot env cu req ct i sid d))"
| drop_snapshot: "vm_call cu ct d (snd (delete_snapshot env cu req ct i sid d))"
| new_key: "vm_call cu ct d (snd (regenerate_ssh_key keygen encrypt deploy cu ct i d))"

inductive vm_run :: "int \<Rightarrow> db \<Rightarrow> db \<Rightarrow> bool" for T d where
  start: "vm_run T d d"
| call: "vm_run T d d' \<Longrightarrow> t_id ct \<noteq> T \<Longrightarrow> vm_call cu ct d' d'' \<Longrightarrow> vm_run T d d''"

text \<open>
  The four ways a call changes the database: not at all (up to the audit log), one machine of the
  tenant by a change of the given shape, one machine removed with its snapshots, one snapshot removed.
\<close>

definition vm_change :: "vm \<Rightarrow> vm \<Rightarrow> bool" where
  "vm_change v w \<longleftrightarrow> v_id w = v_id v \<and> v_tenant_id w = v_tenant_id v \<and> v_owner_id w = v_owner_id v \<and>
     v_cpu w = v_cpu v \<and> v_ram w = v_ram v \<and> v_disk_size_mb w = v_disk_size_mb v \<and>
     (v_status w = v_status v \<or> validate_status_transition (v_status v) (v_status w) \<or>
      v_status v = ''error'' \<and> v_status w = ''running'')"

definition vm_effect :: "tenant \<Rightarrow> db \<Rightarrow> db \<Rightarrow> bool" where
  "vm_effect ct d d' \<longleftrightarrow>
     (vms d' = vms d \<and> snapshots d' = snapshots d) \<or>
     (\<exists>v f. v \<in> set (vms d) \<and> v_tenant_id v = t_id ct \<and> vm_change v (f v) \<and> (\<forall>w. v_id (f w) = v_id w) \<and>
        vms d' = upd_rows v_id (v_id v) f (vms d) \<and> snapshots d' = snapshots d) \<or>
     (\<exists>v. v \<in> set (vms d) \<and> v_tenant_id v = t_id ct \<and> vms d' = del_rows v_id (v_id v) (vms d) \<and>
        snapshots d' = filter (\<lambda>s. s_vm_id s \<noteq> v_id v) (snapshots d)) \<or>
     (\<exists>v s. v \<in> set (vms d) \<and> v_tenant_id v = t_id ct \<and> s \<in> set (snapshots d) \<and> s_vm_id s = v_id v \<and>
        vms d' = vms d \<and> snapshots d' = del_rows s_id (s_id s) (snapshots d))"

lemma vm_effect_refl [simp]: "vm_effect ct d d"
  by (simp add: vm_effect_def)

lemma vm_effect_audit [simp]: "vm_effect ct d (log_audit_event e b d') = vm_effect ct d d'"
  by (simp add: vm_effect_def)

lemma vm_effect_put:
  assumes "v \<in> set (vms d)" "v_id v = i" "v_tenant_id v = t_id ct" "vm_change v (f v)" "\<And>w. v_id (f w) = v_id w"
  shows "vm_effect ct d (put_vm i f d)"
proof -
  have "\<exists>v f'. v \<in> set (vms d) \<and> v_tenant_id v = t_id ct \<and> vm_change v (f' v) \<and> (\<forall>w. v_id (f' w) = v_id w) \<and>
      vms (put_vm i f d) = upd_rows v_id (v_id v) f' (vms d) \<and> snapshots (put_vm i f d) = snapshots d"
    using assms by (intro exI [of _ v] exI [of _ f]) simp
  then show ?thesis unfolding vm_effect_def by blast
qed

lemma find_tenant_vm:
  assumes "distinct_keys v_id (vms d)" "tenant_vm i ct d = Some v" "find_vm i d = Some w"
  shows "w = v"
  using tenant_vm_Some [OF assms(2)] find_vm_Some [OF assms(3)] distinct_keys_eq [OF assms(1), of w v] by simp

lemma allowed_transitions:
  "validate_status_transition ''stopped'' ''running''" "validate_status_transition ''running'' ''stopped''"
  "\<not> validate_status_transition ''error'' ''running''"
  by code_simp+

lemma start_effect:
  assumes "distinct_keys v_id (vms d)"
  shows "leaves (vm_effect ct d) (start_vm env cu req ct i d)"
proof -
  have "vm_effect ct d d'" if v: "tenant_vm i ct d = Some v" and s: "start_vm_logic env i d = (Inr x, d')" for v x d'
    using s
  proof (rule start_ok)
    fix w ip assume w: "find_vm i d = Some w" "v_status w = ''stopped'' \<or> v_status w = ''error''"
      and d': "d' = put_vm i (\<lambda>x. x\<lparr>v_status := ''running'', v_ip_address := ip x\<rparr>) d"
    have "w = v" by (rule find_tenant_vm [OF assms v w(1)])
    then show ?thesis
      unfolding d' using tenant_vm_Some [OF v] w(2) allowed_transitions
      by (intro vm_effect_put [of v]) (auto simp: vm_change_def)
  qed
  then show ?thesis
    unfolding start_vm_def by (simp, intro allI impI conjI leaves_served [where d = d] vm_logic_atomic) simp_all
qed

lemma stop_effect:
  assumes "distinct_keys v_id (vms d)"
  shows "leaves (vm_effect ct d) (stop_vm env cu req ct i d)"
proof -
  have "vm_effect ct d d'" if v: "tenant_vm i ct d = Some v" and s: "stop_vm_logic env i d = (Inr x, d')" for v x d'
    using s
  proof (rule stop_ok)
    fix w assume w: "find_vm i d = Some w" "v_status w = ''running''" and d': "d' = put_vm i (\<lambda>x. x\<lparr>v_status := ''stopped''\<rparr>) d"
    have "w = v" by (rule find_tenant_vm [OF assms v w(1)])
    then show ?thesis
      unfolding d' using tenant_vm_Some [OF v] w(2) allowed_transitions
      by (intro vm_effect_put [of v]) (auto simp: vm_change_def)
  qed
  then show ?thesis
    unfolding stop_vm_def by (simp, intro allI impI conjI leaves_served [where d = d] vm_logic_atomic) simp_all
qed

lemma restart_effect:
  assumes "distinct_keys v_id (vms d)"
  shows "leaves (vm_effect ct d) (restart_vm env cu req ct i d)"
proof -
  have "vm_effect ct d d'" if v: "tenant_vm i ct d = Some v" and s: "restart_vm_logic env i d = (Inr x, d')" for v x d'
    using s
  proof (rule restart_ok)
    fix w assume w: "find_vm i d = Some w" "v_status w = ''running''" and d': "d' = put_vm i (\<lambda>x. x\<lparr>v_status := ''running''\<rparr>) d"
    have "w = v" by (rule find_tenant_vm [OF assms v w(1)])
    then show ?thesis
      unfolding d' using tenant_vm_Some [OF v] w(2) by (intro vm_effect_put [of v]) (auto simp: vm_change_def)
  qed
  then show ?thesis
    unfolding restart_vm_def by (simp, intro allI impI conjI leaves_served [where d = d] vm_logic_atomic) simp_all
qed

lemma delete_effect: "leaves (vm_effect ct d) (delete_vm env cu req ct i force d)"
proof -
  have "vm_effect ct d d'" if v: "tenant_vm i ct d = Some v" and s: "delete_vm_logic env i force d = (Inr x, d')" for v x d'
    using s
  proof (rule delete_ok)
    assume "d' = d\<lparr>vms := del_rows v_id i (vms d), snapshots := filter (\<lambda>s. s_vm_id s \<noteq> i) (snapshots d)\<rparr>"
    then have "\<exists>v. v \<in> set (vms d) \<and> v_tenant_id v = t_id ct \<and> vms d' = del_rows v_id (v_id v) (vms d) \<and>
        snapshots d' = filter (\<lambda>s. s_vm_id s \<noteq> v_id v) (snapshots d)"
      using tenant_vm_Some [OF v] by auto
    then show ?thesis unfolding vm_effect_def by blast
  qed
  then show ?thesis
    unfolding delete_vm_def by (simp, intro allI impI conjI leaves_served [where d = d] vm_logic_atomic) simp_all
qed

lemma update_effect: "leaves (vm_effect ct d) (update_vm cu ct i body d)"
  unfolding update_vm_def
  by (auto simp: vm_change_def split: option.split dest!: tenant_vm_Some intro!: vm_effect_put)

lemma create_snapshot_fails: "\<exists>e. create_snapshot_logic env i name d = (Inl e, d)"
  by (auto simp: create_snapshot_logic_def raise_def split: option.split sum.split)

lemma create_snapshot_effect: "leaves (vm_effect ct d) (create_snapshot env cu req ct i name d)"
proof -
  have "atomic (create_snapshot_logic env i name d) d" using create_snapshot_fails [of env i name d] by (auto simp: atomic_def)
  then show ?thesis unfolding create_snapshot_def
    using create_snapshot_fails [of env i name d] by (simp, intro allI impI conjI leaves_served [where d = d]) auto
qed

lemma restore_effect: "leaves (vm_effect ct d) (restore_snapshot env cu req ct i sid d)"
proof -
  have "d' = d" if "restore_snapshot_logic env i sid d = (Inr x, d')" for x d'
    using that by (auto simp: restore_snapshot_logic_def split: option.splits)
  then show ?thesis unfolding restore_snapshot_def
    by (simp, intro allI impI conjI leaves_served [where d = d] vm_logic_atomic) auto
qed

lemma delete_snapshot_effect: "leaves (vm_effect ct d) (delete_snapshot env cu req ct i sid d)"
proof -
  have "vm_effect ct d d'" if v: "tenant_vm i ct d = Some v" and r: "delete_snapshot_logic env i sid d = (Inr x, d')" for v x d'
  proof -
    obtain s where s: "find_snapshot i sid d = Some s" "d' = d\<lparr>snapshots := del_rows s_id sid (snapshots d)\<rparr>"
      using r by (auto simp: delete_snapshot_logic_def split: option.splits)
    have "s \<in> set (snapshots d) \<and> s_id s = sid \<and> s_vm_id s = i"
      using s(1) by (auto simp: find_snapshot_def dest: first_row_Some)
    then have "\<exists>v s. v \<in> set (vms d) \<and> v_tenant_id v = t_id ct \<and> s \<in> set (snapshots d) \<and> s_vm_id s = v_id v \<and>
        vms d' = vms d \<and> snapshots d' = del_rows s_id (s_id s) (snapshots d)"
      using tenant_vm_Some [OF v] s(2) by (intro exI [of _ v] exI [of _ s]) simp
    then show ?thesis unfolding vm_effect_def by blast
  qed
  then show ?thesis unfolding delete_snapshot_def
    by (simp, intro allI impI conjI leaves_served [where d = d] vm_logic_atomic) simp_all
qed

lemma new_key_effect: "leaves (vm_effect ct d) (regenerate_ssh_key keygen encrypt deploy cu ct i d)"
  unfolding regenerate_ssh_key_def
  by (auto simp: vm_change_def split: option.split dest!: tenant_vm_Some intro!: vm_effect_put)

lemma vm_call_effect:
  assumes "vm_call cu ct d d'" "distinct_keys v_id (vms d)"
  shows "vm_effect ct d d'"
  using assms(1)
proof cases
  case start then show ?thesis using start_effect [OF assms(2)] by (simp add: leaves_def)
next
  case stop then show ?thesis using stop_effect [OF assms(2)] by (simp add: leaves_def)
next
  case restart then show ?thesis using restart_effect [OF assms(2)] by (simp add: leaves_def)
next
  case delete then show ?thesis using delete_effect by (simp add: leaves_def)
next
  case update then show ?thesis using update_effect by (simp add: leaves_def)
next
  case snapshot then show ?thesis using create_snapshot_effect by (simp add: leaves_def)
next
  case restore then show ?thesis using restore_effect by (simp add: leaves_def)
next
  case drop_snapshot then show ?thesis using delete_snapshot_effect by (simp add: leaves_def)
next
  case new_key then show ?thesis using new_key_effect by (simp add: leaves_def)
qed

section \<open>Isolation of tenants\<close>

lemma filter_upd_rows_other:
  assumes "distinct_keys key rows" "r \<in> set rows" "\<not> P r" "\<not> P (f r)"
  shows "filter P (upd_rows key (key r) f rows) = filter P rows"
proof -
  have "filter P (map (\<lambda>x. if key x = key r then f x else x) rows') = filter P rows'"
    if "set rows' \<subseteq> set rows" for rows'
    using that
  proof (induction rows')
    case (Cons x rows')
    have "x = r" if "key x = key r" using Cons.prems distinct_keys_eq [OF assms(1) _ assms(2) that] by simp
    then show ?case using Cons assms(3,4) by auto
  qed simp
  then show ?thesis by (simp add: upd_rows_def)
qed

lemma filter_del_rows_other:
  assumes "distinct_keys key rows" "r \<in> set rows" "\<not> P r"
  shows "filter P (del_rows key (key r) rows) = filter P rows"
proof -
  have "P x \<longrightarrow> key x \<noteq> key r" if "x \<in> set rows" for x
    using distinct_keys_eq [OF assms(1) that assms(2)] assms(3) by auto
  then show ?thesis by (auto simp: del_rows_def intro!: filter_cong)
qed

definition vm_rows_wf :: "db \<Rightarrow> bool" where
  "vm_rows_wf d \<longleftrightarrow> distinct_keys v_id (vms d) \<and> distinct_keys s_id (snapshots d)"

definition machines_of :: "int \<Rightarrow> db \<Rightarrow> vm list" where
  "machines_of T d = filter (\<lambda>v. v_tenant_id v = T) (vms d)"

definition snapshots_of :: "int \<Rightarrow> db \<Rightarrow> vm_snapshot list" where
  "snapshots_of T d = filter (\<lambda>s. s_vm_id s \<in> set (map v_id (machines_of T d))) (snapshots d)"

lemma effect_isolated:
  assumes "vm_effect ct d d'" "vm_rows_wf d" "t_id ct \<noteq> T"
  shows "machines_of T d' = machines_of T d \<and> snapshots_of T d' = snapshots_of T d \<and> vm_rows_wf d'"
proof -
  have wf: "distinct_keys v_id (vms d)" "distinct_keys s_id (snapshots d)"
    using assms(2) by (simp_all add: vm_rows_wf_def)
  have foreign: "v_id v \<notin> set (map v_id (machines_of T d))" if "v \<in> set (vms d)" "v_tenant_id v = t_id ct" for v
  proof
    assume "v_id v \<in> set (map v_id (machines_of T d))"
    then obtain w where "w \<in> set (vms d)" "v_tenant_id w = T" "v_id v = v_id w" by (auto simp: machines_of_def)
    then show False using distinct_keys_eq [OF wf(1) that(1), of w] that(2) assms(3) by simp
  qed
  from assms(1) consider
      (same) "vms d' = vms d" "snapshots d' = snapshots d"
    | (change) v f where "v \<in> set (vms d)" "v_tenant_id v = t_id ct" "vm_change v (f v)" "\<forall>w. v_id (f w) = v_id w"
        "vms d' = upd_rows v_id (v_id v) f (vms d)" "snapshots d' = snapshots d"
    | (gone) v where "v \<in> set (vms d)" "v_tenant_id v = t_id ct" "vms d' = del_rows v_id (v_id v) (vms d)"
        "snapshots d' = filter (\<lambda>s. s_vm_id s \<noteq> v_id v) (snapshots d)"
    | (snap) v s where "v \<in> set (vms d)" "v_tenant_id v = t_id ct" "s \<in> set (snapshots d)" "s_vm_id s = v_id v"
        "vms d' = vms d" "snapshots d' = del_rows s_id (s_id s) (snapshots d)"
    unfolding vm_effect_def by blast
  then show ?thesis
  proof cases
    case same
    then show ?thesis using wf by (simp add: machines_of_def snapshots_of_def vm_rows_wf_def)
  next
    case change
    have "machines_of T d' = machines_of T d"
      unfolding machines_of_def change(5)
      by (rule filter_upd_rows_other [OF wf(1) change(1)]) (use change(2,3) assms(3) in \<open>simp_all add: vm_change_def\<close>)
    then show ?thesis using wf change(4-6)
      by (simp add: snapshots_of_def vm_rows_wf_def distinct_keys_upd_rows)
  next
    case gone
    have m: "machines_of T d' = machines_of T d"
      unfolding machines_of_def gone(3) by (rule filter_del_rows_other [OF wf(1) gone(1)]) (use gone(2) assms(3) in simp)
    moreover have "snapshots_of T d' = snapshots_of T d"
      unfolding snapshots_of_def m gone(4) using foreign [OF gone(1,2)] by (auto intro!: filter_cong)
    moreover have "distinct_keys s_id (snapshots d')"
      using wf(2) by (simp add: gone(4) distinct_keys_def distinct_map_filter)
    ultimately show ?thesis using wf(1) by (simp add: vm_rows_wf_def gone(3) distinct_keys_del_rows)
  next
    case snap
    have m: "machines_of T d' = machines_of T d" by (simp add: machines_of_def snap(5))
    moreover have "snapshots_of T d' = snapshots_of T d"
      unfolding snapshots_of_def m snap(6)
      by (rule filter_del_rows_other [OF wf(2) snap(3)]) (use foreign [OF snap(1,2)] snap(4) in simp)
    ultimately show ?thesis using wf by (simp add: vm_rows_wf_def snap(5,6) distinct_keys_del_rows)
  qed
qed

text \<open>
  C6: whatever calls are made for other tenants, by whomever and however the providers behave, the
  machines of a tenant and their snapshots are exactly what they were.
\<close>
theorem vm_runs_isolate_tenants:
  assumes "vm_run T d d'" "distinct_keys v_id (vms d)" "distinct_keys s_id (snapshots d)"
  shows "machines_of T d' = machines_of T d \<and> snapshots_of T d' = snapshots_of T d"
proof -
  have "vm_rows_wf d' \<and> machines_of T d' = machines_of T d \<and> snapshots_of T d' = snapshots_of T d"
    using assms(1)
  proof (induction rule: vm_run.induct)
    case start
    then show ?case using assms(2,3) by (simp add: vm_rows_wf_def)
  next
    case (call d' ct cu d'')
    then have "vm_effect ct d' d''" by (intro vm_call_effect) (simp_all add: vm_rows_wf_def)
    with call effect_isolated show ?case by metis
  qed
  then show ?thesis by simp
qed

section \<open>Status changes\<close>

text \<open>
  C25: after any call every machine is one that was there before, with the same owner, tenant and size,
  and its status is the old one or one the transition table allows, except that an \<open>error\<close> machine
  may have become \<open>running\<close>.
\<close>
theorem vm_calls_follow_transitions:
  assumes "vm_call cu ct d d'" "distinct_keys v_id (vms d)" "w \<in> set (vms d')"
  shows "\<exists>v \<in> set (vms d). v_id w = v_id v \<and> v_owner_id w = v_owner_id v \<and> v_tenant_id w = v_tenant_id v \<and>
    v_cpu w = v_cpu v \<and> v_ram w = v_ram v \<and> v_disk_size_mb w = v_disk_size_mb v \<and>
    (v_status w = v_status v \<or> validate_status_transition (v_status v) (v_status w) \<or>
     v_status v = ''error'' \<and> v_status w = ''running'')"
proof -
  have refl: "vm_change v v" for v by (simp add: vm_change_def)
  have "\<exists>v \<in> set (vms d). vm_change v w"
    using vm_call_effect [OF assms(1,2)] unfolding vm_effect_def
  proof (elim disjE exE conjE)
    fix v f
    assume v: "v \<in> set (vms d)" "vm_change v (f v)" "vms d' = upd_rows v_id (v_id v) f (vms d)"
    show ?thesis
      using assms(3) refl v upd_rows_in_Some [OF assms(2) v(1), of "v_id v" f] by auto
  qed (use assms(3) refl in \<open>auto simp: set_del_rows\<close>)
  then show ?thesis by (auto simp: vm_change_def)
qed

text \<open>
  The exception happens: starting a machine in the \<open>error\<close> status, when the provider starts
  it, makes it \<open>running\<close>, a change \<open>VALID_STATUS_TRANSITIONS\<close> does not have.
\<close>
theorem start_leaves_the_table:
  assumes "start_vm env cu req ct i d = (Inr w, d')" "tenant_vm i ct d = Some v" "v_status v = ''error''"
    "distinct_keys v_id (vms d)"
  shows "v_status w = ''running'' \<and> \<not> validate_status_transition (v_status v) (v_status w)"
proof -
  have "\<exists>x d1. start_vm_logic env i d = (Inr x, d1) \<and> w = vm_now i v d1"
    using assms(1,2) by (auto simp: start_vm_def on_own_vm_def served_def split: if_splits prod.splits sum.splits)
  then obtain d1 where d1: "start_vm_logic env i d = (Inr (), d1)" "w = vm_now i v d1" by auto
  from d1(1) show ?thesis
  proof (rule start_ok)
    fix u ip assume u: "find_vm i d = Some u" "d1 = put_vm i (\<lambda>x. x\<lparr>v_status := ''running'', v_ip_address := ip x\<rparr>) d"
    then have "find_vm i d1 = Some (u\<lparr>v_status := ''running'', v_ip_address := ip u\<rparr>)"
      by (simp add: find_vm_def first_row_upd_rows)
    then have "v_status w = ''running''" by (simp add: d1(2) vm_now_def)
    then show ?thesis using assms(3) allowed_transitions(3) by simp
  qed
qed

section \<open>Listing and reading\<close>

text \<open>
  C26: the list and the single-machine endpoint agree: a machine is among those \<open>list_vms\<close> ranges
  over exactly when \<open>get_vm\<close> returns it, for every user whose right to delete machines comes with the
  right to change them.
\<close>
theorem listed_iff_readable:
  assumes "has_permission cu (t_id ct) ''vm:delete'' d \<Longrightarrow> has_permission cu (t_id ct) ''vm:update'' d"
    "distinct_keys v_id (vms d)" "v \<in> set (vms d)"
  shows "v \<in> set (get_visible_vms_query cu (t_id ct) d) \<longleftrightarrow> fst (get_vm cu ct (v_id v) d) = Inr v"
proof -
  have f: "find_vm (v_id v) d = Some v"
    unfolding find_vm_def by (rule first_row_key [OF assms(2,3)])
  have t: "tenant_vm (v_id v) ct d = (if v_tenant_id v = t_id ct then Some v else None)"
  proof (cases "v_tenant_id v = t_id ct")
    case True
    have "first_row (\<lambda>w. v_id w = v_id v \<and> v_tenant_id w = t_id ct) (vms d) = first_row (\<lambda>w. v_id w = v_id v) (vms d)"
      using distinct_keys_eq [OF assms(2) _ assms(3)] True by (intro first_row_cong) auto
    then show ?thesis using True f by (simp add: tenant_vm_def find_vm_def)
  next
    case False
    then show ?thesis using distinct_keys_eq [OF assms(2) _ assms(3)] by (auto simp: tenant_vm_def first_row_None)
  qed
  show ?thesis
    using assms(1,3) by (auto simp: get_visible_vms_query_def get_vm_def f t on_own_vm_def may_manage_def)
qed

section \<open>What does not hold\<close>

text \<open>
  No snapshot is ever created: whatever the providers answer, \<open>create_snapshot\<close> ends in an error
  and leaves the database as it was.
\<close>
theorem snapshots_never_created:
  "\<exists>e. create_snapshot env cu req ct i name d = (Inl e, d)"
proof -
  obtain e where "create_snapshot_logic env i name d = (Inl e, d)" using create_snapshot_fails by blast
  then show ?thesis
    by (auto simp: create_snapshot_def on_own_vm_def served_def http_def raise_def split: option.split)
qed

text \<open>
  A user who may only read can download the private SSH key of a machine they are not even allowed
  to look at.
\<close>
theorem reader_downloads_any_key:
  assumes "tenant_vm i ct d = Some v" "has_permission cu (t_id ct) ''vm:read'' d" "\<not> may_manage cu ct v d"
    "\<not> is_super_admin cu d" "v_ssh_private_key_enc v = Some c" "c \<noteq> []" "decrypt c = Inr key"
  shows "fst (get_vm cu ct i d) =
      Inl (HTTPException 403 ''You can only view your own VMs unless you have vm_admin or admin role'') \<and>
    download_ssh_key decrypt cu ct i d = (Inr key, d)"
  using assms by (simp add: get_vm_def on_own_vm_def download_ssh_key_def on_tenant_vm_def truthy_def ok_def)

text \<open>
  The statistics of a tenant add up the processors of every tenant: the reported total is that of
  the tenant's machines plus that of all others.
\<close>
theorem stats_sum_all_tenants:
  assumes "get_vm_stats cu ct d = (Inr s, d')"
  shows "vs_total_vms s = int (length (machines_of (t_id ct) d)) \<and>
    vs_cpu_total s = sum_by v_cpu (machines_of (t_id ct) d) + sum_by v_cpu (filter (\<lambda>v. v_tenant_id v \<noteq> t_id ct) (vms d))"
proof -
  have "sum_by v_cpu vs = sum_by v_cpu (filter (\<lambda>v. v_tenant_id v = t_id ct) vs) +
      sum_by v_cpu (filter (\<lambda>v. v_tenant_id v \<noteq> t_id ct) vs)" for vs
    by (induction vs) auto
  then show ?thesis
    using assms by (auto simp: get_vm_stats_def Let_def machines_of_def count_rows_def split: if_splits)
qed

text \<open>
  Changing a machine's description succeeds and fails: the new text is stored, and the caller gets
  the error of an undefined name, with no audit entry.
\<close>
theorem update_vm_stores_then_fails:
  assumes "tenant_vm i ct d = Some v" "may_manage cu ct v d"
  shows "(\<exists>e. fst (update_vm cu ct i (Some desc) d) = Inl (OtherError e)) \<and>
    (\<exists>w \<in> set (vms (snd (update_vm cu ct i (Some desc) d))). v_id w = i \<and> v_description w = desc) \<and>
    audit_log (snd (update_vm cu ct i (Some desc) d)) = audit_log d"
proof -
  have "v\<lparr>v_description := desc\<rparr> \<in> set (upd_rows v_id i (\<lambda>x. x\<lparr>v_description := desc\<rparr>) (vms d))"
    using tenant_vm_Some [OF assms(1)] by (simp add: upd_rows_hit)
  then show ?thesis
    using assms tenant_vm_Some [OF assms(1)]
    by (auto simp: update_vm_def on_own_vm_def intro!: bexI [of _ "v\<lparr>v_description := desc\<rparr>"])
qed

section \<open>Witnesses\<close>

definition quiet_env :: provider_env where
  "quiet_env = \<lparr>pe_hypervisor = None, pe_start = (\<lambda>_. None), pe_stop = (\<lambda>_. None), pe_delete = (\<lambda>_. None),
     pe_interfaces = (\<lambda>_ _. Inr [Some ''127.0.0.1'', Some ''172.16.0.9'']), pe_registered = [],
     pe_ct_start = (\<lambda>_. None), pe_ct_stop = (\<lambda>_. None), pe_ct_restart = (\<lambda>_. None),
     pe_ct_remove = (\<lambda>_ _. None), pe_ct_logs = (\<lambda>_ _. Inr ('''', 0)), pe_ct_snapshot = (\<lambda>_ _. Inr ''tag''),
     pe_ct_restore = (\<lambda>_ _. None), pe_ct_delete_snapshot = (\<lambda>_. None)\<rparr>"

definition demo_vm :: "int \<Rightarrow> string \<Rightarrow> string \<Rightarrow> int \<Rightarrow> int \<Rightarrow> vm" where
  "demo_vm i nm st tid owner =
     \<lparr>v_id = i, v_name = nm, v_description = None, v_provider = ''proxmox'', v_image = None, v_cpu = 2, v_ram = 1024,
      v_disk_size_mb = 20480, v_ip_address = None, v_status = st, v_terraform_job_id = None, v_celery_task_id = None,
      v_proxmox_vm_id = Some (100 + i), v_template_id = Some 9000, v_error = None, v_owner_id = owner,
      v_network_id = None, v_tenant_id = tid, v_ssh_user = ''ubuntu'', v_ssh_public_key = Some ''pub'',
      v_ssh_private_key_enc = Some ''enc''\<rparr>"

definition demo_permission :: "int \<Rightarrow> string \<Rightarrow> permission" where
  "demo_permission i nm = \<lparr>p_id = i, p_name = nm, p_resource_type = ''vm'', p_action = ''x'', p_description = None\<rparr>"

definition custom_role :: "int \<Rightarrow> string \<Rightarrow> int list \<Rightarrow> role" where
  "custom_role i nm ps = \<lparr>r_id = i, r_name = nm, r_description = None, r_tenant_id = Some 1, r_is_preset = False,
     r_is_system = False, r_permissions = ps\<rparr>"

definition vm_reader :: user where
  "vm_reader = new_user 5 ''rea'' ''rea@x.io'' ''h'' None (Some 1)"

definition vm_owner :: user where
  "vm_owner = new_user 6 ''own'' ''own@x.io'' ''h'' None (Some 1)"

definition vm_tenant :: tenant where
  "vm_tenant = (new_tenant 1 ''One'' ''one'')\<lparr>t_pod_id := Some 1\<rparr>"

definition vm_db :: db where
  "vm_db = two_roles_db\<lparr>
     permissions := [demo_permission 1 ''vm:read'', demo_permission 2 ''vm:update'', demo_permission 3 ''vm:create'',
       demo_permission 4 ''vm:delete''],
     roles := roles two_roles_db @ [custom_role 3 ''reader'' [1], custom_role 4 ''operator'' [1, 2, 3, 4]],
     user_roles := user_roles two_roles_db @
       [\<lparr>ur_id = 3, ur_user_id = 5, ur_tenant_id = Some 1, ur_role_id = 3, ur_granted_by = None\<rparr>,
        \<lparr>ur_id = 4, ur_user_id = 6, ur_tenant_id = Some 1, ur_role_id = 4, ur_granted_by = None\<rparr>],
     vms := [demo_vm 1 ''web'' ''error'' 1 6, demo_vm 2 ''db'' ''running'' 2 7, demo_vm 3 ''run'' ''running'' 1 6],
     seqs := (\<lambda>_. 10)\<rparr>"

lemma vm_db_wf: "distinct_keys v_id (vms vm_db)" "distinct_keys s_id (snapshots vm_db)"
  by (simp_all add: vm_db_def demo_vm_def two_roles_db_def empty_db_def)

lemma vm_runs_isolate_tenants_witness:
  "machines_of 2 (snd (delete_vm quiet_env vm_owner (plain_request [] 0) vm_tenant 3 True vm_db)) =
    [demo_vm 2 ''db'' ''running'' 2 7]"
proof -
  have "vm_run 2 vm_db (snd (delete_vm quiet_env vm_owner (plain_request [] 0) vm_tenant 3 True vm_db))"
    by (rule vm_run.call [OF vm_run.start, where ct = vm_tenant and cu = vm_owner])
      (simp_all add: vm_tenant_def new_tenant_def vm_call.delete)
  from vm_runs_isolate_tenants [OF this vm_db_wf] show ?thesis
    by (simp add: machines_of_def vm_db_def demo_vm_def)
qed

lemma vm_calls_follow_transitions_witness:
  "\<exists>v \<in> set (vms vm_db). v_id v = 3 \<and> validate_status_transition (v_status v) ''stopped''"
proof -
  let ?d = "snd (stop_vm quiet_env vm_owner (plain_request [] 0) vm_tenant 3 vm_db)"
  have "(demo_vm 3 ''run'' ''stopped'' 1 6) \<in> set (vms ?d)" by code_simp
  from vm_calls_follow_transitions [OF vm_call.stop vm_db_wf(1) this] show ?thesis
    by (auto simp: demo_vm_def vm_db_def)
qed

lemma start_leaves_the_table_witness:
  "\<exists>w d'. start_vm quiet_env vm_owner (plain_request [] 0) vm_tenant 1 vm_db = (Inr w, d') \<and> v_status w = ''running''"
proof -
  have "is_ok (start_vm quiet_env vm_owner (plain_request [] 0) vm_tenant 1 vm_db)" by code_simp
  then obtain w d' where s: "start_vm quiet_env vm_owner (plain_request [] 0) vm_tenant 1 vm_db = (Inr w, d')"
    by (auto simp: is_ok_conv)
  have "tenant_vm 1 vm_tenant vm_db = Some (demo_vm 1 ''web'' ''error'' 1 6)"
    by (simp add: tenant_vm_def vm_db_def demo_vm_def vm_tenant_def new_tenant_def)
  from start_leaves_the_table [OF s this _ vm_db_wf(1)] s show ?thesis by (simp add: demo_vm_def)
qed

lemma listed_iff_readable_witness:
  "demo_vm 1 ''web'' ''error'' 1 6 \<in> set (get_visible_vms_query vm_owner (t_id vm_tenant) vm_db)"
proof -
  have p: "has_permission vm_owner (t_id vm_tenant) ''vm:update'' vm_db" by code_simp
  have m: "demo_vm 1 ''web'' ''error'' 1 6 \<in> set (vms vm_db)" by (simp add: vm_db_def)
  have "fst (get_vm vm_owner vm_tenant (v_id (demo_vm 1 ''web'' ''error'' 1 6)) vm_db) = Inr (demo_vm 1 ''web'' ''error'' 1 6)"
    by code_simp
  with listed_iff_readable [OF p vm_db_wf(1) m] show ?thesis by blast
qed

lemma reader_downloads_any_key_witness:
  "fst (download_ssh_key (\<lambda>c. Inr (''plain-'' @ c)) vm_reader vm_tenant 1 vm_db) = Inr ''plain-enc''"
proof -
  have a: "tenant_vm 1 vm_tenant vm_db = Some (demo_vm 1 ''web'' ''error'' 1 6)"
    by (simp add: tenant_vm_def vm_db_def demo_vm_def vm_tenant_def new_tenant_def)
  have b: "has_permission vm_reader (t_id vm_tenant) ''vm:read'' vm_db"
    "\<not> may_manage vm_reader vm_tenant (demo_vm 1 ''web'' ''error'' 1 6) vm_db" "\<not> is_super_admin vm_reader vm_db"
    by code_simp+
  show ?thesis
    using reader_downloads_any_key [OF a b, where c = "''enc''" and decrypt = "\<lambda>c. Inr (''plain-'' @ c)" and key = "''plain-enc''"]
    by (simp add: demo_vm_def)
qed

lemma stats_sum_all_tenants_witness:
  "\<exists>s d'. get_vm_stats vm_owner vm_tenant vm_db = (Inr s, d') \<and> vs_total_vms s = 2 \<and> vs_cpu_total s = 4 + 2"
proof -
  have "is_ok (get_vm_stats vm_owner vm_tenant vm_db)" by code_simp
  then obtain s d' where s: "get_vm_stats vm_owner vm_tenant vm_db = (Inr s, d')" by (auto simp: is_ok_conv)
  from stats_sum_all_tenants [OF s] s show ?thesis
    by (simp add: machines_of_def vm_db_def demo_vm_def vm_tenant_def new_tenant_def)
qed

lemma update_vm_stores_then_fails_witness:
  "\<exists>e. fst (update_vm vm_owner vm_tenant 1 (Some (Some ''x'')) vm_db) = Inl (OtherError e)"
proof -
  have a: "tenant_vm 1 vm_tenant vm_db = Some (demo_vm 1 ''web'' ''error'' 1 6)"
    by (simp add: tenant_vm_def vm_db_def demo_vm_def vm_tenant_def new_tenant_def)
  have "may_manage vm_owner vm_tenant (demo_vm 1 ''web'' ''error'' 1 6) vm_db" by code_simp
  from update_vm_stores_then_fails [OF a this] show ?thesis by simp
qed

end
