(* ===== verification/Ip_Address.thy ===== *)
theory Ip_Address
  imports Data_Model
begin

text \<open>
  The part of Python's \<open>ipaddress\<close> module the platform uses: IPv4 addresses and networks. An address
  is its 32-bit number, a network its number and prefix length. Text that is no IPv4 address (IPv6
  included) parses to \<open>None\<close>.
\<close>

section \<open>Addresses\<close>

definition parse_octet :: "string \<Rightarrow> nat option" where
  "parse_octet s =
     (if s = [] \<or> \<not> list_all is_digit s \<or> 3 < length s \<or> (s \<noteq> ''0'' \<and> hd s = CHR ''0'') \<or> 255 < nat_of_digits s
      then None else Some (nat_of_digits s))"

definition parse_ipv4 :: "string \<Rightarrow> nat option" where
  "parse_ipv4 s =
     (case map parse_octet (split_on CHR ''.'' s) of
        [Some a, Some b, Some c, Some d] \<Rightarrow> Some (((a * 256 + b) * 256 + c) * 256 + d)
      | _ \<Rightarrow> None)"

definition octets :: "nat \<Rightarrow> nat list" where
  "octets n = [n div 16777216 mod 256, n div 65536 mod 256, n div 256 mod 256, n mod 256]"

definition show_ipv4 :: "nat \<Rightarrow> string" where
  "show_ipv4 n = join_with [CHR ''.''] (map show_nat (octets n))"

lemma show_nat_length_le:
  assumes "n < 1000"
  shows "length (show_nat n) \<le> 3"
proof -
  have "length (show_nat n) \<le> 1" if "n < 10" for n using that by (subst show_nat.simps) simp
  then have "length (show_nat n) \<le> 2" if "n < 100" for n using that by (subst show_nat.simps) simp
  then show ?thesis using assms by (subst show_nat.simps) simp
qed

lemma show_nat_no_leading_zero: "hd (show_nat n) = CHR ''0'' \<Longrightarrow> n = 0"
proof (induction n rule: less_induct)
  case (less n)
  show ?case
  proof (cases "n < 10")
    case True
    then have "show_nat n = [digit_char n]" by (subst show_nat.simps) simp
    with less.prems have "digit_char n = CHR ''0''" by simp
    then have "(of_char (digit_char n) :: nat) = of_char CHR ''0''" by simp
    then show ?thesis using of_char_digit [OF True] by simp
  next
    case False
    then have "hd (show_nat n) = hd (show_nat (n div 10))"
      by (subst show_nat.simps) (simp add: show_nat_nonempty)
    with less.prems less.IH [of "n div 10"] False have "n div 10 = 0" by simp
    with False show ?thesis by simp
  qed
qed

lemma char_of_48: "char_of (48 :: nat) = CHR ''0''"
  by code_simp

lemma parse_octet_show: "n < 256 \<Longrightarrow> parse_octet (show_nat n) = Some n"
proof -
  assume n: "n < 256"
  have "show_nat n \<noteq> ''0'' \<Longrightarrow> hd (show_nat n) \<noteq> CHR ''0''"
  proof
    assume "show_nat n \<noteq> ''0''" "hd (show_nat n) = CHR ''0''"
    then have "n = 0" using show_nat_no_leading_zero by blast
    then have "show_nat n = ''0''" using char_of_48 by (simp add: show_nat.simps digit_char_def)
    with \<open>show_nat n \<noteq> ''0''\<close> show False ..
  qed
  then show ?thesis
    using n show_nat_length_le [of n] by (auto simp: parse_octet_def show_nat_nonempty show_nat_digits nat_of_digits_show)
qed

lemma show_nat_no_dot: "CHR ''.'' \<notin> set (show_nat n)"
  using show_nat_digits [of n] digit_not(2) by (auto simp: list_all_iff)

lemma split_show_ipv4: "split_on CHR ''.'' (show_ipv4 n) = map show_nat (octets n)"
  unfolding show_ipv4_def by (rule split_join) (auto simp: octets_def show_nat_no_dot)

text \<open>Every 32-bit number is read back from its dotted text.\<close>

lemma parse_show_ipv4:
  assumes "n < 2 ^ 32"
  shows "parse_ipv4 (show_ipv4 n) = Some n"
proof -
  define a b c d where "a = n div 16777216 mod 256" and "b = n div 65536 mod 256"
    and "c = n div 256 mod 256" and "d = n mod 256"
  then have o: "octets n = [a, b, c, d]" and small: "a < 256" "b < 256" "c < 256" "d < 256"
    by (simp_all add: octets_def)
  have q: "n div 65536 = n div 256 div 256" "n div 16777216 = n div 256 div 256 div 256"
    by (simp_all flip: div_mult2_eq)
  have "n div 256 div 256 div 256 < 256"
    unfolding q(2) [symmetric] using assms by (simp add: less_mult_imp_div_less)
  then have "((a * 256 + b) * 256 + c) * 256 + d = n"
    unfolding a_def b_def c_def d_def q by simp
  then show ?thesis using small by (simp add: parse_ipv4_def split_show_ipv4 o parse_octet_show)
qed

lemma show_ipv4_inject: "m < 2 ^ 32 \<Longrightarrow> n < 2 ^ 32 \<Longrightarrow> show_ipv4 m = show_ipv4 n \<Longrightarrow> m = n"
  using parse_show_ipv4 by (metis option.inject)

section \<open>Networks\<close>

record ipv4_net =
  net_base :: nat
  net_prefix :: nat

definition block_size :: "nat \<Rightarrow> nat" where
  "block_size p = 2 ^ (32 - p)"

text \<open>\<open>ip_network(s, strict=False)\<close>, for text of the form \<open>a.b.c.d\<close> or \<open>a.b.c.d/prefix\<close>.\<close>

definition parse_network :: "string \<Rightarrow> ipv4_net option" where
  "parse_network s =
     (case split_on CHR ''/'' s of
        [a] \<Rightarrow> map_option (\<lambda>n. \<lparr>net_base = n, net_prefix = 32\<rparr>) (parse_ipv4 a)
      | [a, p] \<Rightarrow>
          (if p = [] \<or> \<not> list_all is_digit p \<or> 32 < nat_of_digits p then None
           else map_option (\<lambda>n. let b = block_size (nat_of_digits p)
             in \<lparr>net_base = n div b * b, net_prefix = nat_of_digits p\<rparr>) (parse_ipv4 a))
      | _ \<Rightarrow> None)"

definition show_network :: "ipv4_net \<Rightarrow> string" where
  "show_network w = show_ipv4 (net_base w) @ CHR ''/'' # show_nat (net_prefix w)"

definition broadcast_address :: "ipv4_net \<Rightarrow> nat" where
  "broadcast_address w = net_base w + block_size (net_prefix w) - 1"

definition in_network :: "nat \<Rightarrow> ipv4_net \<Rightarrow> bool" where
  "in_network ip w \<longleftrightarrow> net_base w \<le> ip \<and> ip \<le> broadcast_address w"

definition subnets24 :: "ipv4_net \<Rightarrow> ipv4_net list" where
  "subnets24 w = map (\<lambda>k. \<lparr>net_base = net_base w + k * 256, net_prefix = 24\<rparr>) [0..<2 ^ (24 - net_prefix w)]"

definition net_wf :: "ipv4_net \<Rightarrow> bool" where
  "net_wf w \<longleftrightarrow> net_prefix w \<le> 32 \<and> net_base w < 2 ^ 32 \<and> block_size (net_prefix w) dvd net_base w"

lemma ipv4_no_slash: "CHR ''/'' \<notin> set (show_ipv4 n)"
proof -
  have "CHR ''/'' \<notin> set (show_nat k)" for k
    using show_nat_digits [of k] by (auto simp: list_all_iff is_digit_def)
  then show ?thesis by (simp add: show_ipv4_def octets_def)
qed

lemma parse_show_network:
  assumes "net_wf w"
  shows "parse_network (show_network w) = Some w"
proof -
  have "CHR ''/'' \<notin> set (show_nat k)" for k
    using show_nat_digits [of k] by (auto simp: list_all_iff is_digit_def)
  then have "split_on CHR ''/'' (show_network w) = [show_ipv4 (net_base w), show_nat (net_prefix w)]"
    by (simp add: show_network_def split_on_append_sep ipv4_no_slash split_on_no_sep)
  moreover have "net_base w div block_size (net_prefix w) * block_size (net_prefix w) = net_base w"
    using assms by (simp add: net_wf_def)
  ultimately show ?thesis
    using assms by (simp add: parse_network_def show_nat_nonempty show_nat_digits nat_of_digits_show
        parse_show_ipv4 net_wf_def Let_def)
qed

lemma block_size_pos: "0 < block_size p"
  by (simp add: block_size_def)

text \<open>Two addresses of the same prefix are in one network exactly when their quotients agree.\<close>

lemma in_network_div:
  assumes "net_wf w"
  shows "in_network ip w \<longleftrightarrow> ip div block_size (net_prefix w) = net_base w div block_size (net_prefix w)"
proof -
  let ?b = "block_size (net_prefix w)"
  obtain k where k: "net_base w = ?b * k" using assms by (auto simp: net_wf_def)
  have "in_network ip w \<longleftrightarrow> ?b * k \<le> ip \<and> ip < ?b * Suc k"
    using block_size_pos [of "net_prefix w"] by (auto simp: in_network_def broadcast_address_def k)
  also have "\<dots> \<longleftrightarrow> ip div ?b = k"
    using block_size_pos [of "net_prefix w"] by (metis div_nat_eqI dividend_less_times_div div_times_less_eq_dividend mult.commute mult_Suc_right)
  finally show ?thesis using block_size_pos [of "net_prefix w"] by (simp add: k)
qed

end
