(* ===== verification/Vm_Provision.thy ===== *)
theory Vm_Provision
  imports Vm_Lifecycle Ip_Address
begin

text \<open>
  Creating machines: \<open>create_vm\<close> and \<open>provision_vm\<close> of \<open>app/api/vm.py\<close>, \<open>attach_vm_to_network\<close> of
  \<open>app/providers/proxmox.py\<close> and \<open>provision_vm_task\<close> of \<open>app/workers/tasks/vm.py\<close>.

  The provider object, its template list, the advisory lock and the task queue are services: a
  \<open>provision_env\<close> says what they answer. \<open>pv_other_ip\<close> is the text of the refusal of an address that
  is not IPv4 (not in the network's family, or no address at all); either way the answer is a 400.
  The password, DNS and upgrade options, which are only handed to the task, are left out.
\<close>

section \<open>The request and the services\<close>

record vm_request =
  pq_name :: string
  pq_template_id :: int
  pq_cpu :: int
  pq_ram :: int
  pq_username :: string
  pq_ip_mode :: string
  pq_ip_address :: "string option"
  pq_ssh_public_key :: "string option"
  pq_auto_start :: bool
  pq_description :: "string option"
  pq_network_id :: "int option"
  pq_disk_size_gb :: "int option"
  pq_skip_cloudinit :: bool

record provision_env =
  pv_rate_limit :: "py_exc option"
  pv_provider :: "pod \<Rightarrow> py_exc option"
  pv_templates :: "py_exc + (int \<times> int) list"
  pv_lock :: "py_exc + bool"
  pv_other_ip :: "string \<Rightarrow> string"
  pv_send :: "py_exc option"

text \<open>Field bounds of \<open>VMProvisionRequest\<close>, checked by pydantic before the handler runs.\<close>

definition request_ok :: "vm_request \<Rightarrow> bool" where
  "request_ok rq \<longleftrightarrow> 3 \<le> length (pq_name rq) \<and> length (pq_name rq) \<le> 50 \<and> 1 \<le> pq_cpu rq \<and> pq_cpu rq \<le> 32 \<and>
     512 \<le> pq_ram rq \<and> pq_ram rq \<le> 65536 \<and> pq_ip_mode rq \<in> {''dhcp'', ''static''} \<and>
     (pq_ip_address rq \<noteq> None \<and> pq_ip_mode rq = ''static'' \<longrightarrow> truthy (pq_ip_address rq)) \<and>
     opt_fits 500 (pq_description rq) \<and>
     (case pq_disk_size_gb rq of None \<Rightarrow> True | Some g \<Rightarrow> 1 \<le> g \<and> g \<le> 10000)"

section \<open>create_vm\<close>

text \<open>
  \<open>create_vm\<close> reads \<open>vm_data.disk_size_gb\<close>, a field \<open>VMCreate\<close> does not have, for the quota check:
  nothing after that is reached.
\<close>

definition create_vm :: "py_exc option \<Rightarrow> user \<Rightarrow> tenant \<Rightarrow> db \<Rightarrow> (vm, db) result" where
  "create_vm rl cu ct d =
     (case rl of Some e \<Rightarrow> raise e d
      | None \<Rightarrow>
        (if \<not> has_permission cu (t_id ct) ''vm:create'' d then http 403 ''You do not have permission to create VMs'' d
         else raise (AttributeError ([quote_char] @ ''VMCreate'' @ [quote_char] @ '' object has no attribute '' @
           [quote_char] @ ''disk_size_gb'' @ [quote_char])) d))"

section \<open>provision_vm\<close>

definition resolve_network :: "tenant \<Rightarrow> int option \<Rightarrow> db \<Rightarrow> py_exc + tenant_network" where
  "resolve_network ct nid d =
     (if truthy_id nid
      then (case first_row (\<lambda>n. n_id n = the nid \<and> n_tenant_id n = t_id ct \<and> n_status n = ''active'') (networks d) of
              None \<Rightarrow> Inl (HTTPException 404 ''Network not found or does not belong to this tenant'')
            | Some n \<Rightarrow> Inr n)
      else (case first_row (\<lambda>n. n_tenant_id n = t_id ct \<and> n_is_default n \<and> n_status n = ''active'') (networks d) of
              None \<Rightarrow> Inl (HTTPException 400 ''Tenant has no default network - not fully provisioned'')
            | Some n \<Rightarrow> Inr n))"

definition default_bridge :: "int \<Rightarrow> db \<Rightarrow> py_exc + string" where
  "default_bridge tid d =
     (case first_row (\<lambda>n. n_tenant_id n = tid \<and> n_is_default n) (networks d) of
        None \<Rightarrow> Inl (ValueError (''No default bridge found for tenant '' @ show_int tid))
      | Some n \<Rightarrow> (if truthy (n_provider_ref n) then Inr (the (n_provider_ref n))
          else Inl (ValueError (''No default bridge found for tenant '' @ show_int tid))))"

definition attach_vm_to_network :: "tenant_network \<Rightarrow> db \<Rightarrow> py_exc + string" where
  "attach_vm_to_network n d =
     (case (if truthy (n_provider_ref n) then Inr (the (n_provider_ref n)) else default_bridge (n_tenant_id n) d) of
        Inl e \<Rightarrow> Inl e
      | Inr bridge \<Rightarrow> Inr (''virtio,bridge='' @ bridge @ '',firewall=0'' @
          (case n_vlan_id n of None \<Rightarrow> '''' | Some v \<Rightarrow> '',tag='' @ show_int v)))"

definition static_ip_error :: "provision_env \<Rightarrow> string \<Rightarrow> tenant_network \<Rightarrow> string option" where
  "static_ip_error env ip n =
     (case parse_ipv4 ip of
        None \<Rightarrow> Some (pv_other_ip env ip)
      | Some a \<Rightarrow>
          (case parse_network (n_cidr n) of
             None \<Rightarrow> Some (''Invalid IP address: '' @ n_cidr n)
           | Some w \<Rightarrow>
               (if \<not> in_network a w then Some (''Static IP must be in '' @ n_cidr n @ '' range'')
                else if show_ipv4 a = n_gateway_ip n then Some (''Cannot use gateway IP ('' @ n_gateway_ip n @ '')'')
                else if a = net_base w \<or> a = broadcast_address w then Some ''Cannot use network or broadcast address''
                else None)))"

definition show_tenths :: "int \<Rightarrow> string" where
  "show_tenths n = show_int (n div 10) @ ''.'' @ show_int (n mod 10)"

definition quota_refusal :: "py_exc \<Rightarrow> py_exc" where
  "quota_refusal e =
     (case e of
        QuotaExceededError r l c q \<Rightarrow> HTTPException 400 (''Quota exceeded: '' @ r @ '' limit of '' @ show_int l @
          '' reached ('' @ (if r = ''max_disk_gb'' then show_tenths c else show_int c) @ '' used, requested '' @
          show_int q @ '' more)'')
      | _ \<Rightarrow> e)"

definition template_disk_size :: "provision_env \<Rightarrow> int \<Rightarrow> int" where
  "template_disk_size env tid =
     (case pv_templates env of
        Inl e \<Rightarrow> 20
      | Inr ts \<Rightarrow> (case first_row (\<lambda>t. fst t = tid) ts of None \<Rightarrow> 20 | Some t \<Rightarrow> snd t))"

definition requested_gb :: "vm_request \<Rightarrow> int" where
  "requested_gb rq = (case pq_disk_size_gb rq of None \<Rightarrow> 0 | Some g \<Rightarrow> g)"

definition stored_gb :: "provision_env \<Rightarrow> vm_request \<Rightarrow> int" where
  "stored_gb env rq =
     (if truthy_id (pq_disk_size_gb rq) then the (pq_disk_size_gb rq) else template_disk_size env (pq_template_id rq))"

definition provisioned_vm :: "provision_env \<Rightarrow> user \<Rightarrow> tenant \<Rightarrow> vm_request \<Rightarrow> int \<Rightarrow> vm" where
  "provisioned_vm env cu ct rq i =
     \<lparr>v_id = i, v_name = pq_name rq, v_description = pq_description rq, v_provider = ''proxmox'', v_image = None,
      v_cpu = pq_cpu rq, v_ram = pq_ram rq, v_disk_size_mb = stored_gb env rq * 1024,
      v_ip_address = (if pq_ip_mode rq = ''static'' then pq_ip_address rq else None), v_status = ''provisioning'',
      v_terraform_job_id = None, v_celery_task_id = None, v_proxmox_vm_id = None,
      v_template_id = Some (pq_template_id rq), v_error = None, v_owner_id = u_id cu, v_network_id = None,
      v_tenant_id = t_id ct, v_ssh_user = ''ubuntu'', v_ssh_public_key = None, v_ssh_private_key_enc = None\<rparr>"

definition provision_data_of :: "provision_env \<Rightarrow> vm_request \<Rightarrow> string \<Rightarrow> string \<Rightarrow> provision_data" where
  "provision_data_of env rq nic gateway =
     \<lparr>pd_template_id = pq_template_id rq, pd_name = pq_name rq, pd_net0 = nic, pd_username = pq_username rq,
      pd_ssh_public_key = pq_ssh_public_key rq, pd_ip_mode = pq_ip_mode rq, pd_ip_address = pq_ip_address rq,
      pd_gateway = gateway, pd_cpu = pq_cpu rq, pd_ram = pq_ram rq, pd_auto_start = pq_auto_start rq,
      pd_disk_size_gb = pq_disk_size_gb rq,
      pd_template_disk_size = template_disk_size env (pq_template_id rq), pd_skip_cloudinit = pq_skip_cloudinit rq\<rparr>"

definition store_vm :: "provision_env \<Rightarrow> user \<Rightarrow> request \<Rightarrow> tenant \<Rightarrow> vm_request \<Rightarrow> tenant_network \<Rightarrow> string \<Rightarrow> db \<Rightarrow> (vm, db) result" where
  "store_vm env cu req ct rq n nic d =
     (if \<exists>v \<in> set (vms d). v_name v = pq_name rq
        then http 409 ''VM name already exists. Please choose a different name.'' d
      else
        (let v = provisioned_vm env cu ct rq (next_id TVms d);
             d1 = bump_seq TVms (d\<lparr>vms := vms d @ [v]\<rparr>)
         in case pv_send env of
              Some e \<Rightarrow> http 500 ''An internal error occurred while provisioning the VM.''
                (put_vm (v_id v) (\<lambda>x. x\<lparr>v_status := ''error'', v_error := Some (take 500 (exc_str e))\<rparr>) d1)
            | None \<Rightarrow> ok v (log_audit_event
                ((vm_audit req ct cu ''VM_CREATE'' (v_id v) (v_name v))
                  \<lparr>a_new_value := Some (''provider=proxmox,template_id='' @ show_int (pq_template_id rq) @ '',cpu='' @
                     show_int (pq_cpu rq) @ '',ram='' @ show_int (pq_ram rq) @ '',disk_size_gb='' @
                     show_int (stored_gb env rq))\<rparr>) None
                (send_task (ProvisionVm (v_id v) (provision_data_of env rq nic (n_gateway_ip n))) d1))))"

definition provision_vm :: "provision_env \<Rightarrow> user \<Rightarrow> request \<Rightarrow> tenant \<Rightarrow> vm_request \<Rightarrow> db \<Rightarrow> (vm, db) result" where
  "provision_vm env cu req ct rq d =
     (case pv_rate_limit env of Some e \<Rightarrow> raise e d
      | None \<Rightarrow>
        (if \<not> has_permission cu (t_id ct) ''vm:create'' d then http 403 ''You do not have permission to create VMs'' d
         else if \<not> truthy_id (t_pod_id ct)
           then http 400 ''Tenant not provisioned - no pod assigned. Please wait for tenant approval.'' d
         else case resolve_network ct (pq_network_id rq) d of
           Inl e \<Rightarrow> raise e d
         | Inr n \<Rightarrow>
             (case first_row (\<lambda>p. pod_id p = n_pod_id n) (pods d) of
                None \<Rightarrow> raise (AttributeError ''provider_type'') d
              | Some p \<Rightarrow>
                  (case pv_provider env p of
                     Some e \<Rightarrow> raise e d
                   | None \<Rightarrow>
                       (case attach_vm_to_network n d of
                          Inl e \<Rightarrow> raise e d
                        | Inr nic \<Rightarrow>
                            (case (if pq_ip_mode rq = ''static'' \<and> truthy (pq_ip_address rq)
                                   then static_ip_error env (the (pq_ip_address rq)) n else None) of
                               Some m \<Rightarrow> http 400 m d
                             | None \<Rightarrow>
                                 (case check_vm_quota (t_id ct) (pq_cpu rq) (pq_ram rq) (requested_gb rq) d of
                                    Inl e \<Rightarrow> raise (quota_refusal e) d
                                  | Inr _ \<Rightarrow>
                                      (case pv_lock env of
                                         Inl e \<Rightarrow> raise e d
                                       | Inr got \<Rightarrow>
                                           (if \<not> got then http 409 ''VM is currently being created. Please try a different name or wait.'' d
                                            else store_vm env cu req ct rq n nic d)))))))))"

section \<open>The provisioning task (workers/tasks/vm.py)\<close>

text \<open>
  The soft time limit of the worker (540 s) is an exception that any call of the environment may raise,
  \<open>time.sleep\<close> included. The hard limit (600 s) kills the process: what it leaves is one of the states the
  task has committed so far.
\<close>

record task_env =
  tk_hypervisor :: "py_exc option"
  tk_nextid :: "nat \<Rightarrow> py_exc + int"
  tk_keygen :: "string \<Rightarrow> py_exc + string \<times> string"
  tk_encrypt :: "string \<Rightarrow> py_exc + string"
  tk_clone :: "int \<Rightarrow> provision_data \<Rightarrow> string \<Rightarrow> py_exc option"
  tk_resize :: "int \<Rightarrow> int \<Rightarrow> py_exc option"
  tk_disks :: "int \<Rightarrow> py_exc + (string \<times> int) list"
  tk_sleep :: "nat \<Rightarrow> py_exc option"
  tk_interfaces :: "int \<Rightarrow> nat \<Rightarrow> py_exc + string option list"

text \<open>At most \<open>n\<close> attempts to get a machine id, from attempt \<open>k\<close> on; the last failure is raised.\<close>

fun allocate_proxmox_id :: "(nat \<Rightarrow> py_exc + int) \<Rightarrow> nat \<Rightarrow> nat \<Rightarrow> py_exc + int" where
  "allocate_proxmox_id q 0 k = Inl (OtherError ''Failed to allocate VM ID'')"
| "allocate_proxmox_id q (Suc n) k =
     (case q k of
        Inr i \<Rightarrow> Inr i
      | Inl e \<Rightarrow> (if n = 0 then Inl (OtherError (''Failed to allocate VM ID: '' @ exc_str e))
          else allocate_proxmox_id q n (k + 1)))"

definition primary_disk :: "(string \<times> int) list \<Rightarrow> (string \<times> int) option" where
  "primary_disk ds =
     (case ds of [] \<Rightarrow> None
      | x # _ \<Rightarrow> (case List.find (\<lambda>p. fst p \<in> {''scsi0'', ''virtio0'', ''sata0'', ''ide0''}) ds of
          Some p \<Rightarrow> Some p | None \<Rightarrow> Some x))"

definition synced_disk :: "task_env \<Rightarrow> int \<Rightarrow> vm \<Rightarrow> vm" where
  "synced_disk env pid v =
     (case tk_disks env pid of
        Inl e \<Rightarrow> v
      | Inr ds \<Rightarrow> (case primary_disk ds of None \<Rightarrow> v | Some p \<Rightarrow> v\<lparr>v_disk_size_mb := snd p\<rparr>))"

definition network_of_ip :: "int \<Rightarrow> string \<Rightarrow> db \<Rightarrow> int option" where
  "network_of_ip tid ip d =
     map_option n_id (first_row (\<lambda>n. n_tenant_id n = tid \<and>
       (case (parse_ipv4 ip, parse_network (n_cidr n)) of (Some a, Some w) \<Rightarrow> in_network a w | _ \<Rightarrow> False)) (networks d))"

definition with_address :: "string option \<Rightarrow> db \<Rightarrow> vm \<Rightarrow> vm" where
  "with_address ip d v =
     (if truthy ip
      then v\<lparr>v_ip_address := ip,
             v_network_id := (if truthy_id (v_network_id v) then v_network_id v
               else (case network_of_ip (v_tenant_id v) (the ip) d of None \<Rightarrow> v_network_id v | Some i \<Rightarrow> Some i))\<rparr>
      else v)"

definition growth_of :: "provision_data \<Rightarrow> int option" where
  "growth_of pd =
     (case pd_disk_size_gb pd of
        None \<Rightarrow> None
      | Some g \<Rightarrow> (if g \<noteq> 0 \<and> pd_template_disk_size pd < g then Some (g - pd_template_disk_size pd) else None))"

definition failed_vm :: "py_exc \<Rightarrow> vm \<Rightarrow> vm" where
  "failed_vm e v = v\<lparr>v_status := ''error'', v_error := Some (exc_str e)\<rparr>"

text \<open>The polls for an address: a failing poll is passed over, an exception in the sleep before it is not.\<close>

fun poll_address :: "task_env \<Rightarrow> int \<Rightarrow> nat \<Rightarrow> nat \<Rightarrow> string option \<Rightarrow> py_exc + string option" where
  "poll_address env pid 0 k ip = Inr ip"
| "poll_address env pid (Suc n) k ip =
     (case tk_sleep env k of
        Some e \<Rightarrow> Inl e
      | None \<Rightarrow>
          (let ip' = (case tk_interfaces env pid k of
                 Inl e \<Rightarrow> ip
               | Inr ifs \<Rightarrow> (case List.find usable_ip ifs of Some x \<Rightarrow> x | None \<Rightarrow> ip))
           in if truthy ip' then Inr ip' else poll_address env pid n (k + 1) ip'))"

definition assigned_address :: "task_env \<Rightarrow> int \<Rightarrow> provision_data \<Rightarrow> py_exc + string option" where
  "assigned_address env pid pd =
     (if pd_auto_start pd \<and> \<not> truthy (pd_ip_address pd) then poll_address env pid 6 0 (pd_ip_address pd)
      else Inr (pd_ip_address pd))"

text \<open>The public key the machine gets, and the encrypted private one when the pair is made here.\<close>

definition task_keys :: "task_env \<Rightarrow> vm \<Rightarrow> provision_data \<Rightarrow> py_exc + string \<times> string option" where
  "task_keys env v pd =
     (if truthy (pd_ssh_public_key pd) then Inr (the (pd_ssh_public_key pd), None)
      else case tk_keygen env (v_name v @ ''@proxmox-iaas-platform'') of
        Inl e \<Rightarrow> Inl e
      | Inr (pub, priv) \<Rightarrow> (case tk_encrypt env priv of Inl e \<Rightarrow> Inl e | Inr c \<Rightarrow> Inr (pub, Some c)))"

definition with_keys :: "provision_data \<Rightarrow> string \<times> string option \<Rightarrow> vm \<Rightarrow> vm" where
  "with_keys pd ks v =
     v\<lparr>v_ssh_public_key := Some (fst ks), v_ssh_user := pd_username pd,
       v_ssh_private_key_enc := (case snd ks of None \<Rightarrow> v_ssh_private_key_enc v | Some c \<Rightarrow> Some c)\<rparr>"

text \<open>
  What the task reports, and the database after each of its commits, in order. The handler of exceptions
  does not roll back, so it commits what was changed since the last commit too: the disk size.
\<close>

definition provision_commits :: "task_env \<Rightarrow> int \<Rightarrow> provision_data \<Rightarrow> db \<Rightarrow> string \<times> db list" where
  "provision_commits env i pd d =
     (case find_vm i d of
        None \<Rightarrow> (''error'', [])
      | Some v \<Rightarrow>
          (case tk_hypervisor env of
             Some e \<Rightarrow> (''error'', [put_vm i (failed_vm e) d])
           | None \<Rightarrow>
               (case allocate_proxmox_id (tk_nextid env) 3 0 of
                  Inl e \<Rightarrow> (''error'', [put_vm i (failed_vm e) d])
                | Inr pid \<Rightarrow>
                    (let d1 = put_vm i (\<lambda>x. x\<lparr>v_proxmox_vm_id := Some pid\<rparr>) d
                     in case task_keys env v pd of
                          Inl e \<Rightarrow> (''error'', [d1, put_vm i (failed_vm e) d1])
                        | Inr ks \<Rightarrow>
                            (let d2 = put_vm i (with_keys pd ks) d1
                             in case first_exc [tk_clone env pid pd (fst ks),
                                    (case growth_of pd of None \<Rightarrow> None | Some g \<Rightarrow> tk_resize env pid g)] of
                                  Some e \<Rightarrow> (''error'', [d1, d2, put_vm i (failed_vm e) d2])
                                | None \<Rightarrow>
                                    (case assigned_address env pid pd of
                                       Inl e \<Rightarrow> (''error'', [d1, d2, put_vm i (\<lambda>x. failed_vm e (synced_disk env pid x)) d2])
                                     | Inr ip \<Rightarrow>
                                         (let st = (if pd_auto_start pd then ''running'' else ''stopped'')
                                          in (''success'', [d1, d2, put_vm i (\<lambda>x. with_address ip d2
                                               ((synced_disk env pid x)\<lparr>v_status := st\<rparr>)) d2]))))))))"

definition provision_vm_task :: "task_env \<Rightarrow> int \<Rightarrow> provision_data \<Rightarrow> db \<Rightarrow> string \<times> db" where
  "provision_vm_task env i pd d =
     (let (report, ds) = provision_commits env i pd d in (report, last (d # ds)))"

section \<open>Lemmas\<close>

lemma store_vm_ok:
  assumes "store_vm env cu req ct rq n nic d = (Inr v, d')"
  shows "v = provisioned_vm env cu ct rq (seqs d TVms)" "vms d' = vms d @ [v]" "networks d' = networks d"
    "tenants d' = tenants d" "queue d' = queue d @ [ProvisionVm (v_id v) (provision_data_of env rq nic (n_gateway_ip n))]"
    "\<forall>w \<in> set (vms d). v_name w \<noteq> pq_name rq"
  using assms by (auto simp: store_vm_def Let_def next_id_def split: if_splits option.splits)

lemma provision_ok:
  assumes "provision_vm env cu req ct rq d = (Inr v, d')"
  obtains n nic where "resolve_network ct (pq_network_id rq) d = Inr n"
    "attach_vm_to_network n d = Inr nic"
    "(if pq_ip_mode rq = ''static'' \<and> truthy (pq_ip_address rq) then static_ip_error env (the (pq_ip_address rq)) n else None) = None"
    "check_vm_quota (t_id ct) (pq_cpu rq) (pq_ram rq) (requested_gb rq) d = Inr ()"
    "store_vm env cu req ct rq n nic d = (Inr v, d')"
  using assms unfolding provision_vm_def
  by (auto split: option.splits if_splits sum.splits)

lemma usage_frame:
  "vms d' = vms e \<Longrightarrow> networks d' = networks e \<Longrightarrow> get_current_usage tid d' = get_current_usage tid e"
  by (simp add: get_current_usage_def tenant_vms_def)

lemma provisioned_usage:
  assumes "provision_vm env cu req ct rq d = (Inr v, d')"
  shows "get_current_usage (t_id ct) d' = with_vm (pq_cpu rq) (pq_ram rq) (stored_gb env rq) (get_current_usage (t_id ct) d)"
  using assms
proof (rule provision_ok)
  fix n nic assume s: "store_vm env cu req ct rq n nic d = (Inr v, d')"
  note v = store_vm_ok [OF s]
  have "get_current_usage (t_id ct) d' = get_current_usage (t_id ct) (d\<lparr>vms := vms d @ [v]\<rparr>)"
    by (rule usage_frame) (simp_all add: v(2,3))
  moreover have "v_tenant_id v = t_id ct" "v_disk_size_mb v = stored_gb env rq * 1024" "v_cpu v = pq_cpu rq" "v_ram v = pq_ram rq"
    by (simp_all add: v(1) provisioned_vm_def)
  ultimately show ?thesis using usage_added_vm [of v "t_id ct" "stored_gb env rq" d] by simp
qed

lemma sum_upd_row:
  assumes "distinct_keys key rows" "r \<in> set rows" "P r" "P (f r)"
  shows "sum_by g (filter P (upd_rows key (key r) f rows)) = sum_by g (filter P rows) - g r + g (f r)"
  using assms(1,2)
proof (induction rows)
  case (Cons x rows)
  show ?case
  proof (cases "x = r")
    case True
    with Cons.prems have "upd_rows key (key r) f rows = rows" by (intro upd_rows_absent) simp
    with True assms(3,4) show ?thesis by simp
  next
    case False
    with Cons show ?thesis by force
  qed
qed simp

lemma put_vm_usage:
  assumes "distinct_keys v_id (vms d)" "v \<in> set (vms d)" "v_id v = i" "v_tenant_id v = tid" "v_tenant_id (f v) = tid"
  shows "us_cpu_cores (get_current_usage tid (put_vm i f d)) = us_cpu_cores (get_current_usage tid d) - v_cpu v + v_cpu (f v)"
    "us_disk_mb (get_current_usage tid (put_vm i f d)) =
      us_disk_mb (get_current_usage tid d) - v_disk_size_mb v + v_disk_size_mb (f v)"
  using assms(3-5) sum_upd_row [OF assms(1,2), of "\<lambda>v. v_tenant_id v = tid" f]
  by (auto simp: get_current_usage_def tenant_vms_def Let_def)

text \<open>What the task does to its machine, as far as the quota counts it: at most the disk size changes.\<close>

definition sized_like :: "task_env \<Rightarrow> (vm \<Rightarrow> vm) \<Rightarrow> bool" where
  "sized_like env f \<longleftrightarrow> (\<forall>x. v_id (f x) = v_id x \<and> v_tenant_id (f x) = v_tenant_id x \<and> v_cpu (f x) = v_cpu x \<and> v_ram (f x) = v_ram x \<and>
     (v_disk_size_mb (f x) = v_disk_size_mb x \<or>
      (\<exists>pid ds p. tk_disks env pid = Inr ds \<and> primary_disk ds = Some p \<and> v_disk_size_mb (f x) = snd p)))"

lemma synced_disk_sized: "sized_like env (synced_disk env pid)"
  by (auto simp: sized_like_def synced_disk_def split: sum.split option.split)

lemma sized_like_then:
  assumes "sized_like env f"
    and "\<And>x. v_id (g x) = v_id x" "\<And>x. v_tenant_id (g x) = v_tenant_id x" "\<And>x. v_cpu (g x) = v_cpu x" "\<And>x. v_ram (g x) = v_ram x"
      "\<And>x. v_disk_size_mb (g x) = v_disk_size_mb x"
  shows "sized_like env (\<lambda>x. g (f x))"
  using assms by (simp add: sized_like_def)

lemma sized_like_before:
  assumes "sized_like env f"
    and "\<And>x. v_id (g x) = v_id x" "\<And>x. v_tenant_id (g x) = v_tenant_id x" "\<And>x. v_cpu (g x) = v_cpu x" "\<And>x. v_ram (g x) = v_ram x"
      "\<And>x. v_disk_size_mb (g x) = v_disk_size_mb x"
  shows "sized_like env (\<lambda>x. f (g x))"
  unfolding sized_like_def
proof
  fix x
  show "v_id (f (g x)) = v_id x \<and> v_tenant_id (f (g x)) = v_tenant_id x \<and> v_cpu (f (g x)) = v_cpu x \<and> v_ram (f (g x)) = v_ram x \<and>
     (v_disk_size_mb (f (g x)) = v_disk_size_mb x \<or>
      (\<exists>pid ds p. tk_disks env pid = Inr ds \<and> primary_disk ds = Some p \<and> v_disk_size_mb (f (g x)) = snd p))"
    using assms(1) [unfolded sized_like_def, rule_format, of "g x"] assms(2-6) [of x] by simp
qed

lemma put_vm_twice: "(\<And>x. v_id (f x) = v_id x) \<Longrightarrow> put_vm i g (put_vm i f d) = put_vm i (\<lambda>x. g (f x)) d"
  by (simp add: put_vm_def upd_rows_def)

lemma with_keys_sized [simp]:
  "v_id (with_keys pd ks x) = v_id x" "v_tenant_id (with_keys pd ks x) = v_tenant_id x" "v_cpu (with_keys pd ks x) = v_cpu x"
  "v_ram (with_keys pd ks x) = v_ram x" "v_disk_size_mb (with_keys pd ks x) = v_disk_size_mb x" "v_status (with_keys pd ks x) = v_status x"
  by (simp_all add: with_keys_def)

lemma failed_vm_sized [simp]:
  "v_id (failed_vm e x) = v_id x" "v_tenant_id (failed_vm e x) = v_tenant_id x" "v_cpu (failed_vm e x) = v_cpu x"
  "v_ram (failed_vm e x) = v_ram x" "v_disk_size_mb (failed_vm e x) = v_disk_size_mb x" "v_status (failed_vm e x) = ''error''"
  by (simp_all add: failed_vm_def)

lemma with_address_sized [simp]:
  "v_id (with_address ip d x) = v_id x" "v_tenant_id (with_address ip d x) = v_tenant_id x" "v_cpu (with_address ip d x) = v_cpu x"
  "v_ram (with_address ip d x) = v_ram x" "v_disk_size_mb (with_address ip d x) = v_disk_size_mb x" "v_status (with_address ip d x) = v_status x"
  by (simp_all add: with_address_def)

lemma synced_disk_id [simp]: "v_id (synced_disk env pid x) = v_id x"
  by (simp add: synced_disk_def split: sum.split option.split)

lemma provision_task_row:
  assumes "find_vm i d = Some v"
  obtains f where "snd (provision_vm_task env i pd d) = put_vm i f d" "sized_like env f"
proof -
  have plain: "sized_like env g"
    if "\<And>x. v_id (g x) = v_id x" "\<And>x. v_tenant_id (g x) = v_tenant_id x" "\<And>x. v_cpu (g x) = v_cpu x" "\<And>x. v_ram (g x) = v_ram x"
      "\<And>x. v_disk_size_mb (g x) = v_disk_size_mb x" for g
    using that by (simp add: sized_like_def)
  show ?thesis
  proof (cases "tk_hypervisor env")
    case (Some e)
    then show ?thesis using that [of "failed_vm e"] plain [of "failed_vm e"] assms
      by (simp add: provision_vm_task_def provision_commits_def)
  next
    case None
    note h = None
    show ?thesis
    proof (cases "allocate_proxmox_id (tk_nextid env) 3 0")
      case (Inl e)
      then show ?thesis using that [of "failed_vm e"] plain [of "failed_vm e"] assms h
        by (simp add: provision_vm_task_def provision_commits_def)
    next
      case (Inr pid)
      note p = Inr
      let ?p = "\<lambda>x. x\<lparr>v_proxmox_vm_id := Some pid\<rparr>"
      show ?thesis
      proof (cases "task_keys env v pd")
        case (Inl e)
        then show ?thesis using that [of "\<lambda>x. failed_vm e (?p x)"] plain [of "\<lambda>x. failed_vm e (?p x)"] assms h p
          by (simp add: provision_vm_task_def provision_commits_def put_vm_twice Let_def)
      next
        case (Inr ks)
        note k = Inr
        let ?x = "first_exc [tk_clone env pid pd (fst ks), (case growth_of pd of None \<Rightarrow> None | Some g \<Rightarrow> tk_resize env pid g)]"
        let ?k = "\<lambda>x. with_keys pd ks (?p x)"
        show ?thesis
        proof (cases ?x)
          case (Some e)
          then show ?thesis using that [of "\<lambda>x. failed_vm e (?k x)"] plain [of "\<lambda>x. failed_vm e (?k x)"] assms h p k
            by (simp add: provision_vm_task_def provision_commits_def put_vm_twice Let_def)
        next
          case None
          note c = None
          have s: "sized_like env (\<lambda>x. synced_disk env pid (?k x))"
            using synced_disk_sized by (rule sized_like_before) simp_all
          show ?thesis
          proof (cases "assigned_address env pid pd")
            case (Inl e)
            have "sized_like env (\<lambda>x. failed_vm e (synced_disk env pid (?k x)))" using s by (rule sized_like_then) simp_all
            then show ?thesis using that [of "\<lambda>x. failed_vm e (synced_disk env pid (?k x))"] assms h p k c Inl
              by (simp add: provision_vm_task_def provision_commits_def put_vm_twice Let_def)
          next
            case (Inr ip)
            let ?st = "if pd_auto_start pd then ''running'' else ''stopped''" and ?d2 = "put_vm i (with_keys pd ks) (put_vm i ?p d)"
            have "sized_like env (\<lambda>x. with_address ip ?d2 ((synced_disk env pid (?k x))\<lparr>v_status := ?st\<rparr>))"
              using sized_like_then [OF s, of "\<lambda>x. with_address ip ?d2 (x\<lparr>v_status := ?st\<rparr>)"] by simp
            then show ?thesis using that [of "\<lambda>x. with_address ip ?d2 ((synced_disk env pid (?k x))\<lparr>v_status := ?st\<rparr>)"] assms h p k c Inr
              by (simp add: provision_vm_task_def provision_commits_def put_vm_twice Let_def)
          qed
        qed
      qed
    qed
  qed
qed

section \<open>Provisioning and the quota\<close>

lemma task_usage:
  assumes "find_vm i d = Some v" "distinct_keys v_id (vms d)" "v_tenant_id v = tid"
  obtains s where "get_current_usage tid (snd (provision_vm_task env i pd d)) =
      (get_current_usage tid d)\<lparr>us_disk_mb := us_disk_mb (get_current_usage tid d) - v_disk_size_mb v + s,
         us_disk_gb10 := round_div (10 * (us_disk_mb (get_current_usage tid d) - v_disk_size_mb v + s)) 1024\<rparr>"
    "s = v_disk_size_mb v \<or> (\<exists>pid ds p. tk_disks env pid = Inr ds \<and> primary_disk ds = Some p \<and> s = snd p)"
proof -
  obtain f where f: "snd (provision_vm_task env i pd d) = put_vm i f d" "sized_like env f"
    using provision_task_row [OF assms(1)] by metis
  have fv: "v_tenant_id (f v) = tid" "v_cpu (f v) = v_cpu v" "v_ram (f v) = v_ram v" using f(2) assms(3) by (simp_all add: sized_like_def)
  have v: "v \<in> set (vms d)" "v_id v = i" using find_vm_Some [OF assms(1)] by auto
  have sums: "sum_by g (filter (\<lambda>v. v_tenant_id v = tid) (vms (put_vm i f d))) =
      sum_by g (filter (\<lambda>v. v_tenant_id v = tid) (vms d)) - g v + g (f v)" for g
    using sum_upd_row [OF assms(2) v(1), of "\<lambda>v. v_tenant_id v = tid" f g] fv(1) assms(3) v(2) by simp
  have len: "length (filter (\<lambda>v. v_tenant_id v = tid) (upd_rows v_id i f vs)) = length (filter (\<lambda>v. v_tenant_id v = tid) vs)" for vs
    using f(2) by (induction vs) (simp_all add: upd_rows_def sized_like_def)
  have "get_current_usage tid (put_vm i f d) =
      (get_current_usage tid d)\<lparr>us_disk_mb := us_disk_mb (get_current_usage tid d) - v_disk_size_mb v + v_disk_size_mb (f v),
         us_disk_gb10 := round_div (10 * (us_disk_mb (get_current_usage tid d) - v_disk_size_mb v + v_disk_size_mb (f v))) 1024\<rparr>"
    unfolding get_current_usage_def tenant_vms_def Let_def sums using len [of "vms d"] fv(2,3) by simp
  then show ?thesis using that [of "v_disk_size_mb (f v)"] f unfolding sized_like_def by metis
qed

lemma provision_row:
  assumes "provision_vm env cu req ct rq d = (Inr v, d')"
  shows "vms d' = vms d @ [v]" "v_id v = seqs d TVms" "v_tenant_id v = t_id ct" "v_disk_size_mb v = stored_gb env rq * 1024"
proof -
  obtain n nic where st: "store_vm env cu req ct rq n nic d = (Inr v, d')" using assms by (rule provision_ok)
  show "vms d' = vms d @ [v]" by (rule store_vm_ok(2) [OF st])
  show "v_id v = seqs d TVms" "v_tenant_id v = t_id ct" "v_disk_size_mb v = stored_gb env rq * 1024"
    by (simp_all add: store_vm_ok(1) [OF st] provisioned_vm_def)
qed


text \<open>
  Otherwise the disk escapes the quota: when a machine with the size that just fits comes out at least one
  GB larger, which is what a template of that size does, the tenant is over its limit.
\<close>

lemma larger_template_escapes_quota:
  assumes "find_vm i d = Some v" "distinct_keys v_id (vms d)" "get_quota_settings (v_tenant_id v) d = Inr q"
    "q_max_disk_gb q = Some m" "us_disk_mb (get_current_usage (v_tenant_id v) d) = 1024 * m"
    "provision_vm_task env i pd d = (''success'', d')" "\<And>pid. tk_disks env pid = Inr [(''scsi0'', s)]" "v_disk_size_mb v + 1024 \<le> s"
  shows "\<not> within_vm_quota q (get_current_usage (v_tenant_id v) d')"
proof -
  let ?u = "get_current_usage (v_tenant_id v)"
  obtain f where f: "d' = put_vm i f d" "\<forall>x. v_tenant_id (f x) = v_tenant_id x" "v_disk_size_mb (f v) = s"
  proof -
    obtain pid ks ip where "d' = put_vm i (\<lambda>x. with_address ip (put_vm i (with_keys pd ks) (put_vm i (\<lambda>x. x\<lparr>v_proxmox_vm_id := Some pid\<rparr>) d))
        ((synced_disk env pid x)\<lparr>v_status := if pd_auto_start pd then ''running'' else ''stopped''\<rparr>))
      (put_vm i (with_keys pd ks) (put_vm i (\<lambda>x. x\<lparr>v_proxmox_vm_id := Some pid\<rparr>) d))"
      using assms(6) by (auto simp: provision_vm_task_def provision_commits_def Let_def split: option.splits sum.splits)
    then have "d' = put_vm i (\<lambda>x. with_address ip (put_vm i (with_keys pd ks) (put_vm i (\<lambda>x. x\<lparr>v_proxmox_vm_id := Some pid\<rparr>) d))
        ((synced_disk env pid (with_keys pd ks (x\<lparr>v_proxmox_vm_id := Some pid\<rparr>)))\<lparr>v_status := if pd_auto_start pd then ''running'' else ''stopped''\<rparr>)) d"
      by (simp add: put_vm_twice)
    then show ?thesis by (rule that) (simp_all add: synced_disk_def assms(7) primary_disk_def)
  qed
  have v: "v \<in> set (vms d)" "v_id v = i" using find_vm_Some [OF assms(1)] by auto
  have "us_disk_mb (?u d') = 1024 * m - v_disk_size_mb v + s"
    using put_vm_usage(2) [OF assms(2) v, of "v_tenant_id v" f] f assms(5) by simp
  then have "10 * (m + 1) \<le> us_disk_gb10 (?u d')"
  proof -
    have "round_div (1024 * (10 * (m + 1))) 1024 = 10 * (m + 1)" by (rule round_div_mult) simp
    moreover have "1024 * (10 * (m + 1)) \<le> 10 * (1024 * m - v_disk_size_mb v + s)" using assms(8) by simp
    ultimately have "10 * (m + 1) \<le> round_div (10 * (1024 * m - v_disk_size_mb v + s)) 1024"
      using round_div_mono [of 1024 "1024 * (10 * (m + 1))" "10 * (1024 * m - v_disk_size_mb v + s)"] by linarith
    moreover have "us_disk_gb10 (?u d') = round_div (10 * us_disk_mb (?u d')) 1024" by (simp add: get_current_usage_def Let_def)
    ultimately show ?thesis using \<open>us_disk_mb (?u d') = 1024 * m - v_disk_size_mb v + s\<close> by simp
  qed
  then show ?thesis using assms(4) by (simp add: within_vm_quota_def over_def)
qed

text \<open>
  Without a disk size the quota check counts no disk at all, but the machine is stored with the
  template's: a tenant that has used up its disk quota goes beyond it.
\<close>
theorem unsized_provision_exceeds_quota:
  assumes "provision_vm env cu req ct rq d = (Inr v, d')" "pq_disk_size_gb rq = None"
    "us_disk_gb10 (get_current_usage (t_id ct) d) = 10 * m" "0 < template_disk_size env (pq_template_id rq)"
  shows "10 * m < us_disk_gb10 (get_current_usage (t_id ct) d')"
  using provisioned_usage [OF assms(1)] assms(2-4) by (simp add: with_vm_def stored_gb_def truthy_id_def)

section \<open>Addresses\<close>

text \<open>
  C33: a static address that is accepted lies in the chosen network, which is an active network of the
  tenant, and is neither its gateway nor its first or last address.
\<close>
theorem static_address_fits:
  assumes "provision_vm env cu req ct rq d = (Inr v, d')" "pq_ip_mode rq = ''static''" "pq_ip_address rq = Some ip" "ip \<noteq> []"
  shows "\<exists>n \<in> set (networks d). \<exists>a w. n_tenant_id n = t_id ct \<and> n_status n = ''active'' \<and>
    parse_ipv4 ip = Some a \<and> parse_network (n_cidr n) = Some w \<and> in_network a w \<and> show_ipv4 a \<noteq> n_gateway_ip n \<and>
    a \<noteq> net_base w \<and> a \<noteq> broadcast_address w \<and> v_ip_address v = Some ip"
  using assms(1)
proof (rule provision_ok)
  fix n nic
  assume n: "resolve_network ct (pq_network_id rq) d = Inr n" and s: "store_vm env cu req ct rq n nic d = (Inr v, d')"
    and e: "(if pq_ip_mode rq = ''static'' \<and> truthy (pq_ip_address rq) then static_ip_error env (the (pq_ip_address rq)) n else None) = None"
  have "n \<in> set (networks d)" "n_tenant_id n = t_id ct" "n_status n = ''active''"
    using n by (auto simp: resolve_network_def split: if_splits option.splits dest!: first_row_Some)
  moreover have "static_ip_error env ip n = None" using e assms(2-4) by (simp add: truthy_def)
  moreover have "v_ip_address v = Some ip" using store_vm_ok(1) [OF s] assms(2,3) by (simp add: provisioned_vm_def)
  ultimately show ?thesis
    by (auto simp: static_ip_error_def split: option.splits if_splits intro!: bexI [of _ n])
qed

section \<open>The task\<close>

lemma find_put_vm: "(\<And>x. v_id (f x) = v_id x) \<Longrightarrow> find_vm i (put_vm i f e) = map_option f (find_vm i e)"
  using first_row_upd_rows [of v_id f i i "vms e"] by (simp add: find_vm_def option.map_id0)

lemma other_rows: "(\<And>x. v_id (f x) = v_id x) \<Longrightarrow> filter (\<lambda>w. v_id w \<noteq> i) (upd_rows v_id i f xs) = filter (\<lambda>w. v_id w \<noteq> i) xs"
  by (induction xs) auto


section \<open>Witnesses\<close>

definition sized_quota :: quota where
  "sized_quota = no_quota\<lparr>q_max_disk_gb := Some 100\<rparr>"

definition pv_db :: db where
  "pv_db = vm_db\<lparr>
     tenants := [(new_tenant 1 ''One'' ''one'')\<lparr>t_pod_id := Some 1, 
       t_settings := Some (CHR ''{'' # dquote_char # ''max_disk_gb'' @ dquote_char # '':100}'')\<rparr>],
     pods := [\<lparr>pod_id = 1, pod_name = ''pod-1'', pod_provider_type = ''proxmox'', pod_node_names = ''pve1'',
        pod_max_tenants = 100, pod_tenant_count = 1, pod_status = ''active''\<rparr>],
     networks := [\<lparr>n_id = 1, n_tenant_id = 1, n_pod_id = 1, n_ip_pool_id = None, n_cidr = ''172.16.5.0/24'',
        n_gateway_ip = ''172.16.5.1'', n_vlan_id = None, n_name = ''default'', n_is_default = True, n_status = ''active'',
        n_provider_ref = Some ''vmbr100'', n_opnsense_interface = None\<rparr>]\<rparr>"

definition pv_env :: provision_env where
  "pv_env = \<lparr>pv_rate_limit = None, pv_provider = (\<lambda>_. None), pv_templates = Inr [(9000, 8)], pv_lock = Inr True,
     pv_other_ip = (\<lambda>_. ''Invalid IP address''), pv_send = None\<rparr>"

definition vm_wish :: "string option \<Rightarrow> int option \<Rightarrow> vm_request" where
  "vm_wish ip g = \<lparr>pq_name = ''app-1'', pq_template_id = 9000, pq_cpu = 2, pq_ram = 2048, pq_username = ''ubuntu'',
     pq_ip_mode = (if ip = None then ''dhcp'' else ''static''), pq_ip_address = ip, pq_ssh_public_key = None,
     pq_auto_start = True, pq_description = None, pq_network_id = None, pq_disk_size_gb = g, pq_skip_cloudinit = False\<rparr>"

definition pv_call :: "string option \<Rightarrow> int option \<Rightarrow> (vm, db) result" where
  "pv_call ip g = provision_vm pv_env vm_owner (plain_request [] 0) vm_tenant (vm_wish ip g) pv_db"

lemma provision_is_ok:
  assumes "resolve_network ct (pq_network_id rq) d = Inr n"
    "pv_rate_limit env = None \<and> has_permission cu (t_id ct) ''vm:create'' d \<and> truthy_id (t_pod_id ct)"
    "\<exists>p. first_row (\<lambda>p. pod_id p = n_pod_id n) (pods d) = Some p \<and> pv_provider env p = None"
    "attach_vm_to_network n d = Inr nic"
    "(if pq_ip_mode rq = ''static'' \<and> truthy (pq_ip_address rq) then static_ip_error env (the (pq_ip_address rq)) n else None) = None"
    "check_vm_quota (t_id ct) (pq_cpu rq) (pq_ram rq) (requested_gb rq) d = Inr ()"
    "pv_lock env = Inr True" "pv_send env = None" "\<forall>v \<in> set (vms d). v_name v \<noteq> pq_name rq"
  shows "\<exists>v d'. provision_vm env cu req ct rq d = (Inr v, d')"
proof -
  have "is_ok (store_vm env cu req ct rq n nic d)"
    using assms(8,9) by (auto simp: store_vm_def Let_def)
  then show ?thesis
    using assms(1-7) unfolding provision_vm_def by (auto simp: is_ok_conv)
qed

lemma pv_call_is_ok:
  assumes "static_ip_error pv_env (the ip) (hd (networks pv_db)) = None \<or> ip = None"
    "check_vm_quota 1 2 2048 (case g of None \<Rightarrow> 0 | Some g \<Rightarrow> g) pv_db = Inr ()"
  shows "\<exists>v d'. pv_call ip g = (Inr v, d')"
  unfolding pv_call_def
proof (rule provision_is_ok)
  show "resolve_network vm_tenant (pq_network_id (vm_wish ip g)) pv_db = Inr (hd (networks pv_db))"
    by (simp add: resolve_network_def truthy_id_def vm_wish_def pv_db_def vm_tenant_def new_tenant_def)
  have "has_permission vm_owner (t_id vm_tenant) ''vm:create'' pv_db" by code_simp
  then show "pv_rate_limit pv_env = None \<and> has_permission vm_owner (t_id vm_tenant) ''vm:create'' pv_db \<and> truthy_id (t_pod_id vm_tenant)"
    by (simp add: pv_env_def vm_tenant_def truthy_id_def)
  show "attach_vm_to_network (hd (networks pv_db)) pv_db = Inr (''virtio,bridge=vmbr100,firewall=0'')"
    by (simp add: attach_vm_to_network_def truthy_def pv_db_def)
qed (use assms in \<open>auto simp: pv_env_def pv_db_def vm_db_def demo_vm_def vm_wish_def requested_gb_def vm_tenant_def new_tenant_def truthy_def truthy_id_def\<close>)

definition tk_env :: task_env where
  "tk_env = \<lparr>tk_hypervisor = None, tk_nextid = (\<lambda>k. if k = 0 then Inl (OtherError ''busy'') else Inr 120),
     tk_keygen = (\<lambda>c. Inr (''pub'', ''priv'')), tk_encrypt = (\<lambda>s. Inr ''enc''), tk_clone = (\<lambda>_ _ _. None), tk_resize = (\<lambda>_ _. None),
     tk_disks = (\<lambda>_. Inr [(''scsi0'', 10240)]), tk_sleep = (\<lambda>_. None), tk_interfaces = (\<lambda>_ _. Inr [Some ''172.16.5.77''])\<rparr>"


text \<open>
  The same tenant is given 45 GB in all, 40 of them used: a request for 5 GB is accepted, and with the disk of
  10 GB that its template brings the tenant has 50.
\<close>

definition tight_db :: db where
  "tight_db = pv_db\<lparr>tenants := [(new_tenant 1 ''One'' ''one'')\<lparr>t_pod_id := Some 1,
     t_settings := Some (CHR ''{'' # dquote_char # ''max_disk_gb'' @ dquote_char # '':45}'')\<rparr>]\<rparr>"

lemma tk_env_commits:
  assumes "find_vm i d = Some v" "pd = provision_data_of pv_env rq nic gw"
  shows "\<exists>ds. provision_commits tk_env i pd d = (''success'', ds) \<and> length ds = 3"
proof -
  have "allocate_proxmox_id (tk_nextid tk_env) 3 0 = Inr 120" by code_simp
  moreover have "poll_address tk_env 120 6 0 ip = Inr (Some ''172.16.5.77'')" for ip
    by (simp add: eval_nat_numeral tk_env_def usable_ip_def truthy_def)
  then have "\<exists>ip. assigned_address tk_env 120 pd = Inr ip" by (simp add: assigned_address_def)
  moreover have "\<exists>ks. task_keys tk_env v pd = Inr ks" by (simp add: task_keys_def tk_env_def)
  moreover have "(case growth_of pd of None \<Rightarrow> None | Some g \<Rightarrow> tk_resize tk_env 120 g) = None" "tk_clone tk_env 120 pd k = None" for k
    by (simp_all add: tk_env_def split: option.split)
  moreover have "tk_hypervisor tk_env = None" by (simp add: tk_env_def)
  ultimately show ?thesis using assms(1) unfolding provision_commits_def
    by (auto simp: Let_def)
qed

lemma small_request_escapes_quota:
  "\<exists>v d' d''. provision_vm pv_env vm_owner (plain_request [] 0) vm_tenant (vm_wish None (Some 5)) tight_db = (Inr v, d') \<and>
     within_vm_quota (no_quota\<lparr>q_max_disk_gb := Some 45\<rparr>) (get_current_usage 1 d') \<and>
     provision_vm_task tk_env (v_id v) (provision_data_of pv_env (vm_wish None (Some 5)) '''' '''') d' = (''success'', d'') \<and>
     \<not> within_vm_quota (no_quota\<lparr>q_max_disk_gb := Some 45\<rparr>) (get_current_usage 1 d'')"
proof -
  let ?rq = "vm_wish None (Some 5)" and ?q = "no_quota\<lparr>q_max_disk_gb := Some 45\<rparr>"
  let ?pd = "provision_data_of pv_env ?rq '''' ''''"
  have tid: "t_id vm_tenant = 1" by (simp add: vm_tenant_def new_tenant_def)
  have "\<exists>v d'. provision_vm pv_env vm_owner (plain_request [] 0) vm_tenant ?rq tight_db = (Inr v, d')"
  proof (rule provision_is_ok)
    show "resolve_network vm_tenant (pq_network_id ?rq) tight_db = Inr (hd (networks pv_db))"
      by (simp add: resolve_network_def truthy_id_def vm_wish_def pv_db_def tight_db_def vm_tenant_def new_tenant_def)
    have "has_permission vm_owner (t_id vm_tenant) ''vm:create'' tight_db" by code_simp
    then show "pv_rate_limit pv_env = None \<and> has_permission vm_owner (t_id vm_tenant) ''vm:create'' tight_db \<and> truthy_id (t_pod_id vm_tenant)"
      by (simp add: pv_env_def vm_tenant_def truthy_id_def)
    show "attach_vm_to_network (hd (networks pv_db)) tight_db = Inr (''virtio,bridge=vmbr100,firewall=0'')"
      by (simp add: attach_vm_to_network_def truthy_def pv_db_def)
    show "check_vm_quota (t_id vm_tenant) (pq_cpu ?rq) (pq_ram ?rq) (requested_gb ?rq) tight_db = Inr ()" by code_simp
  qed (auto simp: tight_db_def pv_env_def pv_db_def vm_db_def demo_vm_def vm_wish_def)
  then obtain v d' where r: "provision_vm pv_env vm_owner (plain_request [] 0) vm_tenant ?rq tight_db = (Inr v, d')" by blast
  have gb: "stored_gb pv_env ?rq = 5" by (simp add: stored_gb_def vm_wish_def truthy_id_def)
  note row = provision_row [OF r, unfolded gb tid]
  have u: "us_disk_mb (get_current_usage 1 tight_db) = 1024 * 40" "us_disk_gb10 (get_current_usage 1 tight_db) = 400"
    by code_simp+
  have u': "us_disk_mb (get_current_usage 1 d') = 1024 * 45" "us_disk_gb10 (get_current_usage 1 d') = 450"
    using provisioned_usage [OF r] gb tid u by (simp_all add: with_vm_def)
  have wf: "distinct_keys v_id (vms tight_db)" "\<forall>w \<in> set (vms tight_db). v_id w < seqs tight_db TVms" by code_simp+
  have wf': "distinct_keys v_id (vms d')" using wf row(1,2) by (force simp: distinct_keys_append)
  have new: "find_vm (v_id v) d' = Some v"
    using wf(2) row(1,2) by (force simp: find_vm_def first_row_append first_row_None split: option.split dest: first_row_Some)
  have q: "get_quota_settings 1 d' = Inr ?q"
  proof -
    have "tenants d' = tenants tight_db" using r by (rule provision_ok) (rule store_vm_ok(4))
    moreover have "get_quota_settings 1 tight_db = Inr ?q" by code_simp
    ultimately show ?thesis by (simp add: get_quota_settings_def)
  qed
  obtain ds where "provision_commits tk_env (v_id v) ?pd d' = (''success'', ds)" using tk_env_commits [OF new refl] by blast
  then have t: "provision_vm_task tk_env (v_id v) ?pd d' = (''success'', last (d' # ds))" by (simp add: provision_vm_task_def)
  have "\<not> within_vm_quota ?q (get_current_usage (v_tenant_id v) (last (d' # ds)))"
    by (rule larger_template_escapes_quota [OF new wf' _ _ _ t, where m = 45 and s = 10240])
      (use row(3,4) q u' in \<open>simp_all add: tk_env_def\<close>)
  moreover have "within_vm_quota ?q (get_current_usage 1 d')" using u'(2) by (simp add: within_vm_quota_def no_quota_def over_def)
  ultimately show ?thesis using r t row(3) by auto
qed

lemma unsized_provision_exceeds_quota_witness:
  "\<exists>v d'. pv_call None None = (Inr v, d') \<and> 10 * 40 < us_disk_gb10 (get_current_usage 1 d')"
proof -
  have "check_vm_quota 1 2 2048 0 pv_db = Inr ()" by code_simp
  with pv_call_is_ok [of None None] obtain v d' where r: "pv_call None None = (Inr v, d')" by auto
  have u: "us_disk_gb10 (get_current_usage (t_id vm_tenant) pv_db) = 10 * 40" by code_simp
  have "0 < template_disk_size pv_env (pq_template_id (vm_wish None None))" by code_simp
  with unsized_provision_exceeds_quota [OF r [unfolded pv_call_def] _ u] r show ?thesis
    by (simp add: vm_wish_def vm_tenant_def new_tenant_def)
qed

lemma demo_address:
  "parse_ipv4 ''172.16.5.9'' = Some 2886731017" "parse_ipv4 ''172.16.5.1'' = Some 2886731009"
  "parse_network ''172.16.5.0/24'' = Some \<lparr>net_base = 2886731008, net_prefix = 24\<rparr>"
  by (simp_all add: parse_ipv4_def parse_network_def parse_octet_def block_size_def nat_of_digits_def digit_val_def is_digit_def)

lemma demo_address_free: "static_ip_error pv_env ''172.16.5.9'' (hd (networks pv_db)) = None"
proof -
  have "show_ipv4 2886731017 \<noteq> ''172.16.5.1''"
    using parse_show_ipv4 [of 2886731017] demo_address(2) by auto
  then show ?thesis
    by (simp add: static_ip_error_def pv_db_def demo_address in_network_def broadcast_address_def block_size_def)
qed

lemma static_address_fits_witness:
  "\<exists>v d'. pv_call (Some ''172.16.5.9'') None = (Inr v, d') \<and>
     (\<exists>a w. parse_ipv4 ''172.16.5.9'' = Some a \<and> parse_network ''172.16.5.0/24'' = Some w \<and> in_network a w)"
proof -
  have "check_vm_quota 1 2 2048 0 pv_db = Inr ()" by code_simp
  with demo_address_free pv_call_is_ok [of "Some ''172.16.5.9''" None]
  obtain v d' where r: "pv_call (Some ''172.16.5.9'') None = (Inr v, d')" by auto
  obtain n a w where "n \<in> set (networks pv_db)" "parse_ipv4 ''172.16.5.9'' = Some a" "parse_network (n_cidr n) = Some w" "in_network a w"
    using static_address_fits [OF r [unfolded pv_call_def], where ip = "''172.16.5.9''"] by (auto simp: vm_wish_def)
  moreover then have "n_cidr n = ''172.16.5.0/24''" by (simp add: pv_db_def)
  ultimately show ?thesis using r by auto
qed


end
