(* ===== verification/Vm_Resize.thy ===== *)
theory Vm_Resize
  imports Vm_Provision
begin

text \<open>
  Resizing machines: the resize and resource endpoints of \<open>app/api/vm.py\<close> and
  \<open>_parse_size_to_mib\<close> of \<open>app/providers/proxmox.py\<close>.

  These endpoints compare the machine's tenant with the user's own, not with the tenant of the
  request. The hypervisor is a \<open>resize_env\<close>; \<open>rz_recent\<close> is the newest row of \<open>vm_disk_resizes\<close> for
  the machine and disk in the last two minutes (previous and new size), a table no other code reads.
\<close>

section \<open>Sizes\<close>

definition parse_size_to_mib :: "string \<Rightarrow> int option" where
  "parse_size_to_mib sz =
     (let s = upper (strip sz)
      in if ends_with s ''M'' then py_int (butlast s)
         else if ends_with s ''G'' then map_option (\<lambda>n. n * 1024) (py_int (butlast s))
         else if ends_with s ''T'' then map_option (\<lambda>n. n * 1024 * 1024) (py_int (butlast s))
         else py_int s)"

section \<open>The hypervisor\<close>

record disk_info =
  di_id :: string
  di_size_mib :: int

record vm_resources =
  rs_cpu_cores :: int
  rs_memory_mb :: int
  rs_status :: string

record resize_env =
  rz_provider :: provider_env
  rz_lock :: "int \<Rightarrow> py_exc + string option"
  rz_disks :: "int \<Rightarrow> py_exc + disk_info list"
  rz_resize :: "int \<Rightarrow> string \<Rightarrow> string \<Rightarrow> py_exc option"
  rz_disks_after :: "int \<Rightarrow> py_exc + disk_info list"
  rz_disks_restarted :: "int \<Rightarrow> py_exc + disk_info list"
  rz_recent :: "(int \<times> int) option"
  rz_resources :: "int \<Rightarrow> py_exc + vm_resources"
  rz_update_cpu :: "int \<Rightarrow> int \<Rightarrow> py_exc option"
  rz_update_ram :: "int \<Rightarrow> int \<Rightarrow> py_exc option"

section \<open>Common checks\<close>

definition dont :: string where
  "dont = ''don'' @ [quote_char] @ ''t''"

definition own_tenant_vm :: "user \<Rightarrow> int \<Rightarrow> db \<Rightarrow> (vm \<Rightarrow> ('a, db) result) \<Rightarrow> ('a, db) result" where
  "own_tenant_vm cu i d k =
     (case find_vm i d of
        None \<Rightarrow> http 404 (''VM '' @ show_int i @ '' not found'') d
      | Some v \<Rightarrow> (if Some (v_tenant_id v) \<noteq> u_tenant_id cu then http 403 (''You '' @ dont @ '' have access to this VM'') d else k v))"

definition proxmox_id :: "int \<Rightarrow> vm \<Rightarrow> py_exc + int" where
  "proxmox_id i v =
     (if v_provider v = ''proxmox''
      then (case v_proxmox_vm_id v of
              None \<Rightarrow> Inl (HTTPException 400 (''VM '' @ show_int i @ '' has no Proxmox VM ID configured''))
            | Some p \<Rightarrow> Inr p)
      else Inr i)"

definition resize_audit :: "request \<Rightarrow> user \<Rightarrow> vm \<Rightarrow> string \<Rightarrow> string \<Rightarrow> audit_entry" where
  "resize_audit req cu v act new_value =
     with_request req (Some (v_tenant_id v))
       ((audit_event (audit_action act) ''vm'' cu)\<lparr>a_target_id := Some (v_id v), a_target_name := Some (v_name v),
          a_new_value := Some new_value\<rparr>)"

text \<open>\<open>try: restart_vm_logic ... except Exception\<close>: whether it worked, and the database after it.\<close>

definition try_restart :: "provider_env \<Rightarrow> bool \<Rightarrow> int \<Rightarrow> db \<Rightarrow> bool \<times> db" where
  "try_restart env wanted i d =
     (if \<not> wanted then (False, d)
      else case restart_vm_logic env i d of (Inl e, d') \<Rightarrow> (False, d') | (Inr _, d') \<Rightarrow> (True, d'))"

section \<open>Processors and memory\<close>

record resize_response =
  rr_resource_type :: string
  rr_previous_value :: int
  rr_new_value :: int
  rr_status :: string
  rr_restarted :: bool

definition resize_vm_cpu :: "resize_env \<Rightarrow> user \<Rightarrow> request \<Rightarrow> int \<Rightarrow> int \<Rightarrow> bool \<Rightarrow> db \<Rightarrow> (resize_response, db) result" where
  "resize_vm_cpu env cu req i cores restart d =
     (if cores < 1 \<or> 32 < cores then http 422 ''Unprocessable Entity'' d
      else own_tenant_vm cu i d (\<lambda>v.
        if \<not> has_permission cu (v_tenant_id v) ''vm:update'' d then http 403 (''You '' @ dont @ '' have permission to resize CPU'') d
        else case pe_hypervisor (rz_provider env) of Some e \<Rightarrow> raise e d
        | None \<Rightarrow>
            (if v_provider v \<noteq> ''proxmox'' then http 400 ''CPU resize only supported for Proxmox VMs'' d
             else case proxmox_id i v of Inl e \<Rightarrow> raise e d
             | Inr p \<Rightarrow>
                 (case rz_resources env p of Inl e \<Rightarrow> raise e d
                  | Inr cur \<Rightarrow>
                      (case rz_update_cpu env p cores of Some e \<Rightarrow> raise e d
                       | None \<Rightarrow>
                           (let d1 = log_audit_event (resize_audit req cu v ''VM_UPDATE'' (''cpu_cores='' @ show_int cores)) None
                                  (put_vm i (\<lambda>x. x\<lparr>v_cpu := cores\<rparr>) d);
                                (ok', d2) = try_restart (rz_provider env) restart i d1
                            in ok \<lparr>rr_resource_type = ''cpu'', rr_previous_value = rs_cpu_cores cur,
                                  rr_new_value = cores, rr_status = ''resized'', rr_restarted = ok'\<rparr> d2))))))"

definition resize_vm_ram :: "resize_env \<Rightarrow> user \<Rightarrow> request \<Rightarrow> int \<Rightarrow> int \<Rightarrow> bool \<Rightarrow> db \<Rightarrow> (resize_response, db) result" where
  "resize_vm_ram env cu req i mb restart d =
     (if mb < 512 \<or> 65536 < mb then http 422 ''Unprocessable Entity'' d
      else own_tenant_vm cu i d (\<lambda>v.
        if \<not> has_permission cu (v_tenant_id v) ''vm:update'' d then http 403 (''You '' @ dont @ '' have permission to resize RAM'') d
        else case pe_hypervisor (rz_provider env) of Some e \<Rightarrow> raise e d
        | None \<Rightarrow>
            (if v_provider v \<noteq> ''proxmox'' then http 400 ''RAM resize only supported for Proxmox VMs'' d
             else case proxmox_id i v of Inl e \<Rightarrow> raise e d
             | Inr p \<Rightarrow>
                 (case rz_resources env p of Inl e \<Rightarrow> raise e d
                  | Inr cur \<Rightarrow>
                      (case rz_update_ram env p mb of Some e \<Rightarrow> raise e d
                       | None \<Rightarrow>
                           (let d1 = log_audit_event (resize_audit req cu v ''VM_UPDATE'' (''memory_mb='' @ show_int mb)) None
                                  (put_vm i (\<lambda>x. x\<lparr>v_ram := mb\<rparr>) d);
                                (ok', d2) = try_restart (rz_provider env) restart i d1
                            in ok \<lparr>rr_resource_type = ''memory'', rr_previous_value = rs_memory_mb cur,
                                  rr_new_value = mb, rr_status = ''resized'', rr_restarted = ok'\<rparr> d2))))))"

section \<open>Disks\<close>

record disk_response =
  dr_disk_id :: string
  dr_previous_size_mib :: int
  dr_new_size_mib :: int
  dr_status :: string
  dr_restarted :: bool

definition disk_named :: "string \<Rightarrow> disk_info list \<Rightarrow> disk_info option" where
  "disk_named nm ds = first_row (\<lambda>x. di_id x = nm) ds"

text \<open>The size the hypervisor reports, if it reports one that is not 0.\<close>

definition reported :: "string \<Rightarrow> disk_info list \<Rightarrow> int option" where
  "reported nm ds =
     (case disk_named nm ds of None \<Rightarrow> None | Some x \<Rightarrow> (if di_size_mib x \<noteq> 0 then Some (di_size_mib x) else None))"

text \<open>After the restart the size is read again; a failure anywhere is only logged.\<close>

definition after_restart :: "resize_env \<Rightarrow> bool \<Rightarrow> int \<Rightarrow> int \<Rightarrow> string \<Rightarrow> int \<Rightarrow> db \<Rightarrow> bool \<times> int \<times> db" where
  "after_restart env wanted i p disk sz d =
     (let (ok', d1) = try_restart (rz_provider env) wanted i d
      in if \<not> ok' then (False, sz, d1)
         else case rz_disks_restarted env p of
           Inl e \<Rightarrow> (True, sz, d1)
         | Inr ds \<Rightarrow>
             (case reported disk ds of None \<Rightarrow> (True, sz, d1)
              | Some s \<Rightarrow> (True, s, put_vm i (\<lambda>x. x\<lparr>v_disk_size_mb := s\<rparr>) d1)))"

definition resize_disk_now ::
  "resize_env \<Rightarrow> user \<Rightarrow> request \<Rightarrow> int \<Rightarrow> vm \<Rightarrow> int \<Rightarrow> string \<Rightarrow> string \<Rightarrow> int \<Rightarrow> int \<Rightarrow> bool \<Rightarrow> db \<Rightarrow>
    (disk_response, db) result" where
  "resize_disk_now env cu req i v p disk sz mib before restart d =
     (case rz_resize env p disk sz of Some e \<Rightarrow> raise e d
      | None \<Rightarrow>
          (case rz_disks_after env p of Inl e \<Rightarrow> raise e d
           | Inr ds \<Rightarrow>
               (let after = (case reported disk ds of Some s \<Rightarrow> s | None \<Rightarrow> before + mib);
                    mb = (\<lambda>n. ''disk='' @ disk @ '',size='' @ show_int n @ ''M'');
                    d1 = log_audit_event ((resize_audit req cu v ''VM_DISK_RESIZE'' (mb after))
                      \<lparr>a_old_value := Some (mb before), a_details := Some (''Resized disk '' @ disk @ '' by '' @ sz)\<rparr>) None
                      (put_vm i (\<lambda>x. x\<lparr>v_disk_size_mb := after\<rparr>) d);
                    (ok', final, d2) = after_restart env restart i p disk after d1
                in ok \<lparr>dr_disk_id = disk, dr_previous_size_mib = before, dr_new_size_mib = final,
                      dr_status = ''resized'', dr_restarted = ok'\<rparr> d2)))"

definition resize_vm_disk ::
  "resize_env \<Rightarrow> user \<Rightarrow> request \<Rightarrow> int \<Rightarrow> string \<Rightarrow> string \<Rightarrow> bool \<Rightarrow> db \<Rightarrow> (disk_response, db) result" where
  "resize_vm_disk env cu req i disk sz restart d =
     (if \<not> starts_with sz ''+'' then http 422 ''Unprocessable Entity'' d
      else own_tenant_vm cu i d (\<lambda>v.
        case pe_hypervisor (rz_provider env) of Some e \<Rightarrow> raise e d
        | None \<Rightarrow>
        (if \<not> has_permission cu (v_tenant_id v) ''vm:update'' d then http 403 (''You '' @ dont @ '' have permission to resize disk'') d
         else case proxmox_id i v of Inl e \<Rightarrow> raise e d
         | Inr p \<Rightarrow>
         (case rz_lock env p of Inl e \<Rightarrow> raise e d
          | Inr lk \<Rightarrow>
          (if truthy lk then http 423 (''VM is locked: '' @ the lk @ ''. Try again later.'') d
           else case rz_disks env p of Inl e \<Rightarrow> raise e d
           | Inr ds \<Rightarrow>
           (case disk_named disk ds of
              None \<Rightarrow> http 400 (''Disk '' @ disk @ '' not found on VM '' @ show_int i) d
            | Some info \<Rightarrow>
            (case parse_size_to_mib sz of
               None \<Rightarrow> raise (ValueError (''invalid literal for int() with base 10: '' @ repr_str sz)) d
             | Some mib \<Rightarrow>
             (if mib \<le> 0 then http 400 ''Size must be greater than 0'' d
              else case check_disk_resize_quota (v_tenant_id v) mib d of Inl e \<Rightarrow> raise e d
              | Inr _ \<Rightarrow>
              (case rz_recent env of
                 Some (before, after) \<Rightarrow>
                   (if after = before + mib
                    then ok \<lparr>dr_disk_id = disk, dr_previous_size_mib = before, dr_new_size_mib = after,
                             dr_status = ''already_resized'', dr_restarted = False\<rparr> d
                    else resize_disk_now env cu req i v p disk sz mib (di_size_mib info) restart d)
               | None \<Rightarrow> resize_disk_now env cu req i v p disk sz mib (di_size_mib info) restart d)))))))))"

section \<open>Reading\<close>

definition get_vm_resources :: "resize_env \<Rightarrow> user \<Rightarrow> int \<Rightarrow> db \<Rightarrow> (vm_resources, db) result" where
  "get_vm_resources env cu i d =
     own_tenant_vm cu i d (\<lambda>v.
       case pe_hypervisor (rz_provider env) of Some e \<Rightarrow> raise e d
       | None \<Rightarrow> (case proxmox_id i v of Inl e \<Rightarrow> raise e d
           | Inr p \<Rightarrow> (case rz_resources env p of Inl e \<Rightarrow> raise e d | Inr r \<Rightarrow> ok r d)))"

definition get_vm_disk_info :: "resize_env \<Rightarrow> user \<Rightarrow> int \<Rightarrow> db \<Rightarrow> (disk_info list, db) result" where
  "get_vm_disk_info env cu i d =
     own_tenant_vm cu i d (\<lambda>v.
       case pe_hypervisor (rz_provider env) of Some e \<Rightarrow> raise e d
       | None \<Rightarrow> (case proxmox_id i v of Inl e \<Rightarrow> raise e d
           | Inr p \<Rightarrow> (case rz_disks env p of Inl e \<Rightarrow> raise e d | Inr ds \<Rightarrow> ok ds d)))"

section \<open>Resizing and the quota\<close>

lemma restart_usage:
  assumes "try_restart env wanted i d = (b, d')"
  shows "map (\<lambda>v. (v_id v, v_tenant_id v, v_cpu v, v_ram v, v_disk_size_mb v)) (vms d') =
    map (\<lambda>v. (v_id v, v_tenant_id v, v_cpu v, v_ram v, v_disk_size_mb v)) (vms d)"
proof (cases "wanted \<and> is_ok (restart_vm_logic env i d)")
  case True
  then obtain x d1 where r: "restart_vm_logic env i d = (Inr x, d1)" by (auto simp: is_ok_conv)
  then have "d' = d1" using True assms by (simp add: try_restart_def)
  moreover from r obtain v where "d1 = put_vm i (\<lambda>x. x\<lparr>v_status := ''running''\<rparr>) d" by (rule restart_ok)
  ultimately show ?thesis by (simp add: map_upd_rows)
next
  case False
  have "atomic (restart_vm_logic env i d) d" by (rule vm_logic_atomic)
  then have "d' = d"
    using False assms by (cases "restart_vm_logic env i d")
      (auto simp: try_restart_def atomic_def is_ok_def split: sum.splits if_splits)
  then show ?thesis by simp
qed

lemma restart_keeps_cpu:
  assumes "try_restart env wanted i d = (b, d')"
  shows "us_cpu_cores (get_current_usage tid d') = us_cpu_cores (get_current_usage tid d)"
proof -
  have key: "sum_by v_cpu (filter (\<lambda>v. v_tenant_id v = tid) vs) =
      sum_by (\<lambda>(i, t, c, r, m). c) (filter (\<lambda>(i, t, c, r, m). t = tid)
        (map (\<lambda>v. (v_id v, v_tenant_id v, v_cpu v, v_ram v, v_disk_size_mb v)) vs))" for vs
    by (induction vs) auto
  have "sum_by v_cpu (filter (\<lambda>v. v_tenant_id v = tid) (vms d')) =
      sum_by v_cpu (filter (\<lambda>v. v_tenant_id v = tid) (vms d))"
    unfolding key restart_usage [OF assms] ..
  then show ?thesis by (simp add: get_current_usage_def tenant_vms_def Let_def)
qed

lemma resize_cpu_ok:
  assumes "resize_vm_cpu env cu req i cores restart d = (Inr r, d')"
  obtains v d1 b where "find_vm i d = Some v" "d1 = put_vm i (\<lambda>x. x\<lparr>v_cpu := cores\<rparr>) d"
    "\<exists>e. try_restart (rz_provider env) restart i (log_audit_event e None d1) = (b, d')"
  using assms unfolding resize_vm_cpu_def own_tenant_vm_def
  by (auto simp: Let_def split: if_splits option.splits sum.splits prod.splits)

lemma audit_usage: "get_current_usage tid (log_audit_event e b d) = get_current_usage tid d"
  by (rule usage_frame) simp_all

text \<open>
  Resizing the processors of a machine does not look at the quota: when more cores than the tenant
  may have in all are asked for and the hypervisor grants them, the tenant is over its limit.
\<close>
theorem cpu_resize_exceeds_quota:
  assumes "resize_vm_cpu env cu req i cores restart d = (Inr r, d')" "find_vm i d = Some v"
    "get_quota_settings (v_tenant_id v) d = Inr q" "q_max_cpu_cores q = Some m" "m < cores"
    "distinct_keys v_id (vms d)" "\<forall>w \<in> set (vms d). 0 \<le> v_cpu w"
  shows "over (q_max_cpu_cores q) (us_cpu_cores (get_current_usage (v_tenant_id v) d'))"
  using assms(1)
proof (rule resize_cpu_ok)
  fix w d1 b
  assume w: "find_vm i d = Some w" and d1: "d1 = put_vm i (\<lambda>x. x\<lparr>v_cpu := cores\<rparr>) d"
    and e: "\<exists>e. try_restart (rz_provider env) restart i (log_audit_event e None d1) = (b, d')"
  have vv: "v \<in> set (vms d)" "v_id v = i" using find_vm_Some [OF assms(2)] by auto
  have "v_cpu v \<le> sum_by v_cpu (tenant_vms (v_tenant_id v) d)"
  proof -
    have "v_cpu u \<le> sum_by v_cpu (filter (\<lambda>x. v_tenant_id x = v_tenant_id u) vs)"
      if "u \<in> set vs" "\<forall>w \<in> set vs. 0 \<le> v_cpu w" for u vs
    proof -
      have "0 \<le> sum_by v_cpu (filter P vs')" if "\<forall>w \<in> set vs'. 0 \<le> v_cpu w" for P vs'
        using that by (induction vs') auto
      then show ?thesis using that by (induction vs) fastforce+
    qed
    then show ?thesis using vv(1) assms(7) by (simp add: tenant_vms_def)
  qed
  then have "cores \<le> us_cpu_cores (get_current_usage (v_tenant_id v) d1)"
    using put_vm_usage(1) [OF assms(6) vv, of "v_tenant_id v" "\<lambda>x. x\<lparr>v_cpu := cores\<rparr>"]
    by (simp add: d1 get_current_usage_def Let_def)
  moreover have "us_cpu_cores (get_current_usage (v_tenant_id v) d') = us_cpu_cores (get_current_usage (v_tenant_id v) d1)"
    using e restart_keeps_cpu audit_usage by metis
  ultimately show ?thesis using assms(4,5) by (simp add: over_def)
qed

lemma restart_keeps_disk:
  assumes "try_restart env wanted i d = (b, d')"
  shows "us_disk_mb (get_current_usage tid d') = us_disk_mb (get_current_usage tid d)"
proof -
  have key: "sum_by v_disk_size_mb (filter (\<lambda>v. v_tenant_id v = tid) vs) =
      sum_by (\<lambda>(i, t, c, r, m). m) (filter (\<lambda>(i, t, c, r, m). t = tid)
        (map (\<lambda>v. (v_id v, v_tenant_id v, v_cpu v, v_ram v, v_disk_size_mb v)) vs))" for vs
    by (induction vs) auto
  have "sum_by v_disk_size_mb (filter (\<lambda>v. v_tenant_id v = tid) (vms d')) =
      sum_by v_disk_size_mb (filter (\<lambda>v. v_tenant_id v = tid) (vms d))"
    unfolding key restart_usage [OF assms] ..
  then show ?thesis by (simp add: get_current_usage_def tenant_vms_def Let_def)
qed

text \<open>A machine whose size is one thing is given another, whatever else has happened to its row.\<close>

definition sized_row :: "int \<Rightarrow> int \<Rightarrow> int \<Rightarrow> db \<Rightarrow> bool" where
  "sized_row i tid n d \<longleftrightarrow> distinct_keys v_id (vms d) \<and> (\<exists>v \<in> set (vms d). v_id v = i \<and> v_tenant_id v = tid \<and> v_disk_size_mb v = n)"

lemma set_size:
  assumes "sized_row i tid n d"
  shows "us_disk_mb (get_current_usage tid (put_vm i (\<lambda>x. x\<lparr>v_disk_size_mb := m\<rparr>) d)) = us_disk_mb (get_current_usage tid d) - n + m"
    "sized_row i tid m (put_vm i (\<lambda>x. x\<lparr>v_disk_size_mb := m\<rparr>) d)"
proof -
  obtain v where v: "v \<in> set (vms d)" "v_id v = i" "v_tenant_id v = tid" "v_disk_size_mb v = n" and dk: "distinct_keys v_id (vms d)"
    using assms by (auto simp: sized_row_def)
  show "us_disk_mb (get_current_usage tid (put_vm i (\<lambda>x. x\<lparr>v_disk_size_mb := m\<rparr>) d)) = us_disk_mb (get_current_usage tid d) - n + m"
    using put_vm_usage(2) [OF dk v(1,2,3), of "\<lambda>x. x\<lparr>v_disk_size_mb := m\<rparr>"] v(3,4) by simp
  have "v\<lparr>v_disk_size_mb := m\<rparr> \<in> set (vms (put_vm i (\<lambda>x. x\<lparr>v_disk_size_mb := m\<rparr>) d))"
    using v(1,2) by (force simp: put_vm_def upd_rows_def)
  moreover have "distinct_keys v_id (vms (put_vm i (\<lambda>x. x\<lparr>v_disk_size_mb := m\<rparr>) d))"
    using dk by (simp add: put_vm_def distinct_keys_upd_rows)
  ultimately show "sized_row i tid m (put_vm i (\<lambda>x. x\<lparr>v_disk_size_mb := m\<rparr>) d)"
    unfolding sized_row_def using v(2,3) by (intro conjI bexI [of _ "v\<lparr>v_disk_size_mb := m\<rparr>"]) simp_all
qed

lemma sized_row_audit: "sized_row i tid n (log_audit_event e b d) = sized_row i tid n d"
  by (simp add: sized_row_def)

lemma sized_row_restart:
  assumes "try_restart env wanted i d = (b, d')"
  shows "sized_row j tid n d' = sized_row j tid n d"
proof -
  have key: "sized_row j tid n x \<longleftrightarrow> (let ts = map (\<lambda>v. (v_id v, v_tenant_id v, v_cpu v, v_ram v, v_disk_size_mb v)) (vms x)
      in distinct (map fst ts) \<and> (\<exists>c r. (j, tid, c, r, n) \<in> set ts))" for x
    by (auto simp: sized_row_def distinct_keys_def comp_def Let_def image_iff)
  show ?thesis unfolding key restart_usage [OF assms] ..
qed

lemma after_restart_usage:
  assumes "after_restart env wanted i p disk sz d = (b, final, d')" "sized_row i tid sz d"
  shows "us_disk_mb (get_current_usage tid d') = us_disk_mb (get_current_usage tid d) - sz + final"
proof -
  obtain c d1 where t: "try_restart (rz_provider env) wanted i d = (c, d1)" by (metis surj_pair)
  have u: "us_disk_mb (get_current_usage tid d1) = us_disk_mb (get_current_usage tid d)" by (rule restart_keeps_disk [OF t])
  have r: "sized_row i tid sz d1" using assms(2) sized_row_restart [OF t] by simp
  from assms(1) t have "d' = d1 \<and> final = sz \<or> d' = put_vm i (\<lambda>x. x\<lparr>v_disk_size_mb := final\<rparr>) d1"
    by (auto simp: after_restart_def split: if_splits sum.splits option.splits)
  then show ?thesis using set_size(1) [OF r, of final] u by auto
qed

lemma resize_usage:
  assumes "resize_vm_disk env cu req i disk amount restart d = (Inr r, d')" "dr_status r = ''resized''"
    "find_vm i d = Some v" "distinct_keys v_id (vms d)" "parse_size_to_mib amount = Some mib"
  shows "us_disk_mb (get_current_usage (v_tenant_id v) d') =
      us_disk_mb (get_current_usage (v_tenant_id v) d) - v_disk_size_mb v + dr_new_size_mib r"
proof -
  let ?u = "get_current_usage (v_tenant_id v)"
  have "\<exists>p before. resize_disk_now env cu req i v p disk amount mib before restart d = (Inr r, d')"
    using assms(1,2,3,5) unfolding resize_vm_disk_def own_tenant_vm_def
    by (auto split: if_splits option.splits sum.splits prod.splits)
  then obtain p e sz b where d': "after_restart env restart i p disk sz
      (log_audit_event e None (put_vm i (\<lambda>x. x\<lparr>v_disk_size_mb := sz\<rparr>) d)) = (b, dr_new_size_mib r, d')"
    by (auto simp: resize_disk_now_def Let_def split: option.splits sum.splits prod.splits)
  have row: "sized_row i (v_tenant_id v) (v_disk_size_mb v) d"
    using find_vm_Some [OF assms(3)] assms(4) by (auto simp: sized_row_def)
  have "us_disk_mb (?u d') = us_disk_mb (?u (put_vm i (\<lambda>x. x\<lparr>v_disk_size_mb := sz\<rparr>) d)) - sz + dr_new_size_mib r"
    using after_restart_usage [OF d', of "v_tenant_id v"] set_size(2) [OF row, of sz] by (simp add: sized_row_audit audit_usage)
  then show ?thesis using set_size(1) [OF row, of sz] by simp
qed


text \<open>
  When the disk resized is not the one whose size is stored, or the stored size is stale, the machine is
  counted with the size of that disk alone: a second disk larger than the first by more than the quota has
  left takes the tenant over it.
\<close>

lemma second_disk_escapes_quota:
  assumes "resize_vm_disk env cu req i disk amount restart d = (Inr r, d')" "dr_status r = ''resized''"
    "find_vm i d = Some v" "distinct_keys v_id (vms d)" "q_max_disk_gb q = Some m" "parse_size_to_mib amount = Some mib"
    "1024 * (m + 1) \<le> us_disk_mb (get_current_usage (v_tenant_id v) d) + (dr_new_size_mib r - v_disk_size_mb v)"
    "get_quota_settings (v_tenant_id v) d = Inr q"
  shows "over (map_option ((*) 10) (q_max_disk_gb q)) (us_disk_gb10 (get_current_usage (v_tenant_id v) d'))"
proof -
  let ?u = "get_current_usage (v_tenant_id v)"
  have "us_disk_mb (?u d') = us_disk_mb (?u d) - v_disk_size_mb v + dr_new_size_mib r"
    using resize_usage [OF assms(1-4,6)] .
  then have "1024 * (10 * (m + 1)) \<le> 10 * us_disk_mb (?u d')" using assms(7) by simp
  then have "round_div (1024 * (10 * (m + 1))) 1024 \<le> round_div (10 * us_disk_mb (?u d')) 1024" by (rule round_div_mono [rotated]) simp
  moreover have "round_div (1024 * (10 * (m + 1))) 1024 = 10 * (m + 1)" by (rule round_div_mult) simp
  moreover have "us_disk_gb10 (?u d') = round_div (10 * us_disk_mb (?u d')) 1024" by (simp add: get_current_usage_def Let_def)
  ultimately show ?thesis using assms(5) by (simp add: over_def)
qed

section \<open>Witnesses\<close>

definition rz_env :: resize_env where
  "rz_env = \<lparr>rz_provider = quiet_env, rz_lock = (\<lambda>_. Inr None), rz_disks = (\<lambda>_. Inr [\<lparr>di_id = ''scsi0'', di_size_mib = 20480\<rparr>]),
     rz_resize = (\<lambda>_ _ _. None), rz_disks_after = (\<lambda>_. Inr [\<lparr>di_id = ''scsi0'', di_size_mib = 21504\<rparr>]),
     rz_disks_restarted = (\<lambda>_. Inr []), rz_recent = None, rz_resources = (\<lambda>_. Inr \<lparr>rs_cpu_cores = 2, rs_memory_mb = 1024, rs_status = ''stopped''\<rparr>),
     rz_update_cpu = (\<lambda>_ _. None), rz_update_ram = (\<lambda>_ _. None)\<rparr>"

definition cores_db :: db where
  "cores_db = vm_db\<lparr>tenants := [(new_tenant 1 ''One'' ''one'')\<lparr>
     t_settings := Some (CHR ''{'' # dquote_char # ''max_cpu_cores'' @ dquote_char # '':4}'')\<rparr>]\<rparr>"

lemma owned_vm:
  "find_vm 1 d = Some (demo_vm 1 ''web'' ''error'' 1 6)" if "vms d = vms vm_db"
  using that by (simp add: find_vm_def vm_db_def demo_vm_def)

lemma cpu_resize_exceeds_quota_witness:
  "\<exists>r d'. resize_vm_cpu rz_env vm_owner (plain_request [] 0) 1 16 False cores_db = (Inr r, d') \<and>
     over (Some 4) (us_cpu_cores (get_current_usage 1 d'))"
proof -
  have v: "find_vm 1 cores_db = Some (demo_vm 1 ''web'' ''error'' 1 6)" by (rule owned_vm) (simp add: cores_db_def)
  have "has_permission vm_owner 1 ''vm:update'' cores_db" by code_simp
  then obtain r d' where r: "resize_vm_cpu rz_env vm_owner (plain_request [] 0) 1 16 False cores_db = (Inr r, d')"
    by (simp add: resize_vm_cpu_def own_tenant_vm_def v demo_vm_def vm_owner_def new_user_def rz_env_def quiet_env_def
        proxmox_id_def try_restart_def Let_def)
  have q: "get_quota_settings (v_tenant_id (demo_vm 1 ''web'' ''error'' 1 6)) cores_db = Inr (no_quota\<lparr>q_max_cpu_cores := Some 4\<rparr>)"
    by code_simp
  have wf: "distinct_keys v_id (vms cores_db)" "\<forall>w \<in> set (vms cores_db). 0 \<le> v_cpu w"
    using vm_db_wf(1) by (simp_all add: cores_db_def vm_db_def demo_vm_def)
  from cpu_resize_exceeds_quota [OF r v q _ _ wf, where m = 4] r show ?thesis
    by (simp add: demo_vm_def)
qed


end
