(* ===== verification/Console_Tokens.thy ===== *)
theory Console_Tokens
  imports Py_Strings
begin

text \<open>
  The in-memory stores of \<open>app/core/cache.py\<close>: \<open>ConsoleTokenStore\<close>, whose entries expire, and
  \<open>ActiveConsoleSessions\<close>. A Python dict is a map, a time is a number of seconds, and each method runs
  under the store's lock, so it is one step.

  The contract of an expiring store is the locale \<open>timed_store\<close>; the token store provides it.
\<close>

section \<open>Expiring stores\<close>

datatype ('k, 'v) store_op = Put 'k 'v | Look 'k | Pop 'k

fun store_step ::
  "('k \<Rightarrow> 'v \<Rightarrow> int \<Rightarrow> 's \<Rightarrow> 's) \<Rightarrow> ('k \<Rightarrow> int \<Rightarrow> 's \<Rightarrow> 'v option \<times> 's) \<Rightarrow> ('k \<Rightarrow> int \<Rightarrow> 's \<Rightarrow> 'v option \<times> 's) \<Rightarrow>
    ('k, 'v) store_op \<Rightarrow> int \<Rightarrow> 's \<Rightarrow> 'v option \<times> 's" where
  "store_step put look pop (Put k v) t s = (None, put k v t s)"
| "store_step put look pop (Look k) t s = look k t s"
| "store_step put look pop (Pop k) t s = pop k t s"

text \<open>The calls of a run, each with its time and what it returned.\<close>

fun store_trace ::
  "('k \<Rightarrow> 'v \<Rightarrow> int \<Rightarrow> 's \<Rightarrow> 's) \<Rightarrow> ('k \<Rightarrow> int \<Rightarrow> 's \<Rightarrow> 'v option \<times> 's) \<Rightarrow> ('k \<Rightarrow> int \<Rightarrow> 's \<Rightarrow> 'v option \<times> 's) \<Rightarrow>
    (int \<times> ('k, 'v) store_op) list \<Rightarrow> 's \<Rightarrow> (int \<times> ('k, 'v) store_op \<times> 'v option) list" where
  "store_trace put look pop [] s = []"
| "store_trace put look pop ((t, x) # ops) s =
     (t, x, fst (store_step put look pop x t s)) # store_trace put look pop ops (snd (store_step put look pop x t s))"

lemma trace_times: "map fst (store_trace put look pop ops s) = map fst ops"
  by (induction ops arbitrary: s) auto

text \<open>
  \<open>live s now k\<close> is the value a reader at time \<open>now\<close> finds under \<open>k\<close>; the laws say how each operation,
  at a time \<open>t\<close> not after \<open>now\<close>, changes it.
\<close>

locale timed_store =
  fixes put :: "'k \<Rightarrow> 'v \<Rightarrow> int \<Rightarrow> 's \<Rightarrow> 's"
    and look :: "'k \<Rightarrow> int \<Rightarrow> 's \<Rightarrow> 'v option \<times> 's"
    and pop :: "'k \<Rightarrow> int \<Rightarrow> 's \<Rightarrow> 'v option \<times> 's"
    and live :: "'s \<Rightarrow> int \<Rightarrow> 'k \<Rightarrow> 'v option"
    and lifetime :: int
  assumes live_put: "t \<le> now \<Longrightarrow> live (put k v t s) now = (live s now)(k := if now \<le> t + lifetime then Some v else None)"
    and look_value: "fst (look k t s) = live s t k"
    and look_live: "t \<le> now \<Longrightarrow> live (snd (look k t s)) now = live s now"
    and pop_value: "fst (pop k t s) = live s t k"
    and pop_live: "t \<le> now \<Longrightarrow> live (snd (pop k t s)) now = (live s now)(k := None)"
begin

text \<open>A value that is read was there from the start or has been put within the lifetime.\<close>

lemma step_value: "x = Pop k \<or> x = Look k \<Longrightarrow> fst (store_step put look pop x t s) = live s t k"
  using look_value [of k t s] pop_value [of k t s] by auto

lemma step_live:
  assumes "t \<le> now" "live (snd (store_step put look pop x t s)) now k = Some v"
  shows "live s now k = Some v \<or> (x = Put k v \<and> now \<le> t + lifetime)"
  using assms by (cases x) (auto simp: live_put look_live pop_live split: if_splits)

lemma origin:
  assumes "store_trace put look pop ops s = xs @ (t, x, Some v) # zs" "x = Pop k \<or> x = Look k" "sorted (map fst ops)"
  shows "live s t k = Some v \<or>
    (\<exists>t' r. (t', Put k v, r) \<in> set xs \<and> t' \<le> t \<and> t \<le> t' + lifetime)"
  using assms(1,3)
proof (induction xs arbitrary: s ops)
  case Nil
  then show ?case using step_value [OF assms(2)] by (cases ops) auto
next
  case (Cons b xs)
  obtain t1 y ops' where ops: "ops = (t1, y) # ops'"
    using Cons.prems(1) by (cases ops) auto
  let ?s = "snd (store_step put look pop y t1 s)"
  have rest: "store_trace put look pop ops' ?s = xs @ (t, x, Some v) # zs"
    and b: "b = (t1, y, fst (store_step put look pop y t1 s))"
    using Cons.prems(1) ops by auto
  have "map fst ops' = map fst xs @ t # map fst zs"
    using arg_cong [OF rest, of "map fst"] by (simp add: trace_times)
  then have le: "t1 \<le> t" using Cons.prems(2) ops by simp
  have "live ?s t k = Some v \<or> (\<exists>t' r. (t', Put k v, r) \<in> set xs \<and> t' \<le> t \<and> t \<le> t' + lifetime)"
    using Cons.IH [OF rest] Cons.prems(2) ops by simp
  with step_live [OF le, of y s k v] b le show ?case by auto
qed

text \<open>Two values taken under one key are two values that have been put.\<close>

lemma single_use:
  assumes "store_trace put look pop ops s = ws @ (t1, Pop k, r) # xs @ (t2, Pop k, Some v) # zs" "sorted (map fst ops)"
  shows "\<exists>t' r'. (t', Put k v, r') \<in> set xs \<and> t' \<le> t2 \<and> t2 \<le> t' + lifetime"
  using assms
proof (induction ws arbitrary: ops s)
  case Nil
  obtain ops' where ops: "ops = (t1, Pop k) # ops'"
    using Nil.prems(1) by (cases ops) auto
  have rest: "store_trace put look pop ops' (snd (pop k t1 s)) = xs @ (t2, Pop k, Some v) # zs"
    using Nil.prems(1) ops by auto
  have "map fst ops' = map fst xs @ t2 # map fst zs"
    using arg_cong [OF rest, of "map fst"] by (simp add: trace_times)
  then have "t1 \<le> t2" using Nil.prems(2) ops by simp
  then have "live (snd (pop k t1 s)) t2 k \<noteq> Some v" by (simp add: pop_live)
  then show ?case using origin [OF rest, of k] Nil.prems(2) ops by simp
next
  case (Cons w ws)
  then show ?case by (cases ops) auto
qed

end

section \<open>The token store\<close>

record 'a token_entry =
  te_data :: 'a
  te_expires_at :: int

type_synonym 'a token_map = "string \<rightharpoonup> 'a token_entry"

definition CONSOLE_TTL :: int where
  "CONSOLE_TTL = 30"

definition token_set :: "int \<Rightarrow> string \<Rightarrow> 'a \<Rightarrow> int \<Rightarrow> 'a token_map \<Rightarrow> 'a token_map" where
  "token_set ttl tok x now m = m(tok \<mapsto> \<lparr>te_data = x, te_expires_at = now + ttl\<rparr>)"

definition token_get :: "string \<Rightarrow> int \<Rightarrow> 'a token_map \<Rightarrow> 'a option \<times> 'a token_map" where
  "token_get tok now m =
     (case m tok of
        None \<Rightarrow> (None, m)
      | Some e \<Rightarrow> (if te_expires_at e < now then (None, m(tok := None)) else (Some (te_data e), m)))"

definition token_pop :: "string \<Rightarrow> int \<Rightarrow> 'a token_map \<Rightarrow> 'a option \<times> 'a token_map" where
  "token_pop tok now m =
     (case m tok of
        None \<Rightarrow> (None, m)
      | Some e \<Rightarrow> (if te_expires_at e < now then None else Some (te_data e), m(tok := None)))"

text \<open>What the store promises: the tokens that are valid at a time.\<close>

definition token_live :: "'a token_map \<Rightarrow> int \<Rightarrow> string \<Rightarrow> 'a option" where
  "token_live m now tok =
     (case m tok of None \<Rightarrow> None | Some e \<Rightarrow> (if te_expires_at e < now then None else Some (te_data e)))"

lemma token_live_laws:
  "t \<le> now \<Longrightarrow> token_live (token_set ttl tok x t m) now = (token_live m now)(tok := if now \<le> t + ttl then Some x else None)"
  "fst (token_get tok t m) = token_live m t tok"
  "t \<le> now \<Longrightarrow> token_live (snd (token_get tok t m)) now = token_live m now"
  "fst (token_pop tok t m) = token_live m t tok"
  "token_live (snd (token_pop tok t m)) now = (token_live m now)(tok := None)"
  by (auto simp: token_set_def token_get_def token_pop_def token_live_def split: option.split)

interpretation tokens: timed_store "token_set ttl" token_get token_pop token_live ttl
  by unfold_locales (simp_all add: token_live_laws)

text \<open>
  C15: the token store implements a map from tokens to values that loses each value when its time is over: for
  every later time, storing adds the value exactly until it expires, reading returns what is valid and
  changes nothing, taking returns what is valid and removes it.
\<close>
theorem token_store_refines:
  assumes "t \<le> now"
  shows "token_live (token_set ttl tok x t m) now =
      (token_live m now)(tok := if now \<le> t + ttl then Some x else None) \<and>
    fst (token_get tok t m) = token_live m t tok \<and> token_live (snd (token_get tok t m)) now = token_live m now \<and>
    fst (token_pop tok t m) = token_live m t tok \<and>
    token_live (snd (token_pop tok t m)) now = (token_live m now)(tok := None)"
  by (intro conjI tokens.live_put tokens.look_value tokens.look_live tokens.pop_value tokens.pop_live assms)

lemma token_store_refines_witness:
  "token_live (token_set 30 ''t'' (7 :: int) 100 Map.empty) 130 ''t'' = Some 7 \<and>
   token_live (token_set 30 ''t'' (7 :: int) 100 Map.empty) 131 ''t'' = None"
  using token_store_refines [of 100 130 30 "''t''" "7 :: int" Map.empty]
    token_store_refines [of 100 131 30 "''t''" "7 :: int" Map.empty] by simp

section \<open>Active sessions\<close>

record 'a session_entry =
  se_data :: 'a
  se_started_at :: int

type_synonym 'a session_map = "int \<rightharpoonup> 'a session_entry"

definition session_set :: "int \<Rightarrow> 'a \<Rightarrow> int \<Rightarrow> 'a session_map \<Rightarrow> 'a session_map" where
  "session_set i x now m = m(i \<mapsto> \<lparr>se_data = x, se_started_at = now\<rparr>)"

definition session_get :: "int \<Rightarrow> 'a session_map \<Rightarrow> 'a option" where
  "session_get i m = map_option se_data (m i)"

definition session_remove :: "int \<Rightarrow> 'a session_map \<Rightarrow> 'a option \<times> 'a session_map" where
  "session_remove i m = (session_get i m, m(i := None))"

definition session_get_all :: "'a session_map \<Rightarrow> int \<rightharpoonup> 'a" where
  "session_get_all m = (\<lambda>i. map_option se_data (m i))"

definition session_clear :: "'a session_map \<Rightarrow> 'a session_map" where
  "session_clear m = Map.empty"

lemma session_simps [simp]:
  "session_get i (session_set i x t m) = Some x" "i \<noteq> j \<Longrightarrow> session_get j (session_set i x t m) = session_get j m"
  "session_get i (snd (session_remove i m)) = None" "fst (session_remove i m) = session_get i m"
  by (simp_all add: session_set_def session_get_def session_remove_def)

text \<open>
  A token opens at most one console per grant: between two takings that both return a value, the value
  has been stored again, and less than its lifetime ago.
\<close>

theorem token_taken_once:
  assumes "store_trace (token_set ttl) token_get token_pop ops m = ws @ (t1, Pop tok, r) # xs @ (t2, Pop tok, Some x) # zs"
    "sorted (map fst ops)"
  shows "\<exists>t r. (t, Put tok x, r) \<in> set xs \<and> t \<le> t2 \<and> t2 \<le> t + ttl"
  using assms by (rule tokens.single_use)

end
