(* ===== verification/Console.thy ===== *)
theory Console
  imports Vm_Api Console_Tokens
begin

text \<open>
  Consoles of machines: \<open>get_console_access\<close>, \<open>disconnect_console\<close> and \<open>console_websocket\<close> of
  \<open>app/api/vm.py\<close>, and the console calls of \<open>app/providers/proxmox.py\<close>.

  The state is the database and the two stores of \<open>app/core/cache.py\<close>. A \<open>console_env\<close> says what the
  Proxmox API answers and which token \<open>secrets.token_urlsafe\<close> makes; the clock is the time of the
  request. The loops that copy bytes between the two sockets carry no state and are left out.
\<close>

section \<open>The provider\<close>

record proxy_response =
  px_port :: string
  px_ticket :: string
  px_upid :: "string option"

record vnc_info =
  vi_port :: string
  vi_host :: string
  vi_ticket :: string
  vi_upid :: string
  vi_node :: string
  vi_vmid :: int
  vi_console_type :: string
  vi_desktop_name :: "string option"

record console_env =
  ce_hypervisor :: "py_exc option"
  ce_host :: string
  ce_node :: string
  ce_vncproxy :: "int \<Rightarrow> py_exc + proxy_response"
  ce_serial :: "int \<Rightarrow> py_exc + proxy_response"
  ce_delete_task :: "string \<Rightarrow> string \<Rightarrow> py_exc option"
  ce_token :: string
  ce_connect :: "string \<Rightarrow> py_exc option"

definition get_vnc_proxy :: "console_env \<Rightarrow> int \<Rightarrow> py_exc + vnc_info" where
  "get_vnc_proxy env p =
     map_sum id (\<lambda>r. \<lparr>vi_port = px_port r, vi_host = ce_host env, vi_ticket = px_ticket r,
       vi_upid = (case px_upid r of None \<Rightarrow> '''' | Some u \<Rightarrow> u), vi_node = ce_node env, vi_vmid = p,
       vi_console_type = ''vnc'', vi_desktop_name = None\<rparr>) (ce_vncproxy env p)"

definition get_serial_console :: "console_env \<Rightarrow> int \<Rightarrow> py_exc + vnc_info" where
  "get_serial_console env p =
     map_sum id (\<lambda>r. \<lparr>vi_port = px_port r, vi_host = ce_host env, vi_ticket = px_ticket r,
       vi_upid = (case px_upid r of None \<Rightarrow> '''' | Some u \<Rightarrow> u), vi_node = ce_node env, vi_vmid = p,
       vi_console_type = ''serial'', vi_desktop_name = Some ''Serial Console''\<rparr>) (ce_serial env p)"

definition stop_console_session :: "console_env \<Rightarrow> string \<Rightarrow> string \<Rightarrow> bool" where
  "stop_console_session env node upid = (upid \<noteq> [] \<and> ce_delete_task env node upid = None)"

section \<open>State\<close>

record console_grant =
  cg_vm_id :: int
  cg_proxmox_vm_id :: int
  cg_user_id :: int
  cg_vnc_info :: vnc_info
  cg_console_type :: string

record console_session =
  cn_upid :: string
  cn_node :: string
  cn_proxmox_vm_id :: int
  cn_user_id :: int
  cn_console_type :: string

record console_state =
  cs_tokens :: "console_grant token_map"
  cs_sessions :: "console_session session_map"

definition console_init :: console_state where
  "console_init = \<lparr>cs_tokens = Map.empty, cs_sessions = Map.empty\<rparr>"

section \<open>Access\<close>

record console_reply =
  cr_websocket_url :: string
  cr_vm_id :: int
  cr_vnc_password :: string
  cr_console_type :: string
  cr_desktop_name :: string

definition may_console :: "user \<Rightarrow> tenant \<Rightarrow> vm \<Rightarrow> db \<Rightarrow> bool" where
  "may_console cu ct v d \<longleftrightarrow> has_permission cu (t_id ct) ''vm:console'' d \<or> v_owner_id v = u_id cu"

text \<open>\<open>except HTTPException: raise\<close>, \<open>except Exception as e\<close>: status 500.\<close>

definition console_failure :: "py_exc \<Rightarrow> py_exc" where
  "console_failure e =
     (case e of HTTPException c m \<Rightarrow> e | _ \<Rightarrow> HTTPException 500 (''Failed to get console access: '' @ exc_str e))"

definition open_console :: "console_env \<Rightarrow> int \<Rightarrow> py_exc + string \<times> vnc_info" where
  "open_console env p =
     (case get_serial_console env p of
        Inr i \<Rightarrow> Inr (''serial'', i)
      | Inl e \<Rightarrow>
          (case get_vnc_proxy env p of
             Inr i \<Rightarrow> Inr (''vnc'', i)
           | Inl e' \<Rightarrow> Inl (HTTPException 500 ''No console available for this VM'')))"

definition grant_console :: "console_env \<Rightarrow> user \<Rightarrow> int \<Rightarrow> int \<Rightarrow> vnc_info \<Rightarrow> int \<Rightarrow> console_state \<Rightarrow> console_state" where
  "grant_console env cu i p info now cs =
     \<lparr>cs_tokens = token_set CONSOLE_TTL (ce_token env)
        \<lparr>cg_vm_id = i, cg_proxmox_vm_id = p, cg_user_id = u_id cu, cg_vnc_info = info,
         cg_console_type = vi_console_type info\<rparr> now (cs_tokens cs),
      cs_sessions = session_set i
        \<lparr>cn_upid = vi_upid info, cn_node = vi_node info, cn_proxmox_vm_id = p, cn_user_id = u_id cu,
         cn_console_type = vi_console_type info\<rparr> now (cs_sessions cs)\<rparr>"

definition get_console_access ::
  "console_env \<Rightarrow> user \<Rightarrow> request \<Rightarrow> tenant \<Rightarrow> int \<Rightarrow> db \<times> console_state \<Rightarrow> (console_reply, db \<times> console_state) result" where
  "get_console_access env cu req ct i s =
     (let (d, cs) = s
      in if is_super_admin cu d \<and> \<not> truthy (header req ''X-Impersonate-Tenant-ID'')
           then http 403 ''Console access is not available for super admins'' s
         else case tenant_vm i ct d of
           None \<Rightarrow> http 404 ''VM not found'' s
         | Some v \<Rightarrow>
             (if v_status v \<noteq> ''running'' then http 400 ''VM must be running to access console'' s
              else if \<not> may_console cu ct v d
                then http 403 ''You do not have permission to access console for this VM'' s
              else case ce_hypervisor env of
                Some e \<Rightarrow> raise (console_failure e) s
              | None \<Rightarrow>
                  (let cs1 = cs\<lparr>cs_sessions := snd (session_remove i (cs_sessions cs))\<rparr>
                   in case v_proxmox_vm_id v of
                     None \<Rightarrow> http 400 (''VM has no Proxmox VM ID - provisioning may have failed or is incomplete. '' @
                       ''Please delete and re-provision the VM.'') (d, cs1)
                   | Some p \<Rightarrow>
                       (case open_console env p of
                          Inl e \<Rightarrow> raise e (d, cs1)
                        | Inr (kind, info) \<Rightarrow>
                            ok \<lparr>cr_websocket_url = ''/v1/vm/ws/console/'' @ ce_token env, cr_vm_id = i,
                                cr_vnc_password = vi_ticket info, cr_console_type = vi_console_type info,
                                cr_desktop_name = (case vi_desktop_name info of None \<Rightarrow> ''VNC Desktop'' | Some n \<Rightarrow> n)\<rparr>
                              (log_audit_event
                                 (with_request req (Some (t_id ct))
                                   ((audit_event ''vm_console_access'' ''vm'' cu)\<lparr>a_target_id := Some i,
                                      a_target_name := Some (v_name v),
                                      a_new_value := Some (''console_type='' @ kind @ '',vnc_proxy='' @ vi_console_type info)\<rparr>))
                                 None d,
                               grant_console env cu i p info (req_now req) cs1)))))"

section \<open>Disconnecting\<close>

definition disconnect_console ::
  "console_env \<Rightarrow> user \<Rightarrow> tenant \<Rightarrow> int \<Rightarrow> db \<times> console_state \<Rightarrow> (string, db \<times> console_state) result" where
  "disconnect_console env cu ct i s =
     (let (d, cs) = s
      in if is_super_admin cu d
           then raise (OtherError (''name '' @ [quote_char] @ ''request'' @ [quote_char] @ '' is not defined'')) s
         else case tenant_vm i ct d of
           None \<Rightarrow> http 404 ''VM not found'' s
         | Some v \<Rightarrow>
             (if \<not> may_console cu ct v d
                then http 403 ''You do not have permission to disconnect console for this VM'' s
              else
                (let (old, m) = session_remove i (cs_sessions cs);
                     s1 = (d, cs\<lparr>cs_sessions := m\<rparr>)
                 in case old of
                   None \<Rightarrow> ok ''no_active_session'' s1
                 | Some x \<Rightarrow>
                     (case ce_hypervisor env of
                        Some e \<Rightarrow> http 500 (''Failed to disconnect console: '' @ exc_str e) s1
                      | None \<Rightarrow>
                          (if cn_upid x \<noteq> [] \<and> cn_node x \<noteq> []
                           then (if stop_console_session env (cn_node x) (cn_upid x) then ok ''disconnected'' s1
                                 else ok ''disconnect_failed'' s1)
                           else ok ''no_session_info'' s1)))))"

section \<open>The WebSocket\<close>

datatype ws_outcome = Closed int string | Proxied string

text \<open>\<open>urllib.parse.quote(s, safe='')\<close>, on ASCII text.\<close>

definition quoted_char :: "char \<Rightarrow> string" where
  "quoted_char c =
     (if is_lower c \<or> is_upper c \<or> is_digit c \<or> c \<in> set ''_.-~'' then [c]
      else CHR ''%'' # [upper_char (hex_digit (of_char c div 16)), upper_char (hex_digit (of_char c mod 16))])"

definition console_url :: "console_grant \<Rightarrow> string" where
  "console_url g =
     (let i = cg_vnc_info g
      in ''wss://'' @ vi_host i @ '':8006/api2/json/nodes/'' @ vi_node i @ ''/qemu/'' @ show_int (cg_proxmox_vm_id g) @
         (if cg_console_type g = ''serial'' then ''/serialwebsocket'' else ''/vncwebsocket'') @
         ''?port='' @ vi_port i @ ''&vncticket='' @ concat (map quoted_char (vi_ticket i)))"

definition console_websocket :: "console_env \<Rightarrow> string \<Rightarrow> int \<Rightarrow> console_state \<Rightarrow> ws_outcome \<times> console_state" where
  "console_websocket env tok now cs =
     (let (g, m) = token_pop tok now (cs_tokens cs);
          cs1 = cs\<lparr>cs_tokens := m\<rparr>
      in case g of
        None \<Rightarrow> (Closed 4001 ''Invalid or expired token'', cs1)
      | Some g \<Rightarrow> (case ce_connect env (console_url g) of
            Some e \<Rightarrow> (Closed 1011 (exc_str e), cs1)
          | None \<Rightarrow> (Proxied (console_url g), cs1)))"

section \<open>Who opens a console\<close>

text \<open>
  A run of console calls, with any database at each call. The history records the granted tokens, with
  who asked for which machine when, and the tokens shown to the WebSocket.
\<close>

datatype console_event = Granted string int user tenant vm db | Shown string

inductive console_run :: "console_event list \<Rightarrow> console_state \<Rightarrow> bool" where
  start: "console_run [] console_init"
| granted: "console_run h cs \<Longrightarrow> get_console_access env cu req ct i (d, cs) = (Inr r, (d', cs')) \<Longrightarrow>
    tenant_vm i ct d = Some v \<Longrightarrow> console_run (Granted (ce_token env) (req_now req) cu ct v d # h) cs'"
| refused: "console_run h cs \<Longrightarrow> get_console_access env cu req ct i (d, cs) = (Inl e, (d', cs')) \<Longrightarrow> console_run h cs'"
| ended: "console_run h cs \<Longrightarrow> disconnect_console env cu ct i (d, cs) = (x, (d', cs')) \<Longrightarrow> console_run h cs'"
| shown: "console_run h cs \<Longrightarrow> console_websocket env tok now cs = (x, cs') \<Longrightarrow> console_run (Shown tok # h) cs'"

lemma access_ok:
  assumes "get_console_access env cu req ct i (d, cs) = (Inr r, (d', cs'))"
  obtains v p kind info where "tenant_vm i ct d = Some v" "v_status v = ''running''" "may_console cu ct v d"
    "v_proxmox_vm_id v = Some p" "open_console env p = Inr (kind, info)"
    "cs' = grant_console env cu i p info (req_now req) (cs\<lparr>cs_sessions := snd (session_remove i (cs_sessions cs))\<rparr>)"
    "vms d' = vms d"
  using assms by (auto simp: get_console_access_def Let_def split: if_splits option.splits sum.splits)

lemma access_refused_tokens:
  "get_console_access env cu req ct i (d, cs) = (Inl e, (d', cs')) \<Longrightarrow> cs_tokens cs' = cs_tokens cs"
  by (auto simp: get_console_access_def Let_def split: if_splits option.splits sum.splits)

lemma disconnect_tokens:
  "disconnect_console env cu ct i (d, cs) = (x, (d', cs')) \<Longrightarrow> cs_tokens cs' = cs_tokens cs \<and> d' = d"
  by (auto simp: disconnect_console_def Let_def ok_def raise_def http_def split: if_splits option.splits prod.splits)

lemma websocket_tokens:
  "console_websocket env tok now cs = (x, cs') \<Longrightarrow> cs_tokens cs' = (cs_tokens cs)(tok := None)"
  by (auto simp: console_websocket_def token_pop_def fun_upd_idem Let_def split: option.splits prod.splits)

text \<open>A stored token has been granted, and not shown since.\<close>

definition granted_in :: "console_event list \<Rightarrow> string \<Rightarrow> console_grant token_entry \<Rightarrow> bool" where
  "granted_in h tok e \<longleftrightarrow>
     (\<exists>new old t cu ct v d. h = new @ Granted tok t cu ct v d # old \<and> Shown tok \<notin> set new \<and>
        te_expires_at e = t + CONSOLE_TTL \<and> v_proxmox_vm_id v = Some (cg_proxmox_vm_id (te_data e)) \<and> cg_vm_id (te_data e) = v_id v \<and>
        v \<in> set (vms d) \<and> v_tenant_id v = t_id ct \<and> v_status v = ''running'' \<and> may_console cu ct v d)"

lemma granted_in_Cons: "granted_in h tok e \<Longrightarrow> x \<noteq> Shown tok \<Longrightarrow> granted_in (x # h) tok e"
proof -
  assume "granted_in h tok e" "x \<noteq> Shown tok"
  then obtain new old t cu ct v d where "h = new @ Granted tok t cu ct v d # old" "Shown tok \<notin> set new"
      "te_expires_at e = t + CONSOLE_TTL \<and> v_proxmox_vm_id v = Some (cg_proxmox_vm_id (te_data e)) \<and> cg_vm_id (te_data e) = v_id v \<and>
        v \<in> set (vms d) \<and> v_tenant_id v = t_id ct \<and> v_status v = ''running'' \<and> may_console cu ct v d"
    unfolding granted_in_def by blast
  then show ?thesis
    unfolding granted_in_def using \<open>x \<noteq> Shown tok\<close>
    by (intro exI [of _ "x # new"] exI [of _ old] exI [of _ t] exI [of _ cu] exI [of _ ct] exI [of _ v] exI [of _ d]) simp
qed

lemma tenant_vm_in: "tenant_vm i ct d = Some v \<Longrightarrow> v \<in> set (vms d) \<and> v_id v = i \<and> v_tenant_id v = t_id ct"
  by (auto simp: tenant_vm_def dest: first_row_Some)

lemma run_tokens: "console_run h cs \<Longrightarrow> cs_tokens cs tok = Some e \<Longrightarrow> granted_in h tok e"
proof (induction arbitrary: tok e rule: console_run.induct)
  case start
  then show ?case by (simp add: console_init_def)
next
  case (granted h cs env cu req ct i d r d' cs' v)
  show ?case
    using granted.hyps(2)
  proof (rule access_ok)
    fix w p kind info
    assume w: "tenant_vm i ct d = Some w" "v_status w = ''running''" "may_console cu ct w d" "v_proxmox_vm_id w = Some p"
      and cs': "cs' = grant_console env cu i p info (req_now req) (cs\<lparr>cs_sessions := snd (session_remove i (cs_sessions cs))\<rparr>)"
    show ?thesis
    proof (cases "tok = ce_token env")
      case True
      then have "granted_in ([] @ Granted tok (req_now req) cu ct w d # h) tok e"
        unfolding granted_in_def using w granted.prems tenant_vm_in [OF w(1)]
        by (intro exI [of _ "[]"] exI [of _ h] exI [of _ "req_now req"] exI [of _ cu] exI [of _ ct] exI [of _ w] exI [of _ d])
          (auto simp: cs' grant_console_def token_set_def)
      then show ?thesis using True w(1) granted.hyps(3) by simp
    next
      case False
      then have "cs_tokens cs tok = Some e"
        using granted.prems by (simp add: cs' grant_console_def token_set_def)
      then show ?thesis by (intro granted_in_Cons granted.IH) simp_all
    qed
  qed
next
  case refused
  then show ?case using access_refused_tokens by metis
next
  case ended
  then show ?case using disconnect_tokens by metis
next
  case (shown h cs env tok' now x cs')
  then have "tok \<noteq> tok' \<and> cs_tokens cs tok = Some e"
    using websocket_tokens [OF shown.hyps(2)] by (auto split: if_splits)
  then show ?case using shown.IH by (intro granted_in_Cons) auto
qed

text \<open>
  C4: a WebSocket is connected to a console only with a token that \<open>get_console_access\<close> has given out, at
  most 30 seconds before, to a user who was allowed to use that machine, which was running in their
  tenant, and that no WebSocket has shown since; and it is connected to that machine.
\<close>
theorem console_needs_fresh_grant:
  assumes "console_run h cs" "console_websocket env tok now cs = (Proxied url, cs')"
  shows "\<exists>new old t cu ct v d g. h = new @ Granted tok t cu ct v d # old \<and> Shown tok \<notin> set new \<and> now \<le> t + 30 \<and>
    v \<in> set (vms d) \<and> v_tenant_id v = t_id ct \<and> v_status v = ''running'' \<and>
    (has_permission cu (t_id ct) ''vm:console'' d \<or> v_owner_id v = u_id cu) \<and>
    url = console_url g \<and> v_proxmox_vm_id v = Some (cg_proxmox_vm_id g)"
proof -
  obtain e where e: "cs_tokens cs tok = Some e" "now \<le> te_expires_at e" "url = console_url (te_data e)"
    using assms(2) by (auto simp: console_websocket_def token_pop_def Let_def split: option.splits prod.splits if_splits)
  from run_tokens [OF assms(1) e(1)] obtain new old t cu ct v d where
    "h = new @ Granted tok t cu ct v d # old" "Shown tok \<notin> set new" "te_expires_at e = t + 30"
    "v_proxmox_vm_id v = Some (cg_proxmox_vm_id (te_data e))" "v \<in> set (vms d)" "v_tenant_id v = t_id ct"
    "v_status v = ''running''" "has_permission cu (t_id ct) ''vm:console'' d \<or> v_owner_id v = u_id cu"
    unfolding granted_in_def may_console_def CONSOLE_TTL_def by blast
  with e(2,3) show ?thesis by (metis (no_types))
qed

text \<open>Disconnecting a console, or stopping its machine, leaves the token that was given out valid.\<close>

theorem disconnect_keeps_token:
  assumes "disconnect_console env cu ct i (d, cs) = (r, (d', cs'))"
  shows "fst (console_websocket env' tok now cs') = fst (console_websocket env' tok now cs)"
  using disconnect_tokens [OF assms] by (simp add: console_websocket_def Let_def split: prod.split option.split)

section \<open>Witnesses\<close>

definition con_env :: console_env where
  "con_env = \<lparr>ce_hypervisor = None, ce_host = ''pve'', ce_node = ''pve1'', ce_vncproxy = (\<lambda>_. Inl (OtherError ''no'')),
     ce_serial = (\<lambda>_. Inr \<lparr>px_port = ''5900'', px_ticket = ''PVE:x'', px_upid = Some ''UPID''\<rparr>),
     ce_delete_task = (\<lambda>_ _. None), ce_token = ''tok'', ce_connect = (\<lambda>_. None)\<rparr>"

definition con_user :: user where
  "con_user = new_user 6 ''own'' ''own@x.io'' ''h'' None (Some 1)"

definition con_vm :: vm where
  "con_vm = \<lparr>v_id = 1, v_name = ''web'', v_description = None, v_provider = ''proxmox'', v_image = None, v_cpu = 2, v_ram = 1024,
      v_disk_size_mb = 20480, v_ip_address = None, v_status = ''running'', v_terraform_job_id = None, v_celery_task_id = None,
      v_proxmox_vm_id = Some 101, v_template_id = Some 9000, v_error = None, v_owner_id = 6,
      v_network_id = None, v_tenant_id = 1, v_ssh_user = ''ubuntu'', v_ssh_public_key = None, v_ssh_private_key_enc = None\<rparr>"

definition con_access :: "(console_reply, db \<times> console_state) result" where
  "con_access = get_console_access con_env con_user (plain_request [] 100) (new_tenant 1 ''One'' ''one'') 1
     (empty_db\<lparr>vms := [con_vm]\<rparr>, console_init)"

lemma con_access_ok:
  obtains r d cs where "con_access = (Inr r, (d, cs))"
    "\<exists>url cs'. console_websocket con_env ''tok'' 120 cs = (Proxied url, cs')"
proof -
  have "\<not> is_super_admin con_user (empty_db\<lparr>vms := [con_vm]\<rparr>)" by code_simp
  then have "\<exists>r d cs. con_access = (Inr r, (d, cs)) \<and>
      (\<exists>url cs'. console_websocket con_env ''tok'' 120 cs = (Proxied url, cs'))"
    by (simp add: con_access_def get_console_access_def tenant_vm_def con_vm_def new_tenant_def may_console_def con_user_def
        new_user_def con_env_def open_console_def get_serial_console_def grant_console_def console_websocket_def
        token_set_def token_pop_def CONSOLE_TTL_def plain_request_def ok_def)
  then show ?thesis using that by blast
qed

lemma console_needs_fresh_grant_witness:
  "\<exists>(t :: int) v (d :: db). 120 \<le> t + 30 \<and> v \<in> set (vms d) \<and> v_status v = ''running'' \<and> v_proxmox_vm_id v \<noteq> None"
proof (rule con_access_ok)
  fix r d cs
  assume a: "con_access = (Inr r, (d, cs))" "\<exists>url cs'. console_websocket con_env ''tok'' 120 cs = (Proxied url, cs')"
  have v: "tenant_vm 1 (new_tenant 1 ''One'' ''one'') (empty_db\<lparr>vms := [con_vm]\<rparr>) = Some con_vm"
    by (simp add: tenant_vm_def con_vm_def new_tenant_def)
  have run: "console_run [Granted ''tok'' 100 con_user (new_tenant 1 ''One'' ''one'') con_vm (empty_db\<lparr>vms := [con_vm]\<rparr>)] cs"
    using console_run.granted [OF console_run.start a(1) [unfolded con_access_def] v]
    by (simp add: con_env_def plain_request_def)
  obtain url cs' where "console_websocket con_env ''tok'' 120 cs = (Proxied url, cs')" using a(2) by blast
  from console_needs_fresh_grant [OF run this] obtain t :: int and v and d :: db and g :: console_grant where
    "120 \<le> t + 30" "v \<in> set (vms d)" "v_status v = ''running''" "v_proxmox_vm_id v = Some (cg_proxmox_vm_id g)"
    by blast
  then show ?thesis by (intro exI [of _ t] exI [of _ v] exI [of _ d]) simp
qed

end
