(* ===== verification/Seed_Pools.thy ===== *)
theory Seed_Pools
  imports Pods Ip_Address
begin

text \<open>
  The address pools: \<open>seed_default_pod\<close>, \<open>seed_global_ip_pool\<close> and \<open>seed_wireguard_pool\<close> of
  \<open>app/services/seed.py\<close>. \<open>ON CONFLICT DO NOTHING\<close> skips a row whose unique column is taken; the id
  sequence advances all the same. The theorems say which subnets the pools hold, that seeding again
  adds none, and that the two pools overlap.
\<close>

section \<open>Seeding\<close>

definition seed_default_pod :: "db \<Rightarrow> db" where
  "seed_default_pod d =
     (let d1 = bump_seq TPods d
      in if \<exists>p \<in> set (pods d). pod_name p = ''pod-1'' then d1
         else d1\<lparr>pods := pods d1 @ [\<lparr>pod_id = next_id TPods d, pod_name = ''pod-1'', pod_provider_type = ''proxmox'',
           pod_node_names = ''pve1'', pod_max_tenants = 100, pod_tenant_count = 0, pod_status = ''active''\<rparr>]\<rparr>)"

definition insert_ip_pool :: "string \<times> string \<times> string \<Rightarrow> db \<Rightarrow> db" where
  "insert_ip_pool r d =
     (let (cidr, gw, pool) = r;
          d1 = bump_seq TIpPool d
      in if \<exists>x \<in> set (ip_pool d). ipp_cidr x = cidr then d1
         else d1\<lparr>ip_pool := ip_pool d1 @ [\<lparr>ipp_id = next_id TIpPool d, ipp_cidr = cidr, ipp_gateway_ip = gw,
           ipp_pool = pool, ipp_status = ''free'', ipp_tenant_network_id = None, ipp_allocated_at = None\<rparr>]\<rparr>)"

definition dotted :: "nat \<Rightarrow> nat \<Rightarrow> nat \<Rightarrow> nat \<Rightarrow> string" where
  "dotted a b c d = show_nat a @ CHR ''.'' # show_nat b @ CHR ''.'' # show_nat c @ CHR ''.'' # show_nat d"

definition pool_seed :: "nat \<Rightarrow> nat \<Rightarrow> string \<Rightarrow> nat \<Rightarrow> string \<times> string \<times> string" where
  "pool_seed a b0 pool i =
     (dotted a (b0 + i div 256) (i mod 256) 0 @ ''/24'', dotted a (b0 + i div 256) (i mod 256) 1, pool)"

definition global_pool_rows :: "(string \<times> string \<times> string) list" where
  "global_pool_rows = map (pool_seed 172 16 ''safe'') [0..<4096] @ map (pool_seed 10 0 ''overflow'') [0..<65536]"

definition seed_global_ip_pool :: "db \<Rightarrow> db" where
  "seed_global_ip_pool d = fold insert_ip_pool global_pool_rows d"

definition insert_wg_pool :: "string \<times> string \<Rightarrow> db \<Rightarrow> db" where
  "insert_wg_pool r d =
     (let (cidr, gw) = r;
          d1 = bump_seq TWgPool d
      in if \<exists>x \<in> set (wg_pool d). wgp_cidr x = cidr then d1
         else d1\<lparr>wg_pool := wg_pool d1 @ [\<lparr>wgp_id = next_id TWgPool d, wgp_cidr = cidr, wgp_gateway_ip = gw,
           wgp_status = ''free'', wgp_tunnel_id = None, wgp_allocated_at = None\<rparr>]\<rparr>)"

definition wg_pool_rows :: "ipv4_net \<Rightarrow> (string \<times> string) list" where
  "wg_pool_rows w = map (\<lambda>s. (show_network s, show_ipv4 (net_base s + 1))) (subnets24 w)"

definition seed_wireguard_pool :: "string \<Rightarrow> db \<Rightarrow> (unit, db) result" where
  "seed_wireguard_pool cidr d =
     (case parse_network cidr of
        None \<Rightarrow> raise (ValueError (repr_str cidr @ '' does not appear to be an IPv4 or IPv6 network'')) d
      | Some w \<Rightarrow>
          (if 24 < net_prefix w then raise (ValueError ''new prefix must be longer'') d
           else ok () (fold insert_wg_pool (wg_pool_rows w) d)))"

section \<open>The subnets of the pools\<close>

definition cidrs :: "db \<Rightarrow> string set" where
  "cidrs d = set (map ipp_cidr (ip_pool d))"

definition wg_cidrs :: "db \<Rightarrow> string set" where
  "wg_cidrs d = set (map wgp_cidr (wg_pool d))"

lemma dotted_show:
  assumes "a < 256" "b < 256" "c < 256" "d < 256"
  shows "dotted a b c d = show_ipv4 (((a * 256 + b) * 256 + c) * 256 + d)"
proof -
  let ?n = "((a * 256 + b) * 256 + c) * 256 + d"
  have q: "?n div 65536 = ?n div 256 div 256" "?n div 16777216 = ?n div 256 div 256 div 256"
    by (simp_all flip: div_mult2_eq)
  have m: "(x * 256 + y) div 256 = x" "(x * 256 + y) mod 256 = y" if "y < 256" for x y :: nat
    using that by simp_all
  have "?n div 256 = (a * 256 + b) * 256 + c" "?n mod 256 = d" by (rule m [OF assms(4)])+
  moreover have "((a * 256 + b) * 256 + c) div 256 = a * 256 + b" "((a * 256 + b) * 256 + c) mod 256 = c"
    by (rule m [OF assms(3)])+
  moreover have "(a * 256 + b) div 256 = a" "(a * 256 + b) mod 256 = b" by (rule m [OF assms(2)])+
  ultimately have "octets ?n = [a, b, c, d]" using assms(1) unfolding octets_def q by simp
  then show ?thesis by (simp add: show_ipv4_def dotted_def)
qed

lemma pool_seed_cidr:
  assumes "a < 256" "b0 + i div 256 < 256"
  shows "fst (pool_seed a b0 p i) = show_network \<lparr>net_base = ((a * 256 + b0) * 256 + i) * 256, net_prefix = 24\<rparr>"
proof -
  have "((a * 256 + (b0 + i div 256)) * 256 + i mod 256) * 256 + 0 = ((a * 256 + b0) * 256 + i) * 256"
    by (simp add: algebra_simps)
  moreover have "show_nat 24 = ''24''" by code_simp
  ultimately show ?thesis
    using assms by (simp add: pool_seed_def dotted_show show_network_def) (simp add: algebra_simps)
qed

definition block24 :: "nat \<Rightarrow> string" where
  "block24 n = show_network \<lparr>net_base = n * 256, net_prefix = 24\<rparr>"

lemma block24_inject:
  assumes "m < 2 ^ 24" "n < 2 ^ 24" "block24 m = block24 n"
  shows "m = n"
proof -
  have wf: "net_wf \<lparr>net_base = k * 256, net_prefix = 24\<rparr>" if "k < 2 ^ 24" for k
  proof -
    have "k * 256 < 2 ^ 24 * 256" using that by (rule mult_less_mono1) simp
    then show ?thesis by (simp add: net_wf_def block_size_def)
  qed
  have p: "parse_network (block24 k) = Some \<lparr>net_base = k * 256, net_prefix = 24\<rparr>" if "k < 2 ^ 24" for k
    unfolding block24_def by (rule parse_show_network [OF wf [OF that]])
  have "Some \<lparr>net_base = m * 256, net_prefix = 24\<rparr> = Some \<lparr>net_base = n * 256, net_prefix = 24\<rparr>"
    unfolding p [OF assms(1), symmetric] p [OF assms(2), symmetric] assms(3) ..
  then show ?thesis by simp
qed

lemma pool_part_cidrs:
  assumes "a < 256" "b0 * 256 + k \<le> 65536"
  shows "map fst (map (pool_seed a b0 p) [0..<k]) = map block24 [(a * 256 + b0) * 256..<(a * 256 + b0) * 256 + k]"
proof -
  have "fst (pool_seed a b0 p i) = block24 ((a * 256 + b0) * 256 + i)" if "i < k" for i
    unfolding block24_def using assms that by (intro pool_seed_cidr) auto
  moreover have "[m..<m + k] = map (\<lambda>i. m + i) [0..<k]" for m by (induction k) simp_all
  ultimately show ?thesis by simp
qed

lemma global_pool_cidrs:
  "map fst global_pool_rows = map block24 ([11276288..<11276288 + 4096] @ [655360..<655360 + 65536])"
proof -
  have "map fst (map (pool_seed 172 16 ''safe'') [0..<4096]) = map block24 [(172 * 256 + 16) * 256..<(172 * 256 + 16) * 256 + 4096]"
    "map fst (map (pool_seed 10 0 ''overflow'') [0..<65536]) = map block24 [(10 * 256 + 0) * 256..<(10 * 256 + 0) * 256 + 65536]"
    by (rule pool_part_cidrs; simp)+
  moreover have "(172 * 256 + 16) * 256 = (11276288 :: nat)" "(10 * 256 + 0) * 256 = (655360 :: nat)" by simp_all
  ultimately show ?thesis by (simp only: global_pool_rows_def map_append)
qed

section \<open>What seeding stores\<close>

lemma insert_ip_pool_rows:
  "map ipp_cidr (ip_pool (insert_ip_pool r d)) = (if fst r \<in> cidrs d then map ipp_cidr (ip_pool d) else map ipp_cidr (ip_pool d) @ [fst r])"
  "fst r \<in> cidrs d \<Longrightarrow> ip_pool (insert_ip_pool r d) = ip_pool d"
  "\<forall>x \<in> set (ip_pool d). ipp_status x = ''free'' \<Longrightarrow> \<forall>x \<in> set (ip_pool (insert_ip_pool r d)). ipp_status x = ''free''"
  by (auto simp: insert_ip_pool_def cidrs_def Let_def split: prod.split)

lemma cidrs_insert: "cidrs (insert_ip_pool r d) = insert (fst r) (cidrs d)"
proof -
  have "cidrs (insert_ip_pool r d) = set (map ipp_cidr (ip_pool (insert_ip_pool r d)))" by (simp only: cidrs_def)
  then show ?thesis by (auto simp only: insert_ip_pool_rows(1) set_append cidrs_def split: if_splits) auto
qed

lemma fold_insert_cidrs:
  "distinct (map fst rs) \<Longrightarrow> set (map fst rs) \<inter> cidrs d = {} \<Longrightarrow>
    map ipp_cidr (ip_pool (fold insert_ip_pool rs d)) = map ipp_cidr (ip_pool d) @ map fst rs"
proof (induction rs arbitrary: d)
  case (Cons r rs)
  then have "fst r \<notin> cidrs d" "set (map fst rs) \<inter> cidrs (insert_ip_pool r d) = {}"
    by (auto simp: cidrs_insert)
  with Cons show ?case by (simp add: insert_ip_pool_rows(1))
qed simp

lemma fold_insert_again: "set (map fst rs) \<subseteq> cidrs d \<Longrightarrow> ip_pool (fold insert_ip_pool rs d) = ip_pool d"
proof (induction rs arbitrary: d)
  case (Cons r rs)
  then have r: "fst r \<in> cidrs d" and "set (map fst rs) \<subseteq> cidrs (insert_ip_pool r d)" by (auto simp: cidrs_insert)
  from Cons.IH [OF this(2)] insert_ip_pool_rows(2) [OF r] show ?case by simp
qed simp

lemma fold_insert_free:
  "\<forall>x \<in> set (ip_pool d). ipp_status x = ''free'' \<Longrightarrow> \<forall>x \<in> set (ip_pool (fold insert_ip_pool rs d)). ipp_status x = ''free''"
proof (induction rs arbitrary: d)
  case (Cons r rs)
  show ?case using Cons.IH [OF insert_ip_pool_rows(3) [OF Cons.prems]] by simp
qed simp

lemma global_pool_distinct: "distinct (map fst global_pool_rows)"
proof -
  let ?ks = "[11276288..<11276288 + 4096] @ [655360..<655360 + 65536]"
  have ks: "set ?ks = {11276288..<11276288 + 4096} \<union> {655360..<655360 + 65536}" by (simp only: set_append set_upt)
  have "inj_on block24 (set ?ks)"
    unfolding ks
  proof (rule inj_onI)
    fix m n :: nat
    assume "m \<in> {11276288..<11276288 + 4096} \<union> {655360..<655360 + 65536}"
      "n \<in> {11276288..<11276288 + 4096} \<union> {655360..<655360 + 65536}" and e: "block24 m = block24 n"
    then have "m < 2 ^ 24" "n < 2 ^ 24" by auto
    then show "m = n" by (rule block24_inject [OF _ _ e])
  qed
  moreover have "distinct ?ks" unfolding distinct_append set_upt by (intro conjI distinct_upt) auto
  ultimately show ?thesis unfolding global_pool_cidrs distinct_map by blast
qed

lemma global_pool_set: "set (map fst global_pool_rows) = block24 ` ({11276288..<11280384} \<union> {655360..<720896})"
  unfolding global_pool_cidrs by (simp only: set_map set_append set_upt) simp

text \<open>
  seeding an empty pool makes exactly the \<open>/24\<close> subnets of \<open>172.16.0.0/12\<close> and of \<open>10.0.0.0/8\<close>, 69,632 of
  them, each in one row and free; seeding again adds none.
\<close>
theorem seeded_pool_exact:
  assumes "ip_pool d = []"
  shows "cidrs (seed_global_ip_pool d) =
      {show_network w |w. net_prefix w = 24 \<and> net_wf w \<and>
        (in_network (net_base w) \<lparr>net_base = 2886729728, net_prefix = 12\<rparr> \<or>
         in_network (net_base w) \<lparr>net_base = 167772160, net_prefix = 8\<rparr>)} \<and>
    distinct (map ipp_cidr (ip_pool (seed_global_ip_pool d))) \<and> length (ip_pool (seed_global_ip_pool d)) = 69632 \<and>
    (\<forall>x \<in> set (ip_pool (seed_global_ip_pool d)). ipp_status x = ''free'') \<and>
    ip_pool (seed_global_ip_pool (seed_global_ip_pool d)) = ip_pool (seed_global_ip_pool d)"
    (is "?A = ?B \<and> _")
proof (intro conjI)
  have rows: "map ipp_cidr (ip_pool (seed_global_ip_pool d)) = map fst global_pool_rows"
    using fold_insert_cidrs [OF global_pool_distinct, of d] assms by (simp add: seed_global_ip_pool_def cidrs_def)
  from rows have c: "?A = block24 ` ({11276288..<11280384} \<union> {655360..<720896})"
    by (simp only: cidrs_def global_pool_set)
  show "?A = ?B"
  proof
    have "block24 k \<in> ?B" if "k \<in> {11276288..<11280384} \<union> {655360..<720896}" for k
      unfolding block24_def using that
      by (intro CollectI exI [of _ "\<lparr>net_base = k * 256, net_prefix = 24\<rparr>"])
        (auto simp: net_wf_def block_size_def in_network_def broadcast_address_def)
    then show "?A \<subseteq> ?B" unfolding c by blast
    have "show_network w \<in> ?A" if w: "net_prefix w = 24" "net_wf w" and
      i: "in_network (net_base w) \<lparr>net_base = 2886729728, net_prefix = 12\<rparr> \<or>
         in_network (net_base w) \<lparr>net_base = 167772160, net_prefix = 8\<rparr>" for w
    proof -
      obtain k where k: "net_base w = k * 256" using w by (auto simp: net_wf_def block_size_def)
      then have "show_network w = block24 k" using w(1) by (simp add: block24_def show_network_def)
      moreover have "k \<in> {11276288..<11280384} \<union> {655360..<720896}"
        using i k by (auto simp: in_network_def broadcast_address_def block_size_def)
      ultimately show ?thesis unfolding c by blast
    qed
    then show "?B \<subseteq> ?A" by blast
  qed
  show "distinct (map ipp_cidr (ip_pool (seed_global_ip_pool d)))" unfolding rows by (rule global_pool_distinct)
  have "length (map fst global_pool_rows) = 69632" unfolding global_pool_cidrs by (simp only: length_map length_append length_upt)
  then show "length (ip_pool (seed_global_ip_pool d)) = 69632" using rows by (metis length_map)
  show "\<forall>x \<in> set (ip_pool (seed_global_ip_pool d)). ipp_status x = ''free''"
    unfolding seed_global_ip_pool_def by (rule fold_insert_free) (simp add: assms)
  have "set (map fst global_pool_rows) \<subseteq> cidrs (seed_global_ip_pool d)" by (simp only: cidrs_def rows subset_refl)
  then show "ip_pool (seed_global_ip_pool (seed_global_ip_pool d)) = ip_pool (seed_global_ip_pool d)"
    unfolding seed_global_ip_pool_def [of "seed_global_ip_pool d"] by (rule fold_insert_again)
qed

lemma seeded_pool_exact_witness:
  "length (ip_pool (seed_global_ip_pool empty_db)) = 69632"
  using seeded_pool_exact [of empty_db] by (simp add: empty_db_def)

section \<open>The WireGuard pool\<close>

lemma wg_cidrs_insert: "wg_cidrs (insert_wg_pool r d) = insert (fst r) (wg_cidrs d)"
  "ip_pool (insert_wg_pool r d) = ip_pool d"
  by (auto simp: insert_wg_pool_def wg_cidrs_def Let_def split: prod.split)

lemma fold_wg_cidrs:
  "wg_cidrs (fold insert_wg_pool rs d) = wg_cidrs d \<union> set (map fst rs)"
  "ip_pool (fold insert_wg_pool rs d) = ip_pool d"
  by (induction rs arbitrary: d) (auto simp: wg_cidrs_insert)

definition default_wg_net :: ipv4_net where
  "default_wg_net = \<lparr>net_base = 180879360, net_prefix = 14\<rparr>"

lemma parse_default_wg: "parse_network ''10.200.0.0/14'' = Some default_wg_net"
  by (simp add: default_wg_net_def parse_ipv4_def parse_network_def parse_octet_def block_size_def nat_of_digits_def
      digit_val_def is_digit_def)

lemma default_wg_rows: "set (map fst (wg_pool_rows default_wg_net)) = block24 ` {706560..<707584}"
proof -
  have "set (map fst (wg_pool_rows default_wg_net)) = (\<lambda>k. block24 (706560 + k)) ` {..<1024}"
    by (simp add: wg_pool_rows_def subnets24_def default_wg_net_def block24_def image_image lessThan_atLeast0
        del: upt_rec_numeral)
  also have "\<dots> = block24 ` ((+) 706560 ` {..<1024})" by (simp only: image_image)
  also have "(+) 706560 ` {..<1024} = {706560..<707584 :: nat}" by (simp add: lessThan_atLeast0 image_add_atLeastLessThan)
  finally show ?thesis .
qed

text \<open>
  The WireGuard pool is taken from the addresses of the tenant pool: each of its 1024 subnets is also a
  subnet that \<open>allocate_subnet\<close> can give to a tenant network.
\<close>

theorem wireguard_pool_overlaps:
  assumes "ip_pool d = []" "wg_pool d = []"
  shows "\<exists>d'. seed_wireguard_pool ''10.200.0.0/14'' (seed_global_ip_pool d) = (Inr (), d') \<and>
    wg_cidrs d' = block24 ` {706560..<707584} \<and> wg_cidrs d' \<subseteq> cidrs d'"
proof -
  let ?g = "seed_global_ip_pool d"
  let ?d = "fold insert_wg_pool (wg_pool_rows default_wg_net) ?g"
  have "wg_pool (fold insert_ip_pool rs e) = wg_pool e" for rs e
    by (induction rs arbitrary: e) (auto simp: insert_ip_pool_def Let_def split: prod.split)
  then have "wg_cidrs ?g = {}" by (simp add: wg_cidrs_def seed_global_ip_pool_def assms(2))
  then have "wg_cidrs ?d = block24 ` {706560..<707584}"
    by (simp only: fold_wg_cidrs default_wg_rows Un_empty_left)
  moreover have "cidrs ?d = block24 ` ({11276288..<11280384} \<union> {655360..<720896})"
    using fold_insert_cidrs [OF global_pool_distinct, of d] assms(1) global_pool_set
    by (simp only: cidrs_def fold_wg_cidrs seed_global_ip_pool_def) simp
  moreover have "seed_wireguard_pool ''10.200.0.0/14'' ?g = (Inr (), ?d)"
    by (simp add: seed_wireguard_pool_def parse_default_wg) (simp add: default_wg_net_def)
  moreover have "block24 ` {706560..<707584} \<subseteq> block24 ` ({11276288..<11280384} \<union> {655360..<720896})"
    by (rule image_mono) auto
  ultimately show ?thesis by (intro exI [of _ ?d]) simp
qed

section \<open>Startup (main.py)\<close>

definition all_bridges :: "bridge list" where
  "all_bridges = map (\<lambda>i. \<lparr>br_bridge_id = i, br_status = ''available'', br_tenant_id = None, br_allocated_at = None\<rparr>)
     [100..4094]"

definition seed_bridges :: "db \<Rightarrow> db" where
  "seed_bridges d = (if bridges d = [] then d\<lparr>bridges := all_bridges\<rparr> else d)"

text \<open>VLAN rows refer to their pod: seeding them for a pod that does not exist is an \<open>IntegrityError\<close>.\<close>

definition startup_pools :: "db \<Rightarrow> (unit, db) result" where
  "startup_pools d =
     (let d1 = seed_bridges d;
          r = (if pods d1 = []
               then (let d2 = seed_global_ip_pool (seed_default_pod d1)
                     in if \<forall>p \<in> set (pods d2). pod_id p \<noteq> 1 then raise (IntegrityError ''vlan_allocations_pod_id_fkey'') d2
                        else seed_wireguard_pool ''10.200.0.0/14'' (seed_vlan_pool 1 d2))
               else ok () d1)
      in then_do r (\<lambda>_ d2. if wg_pool d2 = [] then seed_wireguard_pool ''10.200.0.0/14'' d2 else ok () d2))"

lemma fold_insert_ip_frame:
  "pods (fold insert_ip_pool rs d) = pods d \<and> vlans (fold insert_ip_pool rs d) = vlans d \<and>
   bridges (fold insert_ip_pool rs d) = bridges d \<and> wg_pool (fold insert_ip_pool rs d) = wg_pool d \<and>
   seqs (fold insert_ip_pool rs d) TVlans = seqs d TVlans"
  by (induction rs arbitrary: d) (auto simp: insert_ip_pool_def bump_seq_def Let_def split: prod.split)

text \<open>
  The VLAN numbers are seeded for the pod with number 1, whatever number the default pod gets: when
  the table is empty and its id sequence has moved on, the next start stops with an error and leaves a pod without any VLAN number,
  and later starts, which find a pod, do not repair it.
\<close>

theorem restart_without_pods_fails:
  assumes "pods d = []" "seqs d TPods \<noteq> 1" "vlans d = []"
  shows "\<exists>e d'. startup_pools d = (Inl (IntegrityError e), d') \<and> map pod_name (pods d') = [''pod-1''] \<and> vlans d' = [] \<and>
    vlans (snd (startup_pools d')) = []"
proof -
  let ?d = "seed_global_ip_pool (seed_default_pod (seed_bridges d))"
  have p: "pods ?d = [\<lparr>pod_id = seqs d TPods, pod_name = ''pod-1'', pod_provider_type = ''proxmox'',
        pod_node_names = ''pve1'', pod_max_tenants = 100, pod_tenant_count = 0, pod_status = ''active''\<rparr>]" "vlans ?d = []"
    using assms by (simp_all add: seed_global_ip_pool_def fold_insert_ip_frame seed_default_pod_def Let_def seed_bridges_def next_id_def)
  have s: "startup_pools d = (Inl (IntegrityError ''vlan_allocations_pod_id_fkey''), ?d)"
    using assms(1,2) p(1) by (simp add: startup_pools_def Let_def) (simp add: seed_bridges_def)
  have "vlans (snd (seed_wireguard_pool c e)) = vlans e" for c e
  proof -
    have "vlans (fold insert_wg_pool rs e) = vlans e" for rs e
      by (induction rs arbitrary: e) (auto simp: insert_wg_pool_def Let_def split: prod.split)
    then show ?thesis by (simp add: seed_wireguard_pool_def split: option.split)
  qed
  then have "vlans (snd (startup_pools ?d)) = []"
    using p by (simp add: startup_pools_def Let_def seed_bridges_def)
  with s p show ?thesis by simp
qed

end
