(* ===== verification/Wireguard.thy ===== *)
theory Wireguard
  imports Seed_Pools Vm_Service
begin

text \<open>
  WireGuard tunnels and peers: \<open>app/services/wireguard_ipam.py\<close> and \<open>app/api/wireguard.py\<close>. (The tasks
  that carry them out are in \<open>Wireguard_Tasks\<close>; the report of the rules on the firewall itself and the
  empty log endpoint are left out.)

  Sessions do not flush before a query, so within one call every query sees the rows as they were when
  it began. \<open>DEFAULT_LISTEN_PORT\<close> is the default of the setting. Decryption is a parameter.
\<close>

section \<open>Subnets of tunnels (services/wireguard_ipam.py)\<close>

definition take_wg_subnet :: "int \<Rightarrow> wg_pool_row \<Rightarrow> wg_pool_row" where
  "take_wg_subnet now r = r\<lparr>wgp_status := ''allocated'', wgp_allocated_at := Some now\<rparr>"

definition allocate_tunnel_subnet :: "int set \<Rightarrow> int \<Rightarrow> db \<Rightarrow> py_exc + wg_pool_row \<times> db" where
  "allocate_tunnel_subnet lk now d =
     (case first_row (\<lambda>r. wgp_status r = ''free'' \<and> wgp_id r \<notin> lk) (wg_pool d) of
        None \<Rightarrow> Inl (ValueError (''WireGuard IP pool exhausted - add more rows to wireguard_ip_pool or '' @
          ''expand WIREGUARD_GLOBAL_POOL_CIDR''))
      | Some r \<Rightarrow> Inr (take_wg_subnet now r, d\<lparr>wg_pool := upd_rows wgp_id (wgp_id r) (take_wg_subnet now) (wg_pool d)\<rparr>))"

definition give_wg_subnet :: "wg_pool_row \<Rightarrow> wg_pool_row" where
  "give_wg_subnet r = r\<lparr>wgp_status := ''free'', wgp_tunnel_id := None, wgp_allocated_at := None\<rparr>"

definition release_tunnel_subnet :: "int \<Rightarrow> db \<Rightarrow> db" where
  "release_tunnel_subnet i d = d\<lparr>wg_pool := upd_rows wgp_id i give_wg_subnet (wg_pool d)\<rparr>"

section \<open>Addresses of peers\<close>

text \<open>\<open>s.split(sep)[0]\<close>; \<open>s.rsplit('.', 1)\<close> read from the end.\<close>

definition before :: "char \<Rightarrow> string \<Rightarrow> string" where
  "before c s = hd (split_on c s)"

definition last_octet_text :: "string \<Rightarrow> string option" where
  "last_octet_text s = (let ws = split_on CHR ''.'' s in if length ws < 2 then None else Some (last ws))"

text \<open>The last octet of an address stored with a prefix length; anything else is passed over.\<close>

definition taken_octet :: "wg_peer \<Rightarrow> int option" where
  "taken_octet p =
     (if CHR ''/'' \<in> set (wp_allowed_ip p)
      then (case last_octet_text (before CHR ''/'' (wp_allowed_ip p)) of None \<Rightarrow> None | Some o' \<Rightarrow> py_int o')
      else None)"

definition peers_of :: "int \<Rightarrow> db \<Rightarrow> wg_peer list" where
  "peers_of tid d = filter (\<lambda>p. wp_tunnel_id p = tid) (wg_peers d)"

fun pick_address :: "string \<Rightarrow> ipv4_net \<Rightarrow> int option set \<Rightarrow> int list \<Rightarrow> py_exc + string option" where
  "pick_address base w taken [] = Inr None"
| "pick_address base w taken (k # ks) =
     (if Some k \<in> taken then pick_address base w taken ks
      else let ip = base @ ''.'' @ show_int k
           in case parse_ipv4 ip of
                None \<Rightarrow> Inl (ValueError (repr_str ip @ '' does not appear to be an IPv4 or IPv6 address''))
              | Some a \<Rightarrow> (if in_network a w then Inr (Some ip) else pick_address base w taken ks))"

definition allocate_peer_ip :: "db \<Rightarrow> wg_tunnel \<Rightarrow> py_exc + string" where
  "allocate_peer_ip d t =
     (case parse_network (wt_cidr t) of
        None \<Rightarrow> Inl (ValueError (repr_str (wt_cidr t) @ '' does not appear to be an IPv4 or IPv6 network''))
      | Some w \<Rightarrow>
          (let gw = before CHR ''/'' (wt_gateway_ip t);
               base = join_with ''.'' (take 3 (split_on CHR ''.'' gw))
           in case last_octet_text gw of
                None \<Rightarrow> Inl (OtherError ''list index out of range'')
              | Some lo \<Rightarrow>
                  (case py_int lo of
                     None \<Rightarrow> Inl (ValueError (''invalid literal for int() with base 10: '' @ repr_str lo))
                   | Some n \<Rightarrow>
                       (case pick_address base w (set (map taken_octet (peers_of (wt_id t) d))) [n + 1..254] of
                          Inl e \<Rightarrow> Inl e
                        | Inr (Some ip) \<Rightarrow> Inr ip
                        | Inr None \<Rightarrow> Inl (ValueError (''WireGuard tunnel '' @ show_int (wt_id t) @ '' subnet '' @ wt_cidr t @ '' is full''))))))"

section \<open>Tunnels (api/wireguard.py)\<close>

definition DEFAULT_LISTEN_PORT :: int where
  "DEFAULT_LISTEN_PORT = 51820"

text \<open>\<open>while listen_port in existing_ports: listen_port += 1\<close>\<close>

function free_port :: "int list \<Rightarrow> int \<Rightarrow> int" where
  "free_port ps p = (if p \<in> set ps then free_port ps (p + 1) else p)"
  by pat_completeness auto
termination
proof (relation "measure (\<lambda>(ps, p). card {q \<in> set ps. p \<le> q})")
  fix ps and p :: int
  assume "p \<in> set ps"
  then have "p \<in> {q \<in> set ps. p \<le> q} - {q \<in> set ps. p + 1 \<le> q}" by simp
  moreover have "{q \<in> set ps. p + 1 \<le> q} \<subseteq> {q \<in> set ps. p \<le> q}" by auto
  ultimately have "{q \<in> set ps. p + 1 \<le> q} \<subset> {q \<in> set ps. p \<le> q}" by blast
  then show "((ps, p + 1), (ps, p)) \<in> measure (\<lambda>(ps, p). card {q \<in> set ps. p \<le> q})"
    by (simp add: psubset_card_mono)
qed simp

declare free_port.simps [simp del]

record tunnel_create =
  tc_name :: string
  tc_listen_port :: "int option"
  tc_mtu :: "int option"
  tc_dns :: "string option"
  tc_endpoint :: "string option"
  tc_peer_keepalive :: "int option"
  tc_allowed_network_ids :: "int list"

record tunnel_update =
  tu_name :: "string option"
  tu_mtu :: "int option"
  tu_dns :: "string option"
  tu_endpoint :: "string option"
  tu_peer_keepalive :: "int option"
  tu_is_enabled :: "bool option"
  tu_allowed_network_ids :: "int list option"

definition wg_guard :: "string \<Rightarrow> user \<Rightarrow> tenant \<Rightarrow> db \<Rightarrow> (unit \<Rightarrow> ('a, db) result) \<Rightarrow> ('a, db) result" where
  "wg_guard perm cu ct d k = (if \<not> has_permission cu (t_id ct) perm d then http 403 ''Not authorized'' d else k ())"

definition find_tunnel :: "int \<Rightarrow> int \<Rightarrow> db \<Rightarrow> wg_tunnel option" where
  "find_tunnel i tid d = first_row (\<lambda>t. wt_id t = i \<and> wt_tenant_id t = tid) (wg_tunnels d)"

definition find_peer :: "int \<Rightarrow> int \<Rightarrow> db \<Rightarrow> wg_peer option" where
  "find_peer i tun d = first_row (\<lambda>p. wp_id p = i \<and> wp_tunnel_id p = tun) (wg_peers d)"

definition list_tunnels :: "user \<Rightarrow> tenant \<Rightarrow> db \<Rightarrow> (wg_tunnel list, db) result" where
  "list_tunnels cu ct d =
     wg_guard ''wireguard:read'' cu ct d (\<lambda>_. ok (sort_key wt_id (filter (\<lambda>t. wt_tenant_id t = t_id ct) (wg_tunnels d))) d)"

record wg_status =
  ws_total_tunnels :: int
  ws_active_tunnels :: int
  ws_provisioning_tunnels :: int
  ws_error_tunnels :: int
  ws_total_peers :: int

definition get_status :: "user \<Rightarrow> tenant \<Rightarrow> db \<Rightarrow> (wg_status, db) result" where
  "get_status cu ct d =
     wg_guard ''wireguard:read'' cu ct d (\<lambda>_.
       let ts = filter (\<lambda>t. wt_tenant_id t = t_id ct) (wg_tunnels d)
       in ok \<lparr>ws_total_tunnels = int (length ts),
              ws_active_tunnels = count_rows (\<lambda>t. wt_status t = ''active'') ts,
              ws_provisioning_tunnels = count_rows (\<lambda>t. wt_status t \<in> {''pending'', ''provisioning''}) ts,
              ws_error_tunnels = count_rows (\<lambda>t. wt_status t = ''error'') ts,
              ws_total_peers = count_rows (\<lambda>p. wp_tunnel_id p \<in> set (map wt_id ts)) (wg_peers d)\<rparr> d)"

definition active_networks :: "tenant \<Rightarrow> db \<Rightarrow> tenant_network list" where
  "active_networks ct d = filter (\<lambda>n. n_tenant_id n = t_id ct \<and> n_status n = ''active'') (networks d)"

definition list_available_networks :: "user \<Rightarrow> tenant \<Rightarrow> db \<Rightarrow> (tenant_network list, db) result" where
  "list_available_networks cu ct d = wg_guard ''wireguard:read'' cu ct d (\<lambda>_. ok (sort_key n_id (active_networks ct d)) d)"

definition show_ints :: "int list \<Rightarrow> string" where
  "show_ints ns = ''['' @ join_with '', '' (map show_int ns) @ '']''"

definition invalid_networks :: "tenant \<Rightarrow> int list \<Rightarrow> db \<Rightarrow> int list" where
  "invalid_networks ct ids d = sort (remdups (filter (\<lambda>i. i \<notin> set (map n_id (active_networks ct d))) ids))"

definition used_ports :: "int \<Rightarrow> db \<Rightarrow> int list" where
  "used_ports tid d =
     filter (\<lambda>p. p \<noteq> 0) (map wt_listen_port (filter (\<lambda>t. wt_tenant_id t = tid \<and> wt_status t \<in> {''active'', ''provisioning''}) (wg_tunnels d)))"

definition or_default :: "int option \<Rightarrow> int \<Rightarrow> int" where
  "or_default x n = (if truthy_id x then the x else n)"

definition choose_port :: "tunnel_create \<Rightarrow> tenant \<Rightarrow> db \<Rightarrow> int" where
  "choose_port b ct d = or_default (tc_listen_port b) (free_port (used_ports (t_id ct) d) DEFAULT_LISTEN_PORT)"

definition new_tunnel :: "tunnel_create \<Rightarrow> tenant \<Rightarrow> wg_pool_row \<Rightarrow> db \<Rightarrow> wg_tunnel" where
  "new_tunnel b ct r d =
     \<lparr>wt_id = next_id TWgTunnels d, wt_tenant_id = t_id ct, wt_name = tc_name b, wt_opnsense_server_uuid = None,
      wt_listen_port = choose_port b ct d, wt_mtu = or_default (tc_mtu b) 1420, wt_dns = tc_dns b,
      wt_tunnel_address = wgp_gateway_ip r @ ''/24'', wt_cidr = wgp_cidr r, wt_gateway_ip = wgp_gateway_ip r,
      wt_subnet_mask = 24, wt_pool_id = Some (wgp_id r), wt_public_key = ''pending'', wt_private_key = ''pending'',
      wt_endpoint = tc_endpoint b, wt_opt_interface = None, wt_status = ''pending'', wt_error = None,
      wt_peer_keepalive = or_default (tc_peer_keepalive b) 25, wt_is_enabled = True,
      wt_allowed_network_ids = Some (sort (remdups (tc_allowed_network_ids b)))\<rparr>"

definition wg_audit :: "user \<Rightarrow> tenant \<Rightarrow> string \<Rightarrow> string \<Rightarrow> int \<Rightarrow> string \<Rightarrow> audit_entry" where
  "wg_audit cu ct act target i nm =
     (audit_event (audit_action act) target cu)\<lparr>a_target_id := Some i, a_target_name := Some nm, a_tenant_id := Some (t_id ct)\<rparr>"

definition tunnel_refusal :: "py_exc \<Rightarrow> py_exc" where
  "tunnel_refusal e = (case e of QuotaExceededError r l c q \<Rightarrow> HTTPException 429 (exc_str e) | _ \<Rightarrow> e)"

definition create_tunnel :: "user \<Rightarrow> request \<Rightarrow> tenant \<Rightarrow> tunnel_create \<Rightarrow> db \<Rightarrow> (wg_tunnel, db) result" where
  "create_tunnel cu req ct b d =
     wg_guard ''wireguard:create'' cu ct d (\<lambda>_.
       if \<not> truthy_id (t_opnsense_vm_id ct) then http 400 ''OPNsense is not configured for this tenant'' d
       else if \<exists>t \<in> set (wg_tunnels d). wt_tenant_id t = t_id ct \<and> wt_name t = tc_name b
         then http 409 (''Tunnel with name '' @ [quote_char] @ tc_name b @ [quote_char] @ '' already exists'') d
       else case check_network_quota (t_id ct) d of
         Inl e \<Rightarrow> raise (tunnel_refusal e) d
       | Inr _ \<Rightarrow>
           (if invalid_networks ct (tc_allowed_network_ids b) d \<noteq> []
            then http 400 (''Invalid or inactive network IDs: '' @ show_ints (invalid_networks ct (tc_allowed_network_ids b) d)) d
            else case allocate_tunnel_subnet {} (req_now req) d of
              Inl e \<Rightarrow> raise e d
            | Inr (r, d1) \<Rightarrow>
                (let t = new_tunnel b ct r d;
                     d2 = bump_seq TWgTunnels (d1\<lparr>wg_tunnels := wg_tunnels d1 @ [t],
                       wg_pool := upd_rows wgp_id (wgp_id r) (\<lambda>x. x\<lparr>wgp_tunnel_id := Some (wt_id t)\<rparr>) (wg_pool d1)\<rparr>)
                 in ok t (send_task (ProvisionWgTunnel (t_id ct) (wt_id t) (u_id cu) (u_username cu) (sort (remdups (tc_allowed_network_ids b))))
                   (log_audit_event ((wg_audit cu ct ''WIREGUARD_TUNNEL_CREATE'' ''wireguard_tunnel'' (wt_id t) (wt_name t))
                     \<lparr>a_new_value := Some (''cidr='' @ wt_cidr t @ '',port='' @ show_int (wt_listen_port t) @ '',endpoint='' @
                        (if truthy (tc_endpoint b) then the (tc_endpoint b) else ''(auto)'') @ '',allowed_networks='' @
                        show_ints (sort (remdups (tc_allowed_network_ids b)))),
                      a_request_id := Some (header_or req ''X-Request-ID'' ''unknown''), a_ip_address := req_client_host req\<rparr>)
                     None d2)))))"

definition get_tunnel :: "user \<Rightarrow> tenant \<Rightarrow> int \<Rightarrow> db \<Rightarrow> (wg_tunnel, db) result" where
  "get_tunnel cu ct i d =
     wg_guard ''wireguard:read'' cu ct d (\<lambda>_.
       case find_tunnel i (t_id ct) d of None \<Rightarrow> http 404 ''Tunnel not found'' d | Some t \<Rightarrow> ok t d)"

text \<open>\<open>get_tunnel_access\<close>: the networks the tunnel's rules let it reach, from the rules in the database.\<close>

definition rule_network :: "tenant \<Rightarrow> db \<Rightarrow> fw_rule \<Rightarrow> int option" where
  "rule_network ct d r =
     (case fw_destination_net r of None \<Rightarrow> None
      | Some c \<Rightarrow> map_of (rev (map (\<lambda>n. (n_cidr n, n_id n)) (active_networks ct d))) c)"

definition get_tunnel_access :: "user \<Rightarrow> tenant \<Rightarrow> int \<Rightarrow> db \<Rightarrow> (int list, db) result" where
  "get_tunnel_access cu ct i d =
     wg_guard ''wireguard:read'' cu ct d (\<lambda>_.
       case find_tunnel i (t_id ct) d of
         None \<Rightarrow> http 404 ''Tunnel not found'' d
       | Some t \<Rightarrow>
           (if \<not> truthy (wt_opt_interface t) then http 400 ''Tunnel has no assigned interface yet'' d
            else ok (sort (remdups (filter (\<lambda>k. k \<noteq> 0) (List.map_filter (rule_network ct d)
              (filter (\<lambda>r. fw_tenant_id r = t_id ct \<and> fw_interface r = wt_opt_interface t \<and> fw_action r = Some ''pass'' \<and>
                 fw_direction r = Some ''in'' \<and> fw_apply_status r \<in> {''pending'', ''synced''}) (fw_rules d)))))) d))"

section \<open>Changing a tunnel\<close>

text \<open>\<open>str(dict)\<close> of the changed fields, for the audit row.\<close>

definition show_bool :: "bool \<Rightarrow> string" where
  "show_bool b = (if b then ''True'' else ''False'')"

definition tunnel_fields :: "wg_tunnel \<Rightarrow> int list option \<Rightarrow> string" where
  "tunnel_fields t ids =
     ''{'' @ join_with '', '' (map (\<lambda>(k, v). repr_str k @ '': '' @ v)
       [(''name'', repr_str (wt_name t)), (''mtu'', show_int (wt_mtu t)), (''dns'', show_opt repr_str (wt_dns t)),
        (''endpoint'', show_opt repr_str (wt_endpoint t)), (''peer_keepalive'', show_int (wt_peer_keepalive t)),
        (''is_enabled'', show_bool (wt_is_enabled t)), (''allowed_network_ids'', show_opt show_ints ids)]) @ ''}''"

definition assigned :: "'a option \<Rightarrow> 'a \<Rightarrow> 'a" where
  "assigned new old = (case new of None \<Rightarrow> old | Some x \<Rightarrow> x)"

definition set_tunnel_fields :: "tunnel_update \<Rightarrow> wg_tunnel \<Rightarrow> wg_tunnel" where
  "set_tunnel_fields b t =
     t\<lparr>wt_name := assigned (tu_name b) (wt_name t), wt_mtu := assigned (tu_mtu b) (wt_mtu t),
       wt_dns := (case tu_dns b of None \<Rightarrow> wt_dns t | Some x \<Rightarrow> Some x),
       wt_endpoint := (case tu_endpoint b of None \<Rightarrow> wt_endpoint t | Some x \<Rightarrow> Some x),
       wt_peer_keepalive := assigned (tu_peer_keepalive b) (wt_peer_keepalive t),
       wt_is_enabled := assigned (tu_is_enabled b) (wt_is_enabled t)\<rparr>"

definition rule_desc :: "string \<Rightarrow> string \<Rightarrow> string" where
  "rule_desc tunnel net = ''WireGuard '' @ tunnel @ '' -> '' @ net"

definition described_rule :: "int \<Rightarrow> string \<Rightarrow> db \<Rightarrow> fw_rule option" where
  "described_rule tid desc d = first_row (\<lambda>r. fw_tenant_id r = tid \<and> fw_description r = Some desc) (fw_rules d)"

definition access_rule :: "int \<Rightarrow> string \<Rightarrow> int \<Rightarrow> string option \<Rightarrow> string \<Rightarrow> string \<Rightarrow> db \<Rightarrow> fw_rule" where
  "access_rule tid uuid sq iface desc cidr d =
     \<lparr>fw_id = next_id TFwRules d, fw_tenant_id = tid, fw_uuid = uuid, fw_sequence = sq, fw_enabled = ''1'',
      fw_description = Some desc, fw_interface = iface, fw_interfacenot = Some ''0'', fw_quick = Some ''1'',
      fw_action = Some ''pass'', fw_direction = Some ''in'', fw_ipprotocol = Some ''inet'', fw_protocol = Some ''any'',
      fw_source_not = Some ''0'', fw_source_net = Some ''any'', fw_source_port = Some '''', fw_destination_not = Some ''0'',
      fw_destination_net = Some cidr, fw_destination_port = Some '''', fw_gateway = Some '''', fw_log = Some ''0'',
      fw_statetype = Some ''keep'', fw_apply_status = ''pending'', fw_apply_error = None\<rparr>"

definition wg_rule_uuid :: "int \<Rightarrow> int \<Rightarrow> string" where
  "wg_rule_uuid tun net = ''pending-wg-'' @ show_int tun @ ''-net-'' @ show_int net"

definition add_rule_row :: "fw_rule \<Rightarrow> db \<Rightarrow> db" where
  "add_rule_row r d = bump_seq TFwRules (d\<lparr>fw_rules := fw_rules d @ [r]\<rparr>)"

text \<open>A synced rule is marked for deletion, any other is deleted at once.\<close>

definition drop_rule :: "fw_rule \<Rightarrow> db \<Rightarrow> db" where
  "drop_rule r d =
     d\<lparr>fw_rules := (if fw_apply_status r = ''synced''
       then upd_rows fw_id (fw_id r) (\<lambda>x. x\<lparr>fw_apply_status := ''pending_delete''\<rparr>) (fw_rules d)
       else del_rows fw_id (fw_id r) (fw_rules d))\<rparr>"

text \<open>The rules to remove and the networks to add, all looked up in the rows \<open>d\<close> of the start of the call.\<close>

definition rules_to_drop :: "tenant \<Rightarrow> string \<Rightarrow> int list \<Rightarrow> db \<Rightarrow> fw_rule list" where
  "rules_to_drop ct nm ids d =
     List.map_filter (\<lambda>i. case first_row (\<lambda>n. n_id n = i \<and> n_tenant_id n = t_id ct) (networks d) of
         None \<Rightarrow> None | Some n \<Rightarrow> described_rule (t_id ct) (rule_desc nm (n_name n)) d) ids"

definition max_sequence :: "int \<Rightarrow> db \<Rightarrow> int" where
  "max_sequence tid d =
     (case map fw_sequence (filter (\<lambda>r. fw_tenant_id r = tid) (fw_rules d)) of
        [] \<Rightarrow> 200
      | s # ss \<Rightarrow> (let m = fold max ss s in if m = 0 then 200 else m))"

definition nets_to_add :: "tenant \<Rightarrow> string \<Rightarrow> int list \<Rightarrow> db \<Rightarrow> tenant_network list" where
  "nets_to_add ct nm ids d =
     filter (\<lambda>n. described_rule (t_id ct) (rule_desc nm (n_name n)) d = None)
       (List.map_filter (\<lambda>i. first_row (\<lambda>n. n_id n = i) (active_networks ct d)) ids)"

definition add_access :: "tenant \<Rightarrow> wg_tunnel \<Rightarrow> int \<Rightarrow> tenant_network \<Rightarrow> db \<Rightarrow> db" where
  "add_access ct t sq n d =
     add_rule_row (access_rule (t_id ct) (wg_rule_uuid (wt_id t) (n_id n)) sq (wt_opt_interface t)
       (rule_desc (wt_name t) (n_name n)) (n_cidr n) d) d"

definition change_access :: "tenant \<Rightarrow> wg_tunnel \<Rightarrow> int list \<Rightarrow> db \<Rightarrow> py_exc + bool \<times> db" where
  "change_access ct t ids d =
     (let new_ids = sort (remdups ids);
          old_ids = (case wt_allowed_network_ids t of None \<Rightarrow> [] | Some xs \<Rightarrow> sort (remdups xs));
          to_add = filter (\<lambda>i. i \<notin> set old_ids) new_ids;
          to_remove = filter (\<lambda>i. i \<notin> set new_ids) old_ids;
          gone = rules_to_drop ct (wt_name t) to_remove d;
          added = nets_to_add ct (wt_name t) to_add d;
          d1 = fold drop_rule gone d;
          d2 = fold (add_access ct t (max_sequence (t_id ct) d + 1)) added d1
      in if invalid_networks ct ids d \<noteq> []
           then Inl (HTTPException 400 (''Invalid or inactive network IDs: '' @ show_ints (invalid_networks ct ids d)))
         else if \<exists>n \<in> set added. wg_rule_uuid (wt_id t) (n_id n) \<in> set (map fw_uuid (fw_rules d1))
           then Inl (IntegrityError ''opnsense_firewall_rules_uuid_key'')
         else Inr (gone \<noteq> [] \<or> to_add \<noteq> [],
           d2\<lparr>wg_tunnels := upd_rows wt_id (wt_id t) (\<lambda>x. x\<lparr>wt_allowed_network_ids := Some new_ids\<rparr>) (wg_tunnels d2)\<rparr>))"

text \<open>A unique constraint that the commit would break.\<close>

definition tunnel_name_taken :: "int \<Rightarrow> tenant \<Rightarrow> string \<Rightarrow> db \<Rightarrow> bool" where
  "tunnel_name_taken i ct nm d \<longleftrightarrow> (\<exists>x \<in> set (wg_tunnels d). wt_id x \<noteq> i \<and> wt_tenant_id x = t_id ct \<and> wt_name x = nm)"

definition update_tunnel :: "user \<Rightarrow> tenant \<Rightarrow> int \<Rightarrow> tunnel_update \<Rightarrow> db \<Rightarrow> (wg_tunnel, db) result" where
  "update_tunnel cu ct i b d =
     wg_guard ''wireguard:update'' cu ct d (\<lambda>_.
       case find_tunnel i (t_id ct) d of
         None \<Rightarrow> http 404 ''Tunnel not found'' d
       | Some t \<Rightarrow>
           (let t1 = set_tunnel_fields b t;
                d1 = d\<lparr>wg_tunnels := upd_rows wt_id i (set_tunnel_fields b) (wg_tunnels d)\<rparr>
            in case (if tu_allowed_network_ids b \<noteq> None \<and> truthy (wt_opt_interface t1)
                     then change_access ct t1 (the (tu_allowed_network_ids b)) d1 else Inr (False, d1)) of
                 Inl e \<Rightarrow> raise e d
               | Inr (changed, d2) \<Rightarrow>
                   (if tunnel_name_taken i ct (wt_name t1) d then raise (IntegrityError ''uq_wg_tunnel_tenant_name'') d
                    else
                      (let t2 = assigned (find_tunnel i (t_id ct) d2) t1
                       in ok t2 (log_audit_event ((wg_audit cu ct ''WIREGUARD_TUNNEL_UPDATE'' ''wireguard_tunnel'' i (wt_name t2))
                            \<lparr>a_old_value := Some (tunnel_fields t (Some (assigned (wt_allowed_network_ids t) []))),
                             a_new_value := Some (tunnel_fields t2 (wt_allowed_network_ids t2))\<rparr>) None
                            (if changed then send_task (ApplyFirewallRules (t_id ct)) d2 else d2))))))"

definition delete_tunnel :: "user \<Rightarrow> tenant \<Rightarrow> int \<Rightarrow> db \<Rightarrow> (int, db) result" where
  "delete_tunnel cu ct i d =
     wg_guard ''wireguard:delete'' cu ct d (\<lambda>_.
       case find_tunnel i (t_id ct) d of
         None \<Rightarrow> http 404 ''Tunnel not found'' d
       | Some t \<Rightarrow> ok i (send_task (DestroyWgTunnel (t_id ct) i (u_id cu) (u_username cu))
           (log_audit_event (wg_audit cu ct ''WIREGUARD_TUNNEL_DELETE'' ''wireguard_tunnel'' i (wt_name t)) None d)))"


section \<open>Peers\<close>

text \<open>
  \<open>_peer_to_dict\<close> leaves the status and the error of the row out, so that the response model fills in
  its defaults.
\<close>

record peer_view =
  pw_id :: int
  pw_tunnel_id :: int
  pw_name :: string
  pw_public_key :: string
  pw_allowed_ip :: string
  pw_endpoint :: "string option"
  pw_keepalive :: int
  pw_is_enabled :: bool
  pw_status :: string
  pw_error :: "string option"

definition peer_view_of :: "wg_peer \<Rightarrow> peer_view" where
  "peer_view_of p =
     \<lparr>pw_id = wp_id p, pw_tunnel_id = wp_tunnel_id p, pw_name = wp_name p, pw_public_key = wp_public_key p,
      pw_allowed_ip = wp_allowed_ip p, pw_endpoint = wp_endpoint p, pw_keepalive = wp_keepalive p,
      pw_is_enabled = wp_is_enabled p, pw_status = wp_status p, pw_error = wp_error p\<rparr>"

definition peer_to_dict :: "wg_peer \<Rightarrow> peer_view" where
  "peer_to_dict p = (peer_view_of p)\<lparr>pw_status := ''pending'', pw_error := None\<rparr>"

definition list_peers :: "user \<Rightarrow> tenant \<Rightarrow> int \<Rightarrow> db \<Rightarrow> (peer_view list, db) result" where
  "list_peers cu ct i d =
     wg_guard ''wireguard:read'' cu ct d (\<lambda>_.
       case find_tunnel i (t_id ct) d of
         None \<Rightarrow> http 404 ''Tunnel not found'' d
       | Some t \<Rightarrow> ok (map peer_to_dict (sort_key wp_id (peers_of i d))) d)"

record peer_create =
  pc_name :: string
  pc_endpoint :: "string option"
  pc_keepalive :: "int option"

record peer_update =
  pu_name :: "string option"
  pu_endpoint :: "string option"
  pu_keepalive :: "int option"
  pu_is_enabled :: "bool option"

definition new_peer :: "wg_tunnel \<Rightarrow> peer_create \<Rightarrow> db \<Rightarrow> wg_peer" where
  "new_peer t b d =
     \<lparr>wp_id = next_id TWgPeers d, wp_tunnel_id = wt_id t, wp_opnsense_client_uuid = None, wp_name = pc_name b,
      wp_public_key = ''pending'', wp_private_key_enc = '''', wp_preshared_key_enc = '''', wp_allowed_ip = '''',
      wp_endpoint = pc_endpoint b,
      wp_keepalive = or_default (pc_keepalive b) (if wt_peer_keepalive t = 0 then 25 else wt_peer_keepalive t),
      wp_is_enabled = True, wp_status = ''pending'', wp_error = None\<rparr>"

definition create_peer :: "user \<Rightarrow> tenant \<Rightarrow> int \<Rightarrow> peer_create \<Rightarrow> db \<Rightarrow> (peer_view, db) result" where
  "create_peer cu ct i b d =
     wg_guard ''wireguard:create'' cu ct d (\<lambda>_.
       case find_tunnel i (t_id ct) d of
         None \<Rightarrow> http 404 ''Tunnel not found'' d
       | Some t \<Rightarrow>
           (if wt_status t \<noteq> ''active''
            then http 400 (''Tunnel is in status '' @ [quote_char] @ wt_status t @ [quote_char] @ '', not '' @
              [quote_char] @ ''active'' @ [quote_char] @ ''. Cannot add peer.'') d
            else if \<exists>p \<in> set (wg_peers d). wp_tunnel_id p = i \<and> wp_name p = pc_name b
              then http 409 (''Peer with name '' @ [quote_char] @ pc_name b @ [quote_char] @ '' already exists'') d
            else (let p = new_peer t b d
                  in ok (peer_view_of p) (send_task (ProvisionWgPeer (t_id ct) i (wp_id p) (u_id cu) (u_username cu))
                       (bump_seq TWgPeers (d\<lparr>wg_peers := wg_peers d @ [p]\<rparr>))))))"

text \<open>\<open>_compute_allowed_ips\<close>\<close>

definition compute_allowed_ips :: "wg_tunnel \<Rightarrow> db \<Rightarrow> string" where
  "compute_allowed_ips t d =
     join_with '', '' (wt_cidr t #
       (case wt_allowed_network_ids t of
          None \<Rightarrow> []
        | Some ids \<Rightarrow> filter (\<lambda>c. c \<noteq> []) (map n_cidr (filter (\<lambda>n. n_id n \<in> set ids \<and> n_tenant_id n = wt_tenant_id t \<and>
            n_status n = ''active'') (networks d)))))"

record peer_config =
  pf_peer_id :: int
  pf_tunnel_id :: int
  pf_name :: string
  pf_config :: string
  pf_client_private_key :: string
  pf_client_address :: string
  pf_server_public_key :: string
  pf_server_endpoint :: string
  pf_preshared_key :: string
  pf_allowed_ips :: string
  pf_dns :: "string option"

definition newline :: string where
  "newline = [char_of (10 :: nat)]"

definition config_lines :: "string \<Rightarrow> string \<Rightarrow> wg_tunnel \<Rightarrow> wg_peer \<Rightarrow> string \<Rightarrow> string" where
  "config_lines key psk t p ips =
     concat (map (\<lambda>l. l @ newline)
       ([''[Interface]'', ''PrivateKey = '' @ key, ''Address = '' @ wp_allowed_ip p @ ''/32''] @
        (if truthy (wt_dns t) then [''DNS = '' @ the (wt_dns t)] else []) @
        ['''', ''[Peer]'', ''PublicKey = '' @ wt_public_key t, ''PresharedKey = '' @ psk,
         ''Endpoint = '' @ show_opt id (wt_endpoint t), ''AllowedIPs = '' @ ips,
         ''PersistentKeepalive = '' @ show_int (wp_keepalive p)]))"

text \<open>The response model wants an endpoint; a tunnel without one cannot be answered.\<close>

definition get_peer_config ::
  "(string \<Rightarrow> py_exc + string) \<Rightarrow> user \<Rightarrow> tenant \<Rightarrow> int \<Rightarrow> int \<Rightarrow> db \<Rightarrow> (peer_config, db) result" where
  "get_peer_config decrypt cu ct i j d =
     wg_guard ''wireguard:read'' cu ct d (\<lambda>_.
       case (find_tunnel i (t_id ct) d, find_peer j i d) of
         (Some t, Some p) \<Rightarrow>
           (case decrypt (wp_private_key_enc p) of
              Inl e \<Rightarrow> raise e d
            | Inr key \<Rightarrow>
                (case decrypt (wp_preshared_key_enc p) of
                   Inl e \<Rightarrow> raise e d
                 | Inr psk \<Rightarrow>
                     (case wt_endpoint t of
                        None \<Rightarrow> raise (ValueError ''1 validation error for WireGuardPeerConfigResponse'') d
                      | Some ep \<Rightarrow>
                          ok \<lparr>pf_peer_id = j, pf_tunnel_id = i, pf_name = wp_name p,
                              pf_config = config_lines key psk t p (compute_allowed_ips t d),
                              pf_client_private_key = key, pf_client_address = wp_allowed_ip p @ ''/32'',
                              pf_server_public_key = wt_public_key t, pf_server_endpoint = ep, pf_preshared_key = psk,
                              pf_allowed_ips = compute_allowed_ips t d, pf_dns = wt_dns t\<rparr> d)))
       | _ \<Rightarrow> http 404 ''Tunnel or peer not found'' d)"


definition set_peer_fields :: "peer_update \<Rightarrow> wg_peer \<Rightarrow> wg_peer" where
  "set_peer_fields b p =
     p\<lparr>wp_name := assigned (pu_name b) (wp_name p),
       wp_endpoint := (case pu_endpoint b of None \<Rightarrow> wp_endpoint p | Some x \<Rightarrow> Some x),
       wp_keepalive := assigned (pu_keepalive b) (wp_keepalive p),
       wp_is_enabled := assigned (pu_is_enabled b) (wp_is_enabled p)\<rparr>"

definition peer_fields :: "wg_peer \<Rightarrow> string" where
  "peer_fields p =
     ''{'' @ join_with '', '' (map (\<lambda>(k, v). repr_str k @ '': '' @ v)
       [(''name'', repr_str (wp_name p)), (''endpoint'', show_opt repr_str (wp_endpoint p)),
        (''keepalive'', show_int (wp_keepalive p)), (''is_enabled'', show_bool (wp_is_enabled p))]) @ ''}''"

definition update_peer :: "user \<Rightarrow> tenant \<Rightarrow> int \<Rightarrow> int \<Rightarrow> peer_update \<Rightarrow> db \<Rightarrow> (peer_view, db) result" where
  "update_peer cu ct i j b d =
     wg_guard ''wireguard:update'' cu ct d (\<lambda>_.
       case (find_peer j i d, find_tunnel i (t_id ct) d) of
         (Some p, Some t) \<Rightarrow>
           (let p1 = set_peer_fields b p
            in if \<exists>x \<in> set (wg_peers d). wp_id x \<noteq> j \<and> wp_tunnel_id x = i \<and> wp_name x = wp_name p1
               then raise (IntegrityError ''uq_wg_peer_tunnel_name'') d
               else ok (peer_to_dict p1)
                 (log_audit_event ((wg_audit cu ct ''WIREGUARD_PEER_UPDATE'' ''wireguard_peer'' j (wp_name p1))
                    \<lparr>a_old_value := Some (peer_fields p), a_new_value := Some (peer_fields p1)\<rparr>) None
                    (d\<lparr>wg_peers := upd_rows wp_id j (set_peer_fields b) (wg_peers d)\<rparr>)))
       | _ \<Rightarrow> http 404 ''Tunnel or peer not found'' d)"

definition delete_peer :: "user \<Rightarrow> tenant \<Rightarrow> int \<Rightarrow> int \<Rightarrow> db \<Rightarrow> (int \<times> int, db) result" where
  "delete_peer cu ct i j d =
     wg_guard ''wireguard:delete'' cu ct d (\<lambda>_.
       case (find_peer j i d, find_tunnel i (t_id ct) d) of
         (Some p, Some t) \<Rightarrow>
           ok (j, i) (send_task (DestroyWgPeer (t_id ct) i j (u_id cu) (u_username cu))
             (log_audit_event (wg_audit cu ct ''WIREGUARD_PEER_DELETE'' ''wireguard_peer'' j (wp_name p)) None d))
       | _ \<Rightarrow> http 404 ''Tunnel or peer not found'' d)"


section \<open>Correctness\<close>

lemma free_port_props:
  "p \<le> free_port ps p \<and> free_port ps p \<notin> set ps \<and> (\<forall>q. p \<le> q \<and> q < free_port ps p \<longrightarrow> q \<in> set ps)"
proof (induction ps p rule: free_port.induct)
  case (1 ps p)
  show ?case
  proof (cases "p \<in> set ps")
    case False
    then show ?thesis by (subst (1 2 3) free_port.simps) auto
  next
    case True
    then have "free_port ps p = free_port ps (p + 1)" by (subst free_port.simps) simp
    with 1 [OF True] True show ?thesis by (metis add1_zle_eq order.strict_trans1 zless_add1_eq order.order_iff_strict)
  qed
qed

lemma free_port_bound: "free_port ps p \<le> p + int (length ps)"
proof -
  have "{p..<free_port ps p} \<subseteq> set ps" using free_port_props [of p ps] by auto
  then have "card {p..<free_port ps p} \<le> card (set ps)" by (intro card_mono) auto
  also have "\<dots> \<le> length ps" by (rule card_length)
  finally show ?thesis by simp
qed

text \<open>
  The search for a listen port always ends: the port it finds is the least one, from the default
  on, that no active or provisioning tunnel of the tenant listens on, and lies at most as many places
  above the default as the tenant has tunnels.
\<close>

theorem chosen_port_least:
  assumes "\<not> truthy_id (tc_listen_port b)"
  shows "choose_port b ct d \<notin> set (used_ports (t_id ct) d) \<and> DEFAULT_LISTEN_PORT \<le> choose_port b ct d \<and>
    choose_port b ct d \<le> DEFAULT_LISTEN_PORT + int (length (wg_tunnels d)) \<and>
    {DEFAULT_LISTEN_PORT..<choose_port b ct d} \<subseteq> set (used_ports (t_id ct) d)"
proof -
  have "length (used_ports (t_id ct) d) \<le> length (wg_tunnels d)"
    unfolding used_ports_def by (metis (no_types, lifting) le_trans length_filter_le length_map)
  with free_port_bound [of "used_ports (t_id ct) d" DEFAULT_LISTEN_PORT]
    free_port_props [of DEFAULT_LISTEN_PORT "used_ports (t_id ct) d"]
  assms show ?thesis by (auto simp: choose_port_def or_default_def)
qed

subsection \<open>The tunnel subnets are a pool\<close>

definition free_wg_ids :: "db \<Rightarrow> int set" where
  "free_wg_ids d = wgp_id ` {r \<in> set (wg_pool d). wgp_status r = ''free''}"

definition wg_ids :: "db \<Rightarrow> int set" where
  "wg_ids d = wgp_id ` {r \<in> set (wg_pool d). True}"

lemma allocate_tunnel_subnet_Inr:
  assumes "allocate_tunnel_subnet lk now d = Inr (x, d')"
  obtains r where "r \<in> set (wg_pool d)" "wgp_status r = ''free''" "x = take_wg_subnet now r"
    "d' = d\<lparr>wg_pool := upd_rows wgp_id (wgp_id r) (take_wg_subnet now) (wg_pool d)\<rparr>"
  using assms by (auto simp: allocate_tunnel_subnet_def split: option.splits dest!: first_row_Some)

interpretation wg_subnets: resource_pool "\<lambda>d. distinct_keys wgp_id (wg_pool d)" free_wg_ids wg_ids
  "\<lambda>d. granted wgp_id (allocate_tunnel_subnet {} now d)" release_tunnel_subnet for now :: int
proof
  fix d :: db and k d'
  assume inv: "distinct_keys wgp_id (wg_pool d)"
  show "free_wg_ids d \<subseteq> wg_ids d" by (auto simp: free_wg_ids_def wg_ids_def)
  show "granted wgp_id (allocate_tunnel_subnet {} now d) = None \<longleftrightarrow> free_wg_ids d = {}"
    by (auto simp: granted_def allocate_tunnel_subnet_def free_wg_ids_def first_row_None split: option.splits dest: first_row_Some)
  show "k \<in> free_wg_ids d \<and> free_wg_ids d' = free_wg_ids d - {k} \<and> wg_ids d' = wg_ids d \<and> distinct_keys wgp_id (wg_pool d')"
    if some: "granted wgp_id (allocate_tunnel_subnet {} now d) = Some (k, d')"
  proof -
    from some obtain x where "allocate_tunnel_subnet {} now d = Inr (x, d')" "k = wgp_id x"
      by (auto simp: granted_def split: sum.splits)
    then obtain r where r: "r \<in> set (wg_pool d)" "wgp_status r = ''free''" "k = wgp_id r"
        "d' = d\<lparr>wg_pool := upd_rows wgp_id (wgp_id r) (take_wg_subnet now) (wg_pool d)\<rparr>"
      by (auto elim!: allocate_tunnel_subnet_Inr simp: take_wg_subnet_def)
    have "free_wg_ids d' = free_wg_ids d - {wgp_id r}" unfolding free_wg_ids_def r(4)
      by (simp, intro keys_lost inv r(1)) (use inv r in \<open>auto simp: take_wg_subnet_def distinct_keys_eq\<close>)
    moreover have "wg_ids d' = wg_ids d" unfolding wg_ids_def r(4)
      by (simp add: map_upd_rows take_wg_subnet_def flip: set_map)
    ultimately show ?thesis using r inv
      by (auto simp: free_wg_ids_def take_wg_subnet_def distinct_keys_upd_rows)
  qed
  assume "k \<in> wg_ids d"
  then obtain r where r: "r \<in> set (wg_pool d)" "k = wgp_id r" by (auto simp: wg_ids_def)
  have "free_wg_ids (release_tunnel_subnet k d) = insert (wgp_id r) (free_wg_ids d)"
    unfolding free_wg_ids_def release_tunnel_subnet_def r(2)
    by (simp, intro keys_gained inv r(1)) (simp_all add: give_wg_subnet_def)
  moreover have "wg_ids (release_tunnel_subnet k d) = wg_ids d" unfolding wg_ids_def release_tunnel_subnet_def
    by (simp add: map_upd_rows give_wg_subnet_def flip: set_map)
  ultimately show "free_wg_ids (release_tunnel_subnet k d) = insert k (free_wg_ids d) \<and>
      wg_ids (release_tunnel_subnet k d) = wg_ids d \<and> distinct_keys wgp_id (wg_pool (release_tunnel_subnet k d))"
    using r(2) inv by (simp add: release_tunnel_subnet_def give_wg_subnet_def distinct_keys_upd_rows)
qed


theorem tunnel_subnets_never_shared:
  assumes "distinct_keys wgp_id (wg_pool d)"
  shows "distinct (fst (pool_run (\<lambda>d. granted wgp_id (allocate_tunnel_subnet {} now d)) release_tunnel_subnet ops ([], d)))"
    and "set (fst (pool_run (\<lambda>d. granted wgp_id (allocate_tunnel_subnet {} now d)) release_tunnel_subnet ops ([], d))) \<inter>
      free_wg_ids (snd (pool_run (\<lambda>d. granted wgp_id (allocate_tunnel_subnet {} now d)) release_tunnel_subnet ops ([], d))) = {}"
  by (rule wg_subnets.no_double_allocation [OF assms])+

subsection \<open>Addresses of the peers of one tunnel\<close>

definition sample_tunnel :: wg_tunnel where
  "sample_tunnel =
     \<lparr>wt_id = 1, wt_tenant_id = 1, wt_name = ''vpn'', wt_opnsense_server_uuid = Some ''s1'', wt_listen_port = 51820,
      wt_mtu = 1420, wt_dns = None, wt_tunnel_address = ''10.200.0.1/24'', wt_cidr = ''10.200.0.0/24'',
      wt_gateway_ip = ''10.200.0.1'', wt_subnet_mask = 24, wt_pool_id = Some 1, wt_public_key = ''pub'',
      wt_private_key = ''priv'', wt_endpoint = Some ''192.0.2.1:51820'', wt_opt_interface = Some ''opt1'',
      wt_status = ''active'', wt_error = None, wt_peer_keepalive = 25, wt_is_enabled = True,
      wt_allowed_network_ids = Some []\<rparr>"

lemma chosen_port_least_witness:
  "\<exists>b ct d p. p = choose_port b ct d \<and> p = 51821 \<and> 51820 \<in> set (used_ports (t_id ct) d) \<and> p \<notin> set (used_ports (t_id ct) d)"
proof -
  let ?b = "\<lparr>tc_name = ''new'', tc_listen_port = None, tc_mtu = None, tc_dns = None, tc_endpoint = None,
    tc_peer_keepalive = None, tc_allowed_network_ids = []\<rparr>"
  let ?d = "empty_db\<lparr>wg_tunnels := [sample_tunnel]\<rparr>"
  let ?ct = "new_tenant 1 ''a'' ''a''"
  have none: "\<not> truthy_id (tc_listen_port ?b)" by (simp add: truthy_id_def)
  have used: "used_ports (t_id ?ct) ?d = [51820]" by code_simp
  have "{DEFAULT_LISTEN_PORT..<choose_port ?b ?ct ?d} \<subseteq> {51820}"
    "choose_port ?b ?ct ?d \<notin> {51820}" "DEFAULT_LISTEN_PORT \<le> choose_port ?b ?ct ?d"
    "choose_port ?b ?ct ?d \<le> DEFAULT_LISTEN_PORT + 1"
    using chosen_port_least [OF none, of ?ct ?d] by (simp_all add: used)
  then have "choose_port ?b ?ct ?d = 51821" by (simp add: DEFAULT_LISTEN_PORT_def)
  then have "choose_port ?b ?ct ?d = choose_port ?b ?ct ?d \<and> choose_port ?b ?ct ?d = 51821 \<and>
    51820 \<in> set (used_ports (t_id ?ct) ?d) \<and> choose_port ?b ?ct ?d \<notin> set (used_ports (t_id ?ct) ?d)"
    unfolding used by simp
  then show ?thesis by (intro exI)
qed

lemma taken_octet_bare: "CHR ''/'' \<notin> set (wp_allowed_ip p) \<Longrightarrow> taken_octet p = None"
  by (simp add: taken_octet_def)

lemma set_join: "set (join_with [d] ws) \<subseteq> insert d (\<Union> (set ` set ws))"
  by (induction "[d]" ws rule: join_with.induct) auto

lemma ipv4_text_no_slash: "parse_ipv4 s = Some a \<Longrightarrow> CHR ''/'' \<notin> set s"
proof
  assume p: "parse_ipv4 s = Some a" and "CHR ''/'' \<in> set s"
  then have "CHR ''/'' \<in> set (join_with [CHR ''.''] (split_on CHR ''.'' s))" by (simp add: join_split)
  with set_join [of "CHR ''.''" "split_on CHR ''.'' s"]
  obtain w where w: "w \<in> set (split_on CHR ''.'' s)" "CHR ''/'' \<in> set w" by fastforce
  then have "\<not> list_all is_digit w" using digit_not(4) by (auto simp: list_all_iff)
  then have "parse_octet w = None" by (simp add: parse_octet_def)
  with w(1) have "None \<in> set (map parse_octet (split_on CHR ''.'' s))" by force
  with p show False by (auto simp: parse_ipv4_def split: list.splits option.splits)
qed

lemma pick_address_no_slash: "pick_address base w taken ks = Inr (Some ip) \<Longrightarrow> CHR ''/'' \<notin> set ip"
  by (induction base w taken ks rule: pick_address.induct)
    (auto simp: Let_def dest: ipv4_text_no_slash split: if_splits option.splits)

lemma pick_address_taken:
  "taken - {None} = taken' - {None} \<Longrightarrow> pick_address base w taken ks = pick_address base w taken' ks"
  by (induction base w taken ks rule: pick_address.induct) (auto simp: Let_def split: option.splits)


lemma allocate_peer_ip_bare: "allocate_peer_ip d t = Inr ip \<Longrightarrow> CHR ''/'' \<notin> set ip"
  by (auto simp: allocate_peer_ip_def Let_def dest: pick_address_no_slash split: option.splits sum.splits)

lemma allocate_peer_ip_cong:
  assumes "set (map taken_octet (peers_of (wt_id t) d)) - {None} = set (map taken_octet (peers_of (wt_id t) d')) - {None}"
  shows "allocate_peer_ip d t = allocate_peer_ip d' t"
  by (simp only: allocate_peer_ip_def Let_def pick_address_taken [OF assms])

definition bare_peers :: "db \<Rightarrow> bool" where
  "bare_peers d = list_all (\<lambda>p. CHR ''/'' \<notin> set (wp_allowed_ip p)) (wg_peers d)"

text \<open>
  Addresses are stored without a prefix length, but the allocator only counts those stored with one.
  So it gives every peer of a tunnel the address it gave the first, and no tunnel is ever full.
\<close>

theorem peers_share_one_address:
  assumes "bare_peers d" "allocate_peer_ip d t = Inr ip"
  shows "allocate_peer_ip (d\<lparr>wg_peers := wg_peers d @ [p\<lparr>wp_tunnel_id := wt_id t, wp_allowed_ip := ip\<rparr>]\<rparr>) t = Inr ip \<and>
    bare_peers (d\<lparr>wg_peers := wg_peers d @ [p\<lparr>wp_tunnel_id := wt_id t, wp_allowed_ip := ip\<rparr>]\<rparr>)"
proof -
  let ?q = "p\<lparr>wp_tunnel_id := wt_id t, wp_allowed_ip := ip\<rparr>"
  have "taken_octet ?q = None" using allocate_peer_ip_bare [OF assms(2)] by (simp add: taken_octet_bare)
  then have "allocate_peer_ip (d\<lparr>wg_peers := wg_peers d @ [?q]\<rparr>) t = allocate_peer_ip d t"
    by (intro allocate_peer_ip_cong) (auto simp: peers_of_def)
  then show ?thesis using assms allocate_peer_ip_bare [OF assms(2)] by (simp add: bare_peers_def)
qed

lemma peers_share_one_address_witness:
  "\<exists>(d :: db) t p ip. allocate_peer_ip d t = Inr ip \<and>
     allocate_peer_ip (d\<lparr>wg_peers := wg_peers d @ [p\<lparr>wp_tunnel_id := wt_id t, wp_allowed_ip := ip\<rparr>]\<rparr>) t = Inr ip"
proof -
  have "parse_network (wt_cidr sample_tunnel) = Some \<lparr>net_base = 180879360, net_prefix = 24\<rparr>"
    "parse_ipv4 ''10.200.0.2'' = Some 180879362"
    "in_network 180879362 \<lparr>net_base = 180879360, net_prefix = 24\<rparr>"
    by (simp_all add: sample_tunnel_def parse_ipv4_def parse_network_def parse_octet_def block_size_def nat_of_digits_def
        digit_val_def is_digit_def in_network_def broadcast_address_def)
  moreover have "before CHR ''/'' (wt_gateway_ip sample_tunnel) = ''10.200.0.1''"
    "last_octet_text ''10.200.0.1'' = Some ''1''" "py_int ''1'' = Some 1"
    "join_with ''.'' (take 3 (split_on CHR ''.'' ''10.200.0.1'')) = ''10.200.0''"
    "show_int 2 = ''2''"
    "peers_of (wt_id sample_tunnel) empty_db = []"
    by code_simp+
  moreover have "[2..254] = 2 # [3..254::int]" by (subst upto_rec1) simp_all
  ultimately have got: "allocate_peer_ip empty_db sample_tunnel = Inr ''10.200.0.2''"
    by (simp add: allocate_peer_ip_def Let_def del: upto_rec_numeral)
  have "bare_peers empty_db" by code_simp
  from peers_share_one_address [OF this got] got show ?thesis by blast
qed

text \<open>
  A list of peers never shows their state: the answer is built without the status and the error, so
  every peer is reported as pending, whatever its row says.
\<close>

theorem listed_peers_look_pending:
  assumes "list_peers cu ct i d = (Inr ps, d')" "w \<in> set ps"
  shows "pw_status w = ''pending'' \<and> pw_error w = None \<and>
    (\<exists>p \<in> set (wg_peers d). wp_tunnel_id p = i \<and> wp_id p = pw_id w \<and> wp_name p = pw_name w)"
  using assms
  by (force simp: list_peers_def wg_guard_def peer_to_dict_def peer_view_of_def peers_of_def split: if_splits option.splits)

end
