(* ===== verification/Guest_Exec.thy ===== *)
theory Guest_Exec
  imports Json Vm_Service
begin

text \<open>
  Running a command in a machine through the guest agent: \<open>_wait_for_guest_agent\<close>, \<open>exec_in_vm\<close> and
  \<open>_wait_for_exec_output\<close> of \<open>app/providers/proxmox.py\<close>.

  The Proxmox API (\<open>_api\<close>) is a parameter: it takes the method, the path and the data, and acts on a
  world \<open>'w\<close>. The loops with a deadline are bounded by the number of rounds that fit before it
  (\<open>gx_pings\<close>, \<open>gx_polls\<close>: 120 seconds in steps of 3, 60 seconds in steps of 2). The set of machines
  whose agent has answered is part of the state.
\<close>

type_synonym 'w proxmox_call = "string \<Rightarrow> string \<Rightarrow> json \<Rightarrow> 'w \<Rightarrow> (json, 'w) result"

record 'w guest_env =
  gx_api :: "'w proxmox_call"
  gx_node :: string
  gx_pings :: nat
  gx_polls :: nat

record exec_result =
  xr_out :: string
  xr_err :: string
  xr_exitcode :: int

type_synonym 'w agent_state = "int set \<times> 'w"

definition agent_path :: "string \<Rightarrow> int \<Rightarrow> string \<Rightarrow> string" where
  "agent_path node vm what = ''nodes/'' @ node @ ''/qemu/'' @ show_int vm @ ''/agent/'' @ what"

section \<open>Values of a response\<close>

text \<open>\<open>d.get(k)\<close>: a missing key and a null are both \<open>None\<close>; \<open>truthy_json\<close> is Python's truth.\<close>

definition json_get :: "string \<Rightarrow> json \<Rightarrow> json" where
  "json_get k j = (case j of JObj ms \<Rightarrow> (case member k ms of None \<Rightarrow> JNull | Some v \<Rightarrow> v) | _ \<Rightarrow> JNull)"

definition json_has :: "string \<Rightarrow> json \<Rightarrow> bool" where
  "json_has k j = (case j of JObj ms \<Rightarrow> member k ms \<noteq> None | _ \<Rightarrow> False)"

fun truthy_json :: "json \<Rightarrow> bool" where
  "truthy_json JNull = False"
| "truthy_json (JBool b) = b"
| "truthy_json (JInt i) = (i \<noteq> 0)"
| "truthy_json (JFloat m e) = (m \<noteq> 0)"
| "truthy_json JNonFinite = True"
| "truthy_json (JStr s) = (s \<noteq> [])"
| "truthy_json (JArr xs) = (xs \<noteq> [])"
| "truthy_json (JObj ms) = (ms \<noteq> [])"

fun json_text :: "json \<Rightarrow> string" where
  "json_text (JStr s) = s"
| "json_text _ = []"

fun json_int :: "json \<Rightarrow> int" where
  "json_int (JInt i) = i"
| "json_int _ = 0"

text \<open>\<open>repr\<close> of a value; a number with a fraction is printed with its exponent.\<close>

fun py_repr :: "json \<Rightarrow> string" where
  "py_repr JNull = ''None''"
| "py_repr (JBool b) = (if b then ''True'' else ''False'')"
| "py_repr (JInt i) = show_int i"
| "py_repr (JFloat m e) = show_int m @ ''e'' @ show_int e"
| "py_repr JNonFinite = ''nan''"
| "py_repr (JStr s) = repr_str s"
| "py_repr (JArr vs) = ''['' @ join_with '', '' (map py_repr vs) @ '']''"
| "py_repr (JObj ms) = ''{'' @ join_with '', '' (map (\<lambda>(k, v). repr_str k @ '': '' @ py_repr v) ms) @ ''}''"

section \<open>Waiting for the agent\<close>

fun ping_loop :: "'w guest_env \<Rightarrow> int \<Rightarrow> nat \<Rightarrow> bool \<Rightarrow> 'w agent_state \<Rightarrow> (unit, 'w agent_state) result" where
  "ping_loop env vm 0 once s = raise (OtherError (''Guest agent on VM '' @ show_int vm @ '' did not respond within 120s'')) s"
| "ping_loop env vm (Suc n) once (agents, w) =
     (case gx_api env ''POST'' (agent_path (gx_node env) vm ''ping'') JNull w of
        (Inl e, w') \<Rightarrow> ping_loop env vm n False (agents, w')
      | (Inr r, w') \<Rightarrow> (if once then ok () (insert vm agents, w') else ping_loop env vm n True (agents, w')))"

definition wait_for_guest_agent :: "'w guest_env \<Rightarrow> int \<Rightarrow> 'w agent_state \<Rightarrow> (unit, 'w agent_state) result" where
  "wait_for_guest_agent env vm s = (if vm \<in> fst s then ok () s else ping_loop env vm (gx_pings env) False s)"

section \<open>Running a command\<close>

definition output_of :: "json \<Rightarrow> exec_result" where
  "output_of r = \<lparr>xr_out = json_text (json_get ''out-data'' r), xr_err = json_text (json_get ''err-data'' r),
     xr_exitcode = json_int (json_get ''exitcode'' r)\<rparr>"

text \<open>A \<open>RuntimeError\<close> ends the wait, any other exception is one more round.\<close>

fun poll_output :: "'w guest_env \<Rightarrow> string \<Rightarrow> int \<Rightarrow> json \<Rightarrow> nat \<Rightarrow> 'w agent_state \<Rightarrow> (exec_result, 'w agent_state) result" where
  "poll_output env node vm pid 0 s = raise (OtherError ''Command execution timed out after 60s'') s"
| "poll_output env node vm pid (Suc n) (agents, w) =
     (case gx_api env ''GET'' (agent_path node vm ''exec-status'') (JObj [(''pid'', pid)]) w of
        (Inl (RuntimeError m), w') \<Rightarrow> raise (RuntimeError m) (agents, w')
      | (Inl e, w') \<Rightarrow> poll_output env node vm pid n (agents, w')
      | (Inr r, w') \<Rightarrow>
          (if truthy_json (json_get ''exited'' r) then ok (output_of r) (agents, w')
           else poll_output env node vm pid n (agents, w')))"

definition exec_body :: "string \<Rightarrow> json" where
  "exec_body command = JObj [(''command'', JArr [JStr ''/bin/sh'', JStr ''-c'', JStr command])]"

definition exec_attempt :: "'w guest_env \<Rightarrow> string \<Rightarrow> int \<Rightarrow> string \<Rightarrow> 'w agent_state \<Rightarrow> (exec_result, 'w agent_state) result" where
  "exec_attempt env node vm command s =
     (case gx_api env ''POST'' (agent_path node vm ''exec'') (exec_body command) (snd s) of
        (Inl e, w') \<Rightarrow> raise e (fst s, w')
      | (Inr r, w') \<Rightarrow>
          (if \<not> truthy_json (json_get ''pid'' r) then raise (RuntimeError ''No PID returned from exec command'') (fst s, w')
           else poll_output env node vm (json_get ''pid'' r) (gx_polls env) (fst s, w')))"

definition exec_retryable :: "string \<Rightarrow> bool" where
  "exec_retryable m \<longleftrightarrow> list_ex (contains_str (lower m)) [''broken pipe'', ''not running'', ''500'', ''596'']"

text \<open>At most three attempts; the waits between them leave no trace.\<close>

fun exec_tries :: "nat \<Rightarrow> 'w guest_env \<Rightarrow> string \<Rightarrow> int \<Rightarrow> string \<Rightarrow> 'w agent_state \<Rightarrow> (exec_result, 'w agent_state) result" where
  "exec_tries 0 env node vm command s = raise (RuntimeError ''Exec failed after 3 attempts'') s"
| "exec_tries (Suc n) env node vm command s =
     (case exec_attempt env node vm command s of
        (Inr r, s') \<Rightarrow> ok r s'
      | (Inl e, s') \<Rightarrow>
          (if exec_retryable (exc_str e) \<and> 0 < n then exec_tries n env node vm command s'
           else raise (RuntimeError (''Failed to execute command: '' @ exc_str e)) s'))"

definition exec_in_vm :: "'w guest_env \<Rightarrow> string \<Rightarrow> int \<Rightarrow> string \<Rightarrow> bool \<Rightarrow> 'w agent_state \<Rightarrow> (exec_result, 'w agent_state) result" where
  "exec_in_vm env node vm command skip_check s =
     then_do (if skip_check then ok () s else wait_for_guest_agent env vm s)
       (\<lambda>_ s'. exec_tries 3 env (if node = [] then gx_node env else node) vm command s')"

section \<open>Correctness\<close>

text \<open>
  A measure of the world that counts what one kind of call does to it: \<open>counts\<close> says that a call adds
  one when it is a POST to the \<open>exec\<close> path and nothing otherwise.
\<close>

definition counts :: "('w \<Rightarrow> nat) \<Rightarrow> 'w guest_env \<Rightarrow> string \<Rightarrow> int \<Rightarrow> bool" where
  "counts f env node vm \<longleftrightarrow> (\<forall>m p j w. f (snd (gx_api env m p j w)) =
     f w + (if m = ''POST'' \<and> p = agent_path node vm ''exec'' then 1 else 0))"

lemma countsD: "counts f env node vm \<Longrightarrow> gx_api env m p j w = (x, w') \<Longrightarrow>
    f w' = f w + (if m = ''POST'' \<and> p = agent_path node vm ''exec'' then 1 else 0)"
  unfolding counts_def by (metis snd_conv)

lemma agent_path_kind: "agent_path n v k = agent_path n' v k' \<Longrightarrow> n = n' \<Longrightarrow> k = k'"
  by (simp add: agent_path_def)

lemma poll_output_counts:
  "counts f env node vm \<Longrightarrow> f (snd (snd (poll_output env node vm pid n s))) = f (snd s)"
proof (induction n arbitrary: s)
  case 0
  then show ?case by simp
next
  case (Suc n)
  obtain agents w where s: "s = (agents, w)" by (cases s)
  obtain x w' where x: "gx_api env ''GET'' (agent_path node vm ''exec-status'') (JObj [(''pid'', pid)]) w = (x, w')"
    by (metis surj_pair)
  have "f w' = f w" using countsD [OF Suc.prems x] by simp
  then show ?case using Suc.IH [OF Suc.prems, of "(agents, w')"]
    by (simp add: s x split: sum.splits py_exc.splits)
qed

lemma exec_attempt_counts:
  assumes "counts f env node vm"
  shows "f (snd (snd (exec_attempt env node vm command s))) = f (snd s) + 1"
proof -
  obtain x w' where x: "gx_api env ''POST'' (agent_path node vm ''exec'') (exec_body command) (snd s) = (x, w')"
    by (metis surj_pair)
  have "f w' = f (snd s) + 1" using countsD [OF assms x] by simp
  then show ?thesis using poll_output_counts [OF assms]
    by (simp add: exec_attempt_def x split: sum.splits)
qed

lemma exec_tries_counts:
  "counts f env node vm \<Longrightarrow> f (snd (snd (exec_tries n env node vm command s))) \<le> f (snd s) + n"
proof (induction n arbitrary: s)
  case 0
  then show ?case by simp
next
  case (Suc n)
  obtain x s' where x: "exec_attempt env node vm command s = (x, s')" by (metis surj_pair)
  have "f (snd s') = f (snd s) + 1" using exec_attempt_counts [OF Suc.prems, of command s] by (simp add: x)
  with Suc.IH [OF Suc.prems, of s'] show ?case by (auto simp: x split: sum.splits)
qed

text \<open>
  A command given to a machine is started at least once and at most three times once its agent is
  known to answer: the retries bound how often, but nothing makes a command that was started and then
  lost run only once.
\<close>

theorem command_started_at_most_thrice:
  assumes "counts f env (if node = [] then gx_node env else node) vm" "vm \<in> fst s"
  shows "f (snd s) < f (snd (snd (exec_in_vm env node vm command skip s))) \<and>
    f (snd (snd (exec_in_vm env node vm command skip s))) \<le> f (snd s) + 3"
proof -
  define nd where "nd = (if node = [] then gx_node env else node)"
  have c: "counts f env nd vm" using assms(1) by (simp add: nd_def)
  have run: "exec_in_vm env node vm command skip s = exec_tries 3 env nd vm command s"
    using assms(2) by (simp add: exec_in_vm_def wait_for_guest_agent_def nd_def)
  have mono: "f (snd t) \<le> f (snd (snd (exec_tries n env nd vm command t)))" for n t
  proof (induction n arbitrary: t)
    case (Suc n)
    obtain x s' where x: "exec_attempt env nd vm command t = (x, s')" by (metis surj_pair)
    have "f (snd s') = f (snd t) + 1" using exec_attempt_counts [OF c, of command t] by (simp add: x)
    with Suc.IH [of s'] show ?case by (auto simp: x split: sum.splits)
  qed simp
  obtain x s' where x: "exec_attempt env nd vm command s = (x, s')" by (metis surj_pair)
  have "f (snd s') = f (snd s) + 1" using exec_attempt_counts [OF c, of command s] by (simp add: x)
  with mono [of s' 2] have "f (snd s) < f (snd (snd (exec_tries 3 env nd vm command s)))"
    by (auto simp: x eval_nat_numeral split: sum.splits)
  with exec_tries_counts [OF c, of 3 command s] show ?thesis by (simp add: run)
qed

text \<open>A Proxmox that keeps a log of the calls and loses the first answer.\<close>

definition flaky_env :: "(string \<times> string) list guest_env" where
  "flaky_env = \<lparr>gx_api = (\<lambda>m p j w. (if m = ''POST'' then Inr (JObj [(''pid'', JInt 7)])
       else if length w < 2 then Inl (RuntimeError ''500 Server Error'')
       else Inr (JObj [(''exited'', JInt 1), (''out-data'', JStr ''ok'')]), (m, p) # w)),
     gx_node = ''pve'', gx_pings = 40, gx_polls = 30\<rparr>"

definition exec_starts :: "(string \<times> string) list \<Rightarrow> nat" where
  "exec_starts w = length (filter (\<lambda>c. c = (''POST'', agent_path ''pve'' 5 ''exec'')) w)"

lemma command_started_at_most_thrice_witness:
  "exec_starts (snd (snd (exec_in_vm flaky_env ''pve'' 5 ''id'' False ({5}, [])))) = 2 \<and>
   exec_starts (snd (snd (exec_in_vm flaky_env ''pve'' 5 ''id'' False ({5}, [])))) \<le> 3"
proof -
  have "counts exec_starts flaky_env (if ''pve'' = [] then gx_node flaky_env else ''pve'') 5"
    by (simp add: counts_def exec_starts_def flaky_env_def)
  moreover have "(5 :: int) \<in> fst ({5}, [])" by simp
  ultimately have "exec_starts (snd (snd (exec_in_vm flaky_env ''pve'' 5 ''id'' False ({5}, [])))) \<le> exec_starts (snd ({5 :: int}, [])) + 3"
    by (rule command_started_at_most_thrice [THEN conjunct2])
  moreover have "exec_starts (snd (snd (exec_in_vm flaky_env ''pve'' 5 ''id'' False ({5}, [])))) = 2" by code_simp
  ultimately show ?thesis by (simp add: exec_starts_def)
qed

end
