(* ===== verification/Opnsense_Api.thy ===== *)
theory Opnsense_Api
  imports Guest_Exec
begin

text \<open>
  Calls to the API of a tenant's firewall: \<open>exec_opnsense_api\<close> of \<open>app/workers/tasks/helpers.py\<close>, which
  runs \<open>curl\<close> inside the machine, and the \<open>OPNsenseFirewallProvider\<close> of
  \<open>app/providers/firewall_provider.py\<close>, which is built on it.

  How a command is run in a machine is a parameter \<open>run\<close> (\<open>exec_in_vm\<close> of \<open>Guest_Exec\<close> is one); the
  firewall behind it is the world \<open>'w\<close>. The position in the message of a JSON error is left out.
  The first theorem says what the shell makes of the command line.
\<close>

section \<open>shlex.quote\<close>

definition shell_safe :: "char \<Rightarrow> bool" where
  "shell_safe c \<longleftrightarrow> is_digit c \<or> is_lower c \<or> is_upper c \<or> c \<in> set ''_@%+=:,./-''"

definition shlex_quote :: "string \<Rightarrow> string" where
  "shlex_quote s =
     (if s = [] then [quote_char, quote_char]
      else if list_all shell_safe s then s
      else [quote_char] @ replace_char quote_char [quote_char, dquote_char, quote_char, dquote_char, quote_char] s @ [quote_char])"

section \<open>exec_opnsense_api\<close>

type_synonym 'w vm_run = "int \<Rightarrow> string \<Rightarrow> 'w \<Rightarrow> (exec_result, 'w) result"

definition content_type_arg :: string where
  "content_type_arg = [quote_char] @ ''Content-Type: application/json'' @ [quote_char]"

definition api_command :: "string \<Rightarrow> string \<Rightarrow> string \<Rightarrow> string \<Rightarrow> json \<Rightarrow> string" where
  "api_command meth path key secret body =
     ''curl -sk -u '' @ shlex_quote key @ '':'' @ shlex_quote secret @
     (if upper meth = ''GET'' then ''''
      else '' -X '' @ upper meth @
        (if truthy_json body
         then '' -H '' @ content_type_arg @ '' -d '' @ shlex_quote (json_dump '', '' '': '' body) else '''')) @
     '' https://localhost/api/'' @ shlex_quote (dropWhile (\<lambda>c. c = CHR ''/'') path)"

definition api_answer :: "int \<Rightarrow> string \<Rightarrow> exec_result \<Rightarrow> py_exc + json" where
  "api_answer vm cmd r =
     (let out = strip (xr_out r); err = strip (xr_err r)
      in if xr_exitcode r \<noteq> 0
           then Inl (RuntimeError (''OPNSense API call failed on VM '' @ show_int vm @ '': exit='' @ show_int (xr_exitcode r) @
             '' cmd='' @ take 100 cmd @ ''... out='' @ take 200 out @ '' err='' @ take 200 err))
         else if out = [] then Inr (JObj [])
         else case loads out of
           Some j \<Rightarrow> Inr j
         | None \<Rightarrow> Inl (RuntimeError (''Failed to parse OPNsense response on VM '' @ show_int vm @ '': response='' @ take 500 out)))"

text \<open>A key or secret that is not set makes \<open>shlex.quote\<close> raise a \<open>TypeError\<close>.\<close>

definition exec_opnsense_api ::
  "'w vm_run \<Rightarrow> int \<Rightarrow> string \<Rightarrow> string \<Rightarrow> string option \<Rightarrow> string option \<Rightarrow> json \<Rightarrow> 'w \<Rightarrow> (json, 'w) result" where
  "exec_opnsense_api run vm meth path key secret body w =
     (case (key, secret) of
        (Some k, Some s) \<Rightarrow>
          then_do (run vm (api_command meth path k s body) w)
            (\<lambda>r w'. (api_answer vm (api_command meth path k s body) r, w'))
      | _ \<Rightarrow> raise (OtherError ''expected string or bytes-like object, got NoneType'') w)"

section \<open>OPNsenseFirewallProvider\<close>

text \<open>
  \<open>fw_exec\<close> is \<open>_exec\<close> with the credentials of the tenant. A response that is not an object has no
  method \<open>get\<close>.
\<close>

definition fw_exec :: "'w vm_run \<Rightarrow> tenant \<Rightarrow> string \<Rightarrow> string \<Rightarrow> json \<Rightarrow> 'w \<Rightarrow> (json, 'w) result" where
  "fw_exec run t meth path body w =
     exec_opnsense_api run (case t_opnsense_vm_id t of None \<Rightarrow> 0 | Some v \<Rightarrow> v) meth path
       (t_opnsense_api_key t) (t_opnsense_api_secret t) body w"

definition wg_exec :: "'w vm_run \<Rightarrow> tenant \<Rightarrow> string \<Rightarrow> string \<Rightarrow> json \<Rightarrow> 'w \<Rightarrow> (json, 'w) result" where
  "wg_exec run t meth path body w = fw_exec run t meth (''wireguard/'' @ path) body w"

fun type_name :: "json \<Rightarrow> string" where
  "type_name JNull = ''NoneType''"
| "type_name (JBool b) = ''bool''"
| "type_name (JInt i) = ''int''"
| "type_name (JFloat m e) = ''float''"
| "type_name JNonFinite = ''float''"
| "type_name (JStr s) = ''str''"
| "type_name (JArr xs) = ''list''"
| "type_name (JObj ms) = ''dict''"

definition dict_of :: "json \<Rightarrow> py_exc + json" where
  "dict_of j = (case j of JObj ms \<Rightarrow> Inr j
     | _ \<Rightarrow> Inl (AttributeError ([quote_char] @ type_name j @ [quote_char] @ '' object has no attribute '' @ [quote_char] @ ''get'' @ [quote_char])))"

definition as_dict :: "(json, 'w) result \<Rightarrow> (json, 'w) result" where
  "as_dict r = then_do r (\<lambda>j w. (dict_of j, w))"

definition rejected :: "string \<Rightarrow> json \<Rightarrow> py_exc" where
  "rejected what j = RuntimeError (''OPNsense '' @ what @ '' rejected: result='' @ py_repr (json_get ''result'' j) @
     '' validations='' @ (if json_has ''validations'' j then py_repr (json_get ''validations'' j) else ''{}''))"

definition jstr :: "string \<Rightarrow> json \<Rightarrow> bool" where
  "jstr s j = (case j of JStr t \<Rightarrow> t = s | _ \<Rightarrow> False)"

definition saved_uuid :: "string \<Rightarrow> json \<Rightarrow> py_exc + string" where
  "saved_uuid what j =
     (if jstr ''saved'' (json_get ''result'' j) \<and> truthy_json (json_get ''uuid'' j) then Inr (json_text (json_get ''uuid'' j))
      else Inl (rejected what j))"

subsection \<open>Rules\<close>

definition search_body :: json where
  "search_body = JObj [(''current'', JInt 1), (''rowCount'', JInt 1000), (''sort'', JObj [])]"

definition rule_rows :: "json \<Rightarrow> json" where
  "rule_rows j = (if json_has ''rows'' j then json_get ''rows'' j else JArr [])"

definition provider_list_rules :: "'w vm_run \<Rightarrow> tenant \<Rightarrow> 'w \<Rightarrow> (json, 'w) result" where
  "provider_list_rules run t w =
     then_do (as_dict (fw_exec run t ''POST'' ''firewall/filter/search_rule/'' search_body w)) (\<lambda>j. ok (rule_rows j))"

definition provider_add_rule :: "'w vm_run \<Rightarrow> tenant \<Rightarrow> json \<Rightarrow> 'w \<Rightarrow> (string, 'w) result" where
  "provider_add_rule run t payload w =
     then_do (as_dict (fw_exec run t ''POST'' ''firewall/filter/add_rule/'' (JObj [(''rule'', payload)]) w))
       (\<lambda>j w'. (saved_uuid ''add_rule'' j, w'))"

definition provider_set_rule :: "'w vm_run \<Rightarrow> tenant \<Rightarrow> string \<Rightarrow> json \<Rightarrow> 'w \<Rightarrow> (unit, 'w) result" where
  "provider_set_rule run t uuid payload w =
     then_do (as_dict (fw_exec run t ''POST'' (''firewall/filter/set_rule/'' @ uuid) (JObj [(''rule'', payload)]) w))
       (\<lambda>j. if jstr ''saved'' (json_get ''result'' j) then ok () else raise (rejected (''set_rule '' @ uuid) j))"

definition provider_del_rule :: "'w vm_run \<Rightarrow> tenant \<Rightarrow> string \<Rightarrow> 'w \<Rightarrow> (unit, 'w) result" where
  "provider_del_rule run t uuid w =
     then_do (as_dict (fw_exec run t ''POST'' (''firewall/filter/del_rule/'' @ uuid) (JObj []) w))
       (\<lambda>j. if jstr ''deleted'' (json_get ''result'' j) then ok () else raise (rejected (''del_rule '' @ uuid) j))"

definition provider_move_before :: "'w vm_run \<Rightarrow> tenant \<Rightarrow> string \<Rightarrow> string \<Rightarrow> 'w \<Rightarrow> (unit, 'w) result" where
  "provider_move_before run t uuid ref w =
     then_do (as_dict (fw_exec run t ''POST'' (''firewall/filter/move_rule_before/'' @ uuid @ ''/'' @ ref) (JObj []) w))
       (\<lambda>j. if jstr ''ok'' (json_get ''status'' j) then ok ()
            else raise (RuntimeError (''OPNsense move_rule_before failed: '' @ py_repr j)))"

definition provider_apply_rules :: "'w vm_run \<Rightarrow> tenant \<Rightarrow> 'w \<Rightarrow> (json, 'w) result" where
  "provider_apply_rules run t w = fw_exec run t ''POST'' ''firewall/filter/apply'' (JObj []) w"

definition provider_interface_list :: "'w vm_run \<Rightarrow> tenant \<Rightarrow> 'w \<Rightarrow> (json, 'w) result" where
  "provider_interface_list run t w =
     then_do (as_dict (fw_exec run t ''GET'' ''firewall/filter/get_interface_list'' JNull w))
       (\<lambda>j w1. then_do (as_dict (ok (if json_has ''interfaces'' j then json_get ''interfaces'' j else JObj []) w1))
          (\<lambda>i. ok (if json_has ''items'' i then json_get ''items'' i else JArr [])))"

subsection \<open>WireGuard\<close>

definition generate_keypair :: "'w vm_run \<Rightarrow> tenant \<Rightarrow> 'w \<Rightarrow> (string \<times> string, 'w) result" where
  "generate_keypair run t w =
     then_do (wg_exec run t ''GET'' ''server/key_pair'' JNull w) (\<lambda>j w1.
       let empty_pair = RuntimeError (''OPNsense key_pair returned empty: '' @ py_repr j)
       in if \<not> truthy_json j then raise empty_pair w1
          else then_do (as_dict (ok j w1)) (\<lambda>j w2.
            if truthy_json (json_get ''privkey'' j) \<and> truthy_json (json_get ''pubkey'' j)
            then ok (json_text (json_get ''privkey'' j), json_text (json_get ''pubkey'' j)) w2
            else raise empty_pair w2))"

definition wg_general_enable :: "'w vm_run \<Rightarrow> tenant \<Rightarrow> bool \<Rightarrow> 'w \<Rightarrow> (json, 'w) result" where
  "wg_general_enable run t b w =
     wg_exec run t ''POST'' ''general/set'' (JObj [(''general'', JObj [(''enabled'', JStr (if b then ''1'' else ''0''))])]) w"

definition wg_service_reconfigure :: "'w vm_run \<Rightarrow> tenant \<Rightarrow> 'w \<Rightarrow> (json, 'w) result" where
  "wg_service_reconfigure run t w = wg_exec run t ''POST'' ''service/reconfigure'' (JObj []) w"

definition server_payload :: "string \<Rightarrow> string \<Rightarrow> string \<Rightarrow> int \<Rightarrow> string \<Rightarrow> int \<Rightarrow> json" where
  "server_payload nm pub priv port addr mtu =
     JObj [(''server'', JObj (map (\<lambda>(k, v). (k, JStr v))
       [(''enabled'', ''1''), (''name'', nm), (''pubkey'', pub), (''privkey'', priv), (''port'', show_int port),
        (''mtu'', show_int mtu), (''dns'', ''''), (''tunneladdress'', addr), (''carp_depend_on'', ''''), (''peers'', ''''),
        (''disableroutes'', ''0''), (''gateway'', ''''), (''debug'', ''0'')]))]"

definition add_wg_server ::
  "'w vm_run \<Rightarrow> tenant \<Rightarrow> string \<Rightarrow> string \<Rightarrow> string \<Rightarrow> int \<Rightarrow> string \<Rightarrow> int \<Rightarrow> 'w \<Rightarrow> (string, 'w) result" where
  "add_wg_server run t nm pub priv port addr mtu w =
     then_do (as_dict (wg_exec run t ''POST'' ''server/add_server/'' (server_payload nm pub priv port addr mtu) w))
       (\<lambda>j w'. (saved_uuid ''add_server'' j, w'))"

definition set_wg_server_endpoint :: "'w vm_run \<Rightarrow> tenant \<Rightarrow> string \<Rightarrow> string \<Rightarrow> 'w \<Rightarrow> (json, 'w) result" where
  "set_wg_server_endpoint run t uuid ep w =
     wg_exec run t ''POST'' (''server/set_server/'' @ uuid)
       (JObj [(''server'', JObj [(''endpoint'', JStr ep), (''peer_dns'', JStr '''')])]) w"

text \<open>The elements a \<open>for\<close> loop takes from a value; a member of an object that is no row has no \<open>get\<close>.\<close>

definition iter_rows :: "json \<Rightarrow> py_exc + json list" where
  "iter_rows j =
     (case j of JArr xs \<Rightarrow> Inr xs | JObj ms \<Rightarrow> Inr (map (\<lambda>m. JStr (fst m)) ms) | JStr s \<Rightarrow> Inr (map (\<lambda>c. JStr [c]) s)
      | _ \<Rightarrow> Inl (OtherError ([quote_char] @ type_name j @ [quote_char] @ '' object is not iterable'')))"

fun find_device :: "string \<Rightarrow> json list \<Rightarrow> py_exc + string option" where
  "find_device uuid [] = Inr None"
| "find_device uuid (r # rs) =
     (case dict_of r of
        Inl e \<Rightarrow> Inl e
      | Inr _ \<Rightarrow>
          (if jstr uuid (json_get ''uuid'' r) \<and> truthy_json (json_get ''interface'' r)
           then Inr (Some (json_text (json_get ''interface'' r))) else find_device uuid rs))"

definition get_wg_device_name :: "'w vm_run \<Rightarrow> tenant \<Rightarrow> string \<Rightarrow> 'w \<Rightarrow> (string, 'w) result" where
  "get_wg_device_name run t uuid w =
     then_do (as_dict (wg_exec run t ''POST'' ''server/search_server''
       (JObj [(''current'', JInt 1), (''rowCount'', JInt 50), (''sort'', JObj [])]) w)) (\<lambda>j w'.
       case iter_rows (rule_rows j) of
         Inl e \<Rightarrow> raise e w'
       | Inr rs \<Rightarrow>
           (case find_device uuid rs of
              Inl e \<Rightarrow> raise e w'
            | Inr (Some i) \<Rightarrow> ok i w'
            | Inr None \<Rightarrow> raise (RuntimeError (''WireGuard server '' @ uuid @ '' not found in search_server response'')) w'))"

definition del_wg_server :: "'w vm_run \<Rightarrow> tenant \<Rightarrow> string \<Rightarrow> 'w \<Rightarrow> (unit, 'w) result" where
  "del_wg_server run t uuid w =
     then_do (as_dict (wg_exec run t ''POST'' (''server/del_server/'' @ uuid) (JObj []) w))
       (\<lambda>j. if jstr ''deleted'' (json_get ''result'' j) then ok ()
            else raise (RuntimeError (''OPNsense del_server '' @ uuid @ '' rejected: '' @ py_repr j)))"

definition client_payload :: "string \<Rightarrow> string \<Rightarrow> string \<Rightarrow> string \<Rightarrow> string \<Rightarrow> int \<Rightarrow> string \<Rightarrow> json" where
  "client_payload server nm pub psk addr keepalive ep =
     JObj [(''configbuilder'', JObj (map (\<lambda>(k, v). (k, JStr v))
       [(''enabled'', ''1''), (''name'', nm), (''pubkey'', pub), (''psk'', psk), (''tunneladdress'', addr),
        (''keepalive'', show_int keepalive), (''server'', server), (''endpoint'', ep)]))]"

fun find_client :: "string \<Rightarrow> json list \<Rightarrow> json option" where
  "find_client pub [] = None"
| "find_client pub (r # rs) = (if jstr pub (json_get ''pubkey'' r) then Some (json_get ''uuid'' r) else find_client pub rs)"

text \<open>
  The branch for a client that cannot be found again builds its message from a variable \<open>clients\<close> that
  is never set, so that it raises a \<open>NameError\<close> instead.
\<close>

definition add_wg_client ::
  "'w vm_run \<Rightarrow> tenant \<Rightarrow> string \<Rightarrow> string \<Rightarrow> string \<Rightarrow> string \<Rightarrow> string \<Rightarrow> int \<Rightarrow> string \<Rightarrow> 'w \<Rightarrow> (string, 'w) result" where
  "add_wg_client run t server nm pub psk addr keepalive ep w =
     then_do (as_dict (wg_exec run t ''POST'' ''client/add_client_builder/'' (client_payload server nm pub psk addr keepalive ep) w))
       (\<lambda>j w1.
          if \<not> jstr ''saved'' (json_get ''result'' j) then raise (rejected ''add_client_builder'' j) w1
          else then_do (as_dict (wg_exec run t ''POST'' ''client/search_client/''
              (JObj [(''current'', JInt 1), (''sort'', JObj []), (''rowCount'', JInt 100)]) w1)) (\<lambda>c w2.
            (case iter_rows (rule_rows c) of
               Inl e \<Rightarrow> raise e w2
             | Inr rs \<Rightarrow>
                 (case find_client pub rs of
                    Some u \<Rightarrow> ok (json_text u) w2
                  | None \<Rightarrow> raise (OtherError (''name '' @ repr_str ''clients'' @ '' is not defined'')) w2))))"

definition del_wg_client :: "'w vm_run \<Rightarrow> tenant \<Rightarrow> string \<Rightarrow> 'w \<Rightarrow> (unit, 'w) result" where
  "del_wg_client run t uuid w =
     then_do (as_dict (wg_exec run t ''POST'' (''client/del_client/'' @ uuid) (JObj []) w))
       (\<lambda>j. if jstr ''deleted'' (json_get ''result'' j) then ok ()
            else raise (RuntimeError (''OPNsense del_client '' @ uuid @ '' rejected: '' @ py_repr j)))"


section \<open>What the shell makes of the command\<close>

text \<open>
  The words of a simple command in the POSIX shell: outside quotes a blank ends a word and only characters
  without a meaning of their own are accepted; in single quotes every character stands for itself, in
  double quotes every one but the dollar sign, the backquote, the backslash and the quote. \<open>None\<close> is any
  text that the shell could read as more than a plain list of words.
\<close>

datatype quoting = Plain | Single | Double

fun shell_read :: "quoting \<Rightarrow> string option \<Rightarrow> string \<Rightarrow> string list option" where
  "shell_read Plain acc [] = Some (case acc of None \<Rightarrow> [] | Some x \<Rightarrow> [x])"
| "shell_read m acc [] = None"
| "shell_read Plain acc (c # s) =
     (if c = CHR '' '' then
        (case acc of None \<Rightarrow> shell_read Plain None s | Some x \<Rightarrow> map_option ((#) x) (shell_read Plain None s))
      else if c = quote_char then shell_read Single (Some (case acc of None \<Rightarrow> [] | Some x \<Rightarrow> x)) s
      else if c = dquote_char then shell_read Double (Some (case acc of None \<Rightarrow> [] | Some x \<Rightarrow> x)) s
      else if shell_safe c then shell_read Plain (Some ((case acc of None \<Rightarrow> [] | Some x \<Rightarrow> x) @ [c])) s
      else None)"
| "shell_read Single acc (c # s) =
     (if c = quote_char then shell_read Plain acc s else shell_read Single (map_option (\<lambda>x. x @ [c]) acc) s)"
| "shell_read Double acc (c # s) =
     (if c = dquote_char then shell_read Plain acc s
      else if c \<in> {CHR ''$'', CHR 0x60, backslash_char} then None
      else shell_read Double (map_option (\<lambda>x. x @ [c]) acc) s)"

definition shell_words :: "string \<Rightarrow> string list option" where
  "shell_words s = shell_read Plain None s"

definition opened :: "string option \<Rightarrow> string" where
  "opened acc = (case acc of None \<Rightarrow> [] | Some x \<Rightarrow> x)"

lemma opened_simps [simp]: "opened None = []" "opened (Some x) = x"
  by (simp_all add: opened_def)

lemma quote_codes: "quote_char = CHR 0x27" "dquote_char = CHR 0x22" "backslash_char = CHR 0x5C"
  by code_simp+

lemma shell_safe_plain: "shell_safe c \<Longrightarrow> c \<noteq> CHR '' '' \<and> c \<noteq> quote_char \<and> c \<noteq> dquote_char"
  by (auto simp: shell_safe_def is_digit_def is_lower_def is_upper_def quote_codes Let_def)

lemma read_safe:
  "list_all shell_safe s \<Longrightarrow> s \<noteq> [] \<Longrightarrow> shell_read Plain acc (s @ r) = shell_read Plain (Some (opened acc @ s)) r"
proof (induction s arbitrary: acc)
  case Nil
  then show ?case by simp
next
  case (Cons c s)
  have step: "shell_read Plain acc (c # s @ r) = shell_read Plain (Some (opened acc @ [c])) (s @ r)"
    using Cons.prems shell_safe_plain [of c] by (simp add: opened_def)
  show ?case
  proof (cases "s = []")
    case True
    then show ?thesis using step by simp
  next
    case False
    then show ?thesis using step Cons.IH [of "Some (opened acc @ [c])"] Cons.prems by simp
  qed
qed

lemma read_single:
  "shell_read Single (Some x) (replace_char quote_char [quote_char, dquote_char, quote_char, dquote_char, quote_char] s @ quote_char # r) =
     shell_read Plain (Some (x @ s)) r"
proof (induction s arbitrary: x)
  case Nil
  then show ?case by (simp add: replace_char_def)
next
  case (Cons c s)
  show ?case
  proof (cases "c = quote_char")
    case True
    have "quote_char \<noteq> CHR '' ''" "dquote_char \<noteq> CHR '' ''" "dquote_char \<noteq> quote_char" "quote_char \<noteq> dquote_char"
      "quote_char \<noteq> CHR ''$''" "quote_char \<noteq> CHR 0x60" "quote_char \<noteq> backslash_char"
      by (simp_all add: quote_codes)
    then show ?thesis using Cons.IH [of "x @ [quote_char]"] True by (simp add: replace_char_def)
  next
    case False
    then show ?thesis using Cons.IH [of "x @ [c]"] by (simp add: replace_char_def)
  qed
qed

lemma read_quoted: "shell_read Plain acc (shlex_quote s @ r) = shell_read Plain (Some (opened acc @ s)) r"
proof -
  have q: "quote_char \<noteq> CHR '' ''" by (simp add: quote_codes)
  show ?thesis
  proof (cases "s \<noteq> [] \<and> list_all shell_safe s")
    case True
    then show ?thesis using read_safe [of s acc r] by (simp add: shlex_quote_def)
  next
    case False
    have "shell_read Plain acc (quote_char # t) = shell_read Single (Some (opened acc)) t" for t
      using q by (simp add: opened_def)
    with False show ?thesis using read_single [of "opened acc" s r] q
      by (auto simp: shlex_quote_def opened_def)
  qed
qed

lemma read_blank: "shell_read Plain (Some x) (CHR '' '' # r) = map_option ((#) x) (shell_read Plain None r)"
  by simp

lemma read_end: "shell_read Plain (Some x) [] = Some [x]"
  by simp


definition curl_words :: "string \<Rightarrow> string \<Rightarrow> string \<Rightarrow> string \<Rightarrow> json \<Rightarrow> string list" where
  "curl_words meth path key secret body =
     [''curl'', ''-sk'', ''-u'', key @ '':'' @ secret] @
     (if upper meth = ''GET'' then []
      else [''-X'', upper meth] @
        (if truthy_json body then [''-H'', ''Content-Type: application/json'', ''-d'', json_dump '', '' '': '' body] else [])) @
     [''https://localhost/api/'' @ dropWhile (\<lambda>c. c = CHR ''/'') path]"

text \<open>Reading the fixed parts of the command line.\<close>

lemma safe_words: "list_all shell_safe ''curl''" "list_all shell_safe ''-sk''" "list_all shell_safe ''-u''"
  "list_all shell_safe ''-X''" "list_all shell_safe ''-H''" "list_all shell_safe ''-d''"
  "list_all shell_safe ''https://localhost/api/''" "list_all shell_safe '':''"
  by code_simp+

lemma read_word: "list_all shell_safe x \<Longrightarrow> x \<noteq> [] \<Longrightarrow>
    shell_read Plain None (x @ CHR '' '' # r) = map_option ((#) x) (shell_read Plain None r)"
  by (simp add: read_safe)

lemma read_curl:
  "shell_read Plain None (''curl -sk -u '' @ r) = map_option (\<lambda>ws. ''curl'' # ''-sk'' # ''-u'' # ws) (shell_read Plain None r)"
proof -
  have "''curl -sk -u '' @ r = ''curl'' @ CHR '' '' # (''-sk'' @ CHR '' '' # (''-u'' @ CHR '' '' # r))" by simp
  then show ?thesis by (simp only: read_word safe_words list.distinct simp_thms option.map_comp comp_def)
qed

lemma read_option:
  assumes "list_all shell_safe x" "x \<noteq> []"
  shows "shell_read Plain (Some w) (CHR '' '' # x @ CHR '' '' # r) = map_option (\<lambda>ws. w # x # ws) (shell_read Plain None r)"
  by (simp only: read_blank read_word [OF assms] option.map_comp comp_def)

lemma read_X: "shell_read Plain (Some w) ('' -X '' @ r) = map_option (\<lambda>ws. w # ''-X'' # ws) (shell_read Plain None r)"
  using read_option [OF safe_words(4), of w r] by simp

lemma read_H: "shell_read Plain (Some w) ('' -H '' @ r) = map_option (\<lambda>ws. w # ''-H'' # ws) (shell_read Plain None r)"
  using read_option [OF safe_words(5), of w r] by simp

lemma read_d: "shell_read Plain (Some w) ('' -d '' @ r) = map_option (\<lambda>ws. w # ''-d'' # ws) (shell_read Plain None r)"
  using read_option [OF safe_words(6), of w r] by simp

lemma read_credentials:
  "shell_read Plain None (shlex_quote key @ '':'' @ shlex_quote secret @ r) = shell_read Plain (Some (key @ '':'' @ secret)) r"
  using read_safe [OF safe_words(8), of "Some key" "shlex_quote secret @ r"] by (simp add: read_quoted del: append_Cons)

lemma content_type_quoted: "content_type_arg = shlex_quote ''Content-Type: application/json''"
  by code_simp

lemma read_url:
  "shell_read Plain (Some w) ('' https://localhost/api/'' @ shlex_quote p) = Some [w, ''https://localhost/api/'' @ p]"
proof -
  have "shell_read Plain None (''https://localhost/api/'' @ shlex_quote p) = Some [''https://localhost/api/'' @ p]"
    using read_safe [OF safe_words(7), of None "shlex_quote p"] read_quoted [of "Some ''https://localhost/api/''" p "[]"]
    by (simp del: append_Cons)
  then show ?thesis by (simp add: read_blank)
qed

text \<open>
  C9: Whatever the credentials, the path and the JSON text contain, the shell in the machine reads the
  command line of an API call as one plain command with exactly the intended arguments: nothing in them
  can end the command, start another or add an argument.
\<close>

theorem command_not_injectable:
  assumes "list_all shell_safe (upper meth)" "meth \<noteq> []"
  shows "shell_words (api_command meth path key secret body) = Some (curl_words meth path key secret body)"
proof -
  have m: "shell_read Plain None (upper meth @ r) = shell_read Plain (Some (upper meth)) r" for r
    using read_safe [OF assms(1), of None r] assms(2) by (simp add: upper_def)
  have q: "shell_read Plain None (shlex_quote x @ r) = shell_read Plain (Some x) r" for x r
    by (simp add: read_quoted)
  note rd = append_assoc read_curl read_credentials read_X read_H read_d read_url m option.map_comp comp_def option.map(2)
  show ?thesis
  proof (cases "upper meth = ''GET''")
    case True
    then show ?thesis
      unfolding shell_words_def api_command_def curl_words_def
      by (simp only: if_True simp_thms append_Nil rd) (simp only: append_Cons append_Nil)
  next
    case False
    show ?thesis
    proof (cases "truthy_json body")
      case True
      with False show ?thesis
        unfolding shell_words_def api_command_def curl_words_def content_type_quoted
        by (simp only: if_True if_False rd) (simp only: rd q, simp only: append_Cons append_Nil)
    next
      case no_body: False
      with False show ?thesis
        unfolding shell_words_def api_command_def curl_words_def
        by (simp only: if_True if_False append_Nil2 append_Nil rd) (simp only: append_Cons append_Nil)
    qed
  qed
qed

lemma command_not_injectable_witness:
  "shell_words (api_command ''post'' ''a b'' (quote_char # ''; reboot'') ''$(id)'' (JObj [(''k'', JStr [quote_char])])) =
     Some (curl_words ''post'' ''a b'' (quote_char # ''; reboot'') ''$(id)'' (JObj [(''k'', JStr [quote_char])]))"
proof -
  have "list_all shell_safe (upper ''post'')" by code_simp
  then show ?thesis by (rule command_not_injectable) simp
qed

end
