(* ===== verification/Firewall_Rules.thy ===== *)
theory Firewall_Rules
  imports Opnsense_Api Audit_Trail
begin

text \<open>
  Firewall rules: \<open>app/models/opnsense_firewall_rule.py\<close> and the handlers of
  \<open>app/api/firewall_manager.py\<close>. Dates of rows, and the two reports on providers, are left out.

  The handlers take the rule as a free JSON object. \<open>rule_attr\<close> and \<open>set_rule_attr\<close> read and write the
  columns of a row by name; a value that the column cannot hold makes the commit fail. A null in a column
  the model keeps as a plain value counts as such a value.
\<close>

section \<open>Columns by name\<close>

definition text_cols :: "(string \<times> (fw_rule \<Rightarrow> string option) \<times> (string option \<Rightarrow> fw_rule \<Rightarrow> fw_rule)) list" where
  "text_cols =
     [(''description'', fw_description, \<lambda>v r. r\<lparr>fw_description := v\<rparr>),
      (''interface'', fw_interface, \<lambda>v r. r\<lparr>fw_interface := v\<rparr>),
      (''interfacenot'', fw_interfacenot, \<lambda>v r. r\<lparr>fw_interfacenot := v\<rparr>),
      (''quick'', fw_quick, \<lambda>v r. r\<lparr>fw_quick := v\<rparr>),
      (''action'', fw_action, \<lambda>v r. r\<lparr>fw_action := v\<rparr>),
      (''direction'', fw_direction, \<lambda>v r. r\<lparr>fw_direction := v\<rparr>),
      (''ipprotocol'', fw_ipprotocol, \<lambda>v r. r\<lparr>fw_ipprotocol := v\<rparr>),
      (''protocol'', fw_protocol, \<lambda>v r. r\<lparr>fw_protocol := v\<rparr>),
      (''source_not'', fw_source_not, \<lambda>v r. r\<lparr>fw_source_not := v\<rparr>),
      (''source_net'', fw_source_net, \<lambda>v r. r\<lparr>fw_source_net := v\<rparr>),
      (''source_port'', fw_source_port, \<lambda>v r. r\<lparr>fw_source_port := v\<rparr>),
      (''destination_not'', fw_destination_not, \<lambda>v r. r\<lparr>fw_destination_not := v\<rparr>),
      (''destination_net'', fw_destination_net, \<lambda>v r. r\<lparr>fw_destination_net := v\<rparr>),
      (''destination_port'', fw_destination_port, \<lambda>v r. r\<lparr>fw_destination_port := v\<rparr>),
      (''gateway'', fw_gateway, \<lambda>v r. r\<lparr>fw_gateway := v\<rparr>),
      (''log'', fw_log, \<lambda>v r. r\<lparr>fw_log := v\<rparr>),
      (''statetype'', fw_statetype, \<lambda>v r. r\<lparr>fw_statetype := v\<rparr>),
      (''apply_error'', fw_apply_error, \<lambda>v r. r\<lparr>fw_apply_error := v\<rparr>),
      (''uuid'', \<lambda>r. Some (fw_uuid r), \<lambda>v r. case v of None \<Rightarrow> r | Some s \<Rightarrow> r\<lparr>fw_uuid := s\<rparr>),
      (''enabled'', \<lambda>r. Some (fw_enabled r), \<lambda>v r. case v of None \<Rightarrow> r | Some s \<Rightarrow> r\<lparr>fw_enabled := s\<rparr>),
      (''apply_status'', \<lambda>r. Some (fw_apply_status r), \<lambda>v r. case v of None \<Rightarrow> r | Some s \<Rightarrow> r\<lparr>fw_apply_status := s\<rparr>)]"

definition int_cols :: "(string \<times> (fw_rule \<Rightarrow> int) \<times> (int \<Rightarrow> fw_rule \<Rightarrow> fw_rule)) list" where
  "int_cols =
     [(''id'', fw_id, \<lambda>v r. r\<lparr>fw_id := v\<rparr>), (''tenant_id'', fw_tenant_id, \<lambda>v r. r\<lparr>fw_tenant_id := v\<rparr>),
      (''sequence'', fw_sequence, \<lambda>v r. r\<lparr>fw_sequence := v\<rparr>)]"

text \<open>The widths of the text columns, and the range of the integer columns.\<close>

definition text_widths :: "(string \<times> nat) list" where
  "text_widths =
     [(''uuid'', 36), (''enabled'', 1), (''description'', 500), (''interface'', 20), (''interfacenot'', 1), (''quick'', 1),
      (''action'', 10), (''direction'', 3), (''ipprotocol'', 10), (''protocol'', 10), (''source_not'', 1), (''source_net'', 100),
      (''source_port'', 50), (''destination_not'', 1), (''destination_net'', 100), (''destination_port'', 50), (''gateway'', 50),
      (''log'', 1), (''statetype'', 20), (''apply_status'', 20), (''apply_error'', 500)]"

definition text_fits :: "string \<Rightarrow> string \<Rightarrow> bool" where
  "text_fits k s \<longleftrightarrow> (case map_of text_widths k of None \<Rightarrow> True | Some n \<Rightarrow> length s \<le> n)"

definition int_fits :: "int \<Rightarrow> bool" where
  "int_fits i \<longleftrightarrow> - 2147483648 \<le> i \<and> i \<le> 2147483647"

definition required_text :: "string list" where
  "required_text = [''uuid'', ''enabled'', ''apply_status'']"

definition rule_attr :: "fw_rule \<Rightarrow> string \<Rightarrow> json option" where
  "rule_attr r k =
     (case map_of text_cols k of
        Some (get, put) \<Rightarrow> Some (case get r of None \<Rightarrow> JNull | Some s \<Rightarrow> JStr s)
      | None \<Rightarrow> (case map_of int_cols k of Some (get, put) \<Rightarrow> Some (JInt (get r)) | None \<Rightarrow> None))"

text \<open>What the database makes of a value given for a text or for an integer column.\<close>

fun text_value :: "json \<Rightarrow> py_exc + string option" where
  "text_value JNull = Inr None"
| "text_value (JStr s) = Inr (Some s)"
| "text_value (JInt i) = Inr (Some (show_int i))"
| "text_value (JBool b) = Inr (Some (if b then ''true'' else ''false''))"
| "text_value _ = Inl (OtherError ''invalid value for a text column'')"

fun int_value :: "json \<Rightarrow> py_exc + int" where
  "int_value (JInt i) = Inr i"
| "int_value (JStr s) = (case py_int s of None \<Rightarrow> Inl (OtherError ''invalid input syntax for type integer'') | Some i \<Rightarrow> Inr i)"
| "int_value JNull = Inl (IntegrityError ''null value in column'')"
| "int_value _ = Inl (OtherError ''invalid value for an integer column'')"

definition set_rule_attr :: "string \<Rightarrow> json \<Rightarrow> fw_rule \<Rightarrow> py_exc + fw_rule" where
  "set_rule_attr k v r =
     (case map_of text_cols k of
        Some (get, put) \<Rightarrow>
          (case text_value v of
             Inl e \<Rightarrow> Inl e
           | Inr None \<Rightarrow> (if k \<in> set required_text then Inl (IntegrityError ''null value in column'') else Inr (put None r))
           | Inr (Some s) \<Rightarrow>
               (if text_fits k s then Inr (put (Some s) r)
                else Inl (OtherError ''value too long for type character varying'')))
      | None \<Rightarrow>
          (case map_of int_cols k of
             Some (get, put) \<Rightarrow> (case int_value v of
                 Inl e \<Rightarrow> Inl e
               | Inr i \<Rightarrow> (if int_fits i then Inr (put i r) else Inl (OtherError ''integer out of range'')))
           | None \<Rightarrow> Inr r))"

fun set_rule_attrs :: "(string \<times> json) list \<Rightarrow> fw_rule \<Rightarrow> py_exc + fw_rule" where
  "set_rule_attrs [] r = Inr r"
| "set_rule_attrs ((k, v) # kvs) r = (case set_rule_attr k v r of Inl e \<Rightarrow> Inl e | Inr r' \<Rightarrow> set_rule_attrs kvs r')"

section \<open>to_opnsense_payload\<close>

text \<open>\<open>x or default\<close> of a column.\<close>

definition col_or :: "string option \<Rightarrow> string \<Rightarrow> string" where
  "col_or v dflt = (if truthy v then the v else dflt)"

definition port_of :: "string option \<Rightarrow> bool \<Rightarrow> string" where
  "port_of v tcp_udp = (if truthy v \<and> tcp_udp \<and> the v \<noteq> ''any'' then the v else '''')"

definition to_opnsense_payload :: "fw_rule \<Rightarrow> json" where
  "to_opnsense_payload r =
     (let proto = lower (col_or (fw_protocol r) ''tcp'');
          tcp_udp = (proto \<in> {''tcp'', ''udp'', ''tcp/udp''})
      in JObj (map (\<lambda>(k, v). (k, JStr v))
        ([(''enabled'', fw_enabled r), (''sequence'', show_int (fw_sequence r)), (''nosync'', ''0''),
          (''description'', col_or (fw_description r) ''''), (''interface'', col_or (fw_interface r) ''lan''),
          (''interfacenot'', col_or (fw_interfacenot r) ''0''), (''quick'', col_or (fw_quick r) ''1''),
          (''action'', col_or (fw_action r) ''pass''), (''allowopts'', ''0''), (''direction'', col_or (fw_direction r) ''in''),
          (''ipprotocol'', col_or (fw_ipprotocol r) ''inet''), (''protocol'', upper (col_or (fw_protocol r) ''tcp'')),
          (''icmptype'', ''''), (''icmp6type'', ''''), (''source_not'', col_or (fw_source_not r) ''0''),
          (''source_net'', col_or (fw_source_net r) ''any''), (''source_port'', port_of (fw_source_port r) tcp_udp),
          (''destination_not'', col_or (fw_destination_not r) ''0''), (''destination_net'', col_or (fw_destination_net r) ''any''),
          (''destination_port'', port_of (fw_destination_port r) tcp_udp), (''log'', col_or (fw_log r) ''0''),
          (''tcpflags1'', ''''), (''tcpflags2'', ''''), (''tcpflags_any'', ''0''), (''sched'', ''''), (''divert-to'', ''''),
          (''statetype'', col_or (fw_statetype r) ''keep''), (''state-policy'', ''''), (''nopfsync'', ''0'')] @
         map (\<lambda>k. (k, '''')) [''statetimeout'', ''udp-first'', ''udp-single'', ''udp-multiple'', ''adaptivestart'', ''adaptiveend'',
           ''max'', ''max-src-nodes'', ''max-src-states'', ''max-src-conn'', ''max-src-conn-rate'', ''max-src-conn-rates'',
           ''overload'', ''shaper1'', ''shaper2''] @
         [(''gateway'', col_or (fw_gateway r) ''''), (''disablereplyto'', ''0'')] @
         map (\<lambda>k. (k, '''')) [''replyto'', ''prio'', ''set-prio'', ''set-prio-low'', ''tos'', ''tag'', ''tagged''])))"

section \<open>Reading\<close>

definition rule_response :: "(string \<times> string) list \<Rightarrow> fw_rule \<Rightarrow> json" where
  "rule_response labels r =
     (let iface = col_or (fw_interface r) ''lan'';
          label = (case map_of (rev labels) (lower iface) of None \<Rightarrow> upper iface | Some l \<Rightarrow> l)
      in JObj ([(''id'', JInt (fw_id r)), (''tenant_id'', JInt (fw_tenant_id r))] @
        map (\<lambda>(k, v). (k, JStr v))
         [(''uuid'', fw_uuid r), (''sequence'', show_int (fw_sequence r)), (''enabled'', fw_enabled r),
          (''description'', col_or (fw_description r) ''''), (''interface'', iface), (''interface_label'', label),
          (''interfacenot'', col_or (fw_interfacenot r) ''0''), (''quick'', col_or (fw_quick r) ''1''),
          (''action'', col_or (fw_action r) ''pass''), (''direction'', col_or (fw_direction r) ''in''),
          (''ipprotocol'', col_or (fw_ipprotocol r) ''inet''), (''protocol'', col_or (fw_protocol r) ''tcp''),
          (''source_not'', col_or (fw_source_not r) ''0''), (''source_net'', col_or (fw_source_net r) ''any''),
          (''source_port'', col_or (fw_source_port r) ''any''), (''destination_not'', col_or (fw_destination_not r) ''0''),
          (''destination_net'', col_or (fw_destination_net r) ''any''),
          (''destination_port'', col_or (fw_destination_port r) ''any''), (''gateway'', col_or (fw_gateway r) ''''),
          (''log'', col_or (fw_log r) ''0''), (''statetype'', col_or (fw_statetype r) ''keep''),
          (''apply_status'', fw_apply_status r)] @
        [(''apply_error'', case fw_apply_error r of None \<Rightarrow> JNull | Some e \<Rightarrow> JStr e)]))"

definition tenant_rules :: "int \<Rightarrow> db \<Rightarrow> fw_rule list" where
  "tenant_rules tid d = filter (\<lambda>r. fw_tenant_id r = tid) (fw_rules d)"

definition live_tunnels :: "int \<Rightarrow> db \<Rightarrow> wg_tunnel list" where
  "live_tunnels tid d = filter (\<lambda>t. wt_tenant_id t = tid \<and> wt_status t = ''active'' \<and> wt_opt_interface t \<noteq> None) (wg_tunnels d)"

definition interface_labels :: "int \<Rightarrow> db \<Rightarrow> (string \<times> string) list" where
  "interface_labels tid d =
     [(''wan'', ''WAN''), (''lan'', ''LAN'')] @
     map (\<lambda>t. (lower (the (wt_opt_interface t)), wt_name t)) (live_tunnels tid d) @
     map (\<lambda>n. (lower (the (n_opnsense_interface n)), upper (n_name n)))
       (filter (\<lambda>n. n_tenant_id n = tid \<and> n_opnsense_interface n \<noteq> None \<and> n_status n = ''active'') (networks d))"

definition list_rules :: "tenant \<Rightarrow> string \<Rightarrow> string option \<Rightarrow> db \<Rightarrow> (json list, db) result" where
  "list_rules ct provider iface d =
     (if \<not> truthy_id (t_opnsense_vm_id ct) \<and> provider = ''opnsense'' then http 400 ''OPNsense not configured for this tenant'' d
      else ok (map (rule_response (interface_labels (t_id ct) d))
        (sort_key fw_sequence (filter (\<lambda>r. truthy iface \<longrightarrow> fw_interface r = iface) (tenant_rules (t_id ct) d)))) d)"

definition list_interfaces :: "tenant \<Rightarrow> string \<Rightarrow> db \<Rightarrow> ((string \<times> string \<times> string) list, db) result" where
  "list_interfaces ct provider d =
     (if provider \<noteq> ''opnsense'' then http 501 (''Provider '' @ provider @ '' not implemented'') d
      else ok ([(''wan'', ''WAN'', ''interface''), (''lan'', ''LAN'', ''interface'')] @
        map (\<lambda>n. (the (n_opnsense_interface n), upper (n_name n), ''interface''))
          (filter (\<lambda>n. n_tenant_id n = t_id ct \<and> \<not> n_is_default n \<and> n_status n = ''active'' \<and> truthy (n_opnsense_interface n)) (networks d)) @
        map (\<lambda>t. (the (wt_opt_interface t), wt_name t, ''wireguard'')) (live_tunnels (t_id ct) d)) d)"

section \<open>Changing rules\<close>

definition fw_guard :: "string \<Rightarrow> string \<Rightarrow> user \<Rightarrow> tenant \<Rightarrow> db \<Rightarrow> (unit \<Rightarrow> ('a, db) result) \<Rightarrow> ('a, db) result" where
  "fw_guard provider perm cu ct d k =
     (if provider \<noteq> ''opnsense'' then http 501 (''Provider '' @ provider @ '' not implemented'') d
      else if \<not> has_permission cu (t_id ct) perm d then http 403 ''Not authorized'' d
      else k ())"

definition find_rule :: "int \<Rightarrow> string \<Rightarrow> db \<Rightarrow> fw_rule option" where
  "find_rule tid uuid d = first_row (\<lambda>r. fw_tenant_id r = tid \<and> fw_uuid r = uuid) (fw_rules d)"

definition save_rules :: "(fw_rule list \<Rightarrow> fw_rule list) \<Rightarrow> db \<Rightarrow> db" where
  "save_rules f d = d\<lparr>fw_rules := f (fw_rules d)\<rparr>"

definition fw_audit :: "user \<Rightarrow> tenant \<Rightarrow> string \<Rightarrow> int option \<Rightarrow> string \<Rightarrow> string option \<Rightarrow> string option \<Rightarrow> string \<Rightarrow> db \<Rightarrow> db" where
  "fw_audit cu ct act i nm old new details d =
     log_audit_event ((audit_event (audit_action act) ''opnsense_firewall_rule'' cu)
       \<lparr>a_target_id := i, a_target_name := Some nm, a_old_value := old, a_new_value := new, a_details := Some details,
        a_tenant_id := Some (t_id ct)\<rparr>) None d"

definition rule_name :: "fw_rule \<Rightarrow> string" where
  "rule_name r = ''OPNsense Rule: '' @ show_opt id (fw_description r)"

text \<open>\<open>rule_data.get(key, default)\<close> for a new row.\<close>

definition field_or :: "(string \<times> json) list \<Rightarrow> string \<Rightarrow> string \<Rightarrow> string \<times> json" where
  "field_or b k dflt = (k, case member k b of None \<Rightarrow> JStr dflt | Some v \<Rightarrow> v)"

definition rule_defaults :: "(string \<times> string) list" where
  "rule_defaults =
     [(''enabled'', ''1''), (''description'', ''''), (''interface'', ''lan''), (''interfacenot'', ''0''), (''quick'', ''1''),
      (''action'', ''pass''), (''direction'', ''in''), (''ipprotocol'', ''inet''), (''protocol'', ''tcp''),
      (''source_not'', ''0''), (''source_net'', ''any''), (''source_port'', ''any''), (''destination_not'', ''0''),
      (''destination_net'', ''any''), (''destination_port'', ''any''), (''gateway'', ''''), (''log'', ''0''),
      (''statetype'', ''keep'')]"

definition blank_rule :: "int \<Rightarrow> int \<Rightarrow> string \<Rightarrow> string \<Rightarrow> fw_rule" where
  "blank_rule i tid uuid status =
     \<lparr>fw_id = i, fw_tenant_id = tid, fw_uuid = uuid, fw_sequence = 100, fw_enabled = ''1'', fw_description = None,
      fw_interface = None, fw_interfacenot = Some ''0'', fw_quick = Some ''1'', fw_action = None, fw_direction = None,
      fw_ipprotocol = None, fw_protocol = None, fw_source_not = Some ''0'', fw_source_net = None, fw_source_port = None,
      fw_destination_not = Some ''0'', fw_destination_net = None, fw_destination_port = None, fw_gateway = None,
      fw_log = Some ''0'', fw_statetype = None, fw_apply_status = status, fw_apply_error = None\<rparr>"

definition new_rule_fields :: "(string \<times> json) list \<Rightarrow> int \<Rightarrow> db \<Rightarrow> (string \<times> json) list" where
  "new_rule_fields b tid d =
     (''sequence'', case member ''sequence'' b of
        Some v \<Rightarrow> (if truthy_json v then v else JInt ((int (length (tenant_rules tid d)) + 1) * 100))
      | None \<Rightarrow> JInt ((int (length (tenant_rules tid d)) + 1) * 100)) #
     map (\<lambda>(k, dflt). field_or b k dflt) rule_defaults"

text \<open>\<open>rnd\<close> is the text of \<open>uuid4().hex\<close>.\<close>

definition create_rule :: "string \<Rightarrow> user \<Rightarrow> tenant \<Rightarrow> string \<Rightarrow> (string \<times> json) list \<Rightarrow> db \<Rightarrow> (json, db) result" where
  "create_rule provider cu ct rnd b d =
     fw_guard provider ''firewall:create'' cu ct d (\<lambda>_.
       if \<not> truthy_id (t_opnsense_vm_id ct) then http 400 ''OPNsense not configured'' d
       else case set_rule_attrs (new_rule_fields b (t_id ct) d)
           (blank_rule (next_id TFwRules d) (t_id ct) (''pending-'' @ take 24 rnd) ''pending'') of
         Inl e \<Rightarrow> raise e d
       | Inr r \<Rightarrow>
           (if fw_uuid r \<in> set (map fw_uuid (fw_rules d)) then raise (IntegrityError ''opnsense_firewall_rules_uuid_key'') d
            else ok (rule_response [] r)
              (fw_audit cu ct ''FIREWALL_RULE_CREATE'' (Some (fw_id r)) (rule_name r) None
                (Some (''Created rule: '' @ show_opt id (fw_description r) @ '' on interface '' @ show_opt id (fw_interface r)))
                (''Rule created via API for tenant '' @ show_int (t_id ct))
                (bump_seq TFwRules (save_rules (\<lambda>rs. rs @ [r]) d)))))"

text \<open>The constraints the commit of one changed row would break.\<close>

definition row_clash :: "int \<Rightarrow> fw_rule \<Rightarrow> db \<Rightarrow> bool" where
  "row_clash i r d \<longleftrightarrow>
     (\<exists>x \<in> set (fw_rules d). fw_id x \<noteq> i \<and> (fw_id x = fw_id r \<or> fw_uuid x = fw_uuid r)) \<or>
     fw_tenant_id r \<notin> set (map t_id (tenants d))"

definition update_rule :: "string \<Rightarrow> user \<Rightarrow> tenant \<Rightarrow> string \<Rightarrow> (string \<times> json) list \<Rightarrow> db \<Rightarrow> (json, db) result" where
  "update_rule provider cu ct uuid b d =
     fw_guard provider ''firewall:create'' cu ct d (\<lambda>_.
       case find_rule (t_id ct) uuid d of
         None \<Rightarrow> http 404 ''Rule not found - it may have been deleted in another session.'' d
       | Some r \<Rightarrow>
           (case set_rule_attrs b r of
              Inl e \<Rightarrow> raise e d
            | Inr r1 \<Rightarrow>
                (let r2 = r1\<lparr>fw_apply_status := ''pending'', fw_apply_error := None\<rparr>
                 in if row_clash (fw_id r) r2 d then raise (IntegrityError ''opnsense_firewall_rules'') d
                    else ok (rule_response [] r2)
                      (fw_audit cu ct ''FIREWALL_RULE_UPDATE'' (Some (fw_id r2)) (rule_name r2)
                        (Some (py_repr (JObj (List.map_filter (\<lambda>(k, v). map_option (Pair k) (rule_attr r k)) b))))
                        (Some (py_repr (JObj b))) (''Rule updated via API for tenant '' @ show_int (t_id ct))
                        (save_rules (upd_rows fw_id (fw_id r) (\<lambda>_. r2)) d)))))"

definition delete_rule :: "string \<Rightarrow> user \<Rightarrow> tenant \<Rightarrow> string \<Rightarrow> db \<Rightarrow> (unit, db) result" where
  "delete_rule provider cu ct uuid d =
     fw_guard provider ''firewall:delete'' cu ct d (\<lambda>_.
       case find_rule (t_id ct) uuid d of
         None \<Rightarrow> http 404 ''Rule not found - it may have been deleted in another session.'' d
       | Some r \<Rightarrow>
           ok () (fw_audit cu ct ''FIREWALL_RULE_DELETE'' (Some (fw_id r)) (rule_name r)
             (Some (''uuid='' @ uuid @ '', desc='' @ show_opt id (fw_description r))) None
             (''Rule marked for deletion via API for tenant '' @ show_int (t_id ct))
             (save_rules (upd_rows fw_id (fw_id r) (\<lambda>x. x\<lparr>fw_apply_status := ''pending_delete''\<rparr>)) d)))"

text \<open>\<open>move_rule_up\<close> and \<open>move_rule_down\<close> differ in the neighbour they take.\<close>

fun index_of :: "('a \<Rightarrow> bool) \<Rightarrow> 'a list \<Rightarrow> nat option" where
  "index_of p [] = None"
| "index_of p (x # xs) = (if p x then Some 0 else map_option Suc (index_of p xs))"

definition swap_rules :: "fw_rule \<Rightarrow> fw_rule \<Rightarrow> fw_rule list \<Rightarrow> fw_rule list" where
  "swap_rules a b rs =
     upd_rows fw_id (fw_id b) (\<lambda>x. x\<lparr>fw_sequence := fw_sequence a, fw_apply_status := ''pending''\<rparr>)
       (upd_rows fw_id (fw_id a) (\<lambda>x. x\<lparr>fw_sequence := fw_sequence b, fw_apply_status := ''pending''\<rparr>) rs)"

definition moved :: "user \<Rightarrow> tenant \<Rightarrow> string \<Rightarrow> fw_rule \<Rightarrow> fw_rule \<Rightarrow> db \<Rightarrow> (string, db) result" where
  "moved cu ct way a b d =
     ok (fw_uuid b) (fw_audit cu ct ''FIREWALL_RULE_UPDATE'' (Some (fw_id a)) (''Rule: '' @ show_opt id (fw_description a)) None
       (Some (''Moved '' @ way @ '' (seq '' @ show_int (fw_sequence a) @ '' <-> '' @ show_int (fw_sequence b) @ '')''))
       ''Rule order changed via API'' (save_rules (swap_rules a b) d))"

definition ordered_rules :: "int \<Rightarrow> db \<Rightarrow> fw_rule list" where
  "ordered_rules tid d = sort_key fw_sequence (tenant_rules tid d)"

definition move_rule_up :: "string \<Rightarrow> user \<Rightarrow> tenant \<Rightarrow> string \<Rightarrow> db \<Rightarrow> (string, db) result" where
  "move_rule_up provider cu ct uuid d =
     fw_guard provider ''firewall:create'' cu ct d (\<lambda>_.
       let rs = ordered_rules (t_id ct) d
       in case index_of (\<lambda>r. fw_uuid r = uuid) rs of
            None \<Rightarrow> http 404 ''Rule not found'' d
          | Some 0 \<Rightarrow> http 400 ''Rule is already at the top'' d
          | Some (Suc i) \<Rightarrow> moved cu ct ''up'' (rs ! Suc i) (rs ! i) d)"

definition move_rule_down :: "string \<Rightarrow> user \<Rightarrow> tenant \<Rightarrow> string \<Rightarrow> db \<Rightarrow> (string, db) result" where
  "move_rule_down provider cu ct uuid d =
     fw_guard provider ''firewall:create'' cu ct d (\<lambda>_.
       let rs = ordered_rules (t_id ct) d
       in case index_of (\<lambda>r. fw_uuid r = uuid) rs of
            None \<Rightarrow> http 404 ''Rule not found'' d
          | Some i \<Rightarrow>
              (if Suc i = length rs then http 400 ''Rule is already at the bottom'' d
               else moved cu ct ''down'' (rs ! i) (rs ! Suc i) d))"

definition toggle_rule :: "string \<Rightarrow> user \<Rightarrow> tenant \<Rightarrow> string \<Rightarrow> db \<Rightarrow> (json, db) result" where
  "toggle_rule provider cu ct uuid d =
     fw_guard provider ''firewall:create'' cu ct d (\<lambda>_.
       case find_rule (t_id ct) uuid d of
         None \<Rightarrow> http 404 ''Rule not found'' d
       | Some r \<Rightarrow>
           (let r1 = r\<lparr>fw_enabled := (if fw_enabled r = ''1'' then ''0'' else ''1''), fw_apply_status := ''pending''\<rparr>
            in ok (rule_response [] r1)
              (fw_audit cu ct ''FIREWALL_RULE_UPDATE'' (Some (fw_id r)) (rule_name r) None
                (Some (''Toggled enabled='' @ fw_enabled r1)) ''Rule enabled toggle via API''
                (save_rules (upd_rows fw_id (fw_id r) (\<lambda>_. r1)) d))))"

definition apply_pending_rules :: "string \<Rightarrow> user \<Rightarrow> tenant \<Rightarrow> db \<Rightarrow> (unit, db) result" where
  "apply_pending_rules provider cu ct d =
     fw_guard provider ''firewall:create'' cu ct d (\<lambda>_.
       ok () (fw_audit cu ct ''FIREWALL_RULE_APPLY'' None (''Tenant '' @ show_int (t_id ct) @ '' OPNsense'') None
         (Some ''Manual apply triggered via UI'') (''Apply pending rules task dispatched for tenant '' @ show_int (t_id ct))
         (send_task (ApplyFirewallRules (t_id ct)) d)))"

definition sync_rules :: "string \<Rightarrow> user \<Rightarrow> tenant \<Rightarrow> db \<Rightarrow> (unit, db) result" where
  "sync_rules provider cu ct d =
     fw_guard provider ''firewall:create'' cu ct d (\<lambda>_.
       ok () (send_task (SyncFirewallRules (t_id ct))
         (fw_audit cu ct ''RECONCILE'' None (''Tenant '' @ show_int (t_id ct) @ '' OPNsense'') None
           (Some ''Manual sync triggered via UI'') (''Manual sync triggered for tenant '' @ show_int (t_id ct)) d)))"


section \<open>Correctness of the handlers\<close>

definition keeps_key :: "(fw_rule \<Rightarrow> fw_rule) \<Rightarrow> bool" where
  "keeps_key f \<longleftrightarrow> (\<forall>r. fw_id (f r) = fw_id r \<and> fw_tenant_id (f r) = fw_tenant_id r \<and> fw_uuid (f r) = fw_uuid r \<and>
     fw_apply_status (f r) = fw_apply_status r)"

lemma text_cols_keep: "\<forall>c \<in> set text_cols. fst c \<notin> {''uuid'', ''apply_status''} \<longrightarrow> (\<forall>v. keeps_key (snd (snd c) v))"
  by (simp add: text_cols_def keeps_key_def split: option.split)

lemma int_cols_keep: "\<forall>c \<in> set int_cols. fst c \<notin> {''id'', ''tenant_id''} \<longrightarrow> (\<forall>v. keeps_key (snd (snd c) v))"
  by (simp add: int_cols_def keeps_key_def)

lemma set_rule_attr_frame:
  assumes "set_rule_attr k v r = Inr r'" "k \<notin> {''id'', ''tenant_id'', ''uuid'', ''apply_status''}"
  shows "fw_id r' = fw_id r \<and> fw_tenant_id r' = fw_tenant_id r \<and> fw_uuid r' = fw_uuid r \<and>
    fw_apply_status r' = fw_apply_status r"
proof (cases "map_of text_cols k")
  case (Some gp)
  then obtain g p where gp: "map_of text_cols k = Some (g, p)" by (cases gp) auto
  then have "keeps_key (p u)" for u using text_cols_keep assms(2) by (auto dest!: map_of_SomeD)
  then show ?thesis using assms(1) gp by (auto simp: set_rule_attr_def keeps_key_def split: if_splits option.splits sum.splits)
next
  case None
  show ?thesis
  proof (cases "map_of int_cols k")
    case (Some gp)
    then obtain g p where gp: "map_of int_cols k = Some (g, p)" by (cases gp) auto
    then have "keeps_key (p u)" for u using int_cols_keep assms(2) by (auto dest!: map_of_SomeD)
    then show ?thesis using assms(1) gp None by (cases "int_value v") (auto simp: set_rule_attr_def keeps_key_def split: if_splits)
  qed (use assms None in \<open>simp add: set_rule_attr_def\<close>)
qed

lemma set_rule_attrs_frame:
  "set_rule_attrs kvs r = Inr r' \<Longrightarrow> \<forall>k \<in> {''id'', ''tenant_id'', ''uuid'', ''apply_status''}. k \<notin> set (map fst kvs) \<Longrightarrow>
    fw_id r' = fw_id r \<and> fw_tenant_id r' = fw_tenant_id r \<and> fw_uuid r' = fw_uuid r \<and>
    fw_apply_status r' = fw_apply_status r"
proof (induction kvs r rule: set_rule_attrs.induct)
  case (2 k v kvs r)
  from 2(2) obtain r1 where r1: "set_rule_attr k v r = Inr r1" "set_rule_attrs kvs r1 = Inr r'"
    by (cases "set_rule_attr k v r") simp_all
  have "k \<notin> {''id'', ''tenant_id'', ''uuid'', ''apply_status''}" using 2(3) by force
  note this set_rule_attr_frame [OF r1(1) this]
  moreover have "\<forall>k \<in> {''id'', ''tenant_id'', ''uuid'', ''apply_status''}. k \<notin> set (map fst kvs)" using 2(3) by simp
  ultimately show ?case using 2(1) [OF r1] by simp
qed simp

text \<open>The rows a handler may touch: those of the caller's tenant.\<close>

lemma find_rule_Some: "find_rule tid uuid d = Some r \<Longrightarrow> r \<in> set (fw_rules d) \<and> fw_tenant_id r = tid \<and> fw_uuid r = uuid"
  by (auto simp: find_rule_def dest: first_row_Some)

lemma fw_audit_frame [row_simps, simp]:
  "fw_rules (fw_audit cu ct act i nm old new det d) = fw_rules d"
  "tenants (fw_audit cu ct act i nm old new det d) = tenants d"
  by (simp_all add: fw_audit_def)

lemma save_rules_frame [row_simps, simp]:
  "fw_rules (save_rules f d) = f (fw_rules d)" "tenants (save_rules f d) = tenants d"
  "seqs (save_rules f d) = seqs d" "audit_log (save_rules f d) = audit_log d"
  by (simp_all add: save_rules_def)

lemma id_differs: "fw_id x \<noteq> fw_id y \<Longrightarrow> x \<noteq> y"
  by auto

lemma replaced_two: "x \<noteq> a \<Longrightarrow> insert y (insert x (S - {b}) - {a}) = insert x (insert y (S - {a, b}))"
  by auto

lemma swap_rules_set:
  fixes a b :: fw_rule
  assumes "distinct_keys fw_id rs" "a \<in> set rs" "b \<in> set rs" "fw_id a \<noteq> fw_id b"
  shows "set (swap_rules a b rs) = insert (a\<lparr>fw_sequence := fw_sequence b, fw_apply_status := ''pending''\<rparr>)
      (insert (b\<lparr>fw_sequence := fw_sequence a, fw_apply_status := ''pending''\<rparr>) (set rs - {a, b}))"
    and "map fw_id (swap_rules a b rs) = map fw_id rs"
proof -
  let ?f = "\<lambda>x. x\<lparr>fw_sequence := fw_sequence b, fw_apply_status := ''pending''\<rparr>"
  let ?g = "\<lambda>x. x\<lparr>fw_sequence := fw_sequence a, fw_apply_status := ''pending''\<rparr>"
  have one: "set (upd_rows fw_id (fw_id a) ?f rs) = insert (?f a) (set rs - {a})"
    by (rule upd_rows_in_Some [OF assms(1,2) refl])
  have d: "distinct_keys fw_id (upd_rows fw_id (fw_id a) ?f rs)" using assms(1) by (simp add: distinct_keys_upd_rows)
  have "b \<in> set (upd_rows fw_id (fw_id a) ?f rs)" using assms(3,4) one by auto
  moreover have "?f a \<noteq> b" by (rule id_differs) (use assms(4) in simp)
  ultimately
  show "set (swap_rules a b rs) = insert (?f a) (insert (?g b) (set rs - {a, b}))"
    using upd_rows_in_Some [OF d _ refl, of b ?g] one unfolding swap_rules_def by auto
  show "map fw_id (swap_rules a b rs) = map fw_id rs" by (simp add: swap_rules_def map_upd_rows)
qed


lemma index_of_Some: "index_of p xs = Some i \<Longrightarrow> i < length xs \<and> p (xs ! i)"
  by (induction xs arbitrary: i) (auto split: if_splits)

lemma length_tenant_rules:
  fixes rs rs' :: "fw_rule list"
  assumes "map fw_tenant_id rs = map fw_tenant_id rs'"
  shows "length (filter (\<lambda>r. fw_tenant_id r = tid) rs) = length (filter (\<lambda>r. fw_tenant_id r = tid) rs')"
proof -
  have "length (filter (\<lambda>r. fw_tenant_id r = tid) xs) = length (filter (\<lambda>t. t = tid) (map fw_tenant_id xs))" for xs :: "fw_rule list"
    by (simp add: filter_map comp_def)
  from this [of rs] this [of rs'] assms show ?thesis by simp
qed

text \<open>Two rows of one tenant that are next to each other in the order, with all sequences different.\<close>

lemma swap_adjacent:
  fixes d :: db and tid :: int
  defines "rs \<equiv> ordered_rules tid d"
  assumes ids: "distinct_keys fw_id (fw_rules d)" and seqs: "distinct_keys fw_sequence (tenant_rules tid d)"
    and ij: "i < length rs" "j < length rs" "i \<noteq> j"
  shows "ordered_rules tid (save_rules (swap_rules (rs ! i) (rs ! j)) d) =
     rs[j := (rs ! i)\<lparr>fw_sequence := fw_sequence (rs ! j), fw_apply_status := ''pending''\<rparr>,
        i := (rs ! j)\<lparr>fw_sequence := fw_sequence (rs ! i), fw_apply_status := ''pending''\<rparr>]"
proof -
  let ?a = "rs ! i" and ?b = "rs ! j"
  let ?a' = "?a\<lparr>fw_sequence := fw_sequence ?b, fw_apply_status := ''pending''\<rparr>"
  let ?b' = "?b\<lparr>fw_sequence := fw_sequence ?a, fw_apply_status := ''pending''\<rparr>"
  let ?L = "rs[j := ?a', i := ?b']" and ?T = "filter (\<lambda>r. fw_tenant_id r = tid) (swap_rules ?a ?b (fw_rules d))"
  have set_rs: "set rs = {r \<in> set (fw_rules d). fw_tenant_id r = tid}"
    by (simp add: rs_def ordered_rules_def tenant_rules_def)
  have sq: "sorted (map fw_sequence rs)" by (simp add: rs_def ordered_rules_def)
  have "distinct (map fw_sequence (tenant_rules tid d))" using seqs by (simp add: distinct_keys_def)
  then have dsq: "distinct (map fw_sequence rs)"
    by (simp add: rs_def ordered_rules_def distinct_map)
  then have dist: "distinct rs" by (simp add: distinct_map)
  have ab: "?a \<in> set rs" "?b \<in> set rs" "?a \<noteq> ?b" using ij dist by (simp_all add: nth_eq_iff_index_eq)
  have inj: "inj_on fw_id (set rs)" using ids by (auto simp: inj_on_def set_rs distinct_keys_eq)
  then have id_ne: "fw_id ?a \<noteq> fw_id ?b" using ab by (auto dest: inj_onD)
  have sq_ne: "fw_sequence ?a \<noteq> fw_sequence ?b" using dsq ij by (simp add: distinct_conv_nth)
  have mapL: "map fw_sequence ?L = map fw_sequence rs"
    using ij by (intro nth_equalityI) (auto simp: nth_list_update)
  then have L: "sorted (map fw_sequence ?L)" "distinct (map fw_sequence ?L)" using sq dsq by simp_all
  have a'_ne: "?a' \<noteq> ?a"
  proof
    assume "?a' = ?a"
    then have "fw_sequence ?a' = fw_sequence ?a" by (rule arg_cong)
    with sq_ne show False by simp
  qed
  have "?a' \<notin> set rs"
  proof
    assume "?a' \<in> set rs"
    then have "?a' = ?a" by (intro inj_onD [OF inj]) (use ab in simp_all)
    with a'_ne show False by simp
  qed
  then have "distinct (rs[j := ?a'])" using dist by (simp add: distinct_list_update)
  then have "set ?L = insert ?b' (set (rs[j := ?a']) - {?a})"
    using ij set_update_distinct [of "rs[j := ?a']" i ?b'] by simp
  also have "set (rs[j := ?a']) = insert ?a' (set rs - {?b})" by (rule set_update_distinct [OF dist ij(2)])
  finally have setL: "set ?L = insert ?a' (insert ?b' (set rs - {?a, ?b}))" by (simp only: replaced_two [OF a'_ne])
  have setT: "set ?T = set ?L"
    using swap_rules_set(1) [OF ids _ _ id_ne] ab setL by (auto simp: set_rs)
  have "map fw_tenant_id (swap_rules ?a ?b (fw_rules d)) = map fw_tenant_id (fw_rules d)"
    by (simp add: swap_rules_def map_upd_rows)
  from length_tenant_rules [OF this, of tid] have len: "length ?T = length ?L"
    by (simp add: rs_def ordered_rules_def tenant_rules_def)
  have "distinct ?L" using L(2) by (simp only: distinct_map)
  then have "card (set ?T) = length ?T" by (simp only: setT distinct_card len)
  then have "distinct ?T" by (rule card_distinct)
  moreover have inj': "inj_on fw_sequence (set ?L)" using L(2) by (simp add: distinct_map)
  ultimately have "distinct (map fw_sequence (sort_key fw_sequence ?T))"
    using setT by (simp add: distinct_map)
  with L inj' setT have "sort_key fw_sequence ?T = ?L"
    by (intro map_sorted_distinct_set_unique [of fw_sequence]) simp_all
  then show ?thesis by (simp add: ordered_rules_def tenant_rules_def)
qed


lemma moved_Inr: "moved cu ct way a b d = (Inr u, d') \<longleftrightarrow> u = fw_uuid b \<and>
    d' = fw_audit cu ct ''FIREWALL_RULE_UPDATE'' (Some (fw_id a)) (''Rule: '' @ show_opt id (fw_description a)) None
       (Some (''Moved '' @ way @ '' (seq '' @ show_int (fw_sequence a) @ '' <-> '' @ show_int (fw_sequence b) @ '')''))
       ''Rule order changed via API'' (save_rules (swap_rules a b) d)"
  by (auto simp: moved_def)

lemma move_rule_up_Inr:
  assumes "move_rule_up p cu ct uuid d = (Inr u, d')"
  obtains i where "Suc i < length (ordered_rules (t_id ct) d)" "fw_uuid (ordered_rules (t_id ct) d ! Suc i) = uuid"
    "u = fw_uuid (ordered_rules (t_id ct) d ! i)"
    "fw_rules d' = swap_rules (ordered_rules (t_id ct) d ! Suc i) (ordered_rules (t_id ct) d ! i) (fw_rules d)"
  using assms
  by (auto simp: move_rule_up_def fw_guard_def Let_def moved_Inr dest!: index_of_Some split: if_splits option.splits nat.splits)

lemma ordered_rules_cong: "fw_rules d = fw_rules d' \<Longrightarrow> ordered_rules tid d = ordered_rules tid d'"
  by (simp add: ordered_rules_def tenant_rules_def)

text \<open>
  When the sequences of a tenant's rules are all different, moving a rule up exchanges it with the
  rule just before it in the order the rules are listed in, and changes no other rule of any tenant.
\<close>

theorem move_up_swaps:
  assumes "distinct_keys fw_id (fw_rules d)" "distinct_keys fw_sequence (tenant_rules (t_id ct) d)"
    and "move_rule_up ''opnsense'' cu ct uuid d = (Inr other, d')"
  shows "\<exists>i. Suc i < length (ordered_rules (t_id ct) d) \<and>
    map fw_uuid (ordered_rules (t_id ct) d) ! i = other \<and> map fw_uuid (ordered_rules (t_id ct) d) ! Suc i = uuid \<and>
    map fw_uuid (ordered_rules (t_id ct) d') = (map fw_uuid (ordered_rules (t_id ct) d))[i := uuid, Suc i := other] \<and>
    {r \<in> set (fw_rules d'). fw_id r \<notin> fw_id ` {ordered_rules (t_id ct) d ! i, ordered_rules (t_id ct) d ! Suc i}} =
      {r \<in> set (fw_rules d). fw_id r \<notin> fw_id ` {ordered_rules (t_id ct) d ! i, ordered_rules (t_id ct) d ! Suc i}}"
proof -
  let ?rs = "ordered_rules (t_id ct) d"
  from assms(3) obtain i where i: "Suc i < length ?rs" "fw_uuid (?rs ! Suc i) = uuid" "other = fw_uuid (?rs ! i)"
    "fw_rules d' = swap_rules (?rs ! Suc i) (?rs ! i) (fw_rules d)" by (rule move_rule_up_Inr)
  have "ordered_rules (t_id ct) d' = ordered_rules (t_id ct) (save_rules (swap_rules (?rs ! Suc i) (?rs ! i)) d)"
    by (rule ordered_rules_cong) (simp add: i(4))
  with swap_adjacent [OF assms(1,2), of "Suc i" i] i
  have "map fw_uuid (ordered_rules (t_id ct) d') = (map fw_uuid ?rs)[i := uuid, Suc i := other]"
    by (simp add: map_update)
  moreover have "{r \<in> set (fw_rules d'). fw_id r \<notin> fw_id ` {?rs ! i, ?rs ! Suc i}} = {r \<in> set (fw_rules d). fw_id r \<notin> fw_id ` {?rs ! i, ?rs ! Suc i}}"
    unfolding i(4) swap_rules_def set_upd_rows by auto
  ultimately show ?thesis using i by (intro exI [of _ i]) simp
qed

text \<open>Rules with equal sequences stay where they are, although the answer says that they were moved.\<close>

lemma sort_key_map: "sort_key k (map f xs) = map f (sort_key (k \<circ> f) xs)"
proof -
  have "insort_key k (f x) (map f ys) = map f (insort_key (k \<circ> f) x ys)" for x ys by (induction ys) auto
  then show ?thesis by (induction xs) (simp_all add: sort_key_def)
qed

lemma insort_key_cong: "\<forall>y \<in> insert x (set ys). k y = k' y \<Longrightarrow> insort_key k x ys = insort_key k' x ys"
  by (induction ys) auto

lemma sort_key_cong: "\<forall>y \<in> set xs. k y = k' y \<Longrightarrow> sort_key k xs = sort_key k' xs"
proof (induction xs)
  case (Cons x xs)
  then have "sort_key k xs = sort_key k' xs" by simp
  moreover have "insort_key k x (sort_key k' xs) = insort_key k' x (sort_key k' xs)"
    using Cons.prems by (intro insort_key_cong) simp
  ultimately show ?case by (simp add: sort_key_def)
qed simp

theorem move_up_ties:
  assumes "move_rule_up ''opnsense'' cu ct uuid d = (Inr other, d')" "distinct_keys fw_id (fw_rules d)"
    and tie: "\<And>r. r \<in> set (tenant_rules (t_id ct) d) \<Longrightarrow> fw_uuid r \<in> {uuid, other} \<Longrightarrow> fw_sequence r = s"
  shows "map fw_uuid (ordered_rules (t_id ct) d') = map fw_uuid (ordered_rules (t_id ct) d)"
proof -
  let ?rs = "ordered_rules (t_id ct) d"
  from assms(1) obtain i where i: "Suc i < length ?rs" "fw_uuid (?rs ! Suc i) = uuid" "other = fw_uuid (?rs ! i)"
    "fw_rules d' = swap_rules (?rs ! Suc i) (?rs ! i) (fw_rules d)" by (rule move_rule_up_Inr)
  have mem: "?rs ! Suc i \<in> set (tenant_rules (t_id ct) d)" "?rs ! i \<in> set (tenant_rules (t_id ct) d)"
    using i(1) nth_mem [of "Suc i" ?rs] nth_mem [of i ?rs] by (simp_all add: ordered_rules_def)
  then have seqs: "fw_sequence (?rs ! Suc i) = s" "fw_sequence (?rs ! i) = s" using tie i(2,3) by simp_all
  let ?f = "\<lambda>r. if fw_id r \<in> {fw_id (?rs ! i), fw_id (?rs ! Suc i)} then r\<lparr>fw_sequence := s, fw_apply_status := ''pending''\<rparr> else r"
  have rows: "fw_rules d' = map ?f (fw_rules d)"
    by (simp add: i(4) swap_rules_def upd_rows_def seqs)
  have keep: "fw_tenant_id (?f r) = fw_tenant_id r" "fw_uuid (?f r) = fw_uuid r" for r by simp_all
  have fs: "fw_sequence (?f r) = fw_sequence r" if r: "r \<in> set (fw_rules d)" for r
  proof -
    have "r = x" if "x \<in> set (tenant_rules (t_id ct) d)" "fw_id r = fw_id x" for x
      using assms(2) r that by (auto simp: distinct_keys_eq tenant_rules_def)
    with mem seqs show ?thesis by auto
  qed
  have t: "tenant_rules (t_id ct) d' = map ?f (tenant_rules (t_id ct) d)"
    unfolding tenant_rules_def rows filter_map comp_def keep ..
  have "sort_key fw_sequence (tenant_rules (t_id ct) d') = map ?f (sort_key (fw_sequence \<circ> ?f) (tenant_rules (t_id ct) d))"
    unfolding t by (rule sort_key_map)
  also have "sort_key (fw_sequence \<circ> ?f) (tenant_rules (t_id ct) d) = sort_key fw_sequence (tenant_rules (t_id ct) d)"
  proof (intro sort_key_cong ballI)
    fix y
    assume "y \<in> set (tenant_rules (t_id ct) d)"
    then have "y \<in> set (fw_rules d)" by (simp add: tenant_rules_def)
    then show "(fw_sequence \<circ> ?f) y = fw_sequence y" by (simp only: comp_apply fs)
  qed
  finally have "ordered_rules (t_id ct) d' = map ?f ?rs" by (simp only: ordered_rules_def)
  then show ?thesis by (simp only: map_map comp_def keep)
qed

text \<open>
  A rule can be handed to another tenant: the update accepts every column of the row, the owner
  included, so a user who may change the rules of one tenant can place a rule, waiting to be applied,
  among those of any other.
\<close>

theorem rule_to_other_tenant:
  assumes "has_permission cu (t_id ct) ''firewall:create'' d" "find_rule (t_id ct) uuid d = Some r"
    and "distinct_keys fw_uuid (fw_rules d)" "distinct_keys fw_id (fw_rules d)" "victim \<in> set (map t_id (tenants d))" "int_fits victim"
  shows "\<exists>j d'. update_rule ''opnsense'' cu ct uuid [(''tenant_id'', JInt victim)] d = (Inr j, d') \<and>
    r\<lparr>fw_tenant_id := victim, fw_apply_status := ''pending'', fw_apply_error := None\<rparr> \<in> set (tenant_rules victim d')"
proof -
  let ?r = "r\<lparr>fw_tenant_id := victim, fw_apply_status := ''pending'', fw_apply_error := None\<rparr>"
  have r: "r \<in> set (fw_rules d)" using find_rule_Some [OF assms(2)] by simp
  have "map_of text_cols ''tenant_id'' = None" by (simp add: text_cols_def)
  then have "set_rule_attrs [(''tenant_id'', JInt victim)] r = Inr (r\<lparr>fw_tenant_id := victim\<rparr>)"
    using assms(6) by (simp add: set_rule_attr_def int_cols_def)
  moreover have "\<not> row_clash (fw_id r) ?r d"
    using assms(5) r by (auto simp: row_clash_def dest: distinct_keys_eq [OF assms(3)] distinct_keys_eq [OF assms(4)])
  moreover have "?r \<in> set (upd_rows fw_id (fw_id r) (\<lambda>_. ?r) (fw_rules d))" using r by (rule upd_rows_hit) simp
  ultimately show ?thesis using assms(1,2)
    by (auto simp: update_rule_def fw_guard_def Let_def tenant_rules_def)
qed


subsection \<open>Examples\<close>

text \<open>Two tenants, a user of the first with the permission to change rules, and two of its rules.\<close>

definition fw_user :: user where
  "fw_user = new_user 7 ''ann'' ''ann@example.com'' ''pw'' None (Some 1)"

definition fw_role :: role where
  "fw_role = \<lparr>r_id = 1, r_name = ''netadmin'', r_description = None, r_tenant_id = Some 1, r_is_preset = False,
     r_is_system = False, r_permissions = [1]\<rparr>"

definition fw_db :: db where
  "fw_db = empty_db\<lparr>users := [fw_user], tenants := [new_tenant 1 ''a'' ''a'', new_tenant 2 ''b'' ''b''],
     permissions := [\<lparr>p_id = 1, p_name = ''firewall:create'', p_resource_type = ''firewall'', p_action = ''create'', p_description = None\<rparr>],
     roles := [fw_role],
     user_roles := [\<lparr>ur_id = 1, ur_user_id = 7, ur_tenant_id = Some 1, ur_role_id = 1, ur_granted_by = None\<rparr>],
     fw_rules := [(blank_rule 1 1 ''u1'' ''synced'')\<lparr>fw_sequence := 10\<rparr>, (blank_rule 2 1 ''u2'' ''synced'')\<lparr>fw_sequence := 20\<rparr>],
     seqs := (\<lambda>_. 9)\<rparr>"

lemma fw_user_may: "has_permission fw_user (t_id (new_tenant 1 ''a'' ''a'')) ''firewall:create'' fw_db"
  by code_simp

lemma move_up_swaps_witness:
  "\<exists>d' other. move_rule_up ''opnsense'' fw_user (new_tenant 1 ''a'' ''a'') ''u2'' fw_db = (Inr other, d') \<and>
     map fw_uuid (ordered_rules 1 d') = [''u2'', ''u1'']"
proof -
  let ?t = "new_tenant 1 ''a'' ''a''"
  have wf: "distinct_keys fw_id (fw_rules fw_db)" "distinct_keys fw_sequence (tenant_rules (t_id ?t) fw_db)"
    by code_simp+
  have rs: "map fw_uuid (ordered_rules (t_id ?t) fw_db) = [''u1'', ''u2'']" by code_simp
  have "fst (move_rule_up ''opnsense'' fw_user ?t ''u2'' fw_db) = Inr ''u1''" by code_simp
  then obtain d' where d': "move_rule_up ''opnsense'' fw_user ?t ''u2'' fw_db = (Inr ''u1'', d')" by (metis prod.collapse)
  from move_up_swaps [OF wf d'] obtain i where i: "Suc i < length (ordered_rules (t_id ?t) fw_db)"
    "map fw_uuid (ordered_rules (t_id ?t) d') = (map fw_uuid (ordered_rules (t_id ?t) fw_db))[i := ''u2'', Suc i := ''u1'']"
    by blast
  have "length (ordered_rules (t_id ?t) fw_db) = 2" using arg_cong [OF rs, of length] by simp
  with i(1) have "i = 0" by simp
  with i(2) rs have "map fw_uuid (ordered_rules (t_id ?t) d') = [''u2'', ''u1'']" by simp
  with d' show ?thesis by (auto simp: new_tenant_def)
qed

lemma rule_to_other_tenant_witness:
  "\<exists>j d' r. update_rule ''opnsense'' fw_user (new_tenant 1 ''a'' ''a'') ''u1'' [(''tenant_id'', JInt 2)] fw_db = (Inr j, d') \<and>
     r \<in> set (tenant_rules 2 d')"
proof -
  let ?t = "new_tenant 1 ''a'' ''a''"
  have "find_rule (t_id ?t) ''u1'' fw_db = Some ((blank_rule 1 1 ''u1'' ''synced'')\<lparr>fw_sequence := 10\<rparr>)"
    "distinct_keys fw_uuid (fw_rules fw_db)" "distinct_keys fw_id (fw_rules fw_db)" "2 \<in> set (map t_id (tenants fw_db))" "int_fits 2"
    by code_simp+
  from rule_to_other_tenant [OF fw_user_may this] show ?thesis by blast
qed

end
