(* ===== verification/Firewall_Tasks.thy ===== *)
theory Firewall_Tasks
  imports Firewall_Rules
begin

text \<open>
  The background tasks of the firewall, \<open>app/workers/tasks/firewall_manager.py\<close>, over the interface
  \<open>FirewallProvider\<close> of \<open>app/providers/firewall_provider.py\<close>; \<open>opnsense_provider\<close> is the one the tasks use.

  The state is the database and the firewall \<open>'w\<close>. A rollback restores the rows of the last commit but
  not the sequences, and never the firewall. \<open>log_audit_event\<close> commits what the session holds, and rolls
  it back when the audit row cannot be stored. Messages on the event channel, dates and the cached
  interface list (but not the call that fetches it) are left out.
\<close>

section \<open>The provider\<close>

record 'w fw_provider =
  fp_list :: "'w \<Rightarrow> (json, 'w) result"
  fp_add :: "json \<Rightarrow> 'w \<Rightarrow> (string, 'w) result"
  fp_set :: "string \<Rightarrow> json \<Rightarrow> 'w \<Rightarrow> (unit, 'w) result"
  fp_del :: "string \<Rightarrow> 'w \<Rightarrow> (unit, 'w) result"
  fp_move :: "string \<Rightarrow> string \<Rightarrow> 'w \<Rightarrow> (unit, 'w) result"
  fp_apply :: "'w \<Rightarrow> (json, 'w) result"
  fp_interfaces :: "'w \<Rightarrow> (json, 'w) result"

definition opnsense_provider :: "'w vm_run \<Rightarrow> tenant \<Rightarrow> 'w fw_provider" where
  "opnsense_provider run t =
     \<lparr>fp_list = provider_list_rules run t, fp_add = provider_add_rule run t, fp_set = provider_set_rule run t,
      fp_del = provider_del_rule run t, fp_move = provider_move_before run t, fp_apply = provider_apply_rules run t,
      fp_interfaces = provider_interface_list run t\<rparr>"

text \<open>A task answers, hands itself back to the queue, or ends with an exception.\<close>

datatype task_reply = Reply "(string \<times> json) list" | Retried py_exc | Crashed py_exc

definition task_error :: "string \<Rightarrow> task_reply" where
  "task_error m = Reply [(''status'', JStr ''error''), (''error'', JStr m)]"

text \<open>The beginning of every task: the tenant, and the one provider there is.\<close>

definition with_tenant ::
  "int \<Rightarrow> string \<Rightarrow> db \<times> 'w \<Rightarrow> (tenant \<Rightarrow> task_reply \<times> db \<times> 'w) \<Rightarrow> task_reply \<times> db \<times> 'w" where
  "with_tenant tid ptype s k =
     (case first_row (\<lambda>t. t_id t = tid) (tenants (fst s)) of
        None \<Rightarrow> (task_error (''Tenant '' @ show_int tid @ '' not found''), s)
      | Some t \<Rightarrow> (if ptype \<noteq> ''opnsense'' then (task_error (''Provider '' @ ptype @ '' not implemented''), s) else k t))"

definition system_event :: "string \<Rightarrow> int option \<Rightarrow> string \<Rightarrow> int \<Rightarrow> audit_entry" where
  "system_event act i nm tid =
     \<lparr>a_actor_id = None, a_actor_username = ''system'', a_action = audit_action act, a_target_type = ''opnsense_firewall_rule'',
      a_target_id = i, a_target_name = Some nm, a_old_value = None, a_new_value = None, a_details = None,
      a_request_id = None, a_ip_address = None, a_tenant_id = Some tid\<rparr>"

section \<open>Sessions with uncommitted rows\<close>

text \<open>The committed rows and the rows as the session sees them.\<close>

type_synonym session_rows = "db \<times> db"

definition rolled_back :: "session_rows \<Rightarrow> db" where
  "rolled_back s = (fst s)\<lparr>seqs := seqs (snd s)\<rparr>"

definition audited :: "audit_entry \<Rightarrow> session_rows \<Rightarrow> session_rows" where
  "audited a s =
     (if audit_fits a then (let d = (snd s)\<lparr>audit_log := audit_log (snd s) @ [a]\<rparr> in (d, d))
      else (rolled_back s, rolled_back s))"

section \<open>Rules as the firewall lists them\<close>

definition parse_bool :: "json \<Rightarrow> string" where
  "parse_bool v =
     (case v of
        JBool b \<Rightarrow> (if b then ''1'' else ''0'')
      | JStr s \<Rightarrow> (if lower s \<in> {''1'', ''true'', ''yes'', ''on''} then ''1'' else ''0'')
      | _ \<Rightarrow> ''0'')"

definition row_get :: "json \<Rightarrow> string \<Rightarrow> string \<Rightarrow> json" where
  "row_get row k dflt = (if json_has k row then json_get k row else JStr dflt)"

definition flag_fields :: "string list" where
  "flag_fields = [''enabled'', ''interfacenot'', ''quick'', ''source_not'', ''destination_not'', ''log'']"

definition listed_fields :: "json \<Rightarrow> (string \<times> json) list" where
  "listed_fields row =
     map (\<lambda>(k, dflt). (k, if k \<in> set flag_fields then JStr (parse_bool (row_get row k dflt)) else row_get row k dflt)) rule_defaults"

text \<open>\<open>int(v)\<close>\<close>

definition int_of_json :: "json \<Rightarrow> py_exc + int" where
  "int_of_json v =
     (case v of
        JInt i \<Rightarrow> Inr i
      | JBool b \<Rightarrow> Inr (if b then 1 else 0)
      | JStr s \<Rightarrow> (case py_int s of Some i \<Rightarrow> Inr i
          | None \<Rightarrow> Inl (ValueError (''invalid literal for int() with base 10: '' @ repr_str s)))
      | _ \<Rightarrow> Inl (OtherError (''int() argument must be a string or a real number, not '' @ repr_str (type_name v))))"

definition row_uuid :: "json \<Rightarrow> string" where
  "row_uuid row = json_text (row_get row ''uuid'' '''')"

section \<open>sync_firewall_rules\<close>

record sync_state =
  sy_rows :: session_rows
  sy_added :: int
  sy_updated :: int
  sy_deleted :: int

definition waiting :: "fw_rule \<Rightarrow> bool" where
  "waiting r \<longleftrightarrow> fw_apply_status r \<in> {''pending'', ''pending_delete'', ''failed''}"

definition sync_update :: "int \<Rightarrow> json \<Rightarrow> fw_rule \<Rightarrow> fw_rule \<Rightarrow> sync_state \<Rightarrow> sync_state" where
  "sync_update tid row old new s =
     s\<lparr>sy_rows := audited ((system_event ''FIREWALL_RULE_UPDATE'' (Some (fw_id old)) (rule_name new) tid)
          \<lparr>a_old_value := Some (''desc='' @ show_opt id (fw_description old)),
           a_new_value := Some (''Detected change from OPNsense: sequence, '' @ join_with '', '' (map fst rule_defaults)),
           a_details := Some (''Sync detected changes in rule uuid='' @ row_uuid row)\<rparr>)
          (fst (sy_rows s), save_rules (upd_rows fw_id (fw_id old) (\<lambda>_. new\<lparr>fw_apply_status := ''synced'', fw_apply_error := None\<rparr>)) (snd (sy_rows s))),
       sy_updated := sy_updated s + 1\<rparr>"

definition sync_create :: "int \<Rightarrow> json \<Rightarrow> fw_rule \<Rightarrow> sync_state \<Rightarrow> sync_state" where
  "sync_create tid row new s =
     s\<lparr>sy_rows := audited ((system_event ''FIREWALL_RULE_CREATE'' (Some (fw_id new)) (rule_name new) tid)
          \<lparr>a_new_value := Some (''Sync detected new rule from OPNsense: '' @ show_opt id (fw_description new)),
           a_details := Some (''Sync added rule uuid='' @ row_uuid row @ '' from OPNsense'')\<rparr>)
          (fst (sy_rows s), bump_seq TFwRules (save_rules (\<lambda>rs. rs @ [new]) (snd (sy_rows s)))),
       sy_added := sy_added s + 1\<rparr>"

text \<open>
  One row of the firewall. \<open>known\<close> are the rules of the tenant when the task began, by their uuid; the row
  object shows what the session sees now. A value that the database refuses breaks the insert of a new
  row, but only the commit inside the audit call for a changed one, where the exception is swallowed.
\<close>

definition same_fields :: "fw_rule \<Rightarrow> (string \<times> json) list \<Rightarrow> bool" where
  "same_fields r kvs = list_all (\<lambda>(k, v). rule_attr r k = Some v) kvs"

definition sync_row :: "int \<Rightarrow> string set \<Rightarrow> json \<Rightarrow> sync_state \<Rightarrow> py_exc \<times> sync_state + sync_state" where
  "sync_row tid known row s =
     (case int_of_json (row_get row ''sequence'' ''100'') of
        Inl e \<Rightarrow> Inl (e, s)
      | Inr sq \<Rightarrow>
          (let d = snd (sy_rows s); fields = (''sequence'', JInt sq) # listed_fields row
           in case (if row_uuid row \<in> known then find_rule tid (row_uuid row) d else None) of
                Some old \<Rightarrow>
                  (if waiting old then Inr s
                   else if same_fields old fields then Inr s
                   else case set_rule_attrs fields old of
                     Inl e \<Rightarrow> Inr (s\<lparr>sy_rows := (rolled_back (sy_rows s), rolled_back (sy_rows s)), sy_updated := sy_updated s + 1\<rparr>)
                   | Inr new \<Rightarrow> Inr (sync_update tid row old new s))
              | None \<Rightarrow>
                  (case set_rule_attrs fields (blank_rule (next_id TFwRules d) tid (row_uuid row) ''synced'') of
                     Inl e \<Rightarrow> Inl (e, s)
                   | Inr new \<Rightarrow>
                       (if row_uuid row \<in> set (map fw_uuid (fw_rules d))
                        then Inl (IntegrityError ''opnsense_firewall_rules_uuid_key'', s)
                        else Inr (sync_create tid row new s)))))"

fun sync_all :: "int \<Rightarrow> string set \<Rightarrow> json list \<Rightarrow> sync_state \<Rightarrow> py_exc \<times> sync_state + sync_state" where
  "sync_all tid known [] s = Inr s"
| "sync_all tid known (row # rows) s =
     (case sync_row tid known row s of Inl x \<Rightarrow> Inl x | Inr s' \<Rightarrow> sync_all tid known rows s')"

definition sync_delete :: "int \<Rightarrow> string list \<Rightarrow> string \<Rightarrow> sync_state \<Rightarrow> sync_state" where
  "sync_delete tid listed uuid s =
     (case find_rule tid uuid (snd (sy_rows s)) of
        None \<Rightarrow> s
      | Some r \<Rightarrow>
          (if uuid \<in> set listed \<or> fw_apply_status r \<noteq> ''synced'' then s
           else s\<lparr>sy_rows := audited ((system_event ''FIREWALL_RULE_DELETE'' (Some (fw_id r)) (rule_name r) tid)
                  \<lparr>a_old_value := Some (''uuid='' @ uuid @ '', desc='' @ show_opt id (fw_description r)),
                   a_new_value := Some ''Sync detected rule deleted from OPNsense'',
                   a_details := Some (''Sync removed rule uuid='' @ uuid @ '' (deleted from OPNsense)'')\<rparr>)
                  (fst (sy_rows s), save_rules (del_rows fw_id (fw_id r)) (snd (sy_rows s))),
                sy_deleted := sy_deleted s + 1\<rparr>))"

definition sync_rows :: "int \<Rightarrow> json list \<Rightarrow> db \<Rightarrow> py_exc \<times> sync_state + sync_state" where
  "sync_rows tid rows d =
     (let known = map fw_uuid (tenant_rules tid d); listed = map row_uuid rows
      in case sync_all tid (set known) rows \<lparr>sy_rows = (d, d), sy_added = 0, sy_updated = 0, sy_deleted = 0\<rparr> of
           Inl x \<Rightarrow> Inl x
         | Inr s \<Rightarrow> Inr (fold (sync_delete tid listed) known s))"

definition first_bad :: "json list \<Rightarrow> py_exc option" where
  "first_bad rows = (case List.map_filter (\<lambda>r. case dict_of r of Inl e \<Rightarrow> Some e | Inr _ \<Rightarrow> None) rows of [] \<Rightarrow> None | e # _ \<Rightarrow> Some e)"

definition retry_or_fail :: "nat \<Rightarrow> nat \<Rightarrow> py_exc \<Rightarrow> task_reply" where
  "retry_or_fail retries max_retries e = (if retries < max_retries then Retried e else task_error (exc_str e))"

definition sync_firewall_rules_task ::
  "(tenant \<Rightarrow> 'w fw_provider) \<Rightarrow> nat \<Rightarrow> int \<Rightarrow> string \<Rightarrow> db \<times> 'w \<Rightarrow> task_reply \<times> db \<times> 'w" where
  "sync_firewall_rules_task provider retries tid ptype s =
     with_tenant tid ptype s (\<lambda>t.
       let (d, w) = s;
           (rows, w1) = then_do (fp_list (provider t) w) (\<lambda>j w'. (case iter_rows j of Inl e \<Rightarrow> Inl e
             | Inr rs \<Rightarrow> (case first_bad rs of Some e \<Rightarrow> Inl e | None \<Rightarrow> Inr rs), w'))
       in case rows of
            Inl e \<Rightarrow> (retry_or_fail retries 3 e, d, w1)
          | Inr rs \<Rightarrow>
              (case sync_rows tid rs d of
                 Inl (e, st) \<Rightarrow> (retry_or_fail retries 3 e, rolled_back (sy_rows st), w1)
               | Inr st \<Rightarrow>
                   (Reply [(''status'', JStr ''success''), (''added'', JInt (sy_added st)), (''updated'', JInt (sy_updated st)),
                      (''deleted'', JInt (sy_deleted st))],
                    snd (sy_rows st), snd (fp_interfaces (provider t) w1))))"


section \<open>apply_all_pending_rules\<close>

record apply_state =
  ap_rules :: "fw_rule list"
  ap_applied :: int
  ap_failed :: int
  ap_errors :: "string list"

definition mark :: "int \<Rightarrow> (fw_rule \<Rightarrow> fw_rule) \<Rightarrow> apply_state \<Rightarrow> apply_state" where
  "mark i f a = a\<lparr>ap_rules := upd_rows fw_id i f (ap_rules a)\<rparr>"

definition fail_rule :: "py_exc \<Rightarrow> fw_rule \<Rightarrow> fw_rule" where
  "fail_rule e r = r\<lparr>fw_apply_status := ''failed'', fw_apply_error := Some (take 500 (exc_str e))\<rparr>"

definition sync_ok :: "fw_rule \<Rightarrow> fw_rule" where
  "sync_ok r = r\<lparr>fw_apply_status := ''synced'', fw_apply_error := None\<rparr>"

definition counted :: "apply_state \<Rightarrow> apply_state" where
  "counted a = a\<lparr>ap_applied := ap_applied a + 1\<rparr>"

definition failed_with :: "string \<Rightarrow> fw_rule \<Rightarrow> py_exc \<Rightarrow> apply_state \<Rightarrow> apply_state" where
  "failed_with what r e a = mark (fw_id r) (fail_rule e)
     (a\<lparr>ap_failed := ap_failed a + 1, ap_errors := ap_errors a @ [what @ '' rule '' @ show_int (fw_id r) @ '': '' @ exc_str e]\<rparr>)"

definition provisional :: "fw_rule \<Rightarrow> bool" where
  "provisional r \<longleftrightarrow> starts_with (fw_uuid r) ''pending''"

definition push_delete :: "'w fw_provider \<Rightarrow> fw_rule \<Rightarrow> apply_state \<times> 'w \<Rightarrow> apply_state \<times> 'w" where
  "push_delete p r s =
     (let (a, w) = s
      in if provisional r then (counted a, w)
         else case fp_del p (fw_uuid r) w of
           (Inr _, w') \<Rightarrow> (counted a, w')
         | (Inl e, w') \<Rightarrow> (failed_with ''Delete'' r e a, w'))"

definition push_update :: "'w fw_provider \<Rightarrow> fw_rule \<Rightarrow> apply_state \<times> 'w \<Rightarrow> apply_state \<times> 'w" where
  "push_update p r s =
     (let (a, w) = s
      in case fp_set p (fw_uuid r) (to_opnsense_payload r) w of
           (Inr _, w') \<Rightarrow> (counted (mark (fw_id r) sync_ok a), w')
         | (Inl e, w') \<Rightarrow> (failed_with ''Update'' r e a, w'))"

definition push_create :: "'w fw_provider \<Rightarrow> fw_rule \<Rightarrow> apply_state \<times> 'w \<Rightarrow> apply_state \<times> 'w" where
  "push_create p r s =
     (let (a, w) = s
      in case fp_add p (to_opnsense_payload r) w of
           (Inr u, w') \<Rightarrow> (counted (mark (fw_id r) (\<lambda>x. sync_ok (x\<lparr>fw_uuid := u\<rparr>)) a), w')
         | (Inl e, w') \<Rightarrow> (failed_with ''Create'' r e a, w'))"

text \<open>
  \<open>for i in range(len(desired) - 2, -1, -1)\<close>: each rule is moved before its successor, from the end; a
  move that fails is passed over.
\<close>

definition push_move :: "'w fw_provider \<Rightarrow> string list \<Rightarrow> string \<times> string \<Rightarrow> 'w \<Rightarrow> 'w" where
  "push_move p listed ab w = (if fst ab \<in> set listed \<and> snd ab \<in> set listed then snd (fp_move p (fst ab) (snd ab) w) else w)"

definition push_order :: "'w fw_provider \<Rightarrow> string list \<Rightarrow> string list \<Rightarrow> 'w \<Rightarrow> 'w" where
  "push_order p listed desired w = foldr (push_move p listed) (zip desired (tl desired)) w"

text \<open>The uuids the firewall lists; nothing when it cannot be asked.\<close>

definition listed_order :: "(json, 'w) result \<Rightarrow> string list" where
  "listed_order r =
     (case fst r of
        Inl e \<Rightarrow> []
      | Inr j \<Rightarrow> (case iter_rows j of
          Inl e \<Rightarrow> []
        | Inr rows \<Rightarrow> (case first_bad rows of
            Some e \<Rightarrow> []
          | None \<Rightarrow> map (\<lambda>x. json_text (json_get ''uuid'' x)) (filter (\<lambda>x. truthy_json (json_get ''uuid'' x)) rows))))"

definition reload_failed :: "fw_rule list \<Rightarrow> py_exc \<Rightarrow> apply_state \<Rightarrow> apply_state" where
  "reload_failed pushed e a =
     a\<lparr>ap_rules := map (\<lambda>x. if fw_id x \<in> set (map fw_id pushed) \<and> fw_apply_status x = ''synced'' then fail_rule e x else x) (ap_rules a)\<rparr>"

text \<open>
  The rules after the deletions, updates and creations: the rows of deleted rules are still among them.
\<close>

definition pushed :: "'w fw_provider \<Rightarrow> int \<Rightarrow> db \<Rightarrow> 'w \<Rightarrow> apply_state \<times> 'w" where
  "pushed p tid d w =
     (let rules = tenant_rules tid d
      in fold (push_create p) (filter (\<lambda>r. fw_apply_status r = ''pending'' \<and> provisional r) rules)
          (fold (push_update p) (filter (\<lambda>r. fw_apply_status r = ''pending'' \<and> \<not> provisional r) rules)
            (fold (push_delete p) (filter (\<lambda>r. fw_apply_status r = ''pending_delete'') rules)
              (\<lparr>ap_rules = fw_rules d, ap_applied = 0, ap_failed = 0, ap_errors = []\<rparr>, w))))"

text \<open>\<open>order_by(sequence)\<close> leaves rows of equal sequence in any order; here they keep that of the table.\<close>

definition rule_order :: "int \<Rightarrow> fw_rule list \<Rightarrow> string list" where
  "rule_order tid rs = map fw_uuid (sort_key fw_sequence (filter (\<lambda>r. fw_tenant_id r = tid) rs))"

text \<open>What is done to the rules and to the firewall, up to the commit.\<close>

definition push_rules :: "'w fw_provider \<Rightarrow> int \<Rightarrow> db \<Rightarrow> 'w \<Rightarrow> apply_state \<times> 'w" where
  "push_rules p tid d w =
     (let rules = tenant_rules tid d;
          doomed = filter (\<lambda>r. fw_apply_status r = ''pending_delete'') rules;
          changed = filter (\<lambda>r. fw_apply_status r = ''pending'' \<and> \<not> provisional r) rules;
          fresh = filter (\<lambda>r. fw_apply_status r = ''pending'' \<and> provisional r) rules;
          (a, w1) = pushed p tid d w;
          desired = rule_order tid (ap_rules a);
          listing = fp_list p w1;
          w2 = (if 1 < length desired \<and> listed_order listing \<noteq> [] then push_order p (listed_order listing) desired (snd listing) else snd listing);
          (a1, w3) = (if 0 < ap_applied a
             then (case fp_apply p w2 of (Inl e, w') \<Rightarrow> (reload_failed (changed @ fresh) e a, w') | (Inr _, w') \<Rightarrow> (a, w'))
             else (a, w2))
      in (a1\<lparr>ap_rules := filter (\<lambda>x. \<not> (fw_id x \<in> set (map fw_id doomed) \<and> fw_apply_status x \<noteq> ''failed'')) (ap_rules a1)\<rparr>, w3))"

definition apply_all_pending_rules_task ::
  "(tenant \<Rightarrow> 'w fw_provider) \<Rightarrow> nat \<Rightarrow> int \<Rightarrow> string \<Rightarrow> db \<times> 'w \<Rightarrow> task_reply \<times> db \<times> 'w" where
  "apply_all_pending_rules_task provider retries tid ptype s =
     with_tenant tid ptype s (\<lambda>t.
       let (d, w) = s
       in if filter (\<lambda>r. fw_apply_status r \<in> {''pending'', ''pending_delete''}) (tenant_rules tid d) = []
          then (Reply [(''status'', JStr ''success''), (''applied'', JInt 0), (''message'', JStr ''No pending rules to apply'')], s)
          else let (a, w') = push_rules (provider t) tid d w
               in if \<not> distinct_keys fw_uuid (ap_rules a)
                  then (retry_or_fail retries 3 (IntegrityError ''opnsense_firewall_rules_uuid_key''), d, w')
                  else (Reply [(''status'', JStr ''success''), (''applied'', JInt (ap_applied a)), (''failed'', JInt (ap_failed a)),
                          (''errors'', JArr (map JStr (ap_errors a)))],
                        log_audit_event ((system_event ''FIREWALL_RULE_APPLY'' None (''Tenant '' @ show_int tid @ '' OPNsense rules'') tid)
                          \<lparr>a_new_value := Some (''Applied '' @ show_int (ap_applied a) @ '' rules, '' @ show_int (ap_failed a) @ '' failed''),
                           a_details := Some (''Bulk apply task: '' @ show_int (ap_applied a) @ '' applied, '' @ show_int (ap_failed a) @ '' failed'')\<rparr>)
                          None (save_rules (\<lambda>_. ap_rules a) d), w'))"

section \<open>The other tasks\<close>

text \<open>
  \<open>apply_firewall_rule\<close>. The rule is looked up by its id alone. When it is missing, a create reaches the
  row that is not there only after the firewall has been changed.
\<close>

definition apply_event :: "int \<Rightarrow> int \<Rightarrow> fw_rule option \<Rightarrow> string \<Rightarrow> string \<Rightarrow> audit_entry" where
  "apply_event tid i r new details =
     (system_event ''FIREWALL_RULE_APPLY'' (Some i)
        (case r of None \<Rightarrow> ''OPNsense Rule: unknown'' | Some x \<Rightarrow> rule_name x) tid)\<lparr>a_new_value := Some new, a_details := Some details\<rparr>"

definition create_payload :: "json \<Rightarrow> int \<Rightarrow> db \<Rightarrow> json" where
  "create_payload b tid d =
     (case b of
        JObj ms \<Rightarrow> (if json_has ''sequence'' b then b
          else JObj (ms @ [(''sequence'', JStr (show_int ((int (length (tenant_rules tid d)) + 1) * 100)))]))
      | _ \<Rightarrow> b)"

definition push_one ::
  "'w fw_provider \<Rightarrow> int \<Rightarrow> string \<Rightarrow> fw_rule option \<Rightarrow> json \<Rightarrow> db \<Rightarrow> 'w \<Rightarrow> (db, 'w) result" where
  "push_one p tid op r b d w =
     (if op = ''create''
      then then_do (fp_add p (create_payload (if truthy_json b then b else JObj []) tid d) w) (\<lambda>u w'.
        case r of
          None \<Rightarrow> raise (AttributeError ''NoneType object has no attribute uuid'') w'
        | Some x \<Rightarrow>
            (if \<exists>y \<in> set (fw_rules d). fw_id y \<noteq> fw_id x \<and> fw_uuid y = u then raise (IntegrityError ''opnsense_firewall_rules_uuid_key'') w'
             else ok (save_rules (upd_rows fw_id (fw_id x) (\<lambda>y. y\<lparr>fw_uuid := u, fw_apply_status := ''synced''\<rparr>)) d) w'))
      else case r of
        None \<Rightarrow> ok d w
      | Some x \<Rightarrow>
          (if op = ''update''
           then then_do (fp_set p (fw_uuid x) (to_opnsense_payload x) w)
             (\<lambda>_. ok (save_rules (upd_rows fw_id (fw_id x) (\<lambda>y. y\<lparr>fw_apply_status := ''synced''\<rparr>)) d))
           else if op = ''delete'' then then_do (fp_del p (fw_uuid x) w) (\<lambda>_. ok d)
           else ok d w))"

text \<open>A session whose commit failed accepts nothing more until it is rolled back.\<close>

definition broken_commit :: "py_exc \<Rightarrow> bool" where
  "broken_commit e = (case e of IntegrityError m \<Rightarrow> True | _ \<Rightarrow> False)"

definition apply_firewall_rule_task ::
  "(tenant \<Rightarrow> 'w fw_provider) \<Rightarrow> nat \<Rightarrow> int \<Rightarrow> string \<Rightarrow> string \<Rightarrow> int \<Rightarrow> json \<Rightarrow> db \<times> 'w \<Rightarrow> task_reply \<times> db \<times> 'w" where
  "apply_firewall_rule_task provider retries tid ptype op i b s =
     with_tenant tid ptype s (\<lambda>t.
       let (d, w) = s; r = first_row (\<lambda>x. fw_id x = i) (fw_rules d)
       in if r = None \<and> op \<noteq> ''create'' then (task_error (''Rule '' @ show_int i @ '' not found in DB''), s)
          else case push_one (provider t) tid op r b d w of
            (Inr d', w') \<Rightarrow>
              (Reply [(''status'', JStr ''success''), (''operation'', JStr op), (''rule_id'', JInt i)],
               log_audit_event (apply_event tid i r (''Rule '' @ op @ '' sent to OPNsense (pending apply)'')
                 (''Celery task completed '' @ op @ '' for rule '' @ show_int i)) None d', w')
          | (Inl e, w') \<Rightarrow>
              (if retries < 3 then (Retried e, d, w')
               else if broken_commit e then (Crashed (OtherError ''PendingRollbackError''), d, w')
               else (Reply [(''status'', JStr ''error''), (''error'', JStr (exc_str e)), (''retries'', JInt (int retries))],
                     log_audit_event (apply_event tid i r (''Apply failed after 3 retries: '' @ exc_str e)
                       (''Celery task apply failed for rule '' @ show_int i)) None
                       (save_rules (upd_rows fw_id i (fail_rule e)) d), w')))"

definition apply_opnsense_firewall_task ::
  "(tenant \<Rightarrow> 'w fw_provider) \<Rightarrow> nat \<Rightarrow> int \<Rightarrow> db \<times> 'w \<Rightarrow> task_reply \<times> db \<times> 'w" where
  "apply_opnsense_firewall_task provider retries tid s =
     with_tenant tid ''opnsense'' s (\<lambda>t.
       let (d, w) = s
       in case fp_apply (provider t) w of
            (Inr _, w') \<Rightarrow>
              (Reply [(''status'', JStr ''success''), (''tenant_id'', JInt tid)],
               save_rules (map (\<lambda>x. if fw_tenant_id x = tid \<and> fw_apply_status x = ''pending'' then x\<lparr>fw_apply_status := ''synced''\<rparr> else x)) d, w')
          | (Inl e, w') \<Rightarrow>
              ((if retries < 5 then Retried e
                else Reply [(''status'', JStr ''error''), (''error'', JStr (exc_str e)), (''retries'', JInt (int retries))]), d, w'))"

text \<open>
  \<open>reconcile_firewall_rules\<close> deletes and commits first, then reads the rows. The sort reads every sequence
  before the first row is inserted.
\<close>

fun int_keys :: "json list \<Rightarrow> py_exc + (int \<times> json) list" where
  "int_keys [] = Inr []"
| "int_keys (r # rs) =
     (case int_of_json (row_get r ''sequence'' ''0'') of
        Inl e \<Rightarrow> Inl e
      | Inr k \<Rightarrow> (case int_keys rs of Inl e \<Rightarrow> Inl e | Inr xs \<Rightarrow> Inr ((k, r) # xs)))"

fun load_rules :: "int \<Rightarrow> nat \<Rightarrow> json list \<Rightarrow> db \<Rightarrow> py_exc + db" where
  "load_rules tid i [] d = Inr d"
| "load_rules tid i (row # rows) d =
     (case set_rule_attrs ((''sequence'', JInt ((int i + 1) * 100)) # listed_fields row)
        (blank_rule (next_id TFwRules d) tid (row_uuid row) ''synced'') of
        Inl e \<Rightarrow> Inl e
      | Inr new \<Rightarrow>
          (if row_uuid row \<in> set (map fw_uuid (fw_rules d)) then Inl (IntegrityError ''opnsense_firewall_rules_uuid_key'')
           else load_rules tid (Suc i) rows (bump_seq TFwRules (save_rules (\<lambda>rs. rs @ [new]) d))))"

definition reconcile_firewall_rules_task ::
  "(tenant \<Rightarrow> 'w fw_provider) \<Rightarrow> int \<Rightarrow> string \<Rightarrow> db \<times> 'w \<Rightarrow> task_reply \<times> db \<times> 'w" where
  "reconcile_firewall_rules_task provider tid ptype s =
     with_tenant tid ptype s (\<lambda>t.
       let (d, w) = s
       in case fp_list (provider t) w of
            (Inl e, w') \<Rightarrow> (task_error (exc_str e), d, w')
          | (Inr j, w') \<Rightarrow>
              (let d1 = save_rules (filter (\<lambda>r. fw_tenant_id r \<noteq> tid)) d
               in case (case iter_rows j of Inl e \<Rightarrow> Inl e | Inr rows \<Rightarrow> (case first_bad rows of Some e \<Rightarrow> Inl e | None \<Rightarrow>
                    (case int_keys rows of Inl e \<Rightarrow> Inl e | Inr xs \<Rightarrow> map_sum id (Pair (length xs)) (load_rules tid 0 (map snd (sort_key fst xs)) d1)))) of
                    Inl e \<Rightarrow> (task_error (exc_str e), d1, w')
                  | Inr (n, d2) \<Rightarrow>
                      (Reply [(''status'', JStr ''success''), (''reconciled'', JInt (int n))],
                       log_audit_event ((system_event ''RECONCILE'' None (''Tenant '' @ show_int tid @ '' OPNsense Firewall'') tid)
                         \<lparr>a_new_value := Some (''Reconcile: replaced '' @ show_int (int n) @ '' rules from OPNsense''),
                          a_details := Some (''Full reconcile for tenant '' @ show_int tid @ '': '' @ show_int (int n) @ '' rules loaded'')\<rparr>) None d2, w')))"

definition sync_all_firewall_rules_task :: "db \<Rightarrow> task_reply \<times> db" where
  "sync_all_firewall_rules_task d =
     (let ts = filter t_is_active (tenants d)
      in (Reply [(''status'', JStr ''success''), (''tenants_synced'', JInt (int (length ts)))],
          fold (\<lambda>t. send_task (SyncFirewallRules (t_id t))) ts d))"


section \<open>Correctness of the sync\<close>

definition fw_wf :: "db \<Rightarrow> bool" where
  "fw_wf d \<longleftrightarrow> distinct_keys fw_id (fw_rules d) \<and> list_all (\<lambda>r. fw_id r < next_id TFwRules d) (fw_rules d)"

text \<open>The rows a sync of tenant \<open>tid\<close> must not touch: those of other tenants and those with a change to push.\<close>

definition spared :: "int \<Rightarrow> db \<Rightarrow> fw_rule set" where
  "spared tid d = {r \<in> set (fw_rules d). fw_tenant_id r \<noteq> tid \<or> waiting r}"

definition session_ok :: "int \<Rightarrow> fw_rule set \<Rightarrow> session_rows \<Rightarrow> bool" where
  "session_ok tid K s \<longleftrightarrow> fw_wf (fst s) \<and> fw_wf (snd s) \<and> next_id TFwRules (fst s) \<le> next_id TFwRules (snd s) \<and>
     spared tid (fst s) = K \<and> spared tid (snd s) = K"

lemma spared_replace:
  assumes "fw_wf d" "old \<in> set (fw_rules d)" "fw_tenant_id old = tid" "\<not> waiting old"
    and "fw_id new = fw_id old" "fw_tenant_id new = tid" "\<not> waiting new"
  shows "spared tid (save_rules (upd_rows fw_id (fw_id old) (\<lambda>_. new)) d) = spared tid d"
    and "fw_wf (save_rules (upd_rows fw_id (fw_id old) (\<lambda>_. new)) d)"
proof -
  have "distinct_keys fw_id (fw_rules d)" using assms(1) by (simp add: fw_wf_def)
  from upd_rows_in_Some [OF this assms(2) refl]
  have rows: "set (upd_rows fw_id (fw_id old) (\<lambda>_. new) (fw_rules d)) = insert new (set (fw_rules d) - {old})" .
  show "spared tid (save_rules (upd_rows fw_id (fw_id old) (\<lambda>_. new)) d) = spared tid d"
    using assms(3-7) by (auto simp: spared_def rows)
  show "fw_wf (save_rules (upd_rows fw_id (fw_id old) (\<lambda>_. new)) d)"
    using assms(1,2,5) by (auto simp: fw_wf_def list_all_iff rows next_id_def distinct_keys_replace)
qed

lemma spared_append:
  assumes "fw_wf d" "fw_id new = next_id TFwRules d" "fw_tenant_id new = tid" "\<not> waiting new"
  shows "spared tid (bump_seq TFwRules (save_rules (\<lambda>rs. rs @ [new]) d)) = spared tid d"
    and "fw_wf (bump_seq TFwRules (save_rules (\<lambda>rs. rs @ [new]) d))"
  using assms
  by (auto simp: spared_def fw_wf_def list_all_iff next_id_def bump_seq_def distinct_keys_append)

lemma spared_delete:
  assumes "fw_wf d" "old \<in> set (fw_rules d)" "fw_tenant_id old = tid" "\<not> waiting old"
  shows "spared tid (save_rules (del_rows fw_id (fw_id old)) d) = spared tid d"
    and "fw_wf (save_rules (del_rows fw_id (fw_id old)) d)"
proof -
  have dk: "distinct_keys fw_id (fw_rules d)" using assms(1) by (simp add: fw_wf_def)
  show "spared tid (save_rules (del_rows fw_id (fw_id old)) d) = spared tid d"
    using assms(2-4) by (auto simp: spared_def set_del_rows dest: distinct_keys_eq [OF dk])
  show "fw_wf (save_rules (del_rows fw_id (fw_id old)) d)"
    using assms(1) by (auto simp: fw_wf_def list_all_iff set_del_rows next_id_def distinct_keys_del_rows)
qed

lemma rolled_back_ok:
  assumes "session_ok tid K (c, x)" "next_id TFwRules x \<le> next_id TFwRules x'"
  shows "fw_wf (rolled_back (c, x')) \<and> spared tid (rolled_back (c, x')) = K"
  using assms by (auto simp: session_ok_def rolled_back_def fw_wf_def spared_def list_all_iff next_id_def)

lemma audited_ok:
  assumes "session_ok tid K (c, x)" "fw_wf x'" "spared tid x' = K" "next_id TFwRules x \<le> next_id TFwRules x'"
  shows "session_ok tid K (audited a (c, x'))"
proof (cases "audit_fits a")
  case True
  then show ?thesis using assms(2,3)
    by (simp add: audited_def session_ok_def Let_def fw_wf_def spared_def next_id_def)
next
  case False
  then show ?thesis using rolled_back_ok [OF assms(1,4)] by (simp add: audited_def session_ok_def)
qed

lemma listed_fields_keys: "map fst (listed_fields row) = map fst rule_defaults"
  by (simp add: listed_fields_def comp_def case_prod_beta)

lemma listed_rule_frame:
  assumes "set_rule_attrs ((''sequence'', v) # listed_fields row) r = Inr r'"
  shows "fw_id r' = fw_id r \<and> fw_tenant_id r' = fw_tenant_id r \<and> fw_uuid r' = fw_uuid r \<and> fw_apply_status r' = fw_apply_status r"
  by (rule set_rule_attrs_frame [OF assms]) (simp add: listed_fields_keys rule_defaults_def)

lemma sync_row_ok:
  assumes ok: "session_ok tid K (sy_rows s)"
  shows "case sync_row tid known row s of Inl (e, s') \<Rightarrow> session_ok tid K (sy_rows s') | Inr s' \<Rightarrow> session_ok tid K (sy_rows s')"
proof -
  obtain c x where cx: "sy_rows s = (c, x)" by (cases "sy_rows s")
  have ok': "session_ok tid K (c, x)" using ok cx by simp
  have wf: "fw_wf x" "spared tid x = K" using ok' by (simp_all add: session_ok_def)
  show ?thesis
  proof (cases "int_of_json (row_get row ''sequence'' ''100'')")
    case (Inl e)
    then show ?thesis using ok by (simp add: sync_row_def)
  next
    case (Inr sq)
    let ?fields = "(''sequence'', JInt sq) # listed_fields row"
    show ?thesis
    proof (cases "if row_uuid row \<in> known then find_rule tid (row_uuid row) x else None")
      case (Some old)
      then have old: "old \<in> set (fw_rules x)" "fw_tenant_id old = tid" by (auto dest: find_rule_Some split: if_splits)
      show ?thesis
      proof (cases "waiting old \<or> same_fields old ?fields")
        case True
        then show ?thesis using ok Inr Some cx by (auto simp: sync_row_def Let_def)
      next
        case False
        show ?thesis
        proof (cases "set_rule_attrs ?fields old")
          case (Inl e)
          have "session_ok tid K (rolled_back (c, x), rolled_back (c, x))"
            using rolled_back_ok [OF ok', of x] by (simp add: session_ok_def)
          then show ?thesis using False Inr Some cx Inl by (simp add: sync_row_def Let_def)
        next
          case new: (Inr new)
          let ?new = "new\<lparr>fw_apply_status := ''synced'', fw_apply_error := None\<rparr>"
          have f: "fw_id ?new = fw_id old" "fw_tenant_id ?new = tid" "\<not> waiting ?new" "\<not> waiting old"
            using listed_rule_frame [OF new] old False by (simp_all add: waiting_def)
          have "session_ok tid K (sy_rows (sync_update tid row old new s))"
            unfolding sync_update_def cx
            by (simp, rule audited_ok [OF ok'])
              (use spared_replace [OF wf(1) old f(4) f(1-3)] wf(2) in \<open>simp_all add: next_id_def\<close>)
          then show ?thesis using False Inr Some cx new by (simp add: sync_row_def Let_def)
        qed
      qed
    next
      case None
      show ?thesis
      proof (cases "set_rule_attrs ?fields (blank_rule (next_id TFwRules x) tid (row_uuid row) ''synced'')")
        case (Inl e)
        then show ?thesis using ok Inr None cx by (auto simp: sync_row_def Let_def)
      next
        case new: (Inr new)
        have f: "fw_id new = next_id TFwRules x" "fw_tenant_id new = tid" "\<not> waiting new"
          using listed_rule_frame [OF new] by (simp_all add: waiting_def blank_rule_def)
        have "session_ok tid K (sy_rows (sync_create tid row new s))"
          unfolding sync_create_def cx
          by (simp, rule audited_ok [OF ok'])
            (use spared_append [OF wf(1) f] wf(2) in \<open>simp_all add: next_id_def bump_seq_def\<close>)
        then show ?thesis using ok Inr None cx new by (simp add: sync_row_def Let_def)
      qed
    qed
  qed
qed


lemma sync_all_ok:
  "session_ok tid K (sy_rows s) \<Longrightarrow>
    case sync_all tid known rows s of Inl (e, s') \<Rightarrow> session_ok tid K (sy_rows s') | Inr s' \<Rightarrow> session_ok tid K (sy_rows s')"
proof (induction rows arbitrary: s)
  case Nil
  then show ?case by simp
next
  case (Cons row rows)
  show ?case
  proof (cases "sync_row tid known row s")
    case (Inl x)
    then show ?thesis using sync_row_ok [OF Cons.prems, of known row] by (cases x) simp
  next
    case (Inr s')
    then have "session_ok tid K (sy_rows s')" using sync_row_ok [OF Cons.prems, of known row] by simp
    from Cons.IH [OF this] show ?thesis by (simp add: Inr)
  qed
qed

lemma sync_delete_ok:
  assumes ok: "session_ok tid K (sy_rows s)"
  shows "session_ok tid K (sy_rows (sync_delete tid listed uuid s))"
proof -
  obtain c x where cx: "sy_rows s = (c, x)" by (cases "sy_rows s")
  have ok': "session_ok tid K (c, x)" and wf: "fw_wf x" "spared tid x = K" using ok cx by (simp_all add: session_ok_def)
  show ?thesis
  proof (cases "find_rule tid uuid x")
    case None
    then show ?thesis using ok cx by (simp add: sync_delete_def)
  next
    case (Some r)
    show ?thesis
    proof (cases "uuid \<in> set listed \<or> fw_apply_status r \<noteq> ''synced''")
      case True
      then show ?thesis using ok cx Some by (auto simp: sync_delete_def)
    next
      case False
      then have r: "r \<in> set (fw_rules x)" "fw_tenant_id r = tid" "\<not> waiting r"
        using find_rule_Some [OF Some] by (simp_all add: waiting_def)
      show ?thesis using False Some
        unfolding sync_delete_def cx
        by (simp, intro audited_ok [OF ok'])
          (use spared_delete [OF wf(1) r] wf(2) in \<open>simp_all add: next_id_def\<close>)
    qed
  qed
qed

lemma fold_sync_delete_ok:
  "session_ok tid K (sy_rows s) \<Longrightarrow> session_ok tid K (sy_rows (fold (sync_delete tid listed) uuids s))"
  by (induction uuids arbitrary: s) (simp_all add: sync_delete_ok)

text \<open>
  C18: A sync with the firewall leaves every rule of another tenant, and every rule with a change still
  to be pushed, exactly as it was, whatever the firewall lists and whatever goes wrong on the way.
\<close>

theorem sync_spares_waiting_rules:
  assumes "fw_wf d"
  shows "spared tid (fst (snd (sync_firewall_rules_task provider retries tid ptype (d, w)))) = spared tid d"
proof -
  let ?s = "\<lparr>sy_rows = (d, d), sy_added = 0, sy_updated = 0, sy_deleted = 0\<rparr>"
  have ok: "session_ok tid (spared tid d) (sy_rows ?s)" using assms by (simp add: session_ok_def)
  have rows: "case sync_rows tid rs d of Inl (e, s') \<Rightarrow> session_ok tid (spared tid d) (sy_rows s')
      | Inr s' \<Rightarrow> session_ok tid (spared tid d) (sy_rows s')" for rs
    using sync_all_ok [OF ok, of "set (map fw_uuid (tenant_rules tid d))" rs]
    by (auto simp: sync_rows_def Let_def fold_sync_delete_ok split: sum.splits)
  have "spared tid (rolled_back (sy_rows st)) = spared tid d" if "sync_rows tid rs d = Inl (e, st)" for rs e st
    using rows [of rs] that rolled_back_ok [of tid "spared tid d" "fst (sy_rows st)" "snd (sy_rows st)" "snd (sy_rows st)"] by simp
  moreover have "spared tid (snd (sy_rows st)) = spared tid d" if "sync_rows tid rs d = Inr st" for rs st
    using rows [of rs] that by (simp add: session_ok_def)
  ultimately show ?thesis
    by (simp add: sync_firewall_rules_task_def with_tenant_def Let_def split: option.split sum.split prod.split)
qed


section \<open>Correctness of the apply task\<close>

definition settled :: "fw_rule \<Rightarrow> bool" where
  "settled r \<longleftrightarrow> fw_apply_status r \<in> {''synced'', ''failed''}"

text \<open>What one push, and a series of them, may do to the rows.\<close>

definition pushes :: "int set \<Rightarrow> fw_rule list \<Rightarrow> fw_rule list \<Rightarrow> bool" where
  "pushes ids rows rows' \<longleftrightarrow>
     (\<forall>x \<in> set rows'. (fw_id x \<in> ids \<and> settled x) \<or> (fw_id x \<notin> ids \<and> x \<in> set rows)) \<and>
     (\<forall>x \<in> set rows. fw_id x \<notin> ids \<longrightarrow> x \<in> set rows')"

definition drops :: "int set \<Rightarrow> fw_rule list \<Rightarrow> fw_rule list \<Rightarrow> bool" where
  "drops ids rows rows' \<longleftrightarrow>
     (\<forall>x \<in> set rows'. (fw_id x \<in> ids \<and> fw_apply_status x = ''failed'') \<or> x \<in> set rows) \<and>
     (\<forall>x \<in> set rows. fw_id x \<notin> ids \<longrightarrow> x \<in> set rows')"

lemma ap_rules_simps [simp]:
  "ap_rules (counted a) = ap_rules a" "ap_rules (mark i f a) = upd_rows fw_id i f (ap_rules a)"
  "ap_rules (failed_with what r e a) = upd_rows fw_id (fw_id r) (fail_rule e) (ap_rules a)"
  by (simp_all add: counted_def mark_def failed_with_def)

lemma pushes_upd:
  "(\<And>x. fw_id (f x) = fw_id x) \<Longrightarrow> (\<And>x. settled (f x)) \<Longrightarrow> pushes {i} rows (upd_rows fw_id i f rows)"
  by (auto simp: pushes_def set_upd_rows)

lemma push_update_pushes: "pushes {fw_id r} (ap_rules (fst s)) (ap_rules (fst (push_update p r s)))"
  by (auto simp: push_update_def fail_rule_def sync_ok_def settled_def split: prod.splits sum.splits intro!: pushes_upd)

lemma push_create_pushes: "pushes {fw_id r} (ap_rules (fst s)) (ap_rules (fst (push_create p r s)))"
  by (auto simp: push_create_def fail_rule_def sync_ok_def settled_def split: prod.splits sum.splits intro!: pushes_upd)

lemma drops_upd: "drops {i} rows (upd_rows fw_id i (fail_rule e) rows)"
  unfolding drops_def set_upd_rows by (auto simp: fail_rule_def)

lemma drops_refl: "drops I rows rows"
  by (simp add: drops_def)

lemma push_delete_drops: "drops {fw_id r} (ap_rules (fst s)) (ap_rules (fst (push_delete p r s)))"
  by (cases s) (auto simp: push_delete_def drops_upd drops_refl split: prod.split sum.split)

lemma pushes_trans: "pushes I a b \<Longrightarrow> pushes J b c \<Longrightarrow> pushes (I \<union> J) a c"
  unfolding pushes_def by blast

lemma drops_trans: "drops I a b \<Longrightarrow> drops J b c \<Longrightarrow> drops (I \<union> J) a c"
  unfolding drops_def by blast

lemma fold_pushes:
  assumes "\<And>r s. pushes {fw_id r} (ap_rules (fst s)) (ap_rules (fst (f r s)))"
  shows "pushes (fw_id ` set rs) (ap_rules (fst s)) (ap_rules (fst (fold f rs s)))"
proof (induction rs arbitrary: s)
  case Nil
  then show ?case by (simp add: pushes_def)
next
  case (Cons r rs)
  from pushes_trans [OF assms [of r s] Cons.IH [of "f r s"]] show ?case by simp
qed

lemma fold_drops:
  assumes "\<And>r s. drops {fw_id r} (ap_rules (fst s)) (ap_rules (fst (f r s)))"
  shows "drops (fw_id ` set rs) (ap_rules (fst s)) (ap_rules (fst (fold f rs s)))"
proof (induction rs arbitrary: s)
  case Nil
  then show ?case by (simp add: drops_def)
next
  case (Cons r rs)
  from drops_trans [OF assms [of r s] Cons.IH [of "f r s"]] show ?case by simp
qed

text \<open>The rows the task saves, in terms of the rows it found.\<close>

definition due :: "int \<Rightarrow> fw_rule \<Rightarrow> bool" where
  "due tid r \<longleftrightarrow> fw_tenant_id r = tid \<and> fw_apply_status r \<in> {''pending'', ''pending_delete''}"

lemma push_rules_rows:
  "(\<forall>x \<in> set (ap_rules (fst (push_rules p tid d w))). settled x \<or> (x \<in> set (fw_rules d) \<and> \<not> due tid x)) \<and>
   (\<forall>x \<in> set (fw_rules d). fw_id x \<notin> fw_id ` {r \<in> set (fw_rules d). due tid r} \<longrightarrow>
      x \<in> set (ap_rules (fst (push_rules p tid d w))))"
proof -
  let ?rules = "tenant_rules tid d"
  let ?doomed = "filter (\<lambda>r. fw_apply_status r = ''pending_delete'') ?rules"
  let ?changed = "filter (\<lambda>r. fw_apply_status r = ''pending'' \<and> \<not> provisional r) ?rules"
  let ?fresh = "filter (\<lambda>r. fw_apply_status r = ''pending'' \<and> provisional r) ?rules"
  let ?s0 = "(\<lparr>ap_rules = fw_rules d, ap_applied = 0, ap_failed = 0, ap_errors = []\<rparr>, w)"
  define s1 where "s1 = fold (push_delete p) ?doomed ?s0"
  define s2 where "s2 = fold (push_update p) ?changed s1"
  define s3 where "s3 = fold (push_create p) ?fresh s2"
  have d1: "drops (fw_id ` set ?doomed) (fw_rules d) (ap_rules (fst s1))"
    using fold_drops [of "push_delete p", OF push_delete_drops, of ?doomed ?s0] by (simp add: s1_def)
  have p2: "pushes (fw_id ` set ?changed) (ap_rules (fst s1)) (ap_rules (fst s2))"
    unfolding s2_def by (rule fold_pushes [OF push_update_pushes])
  have p3: "pushes (fw_id ` set ?fresh) (ap_rules (fst s2)) (ap_rules (fst s3))"
    unfolding s3_def by (rule fold_pushes [OF push_create_pushes])
  let ?ids = "fw_id ` set (?changed @ ?fresh)"
  have end_rows: "\<exists>a. (a = fst s3 \<or> (\<exists>e. a = reload_failed (?changed @ ?fresh) e (fst s3))) \<and>
      ap_rules (fst (push_rules p tid d w)) =
        filter (\<lambda>x. \<not> (fw_id x \<in> set (map fw_id ?doomed) \<and> fw_apply_status x \<noteq> ''failed'')) (ap_rules a)"
    by (auto simp: push_rules_def pushed_def Let_def s1_def s2_def s3_def split: prod.splits sum.splits if_splits)
  then obtain a where a: "a = fst s3 \<or> (\<exists>e. a = reload_failed (?changed @ ?fresh) e (fst s3))"
    "ap_rules (fst (push_rules p tid d w)) =
        filter (\<lambda>x. \<not> (fw_id x \<in> set (map fw_id ?doomed) \<and> fw_apply_status x \<noteq> ''failed'')) (ap_rules a)"
    by blast
  have a_rows: "\<forall>x \<in> set (ap_rules a). settled x \<or> x \<in> set (ap_rules (fst s3))"
    and a_kept: "\<forall>x \<in> set (ap_rules (fst s3)). fw_id x \<notin> ?ids \<longrightarrow> x \<in> set (ap_rules a)"
    using a(1) by (auto simp: reload_failed_def settled_def fail_rule_def)
  show ?thesis
  proof (intro conjI ballI impI)
    fix x
    assume "x \<in> set (ap_rules (fst (push_rules p tid d w)))"
    then have x: "x \<in> set (ap_rules a)" "fw_id x \<in> fw_id ` set ?doomed \<longrightarrow> fw_apply_status x = ''failed''"
      by (auto simp: a(2))
    show "settled x \<or> (x \<in> set (fw_rules d) \<and> \<not> due tid x)"
    proof (cases "settled x")
      case False
      then have "x \<in> set (ap_rules (fst s3))" using a_rows x(1) by blast
      with False p3 p2 have s1: "x \<in> set (ap_rules (fst s1))" "fw_id x \<notin> fw_id ` set ?fresh" "fw_id x \<notin> fw_id ` set ?changed"
        by (auto simp: pushes_def)
      then have mem: "x \<in> set (fw_rules d)" using d1 False by (auto simp: drops_def settled_def)
      have "x \<notin> set ?fresh" "x \<notin> set ?changed" "x \<notin> set ?doomed" using s1(2,3) x(2) False by (auto simp: settled_def)
      then show ?thesis using mem by (auto simp: due_def tenant_rules_def)
    qed simp
  next
    fix x
    assume x: "x \<in> set (fw_rules d)" "fw_id x \<notin> fw_id ` {r \<in> set (fw_rules d). due tid r}"
    then have "fw_id x \<notin> fw_id ` set ?doomed" "fw_id x \<notin> fw_id ` set ?changed" "fw_id x \<notin> fw_id ` set ?fresh"
      by (auto simp: due_def tenant_rules_def)
    moreover have "x \<in> set (ap_rules (fst s3))" using calculation x(1) d1 p2 p3 by (auto simp: drops_def pushes_def)
    ultimately show "x \<in> set (ap_rules (fst (push_rules p tid d w)))"
      using a_kept by (auto simp: a(2))
  qed
qed


text \<open>
  C11: When the apply task reports success, no rule of the tenant is waiting to be applied or deleted any
  more: each has been accepted, marked failed or removed. Every rule that was not due, a failed one
  included, is kept as it was: failed rules are never tried again.
\<close>

theorem apply_settles_due_rules:
  assumes "apply_all_pending_rules_task provider retries tid ''opnsense'' (d, w) = (Reply ((''status'', JStr ''success'') # xs), d', w')"
    and "distinct_keys fw_id (fw_rules d)"
  shows "(\<forall>r \<in> set (fw_rules d'). \<not> due tid r) \<and> {r \<in> set (fw_rules d). \<not> due tid r} \<subseteq> set (fw_rules d')"
proof (cases "filter (\<lambda>r. fw_apply_status r \<in> {''pending'', ''pending_delete''}) (tenant_rules tid d) = []")
  case True
  then have "d' = d" using assms(1)
    by (auto simp: apply_all_pending_rules_task_def with_tenant_def task_error_def split: option.splits if_splits)
  with True show ?thesis by (auto simp: due_def tenant_rules_def filter_empty_conv)
next
  case False
  from assms(1) obtain t where t: "first_row (\<lambda>t. t_id t = tid) (tenants d) = Some t"
    by (auto simp: apply_all_pending_rules_task_def with_tenant_def task_error_def split: option.splits)
  obtain a w1 where aw: "push_rules (provider t) tid d w = (a, w1)" by (cases "push_rules (provider t) tid d w")
  have rules: "fw_rules d' = ap_rules a"
    using assms(1) t False aw
    by (auto simp: apply_all_pending_rules_task_def with_tenant_def retry_or_fail_def task_error_def split: if_splits)
  have "settled x \<Longrightarrow> \<not> due tid x" for x by (auto simp: settled_def due_def)
  then have "\<forall>r \<in> set (fw_rules d'). \<not> due tid r"
    using push_rules_rows [of "provider t" tid d w] unfolding aw rules by auto
  moreover have "x \<in> set (fw_rules d')" if x: "x \<in> set (fw_rules d)" "\<not> due tid x" for x
  proof -
    have "fw_id x \<notin> fw_id ` {r \<in> set (fw_rules d). due tid r}"
    proof
      assume "fw_id x \<in> fw_id ` {r \<in> set (fw_rules d). due tid r}"
      then obtain r where "r \<in> set (fw_rules d)" "due tid r" "fw_id x = fw_id r" by auto
      with distinct_keys_eq [OF assms(2) x(1)] x(2) show False by blast
    qed
    with push_rules_rows [of "provider t" tid d w] x(1) show ?thesis unfolding aw rules by simp
  qed
  ultimately show ?thesis by blast
qed

subsection \<open>The order on the firewall\<close>

text \<open>What \<open>move_rule_before\<close> is documented to do to the order of the rules.\<close>

definition moved_before :: "string \<Rightarrow> string \<Rightarrow> string list \<Rightarrow> string list" where
  "moved_before a b us =
     (let rest = remove1 a us in takeWhile (\<lambda>u. u \<noteq> b) rest @ a # dropWhile (\<lambda>u. u \<noteq> b) rest)"

text \<open>
  What the task relies on: while the firewall is \<open>fine\<close>, the uuids of its rules are distinct, the listing
  gives them in order and changes nothing, a reload keeps the order, a move is the documented one, and
  every call leaves it fine.
\<close>

definition firewall_laws :: "'w fw_provider \<Rightarrow> ('w \<Rightarrow> string list) \<Rightarrow> ('w \<Rightarrow> bool) \<Rightarrow> bool" where
  "firewall_laws p order fine \<longleftrightarrow>
     (\<forall>w. fine w \<longrightarrow> distinct (order w) \<and> listed_order (fp_list p w) = order w \<and>
        fine (snd (fp_list p w)) \<and> order (snd (fp_list p w)) = order w \<and>
        fine (snd (fp_apply p w)) \<and> order (snd (fp_apply p w)) = order w \<and>
        (\<forall>j. fine (snd (fp_add p j w))) \<and> (\<forall>u j. fine (snd (fp_set p u j w))) \<and> (\<forall>u. fine (snd (fp_del p u w))) \<and>
        (\<forall>a b. a \<noteq> b \<and> a \<in> set (order w) \<and> b \<in> set (order w) \<longrightarrow>
           fine (snd (fp_move p a b w)) \<and> order (snd (fp_move p a b w)) = moved_before a b (order w)))"

lemma until_first: "b \<notin> set xs \<Longrightarrow> takeWhile (\<lambda>u. u \<noteq> b) (xs @ b # ys) = xs \<and> dropWhile (\<lambda>u. u \<noteq> b) (xs @ b # ys) = b # ys"
  by (induction xs) auto

lemma filter_only: "distinct us \<Longrightarrow> a \<in> set us \<Longrightarrow> filter (\<lambda>u. u = a) us = [a]"
  by (induction us) (auto simp: filter_empty_conv)

lemma first_hit: "b \<notin> set xs \<Longrightarrow> xs @ b # ys = b # us \<longleftrightarrow> xs = [] \<and> ys = us"
  by (cases xs) auto

lemma moved_before_split:
  assumes "distinct us" "a \<in> set us" "b \<in> set us" "a \<noteq> b"
  obtains xs ys where "remove1 a us = xs @ b # ys" "moved_before a b us = xs @ a # b # ys" "b \<notin> set xs"
    "a \<notin> set xs" "a \<notin> set ys" "distinct (xs @ a # b # ys)" "set (xs @ a # b # ys) = set us"
proof -
  let ?r = "remove1 a us"
  have b: "b \<in> set ?r" using assms by simp
  then obtain xs ys where r: "?r = xs @ b # ys" "b \<notin> set xs" by (metis split_list_first)
  then have "moved_before a b us = xs @ a # b # ys"
    using until_first [OF r(2), of ys] by (simp add: moved_before_def Let_def)
  moreover have "a \<notin> set ?r" "distinct ?r" using assms(1) by (auto simp: distinct_remove1)
  moreover have "set ?r = set us - {a}" using assms(1) by (rule set_remove1_eq)
  ultimately show ?thesis using that r assms(2) by (auto simp: insert_absorb)
qed

lemma push_order_Cons2:
  "push_order p listed (a # b # us) w = push_move p listed (a, b) (push_order p listed (b # us) w)"
  by (simp add: push_order_def)

lemma push_order_Cons:
  "zs \<noteq> [] \<Longrightarrow> push_order p listed (x # zs) w = push_move p listed (x, hd zs) (push_order p listed zs w)"
  by (cases zs) (simp_all add: push_order_Cons2)

definition reordered :: "('w \<Rightarrow> string list) \<Rightarrow> ('w \<Rightarrow> bool) \<Rightarrow> 'w \<Rightarrow> 'w \<Rightarrow> bool" where
  "reordered order fine w w' \<longleftrightarrow> fine w' \<and> set (order w') = set (order w) \<and> distinct (order w')"

lemma push_move_order:
  assumes "firewall_laws p order fine" "fine w" "a \<noteq> b" "set (order w) = set listed"
  shows "reordered order fine w (push_move p listed (a, b) w)"
    "order (push_move p listed (a, b) w) = (if a \<in> set listed \<and> b \<in> set listed then moved_before a b (order w) else order w)"
proof -
  have d: "distinct (order w)" using assms(1,2) by (simp add: firewall_laws_def)
  show eq: "order (push_move p listed (a, b) w) = (if a \<in> set listed \<and> b \<in> set listed then moved_before a b (order w) else order w)"
    using assms by (simp add: push_move_def firewall_laws_def)
  have f: "fine (push_move p listed (a, b) w)" using assms by (simp add: push_move_def firewall_laws_def)
  show "reordered order fine w (push_move p listed (a, b) w)"
  proof (cases "a \<in> set listed \<and> b \<in> set listed")
    case True
    obtain xs ys where "moved_before a b (order w) = xs @ a # b # ys" "distinct (xs @ a # b # ys)" "set (xs @ a # b # ys) = set (order w)"
      using moved_before_split [OF d, of a b] True assms(3,4) by metis
    then show ?thesis using eq f True by (simp add: reordered_def)
  next
    case False
    then have "order (push_move p listed (a, b) w) = order w" unfolding eq by (rule if_not_P)
    then show ?thesis using f d by (simp add: reordered_def)
  qed
qed

lemma push_order_reorders:
  assumes "firewall_laws p order fine" "fine w" "set listed = set (order w)" "distinct us"
  shows "reordered order fine w (push_order p listed us w)"
  using assms(4)
proof (induction us rule: induct_list012)
  case 1
  then show ?case using assms(1,2) by (simp add: push_order_def reordered_def firewall_laws_def)
next
  case (2 a)
  then show ?case using assms(1,2) by (simp add: push_order_def reordered_def firewall_laws_def)
next
  case (3 a b us)
  then have r: "reordered order fine w (push_order p listed (b # us) w)" by simp
  have "reordered order fine (push_order p listed (b # us) w) (push_move p listed (a, b) (push_order p listed (b # us) w))"
    using r 3 assms(3) by (intro push_move_order(1) [OF assms(1)]) (auto simp: reordered_def)
  with r show ?case by (simp add: reordered_def push_order_Cons2)
qed

text \<open>Moving each rule of a segment before the next, from the last to the first, brings the segment in order.\<close>

lemma segment_ordered:
  assumes laws: "firewall_laws p order fine" "fine w" "set listed = set (order w)"
    and "distinct (us @ ys)" "set us \<subseteq> set (order w)"
  shows "filter (\<lambda>u. u \<in> set us) (order (push_order p listed (us @ ys) w)) = us"
  using assms(4,5)
proof (induction us rule: induct_list012)
  case 1
  then show ?case by simp
next
  case (2 a)
  have "reordered order fine w (push_order p listed (a # ys) w)" using push_order_reorders [OF laws] 2(1) by simp
  then show ?case using filter_only [of "order (push_order p listed (a # ys) w)" a] 2(2) by (simp add: reordered_def)
next
  case (3 a b us)
  let ?w = "push_order p listed ((b # us) @ ys) w"
  have r: "reordered order fine w ?w" using push_order_reorders [OF laws, of "(b # us) @ ys"] 3(3) by simp
  then have ih: "filter (\<lambda>u. u \<in> set (b # us)) (order ?w) = b # us" "set (order ?w) = set (order w)" "distinct (order ?w)" "fine ?w"
    using 3 by (simp_all add: reordered_def)
  have ab: "a \<noteq> b" "a \<in> set (order ?w)" "b \<in> set (order ?w)" "a \<notin> set us" using 3 ih(2) by auto
  obtain xs zs where s: "remove1 a (order ?w) = xs @ b # zs" "moved_before a b (order ?w) = xs @ a # b # zs"
    "b \<notin> set xs" "a \<notin> set xs" "a \<notin> set zs" "distinct (xs @ a # b # zs)" "set (xs @ a # b # zs) = set (order ?w)"
    by (rule moved_before_split [OF ih(3) ab(2,3,1)])
  have "order (push_order p listed ((a # b # us) @ ys) w) = xs @ a # b # zs"
    using push_move_order(2) [OF laws(1) ih(4) ab(1)] ab(2,3) ih(2) laws(3) s(2) by (simp add: push_order_Cons2)
  moreover have "filter (\<lambda>u. u \<in> set (b # us)) (xs @ b # zs) = b # us"
  proof -
    have "filter (\<lambda>u. u \<in> set (b # us)) (remove1 a (order ?w)) = filter (\<lambda>u. u \<in> set (b # us)) (order ?w)"
      using ab by (simp add: filter_remove1 remove1_idem)
    then show ?thesis using ih(1) s(1) by simp
  qed
  then have "filter (\<lambda>u. u \<in> set (b # us)) xs @ b # filter (\<lambda>u. u \<in> set (b # us)) zs = [] @ b # us" by simp
  then have split: "filter (\<lambda>u. u \<in> set (b # us)) xs = []" "filter (\<lambda>u. u \<in> set (b # us)) zs = us"
    using first_hit [where b = b and xs = "filter (\<lambda>u. u \<in> set (b # us)) xs"] s(3) by simp_all
  have "filter (\<lambda>u. u \<in> set (a # b # us)) ks = filter (\<lambda>u. u \<in> set (b # us)) ks" if "a \<notin> set ks" for ks
    using that by (intro filter_cong) auto
  with s(4,5) split ab have "filter (\<lambda>u. u \<in> set (a # b # us)) (xs @ a # b # zs) = a # b # us" by simp
  ultimately show ?case by simp
qed

text \<open>The moves of the rules before the segment leave its own order alone.\<close>

lemma moved_before_others:
  assumes "distinct us" "a \<in> set us" "b \<in> set us" "a \<noteq> b" "\<not> P a"
  shows "filter P (moved_before a b us) = filter P us"
proof -
  obtain xs ys where s: "remove1 a us = xs @ b # ys" "moved_before a b us = xs @ a # b # ys"
    using moved_before_split [OF assms(1-4)] by metis
  have "filter P (remove1 a us) = filter P us" using assms(5) by (simp add: filter_remove1 remove1_idem)
  then show ?thesis using s assms(5) by simp
qed

lemma segment_stays:
  assumes laws: "firewall_laws p order fine" "fine w" "set listed = set (order w)"
    and "distinct (xs @ us @ ys)" "set us \<subseteq> set (order w)"
  shows "filter (\<lambda>u. u \<in> set us) (order (push_order p listed (xs @ us @ ys) w)) = us"
  using assms(4)
proof (induction xs)
  case Nil
  then show ?case using segment_ordered [OF laws] assms(5) by simp
next
  case (Cons x xs)
  let ?zs = "xs @ us @ ys"
  let ?w = "push_order p listed ?zs w"
  show ?case
  proof (cases "?zs = []")
    case True
    then show ?thesis by simp
  next
    case False
    have r: "fine ?w" "set (order ?w) = set listed" "distinct (order ?w)"
      using push_order_reorders [OF laws, of ?zs] Cons.prems laws(3) by (simp_all add: reordered_def)
    have x: "x \<notin> set ?zs" "hd ?zs \<in> set ?zs" using Cons.prems hd_in_set [OF False] by auto
    then have ne: "x \<noteq> hd ?zs" "x \<notin> set us" by auto
    have "filter (\<lambda>u. u \<in> set us) (order (push_move p listed (x, hd ?zs) ?w)) = filter (\<lambda>u. u \<in> set us) (order ?w)"
      using push_move_order(2) [OF laws(1) r(1) ne(1) r(2)] moved_before_others [OF r(3), of x "hd ?zs" "\<lambda>u. u \<in> set us"] ne r(2)
      by simp
    then show ?thesis using Cons push_order_Cons [OF False, of p listed x w] by simp
  qed
qed

lemma fold_fine: "(\<And>x s. x \<in> set xs \<Longrightarrow> fine (snd s) \<Longrightarrow> fine (snd (f x s))) \<Longrightarrow> fine (snd s) \<Longrightarrow> fine (snd (fold f xs s))"
  by (induction xs arbitrary: s) simp_all

lemma pushed_fine:
  assumes "firewall_laws p order fine" "fine w"
  shows "fine (snd (pushed p tid d w))"
proof -
  have calls: "fine (snd (fp_add p j w))" "fine (snd (fp_set p u j w))" "fine (snd (fp_del p u w))" if "fine w" for j u w
    using assms(1) that by (simp_all add: firewall_laws_def)
  have "fine (snd (push_delete p r s))" if "fine (snd s)" for r s
    using calls(3) [OF that, of "fw_uuid r"] that
    by (cases s) (auto simp: push_delete_def split: prod.split sum.split)
  moreover have "fine (snd (push_update p r s))" if "fine (snd s)" for r s
    using calls(2) [OF that, of "fw_uuid r" "to_opnsense_payload r"]
    by (cases s) (auto simp: push_update_def split: prod.split sum.split)
  moreover have "fine (snd (push_create p r s))" if "fine (snd s)" for r s
    using calls(1) [OF that, of "to_opnsense_payload r"]
    by (cases s) (auto simp: push_create_def split: prod.split sum.split)
  ultimately show ?thesis using assms(2) by (simp add: pushed_def Let_def fold_fine)
qed

lemma push_rules_order:
  fixes tid d
  assumes "firewall_laws p order fine" "fine w"
  defines "w1 \<equiv> snd (pushed p tid d w)" and "des \<equiv> rule_order tid (ap_rules (fst (pushed p tid d w)))"
  assumes "distinct des"
  shows "order (snd (push_rules p tid d w)) =
    order (if 1 < length des \<and> order w1 \<noteq> [] then push_order p (order w1) des (snd (fp_list p w1)) else snd (fp_list p w1))"
    (is "_ = order ?w2")
proof -
  have f1: "fine w1" using pushed_fine [OF assms(1,2)] by (simp add: w1_def)
  then have f: "fine (snd (fp_list p w1))" "order (snd (fp_list p w1)) = order w1" "listed_order (fp_list p w1) = order w1"
    using assms(1) by (simp_all add: firewall_laws_def)
  have "fine ?w2"
    using push_order_reorders [OF assms(1) f(1), of "order w1" des] f assms(5) by (simp add: reordered_def)
  then have app: "order (snd (fp_apply p ?w2)) = order ?w2" using assms(1) by (simp add: firewall_laws_def)
  obtain a where a: "pushed p tid d w = (a, w1)" by (cases "pushed p tid d w") (simp add: w1_def)
  have des: "rule_order tid (ap_rules a) = des" by (simp add: des_def a)
  have "snd (push_rules p tid d w) = (if 0 < ap_applied a then snd (fp_apply p ?w2) else ?w2)"
    unfolding push_rules_def Let_def a prod.case des f(3)
    by (cases "0 < ap_applied a") (auto split: prod.split sum.split)
  then show ?thesis using app by (cases "0 < ap_applied a") simp_all
qed



subsection \<open>A firewall that keeps a list of rules\<close>

definition listing_of :: "string list \<Rightarrow> json" where
  "listing_of us = JArr (map (\<lambda>u. JObj [(''uuid'', JStr u)]) us)"

definition list_provider :: "tenant \<Rightarrow> string list fw_provider" where
  "list_provider t =
     \<lparr>fp_list = (\<lambda>w. ok (listing_of w) w), fp_add = (\<lambda>j w. ok (''u'' @ show_int (int (length w))) (w @ [''u'' @ show_int (int (length w))])),
      fp_set = (\<lambda>u j. ok ()), fp_del = (\<lambda>u w. ok () (remove1 u w)), fp_move = (\<lambda>a b w. ok () (moved_before a b w)),
      fp_apply = ok (JObj []), fp_interfaces = ok (JArr [])\<rparr>"

text \<open>The same firewall with names for new rules that none of its rules has.\<close>

definition fresh_provider :: "tenant \<Rightarrow> string list fw_provider" where
  "fresh_provider t = (list_provider t)\<lparr>fp_add := (\<lambda>j w. ok (''u'' @ concat w) (w @ [''u'' @ concat w]))\<rparr>"

lemma concat_fresh: "u @ concat ws \<notin> set ws" if "u \<noteq> []"
proof
  assume "u @ concat ws \<in> set ws"
  then have "length (u @ concat ws) \<le> length (concat ws)"
    by (metis (no_types) concat.simps(2) concat_append length_append le_add1 le_add2 order_trans split_list)
  with that show False by simp
qed

lemma listed_listing: "[] \<notin> set ws \<Longrightarrow> listed_order (ok (listing_of ws) w) = ws"
proof -
  assume ne: "[] \<notin> set ws"
  have bad: "first_bad (map (\<lambda>u. JObj [(''uuid'', JStr u)]) ws) = None"
    by (induction ws) (simp_all add: first_bad_def dict_of_def)
  have "filter (\<lambda>x. truthy_json (json_get ''uuid'' x)) (map (\<lambda>u. JObj [(''uuid'', JStr u)]) ws) = map (\<lambda>u. JObj [(''uuid'', JStr u)]) ws"
    using ne by (induction ws) (auto simp: json_get_def member_def)
  then show ?thesis using bad
    by (simp add: listed_order_def listing_of_def ok_def iter_rows_def json_get_def member_def comp_def)
qed

lemma fresh_laws: "firewall_laws (fresh_provider t) id (\<lambda>w. distinct w \<and> [] \<notin> set w)"
  unfolding firewall_laws_def
proof (intro allI impI conjI)
  fix w :: "string list" and a b u j
  assume w: "distinct w \<and> [] \<notin> set w"
  show "listed_order (fp_list (fresh_provider t) w) = id w"
    using listed_listing [of w w] w by (simp add: fresh_provider_def list_provider_def)
  show "distinct (snd (fp_add (fresh_provider t) j w))" "[] \<notin> set (snd (fp_add (fresh_provider t) j w))"
    using w concat_fresh [of "''u''" w] by (simp_all add: fresh_provider_def ok_def)
  assume ab: "a \<noteq> b \<and> a \<in> set (id w) \<and> b \<in> set (id w)"
  obtain xs ys where "moved_before a b w = xs @ a # b # ys" "distinct (xs @ a # b # ys)" "set (xs @ a # b # ys) = set w"
    using moved_before_split [of w a b] w ab by (metis id_apply)
  then show "distinct (snd (fp_move (fresh_provider t) a b w))" "[] \<notin> set (snd (fp_move (fresh_provider t) a b w))"
    using w by (simp_all add: fresh_provider_def list_provider_def ok_def)
qed (auto simp: fresh_provider_def list_provider_def ok_def)

text \<open>
  Four rules whose firewall has them backwards. Three are to be ordered and one is waiting to be deleted: the
  deleted one keeps its successor out of the chain.
\<close>

definition ordered_db :: "string \<Rightarrow> db" where
  "ordered_db status = fw_db\<lparr>fw_rules :=
     [(blank_rule 1 1 ''u1'' ''pending'')\<lparr>fw_sequence := 10\<rparr>, (blank_rule 2 1 ''u2'' ''synced'')\<lparr>fw_sequence := 20\<rparr>,
      (blank_rule 3 1 ''u3'' status)\<lparr>fw_sequence := 30\<rparr>, (blank_rule 4 1 ''u4'' ''synced'')\<lparr>fw_sequence := 40\<rparr>]\<rparr>"

definition backwards :: "string list" where
  "backwards = [''u4'', ''u3'', ''u2'', ''u1'']"


text \<open>
  The same table without the deletion is brought in order; with it the rules before and after the deleted
  one are left the wrong way round, although both stay and the call of each move succeeds.
\<close>

lemma deleted_rule_breaks_the_chain:
  "snd (push_rules (fresh_provider (new_tenant 1 ''a'' ''a'')) 1 (ordered_db ''synced'') backwards) = [''u1'', ''u2'', ''u3'', ''u4'']"
  "snd (push_rules (fresh_provider (new_tenant 1 ''a'' ''a'')) 1 (ordered_db ''pending_delete'') backwards) = [''u4'', ''u1'', ''u2'']"
  by code_simp+

definition waiting_db :: db where
  "waiting_db = fw_db\<lparr>fw_rules := [blank_rule 1 1 ''u1'' ''synced'', blank_rule 2 1 ''u2'' ''pending'',
     blank_rule 3 1 ''u3'' ''pending_delete'', blank_rule 4 1 ''u4'' ''failed'', blank_rule 5 2 ''u5'' ''pending'']\<rparr>"

lemma sync_spares_waiting_rules_witness:
  "blank_rule 2 1 ''u2'' ''pending'' \<in> spared 1 (fst (snd (sync_firewall_rules_task list_provider 0 1 ''opnsense'' (waiting_db, [''u9''])))) \<and>
   map fw_uuid (fw_rules (fst (snd (sync_firewall_rules_task list_provider 0 1 ''opnsense'' (waiting_db, [''u9'']))))) =
      [''u2'', ''u3'', ''u4'', ''u5'', ''u9'']"
proof -
  have "fw_wf waiting_db" by code_simp
  from sync_spares_waiting_rules [OF this, of 1 list_provider 0 "''opnsense''" "[''u9'']"]
  have "spared 1 (fst (snd (sync_firewall_rules_task list_provider 0 1 ''opnsense'' (waiting_db, [''u9''])))) = spared 1 waiting_db" .
  moreover have "blank_rule 2 1 ''u2'' ''pending'' \<in> spared 1 waiting_db"
  proof -
    have "waiting (blank_rule 2 1 ''u2'' ''pending'')" by code_simp
    then show ?thesis by (simp add: spared_def waiting_db_def)
  qed
  moreover have "map fw_uuid (fw_rules (fst (snd (sync_firewall_rules_task list_provider 0 1 ''opnsense'' (waiting_db, [''u9'']))))) =
      [''u2'', ''u3'', ''u4'', ''u5'', ''u9'']" by code_simp
  ultimately show ?thesis by simp
qed

lemma apply_settles_due_rules_witness:
  "\<exists>xs d' w'. apply_all_pending_rules_task list_provider 0 1 ''opnsense'' (waiting_db, [''u2'', ''u3'']) = (Reply ((''status'', JStr ''success'') # xs), d', w') \<and>
     blank_rule 4 1 ''u4'' ''failed'' \<in> set (fw_rules d')"
proof -
  have wf: "distinct_keys fw_id (fw_rules waiting_db)" by code_simp
  have "case fst (apply_all_pending_rules_task list_provider 0 1 ''opnsense'' (waiting_db, [''u2'', ''u3''])) of
      Reply (x # xs) \<Rightarrow> x = (''status'', JStr ''success'') | _ \<Rightarrow> False" by code_simp
  then obtain xs d' w' where r: "apply_all_pending_rules_task list_provider 0 1 ''opnsense'' (waiting_db, [''u2'', ''u3'']) =
      (Reply ((''status'', JStr ''success'') # xs), d', w')"
    by (auto split: task_reply.splits list.splits) (metis prod.collapse)
  have "blank_rule 4 1 ''u4'' ''failed'' \<in> {r \<in> set (fw_rules waiting_db). \<not> due 1 r}"
    by (simp add: waiting_db_def fw_db_def empty_db_def due_def blank_rule_def)
  with apply_settles_due_rules [OF r wf] r show ?thesis by blast
qed


subsection \<open>What a sync and a reconcile lose\<close>

definition plain_row :: "string \<Rightarrow> string \<Rightarrow> json" where
  "plain_row u desc = JObj [(''uuid'', JStr u), (''description'', JStr desc)]"

lemma plain_row_fields:
  "length desc \<le> 500 \<Longrightarrow> set_rule_attrs ((''sequence'', JInt 100) # listed_fields (plain_row u desc)) (blank_rule i tid u ''synced'') =
     Inr ((blank_rule i tid u ''synced'')\<lparr>fw_description := Some desc, fw_interface := Some ''lan'', fw_action := Some ''pass'',
       fw_direction := Some ''in'', fw_ipprotocol := Some ''inet'', fw_protocol := Some ''tcp'', fw_source_net := Some ''any'',
       fw_source_port := Some ''any'', fw_destination_net := Some ''any'', fw_destination_port := Some ''any'',
       fw_gateway := Some '''', fw_statetype := Some ''keep''\<rparr>)"
proof -
  have "row_get (plain_row u desc) k dflt = (if k = ''uuid'' then JStr u else if k = ''description'' then JStr desc else JStr dflt)" for k dflt
    by (simp add: row_get_def plain_row_def json_has_def json_get_def member_def)
  moreover have "parse_bool (JStr ''1'') = ''1''" "parse_bool (JStr ''0'') = ''0''" by code_simp+
  ultimately show "length desc \<le> 500 \<Longrightarrow> ?thesis"
    by (simp add: listed_fields_def rule_defaults_def flag_fields_def set_rule_attr_def text_cols_def int_cols_def required_text_def
        text_fits_def text_widths_def int_fits_def blank_rule_def)
qed

text \<open>
  A rule of the firewall whose description has more than 240 and at most 500 characters never reaches the database:
  the audit row of its creation does not fit, and the rollback of the audit takes the rule with it. The
  task still counts it as added.
\<close>

theorem long_rule_never_synced:
  assumes "first_row (\<lambda>t. t_id t = tid) (tenants d) = Some t" "fp_list (provider t) w = (Inr (JArr [plain_row u desc]), w1)"
    and "240 < length desc" "length desc \<le> 500" "u \<notin> set (map fw_uuid (fw_rules d))" "tenant_rules tid d = []"
  shows "\<exists>s. sync_firewall_rules_task provider retries tid ''opnsense'' (d, w) =
     (Reply [(''status'', JStr ''success''), (''added'', JInt 1), (''updated'', JInt 0), (''deleted'', JInt 0)], s) \<and>
     fw_rules (fst s) = fw_rules d"
proof -
  let ?new = "(blank_rule (next_id TFwRules d) tid u ''synced'')\<lparr>fw_description := Some desc, fw_interface := Some ''lan'',
       fw_action := Some ''pass'', fw_direction := Some ''in'', fw_ipprotocol := Some ''inet'', fw_protocol := Some ''tcp'',
       fw_source_net := Some ''any'', fw_source_port := Some ''any'', fw_destination_net := Some ''any'',
       fw_destination_port := Some ''any'', fw_gateway := Some '''', fw_statetype := Some ''keep''\<rparr>"
  let ?s0 = "\<lparr>sy_rows = (d, d), sy_added = 0, sy_updated = 0, sy_deleted = 0\<rparr>"
  have "row_get (plain_row u desc) ''sequence'' ''100'' = JStr ''100''" "row_uuid (plain_row u desc) = u"
    by (simp_all add: row_get_def plain_row_def json_has_def json_get_def member_def row_uuid_def)
  moreover have "py_int ''100'' = Some 100" by code_simp
  ultimately have row: "sync_row tid {} (plain_row u desc) ?s0 = Inr (sync_create tid (plain_row u desc) ?new ?s0)"
    using assms(5) plain_row_fields [OF assms(4), of u "next_id TFwRules d" tid]
    by (simp add: sync_row_def int_of_json_def)
  have "\<not> audit_fits (system_event ''FIREWALL_RULE_CREATE'' (Some (fw_id ?new)) (rule_name ?new) tid\<lparr>a_new_value := x, a_details := y\<rparr>)" for x y
    using assms(3) by (simp add: audit_fits_def opt_fits_def system_event_def rule_name_def show_opt_def)
  then have create: "fw_rules (snd (sy_rows (sync_create tid (plain_row u desc) ?new ?s0))) = fw_rules d"
    "sy_added (sync_create tid (plain_row u desc) ?new ?s0) = 1" "sy_updated (sync_create tid (plain_row u desc) ?new ?s0) = 0"
    "sy_deleted (sync_create tid (plain_row u desc) ?new ?s0) = 0"
    by (simp_all add: sync_create_def audited_def rolled_back_def)
  have rows: "sync_rows tid [plain_row u desc] d = Inr (sync_create tid (plain_row u desc) ?new ?s0)"
    using row by (simp add: sync_rows_def assms(6))
  have "first_bad [plain_row u desc] = None" by (simp add: first_bad_def plain_row_def dict_of_def List.map_filter_def)
  then show ?thesis using assms(1,2) rows create
    by (simp add: sync_firewall_rules_task_def with_tenant_def Let_def iter_rows_def then_do_def)
qed

lemma long_rule_never_synced_witness:
  "\<exists>s. sync_firewall_rules_task (\<lambda>t. (list_provider t)\<lparr>fp_list := ok (JArr [plain_row ''u9'' (replicate 241 CHR ''x'')])\<rparr>) 0 1 ''opnsense'' (fw_db\<lparr>fw_rules := []\<rparr>, []) =
     (Reply [(''status'', JStr ''success''), (''added'', JInt 1), (''updated'', JInt 0), (''deleted'', JInt 0)], s) \<and> fw_rules (fst s) = []"
proof -
  have "first_row (\<lambda>t. t_id t = 1) (tenants (fw_db\<lparr>fw_rules := []\<rparr>)) = Some (new_tenant 1 ''a'' ''a'')" by code_simp
  from long_rule_never_synced [OF this, where provider = "\<lambda>t. (list_provider t)\<lparr>fp_list := ok (JArr [plain_row ''u9'' (replicate 241 CHR ''x'')])\<rparr>"
      and w = "[]" and ?w1.0 = "[]" and u = "''u9''" and desc = "replicate 241 CHR ''x''" and retries = 0]
  show ?thesis by (simp add: ok_def tenant_rules_def)
qed

text \<open>
  A reconcile deletes the rules of the tenant and commits before it has understood what the firewall
  lists: one sequence that is no number, and all rules are gone, those still to be pushed included.
\<close>

lemma int_keys_bad: "row \<in> set rows \<Longrightarrow> int_of_json (row_get row ''sequence'' ''0'') = Inl e \<Longrightarrow> \<exists>e'. int_keys rows = Inl e'"
  by (induction rows) (auto split: sum.splits)

theorem failed_reconcile_loses_rules:
  assumes "first_row (\<lambda>t. t_id t = tid) (tenants d) = Some t" "fp_list (provider t) w = (Inr (JArr rows), w1)"
    and "row \<in> set rows" "int_of_json (row_get row ''sequence'' ''0'') = Inl e"
  shows "\<exists>m. fst (reconcile_firewall_rules_task provider tid ''opnsense'' (d, w)) = task_error m \<and>
    tenant_rules tid (fst (snd (reconcile_firewall_rules_task provider tid ''opnsense'' (d, w)))) = []"
proof -
  obtain e' where e': "int_keys rows = Inl e'" using int_keys_bad [OF assms(3,4)] by blast
  have "filter (\<lambda>r. fw_tenant_id r = tid \<and> fw_tenant_id r \<noteq> tid) (fw_rules d) = []" by (simp add: filter_empty_conv)
  then show ?thesis using assms(1,2) e'
    by (cases "first_bad rows")
      (auto simp: reconcile_firewall_rules_task_def with_tenant_def iter_rows_def tenant_rules_def Let_def)
qed

end
