(* ===== verification/Wireguard_Tasks.thy ===== *)
theory Wireguard_Tasks
  imports Wireguard Firewall_Tasks
begin

text \<open>
  The WireGuard tasks: \<open>app/workers/tasks/wireguard.py\<close>. The firewall is the world \<open>'w\<close>, reached through
  the provider calls of \<open>Opnsense_Api\<close>; the editor of its configuration file
  (\<open>OPNsenseConfigInVM\<close>), the encryption and the random key are parameters. A failing step rolls the
  database back to the last commit, never the firewall. Progress messages and dates are left out.
\<close>

section \<open>Surroundings\<close>

record 'w wg_env =
  we_run :: "'w vm_run"
  we_names :: "int \<Rightarrow> 'w \<Rightarrow> (string list, 'w) result"
  we_add_opt :: "int \<Rightarrow> string \<Rightarrow> string \<Rightarrow> string \<Rightarrow> string \<Rightarrow> 'w \<Rightarrow> (unit, 'w) result"
  we_reload :: "int \<Rightarrow> 'w \<Rightarrow> (unit, 'w) result"
  we_encrypt :: "string \<Rightarrow> string"
  we_psk :: string
  we_now :: int

definition next_opt :: "string list \<Rightarrow> string" where
  "next_opt names =
     (let nums = List.map_filter (\<lambda>n. if starts_with n ''opt'' then py_int (drop 3 n) else None) names
      in ''opt'' @ show_int (case nums of [] \<Rightarrow> 1 | k # ks \<Rightarrow> fold max ks k + 1))"

definition build_peer_config :: "wg_peer \<Rightarrow> wg_tunnel \<Rightarrow> string \<Rightarrow> string \<Rightarrow> string \<Rightarrow> string \<Rightarrow> string \<Rightarrow> string" where
  "build_peer_config p t server_pub server_ep psk key lan =
     concat (map (\<lambda>l. l @ newline)
       ([''[Interface]'', ''PrivateKey = '' @ key, ''Address = '' @ wp_allowed_ip p @ ''/32''] @
        (if truthy (wt_dns t) then [''DNS = '' @ the (wt_dns t)] else []) @
        ['''', ''[Peer]'', ''PublicKey = '' @ server_pub, ''PresharedKey = '' @ psk, ''Endpoint = '' @ server_ep,
         ''AllowedIPs = '' @ (if lan \<noteq> [] then wt_cidr t @ '', '' @ lan else wt_cidr t),
         ''PersistentKeepalive = '' @ show_int (if wp_keepalive p \<noteq> 0 then wp_keepalive p else wt_peer_keepalive t)]))"

definition save_tunnel :: "int \<Rightarrow> (wg_tunnel \<Rightarrow> wg_tunnel) \<Rightarrow> db \<Rightarrow> db" where
  "save_tunnel i f d = d\<lparr>wg_tunnels := upd_rows wt_id i f (wg_tunnels d)\<rparr>"

definition save_peer :: "int \<Rightarrow> (wg_peer \<Rightarrow> wg_peer) \<Rightarrow> db \<Rightarrow> db" where
  "save_peer i f d = d\<lparr>wg_peers := upd_rows wp_id i f (wg_peers d)\<rparr>"

definition task_tenant :: "int \<Rightarrow> db \<Rightarrow> tenant option" where
  "task_tenant tid d = first_row (\<lambda>t. t_id t = tid) (tenants d)"

definition wg_event :: "string \<Rightarrow> string \<Rightarrow> int option \<Rightarrow> string \<Rightarrow> int \<Rightarrow> string \<Rightarrow> int \<Rightarrow> audit_entry" where
  "wg_event act target actor uname i nm tid =
     \<lparr>a_actor_id = actor, a_actor_username = uname, a_action = audit_action act, a_target_type = target, a_target_id = Some i,
      a_target_name = Some nm, a_old_value = None, a_new_value = None, a_details = None, a_request_id = None,
      a_ip_address = None, a_tenant_id = Some tid\<rparr>"

definition provisioned_tenant :: "tenant \<Rightarrow> bool" where
  "provisioned_tenant t \<longleftrightarrow> truthy_id (t_opnsense_vm_id t) \<and> truthy (t_opnsense_api_key t) \<and> truthy (t_opnsense_api_secret t)"

section \<open>_ensure_firewall_rules\<close>

definition wan_desc :: "string \<Rightarrow> string" where
  "wan_desc nm = ''WireGuard '' @ nm @ '' (WAN)''"

definition wan_rule :: "int \<Rightarrow> wg_tunnel \<Rightarrow> db \<Rightarrow> fw_rule" where
  "wan_rule tid t d =
     (access_rule tid (''pending-wg-'' @ show_int (wt_id t) @ ''-wan'') 100 (Some ''wan'') (wan_desc (wt_name t)) ''wanip'' d)
       \<lparr>fw_protocol := Some ''UDP'', fw_destination_port := Some (show_int (wt_listen_port t))\<rparr>"

definition allowed_networks :: "int \<Rightarrow> int list \<Rightarrow> db \<Rightarrow> tenant_network list" where
  "allowed_networks tid ids d =
     filter (\<lambda>n. n_id n \<in> set ids \<and> n_tenant_id n = tid \<and> n_status n = ''active'') (networks d)"

text \<open>The lookups see the rows \<open>d\<close> of the last flush; \<open>i\<close> counts the networks from the first.\<close>

fun add_net_rules :: "int \<Rightarrow> wg_tunnel \<Rightarrow> string \<Rightarrow> db \<Rightarrow> int \<Rightarrow> tenant_network list \<Rightarrow> db \<Rightarrow> db" where
  "add_net_rules tid t opt d i [] x = x"
| "add_net_rules tid t opt d i (n # ns) x =
     add_net_rules tid t opt d (i + 1) ns
       (if described_rule tid (rule_desc (wt_name t) (n_name n)) d = None
        then add_rule_row (access_rule tid (wg_rule_uuid (wt_id t) (n_id n)) (200 + i) (Some opt) (rule_desc (wt_name t) (n_name n)) (n_cidr n) x) x
        else x)"

definition ensure_firewall_rules :: "int \<Rightarrow> wg_tunnel \<Rightarrow> string \<Rightarrow> int list \<Rightarrow> db \<Rightarrow> db" where
  "ensure_firewall_rules tid t opt ids d =
     add_net_rules tid t opt d 0 (if ids = [] then [] else allowed_networks tid ids d)
       (if described_rule tid (wan_desc (wt_name t)) d = None then add_rule_row (wan_rule tid t d) d else d)"

section \<open>provision_wireguard_tunnel\<close>

text \<open>
  The steps between two commits. Each takes the committed database and the tunnel as it is there, and
  returns what it commits; an exception leaves the database of the last commit.
\<close>

type_synonym 'w wg_step = "(wg_tunnel, db \<times> 'w) result"

definition lift_db :: "db \<Rightarrow> ('a, 'w) result \<Rightarrow> ('a, db \<times> 'w) result" where
  "lift_db d r = (fst r, d, snd r)"

definition commit_tunnel :: "(wg_tunnel \<Rightarrow> wg_tunnel) \<Rightarrow> wg_tunnel \<Rightarrow> db \<Rightarrow> 'w \<Rightarrow> 'w wg_step" where
  "commit_tunnel f t d w = ok (f t) (save_tunnel (wt_id t) f d, w)"

definition give_tunnel_subnet :: "'w wg_env \<Rightarrow> wg_tunnel \<Rightarrow> db \<Rightarrow> 'w \<Rightarrow> 'w wg_step" where
  "give_tunnel_subnet env t d w =
     (if truthy_id (wt_pool_id t) then ok t (d, w)
      else case allocate_tunnel_subnet {} (we_now env) d of
        Inl e \<Rightarrow> raise e (d, w)
      | Inr (r, d1) \<Rightarrow>
          commit_tunnel (\<lambda>x. x\<lparr>wt_pool_id := Some (wgp_id r), wt_cidr := wgp_cidr r, wt_gateway_ip := wgp_gateway_ip r,
              wt_tunnel_address := wgp_gateway_ip r @ ''/24''\<rparr>) t
            (d1\<lparr>wg_pool := upd_rows wgp_id (wgp_id r) (\<lambda>x. x\<lparr>wgp_tunnel_id := Some (wt_id t)\<rparr>) (wg_pool d1)\<rparr>) w)"

definition tunnel_endpoint :: "tenant \<Rightarrow> wg_tunnel \<Rightarrow> int \<Rightarrow> py_exc + string" where
  "tunnel_endpoint tn t port =
     (if truthy (wt_endpoint t) then Inr (the (wt_endpoint t))
      else if truthy (t_wan_ip tn) then Inr (the (t_wan_ip tn) @ '':'' @ show_int port)
      else Inl (OtherError ''Tenant has no WAN IP and tunnel endpoint was not provided''))"

definition add_server :: "'w wg_env \<Rightarrow> tenant \<Rightarrow> string \<times> string \<Rightarrow> wg_tunnel \<Rightarrow> db \<Rightarrow> 'w \<Rightarrow> 'w wg_step" where
  "add_server env tn keys t d w =
     (let (priv, pub) = keys;
          port = (if wt_listen_port t \<noteq> 0 then wt_listen_port t else free_port (used_ports (t_id tn) d) DEFAULT_LISTEN_PORT);
          mtu = (if wt_mtu t \<noteq> 0 then wt_mtu t else 1420)
      in then_do (lift_db d (add_wg_server (we_run env) tn (wt_name t) pub priv port (wt_tunnel_address t) mtu w)) (\<lambda>uuid (_, w1).
           case tunnel_endpoint tn t port of
             Inl e \<Rightarrow> raise e (d, w1)
           | Inr ep \<Rightarrow>
               then_do (lift_db d (set_wg_server_endpoint (we_run env) tn uuid ep w1)) (\<lambda>_ (_, w2).
                 commit_tunnel (\<lambda>x. x\<lparr>wt_listen_port := port, wt_mtu := mtu, wt_opnsense_server_uuid := Some uuid,
                   wt_public_key := pub, wt_private_key := priv, wt_endpoint := Some ep\<rparr>) t d w2)))"

definition add_interface :: "'w wg_env \<Rightarrow> tenant \<Rightarrow> wg_tunnel \<Rightarrow> db \<Rightarrow> 'w \<Rightarrow> 'w wg_step" where
  "add_interface env tn t d w =
     (let vm = (case t_opnsense_vm_id tn of None \<Rightarrow> 0 | Some v \<Rightarrow> v); run = we_run env
      in then_do (lift_db d (wg_general_enable run tn True w)) (\<lambda>_ (_, w1).
         then_do (lift_db d (wg_service_reconfigure run tn w1)) (\<lambda>_ (_, w2).
         then_do (lift_db d (we_names env vm w2)) (\<lambda>names (_, w3).
         then_do (lift_db d (get_wg_device_name run tn (show_opt id (wt_opnsense_server_uuid t)) w3)) (\<lambda>dev (_, w4).
         then_do (lift_db d (we_add_opt env vm (next_opt names) dev (wt_gateway_ip t) (''WireGuard-'' @ wt_name t) w4)) (\<lambda>_ (_, w5).
         then_do (lift_db d (we_reload env vm w5)) (\<lambda>_ (_, w6).
           commit_tunnel (\<lambda>x. x\<lparr>wt_opt_interface := Some (next_opt names)\<rparr>) t d w6)))))))"

definition add_rules :: "tenant \<Rightarrow> int list \<Rightarrow> wg_tunnel \<Rightarrow> db \<Rightarrow> 'w \<Rightarrow> 'w wg_step" where
  "add_rules tn ids t d w =
     (let d1 = ensure_firewall_rules (t_id tn) t (show_opt id (wt_opt_interface t))
                 (if ids \<noteq> [] then ids else case wt_allowed_network_ids t of None \<Rightarrow> [] | Some xs \<Rightarrow> xs) d
      in if \<not> distinct_keys fw_uuid (fw_rules d1) then raise (IntegrityError ''opnsense_firewall_rules_uuid_key'') (d, w)
         else ok t (send_task (ApplyFirewallRules (t_id tn)) d1, w))"

definition activate :: "tenant \<Rightarrow> int option \<Rightarrow> string \<Rightarrow> wg_tunnel \<Rightarrow> db \<Rightarrow> 'w \<Rightarrow> 'w wg_step" where
  "activate tn actor uname t d w =
     ok (t\<lparr>wt_status := ''active''\<rparr>)
       (log_audit_event ((wg_event ''WIREGUARD_TUNNEL_CREATE'' ''wireguard_tunnel'' actor uname (wt_id t) (wt_name t) (t_id tn))
          \<lparr>a_new_value := Some (''cidr='' @ wt_cidr t @ '',port='' @ show_int (wt_listen_port t) @ '',endpoint='' @ show_opt id (wt_endpoint t) @
             '',opnsense_uuid='' @ show_opt id (wt_opnsense_server_uuid t)),
           a_details := Some (''WireGuard tunnel '' @ wt_name t @ '' provisioned'')\<rparr>) None
          (save_tunnel (wt_id t) (\<lambda>x. x\<lparr>wt_status := ''active''\<rparr>) d), w)"

definition provision_steps ::
  "'w wg_env \<Rightarrow> tenant \<Rightarrow> int list \<Rightarrow> int option \<Rightarrow> string \<Rightarrow> wg_tunnel \<Rightarrow> db \<Rightarrow> 'w \<Rightarrow> 'w wg_step" where
  "provision_steps env tn ids actor uname t d w =
     then_do (commit_tunnel (\<lambda>x. x\<lparr>wt_status := ''provisioning'', wt_error := None\<rparr>) t d w) (\<lambda>t1 (d1, w1).
     then_do (lift_db d1 (generate_keypair (we_run env) tn w1)) (\<lambda>keys (_, w2).
     then_do (give_tunnel_subnet env t1 d1 w2) (\<lambda>t2 (d2, w3).
     then_do (add_server env tn keys t2 d2 w3) (\<lambda>t3 (d3, w4).
     then_do (add_interface env tn t3 d3 w4) (\<lambda>t4 (d4, w5).
     then_do (add_rules tn ids t4 d4 w5) (\<lambda>t5 (d5, w6).
       activate tn actor uname t5 d5 w6))))))"

definition provision_failed ::
  "nat \<Rightarrow> int \<Rightarrow> int \<Rightarrow> int option \<Rightarrow> string \<Rightarrow> py_exc \<Rightarrow> db \<times> 'w \<Rightarrow> task_reply \<times> db \<times> 'w" where
  "provision_failed retries tid i actor uname e s =
     (let (d, w) = s;
          row = first_row (\<lambda>x. wt_id x = i) (wg_tunnels d);
          d1 = save_tunnel i (\<lambda>x. x\<lparr>wt_status := ''error'', wt_error := Some (take 500 (exc_str e))\<rparr>) d
      in (retry_or_fail retries 3 e,
          log_audit_event ((wg_event ''WIREGUARD_PROVISION_ERROR'' ''wireguard_tunnel'' actor uname i
              (case row of None \<Rightarrow> ''tunnel-'' @ show_int i | Some x \<Rightarrow> wt_name x) tid)
            \<lparr>a_new_value := Some (''error: '' @ take 300 (exc_str e))\<rparr>) None d1, w))"

definition provision_wireguard_tunnel_task ::
  "'w wg_env \<Rightarrow> nat \<Rightarrow> int \<Rightarrow> int \<Rightarrow> int option \<Rightarrow> string \<Rightarrow> int list \<Rightarrow> db \<times> 'w \<Rightarrow> task_reply \<times> db \<times> 'w" where
  "provision_wireguard_tunnel_task env retries tid i actor uname ids s =
     (let (d, w) = s
      in case task_tenant tid d of
           None \<Rightarrow> (task_error (''Tenant '' @ show_int tid @ '' not found''), s)
         | Some tn \<Rightarrow>
             (if \<not> provisioned_tenant tn
              then provision_failed retries tid i actor uname
                (OtherError (''Tenant '' @ show_int tid @ '' is not fully provisioned (no OPNsense VM/API)'')) s
              else case find_tunnel i tid d of
                None \<Rightarrow> (task_error (''Tunnel '' @ show_int i @ '' not found''), s)
              | Some t \<Rightarrow>
                  (if wt_status t = ''active''
                   then (Reply [(''status'', JStr ''success''), (''tunnel_id'', JInt i), (''already_active'', JBool True)], s)
                   else case provision_steps env tn ids actor uname t d w of
                     (Inr t', s') \<Rightarrow>
                       (Reply [(''status'', JStr ''success''), (''tunnel_id'', JInt i), (''server_uuid'', JStr (show_opt id (wt_opnsense_server_uuid t'))),
                          (''opt_interface'', JStr (show_opt id (wt_opt_interface t'))), (''endpoint'', JStr (show_opt id (wt_endpoint t')))], s')
                   | (Inl e, s') \<Rightarrow> provision_failed retries tid i actor uname e s')))"


section \<open>destroy_wireguard_tunnel\<close>

text \<open>\<open>LIKE\<close> of the database: \<open>%\<close> is any text, \<open>_\<close> any character, a backslash quotes the next one.\<close>

fun like :: "string \<Rightarrow> string \<Rightarrow> bool" where
  "like [] s = (s = [])"
| "like (c # p) s =
     (if c = CHR ''%'' then like p s \<or> (case s of [] \<Rightarrow> False | x # s' \<Rightarrow> like (c # p) s')
      else case s of
        [] \<Rightarrow> False
      | x # s' \<Rightarrow>
          (if c = CHR ''_'' then like p s'
           else if c = backslash_char then (case p of [] \<Rightarrow> False | q # p' \<Rightarrow> x = q \<and> like p' s')
           else x = c \<and> like p s'))"

definition tunnel_rules :: "int \<Rightarrow> string \<Rightarrow> db \<Rightarrow> fw_rule list" where
  "tunnel_rules tid nm d =
     filter (\<lambda>r. fw_tenant_id r = tid \<and> (case fw_description r of None \<Rightarrow> False | Some x \<Rightarrow> like (''WireGuard '' @ nm @ ''%'') x)) (fw_rules d)"

definition delete_tunnel_row :: "int \<Rightarrow> db \<Rightarrow> db" where
  "delete_tunnel_row i d =
     d\<lparr>wg_tunnels := del_rows wt_id i (wg_tunnels d), wg_peers := filter (\<lambda>p. wp_tunnel_id p \<noteq> i) (wg_peers d)\<rparr>"

text \<open>The calls to the firewall are best effort; the rest is one commit.\<close>

definition destroy_wireguard_tunnel_task ::
  "'w wg_env \<Rightarrow> int \<Rightarrow> int \<Rightarrow> int option \<Rightarrow> string \<Rightarrow> db \<times> 'w \<Rightarrow> task_reply \<times> db \<times> 'w" where
  "destroy_wireguard_tunnel_task env tid i actor uname s =
     (let (d, w) = s
      in case task_tenant tid d of
           None \<Rightarrow> (task_error (''Tenant '' @ show_int tid @ '' not found''), s)
         | Some tn \<Rightarrow>
             (case find_tunnel i tid d of
                None \<Rightarrow> (Reply [(''status'', JStr ''success''), (''tunnel_id'', JInt i), (''already_gone'', JBool True)], s)
              | Some t \<Rightarrow>
                  (let w' = (if truthy_id (t_opnsense_vm_id tn) \<and> truthy (t_opnsense_api_key tn) \<and> truthy (wt_opnsense_server_uuid t)
                             then snd (then_do (del_wg_server (we_run env) tn (the (wt_opnsense_server_uuid t)) w)
                               (\<lambda>_. wg_service_reconfigure (we_run env) tn)) else w);
                       d1 = save_tunnel i (\<lambda>x. x\<lparr>wt_status := ''destroying''\<rparr>) d;
                       d2 = (if truthy_id (wt_pool_id t) then release_tunnel_subnet (the (wt_pool_id t)) d1 else d1);
                       d3 = delete_tunnel_row i (fold drop_rule (tunnel_rules tid (wt_name t) d2) d2)
                   in (Reply [(''status'', JStr ''success''), (''tunnel_id'', JInt i)],
                       log_audit_event (wg_event ''WIREGUARD_TUNNEL_DELETE'' ''wireguard_tunnel'' actor uname i (wt_name t) tid) None d3, w'))))"

section \<open>provision_wireguard_peer\<close>

definition set_endpoint_again :: "'w wg_env \<Rightarrow> tenant \<Rightarrow> string \<Rightarrow> wg_tunnel \<Rightarrow> 'w \<Rightarrow> (json, 'w) result" where
  "set_endpoint_again env tn server t w =
     (if truthy (wt_endpoint t) then set_wg_server_endpoint (we_run env) tn server (the (wt_endpoint t)) w else ok JNull w)"

definition peer_steps ::
  "'w wg_env \<Rightarrow> tenant \<Rightarrow> int option \<Rightarrow> string \<Rightarrow> wg_tunnel \<Rightarrow> wg_peer \<Rightarrow> db \<Rightarrow> 'w \<Rightarrow> (string, db \<times> 'w) result" where
  "peer_steps env tn actor uname t p d w =
     (let d1 = save_peer (wp_id p) (\<lambda>x. x\<lparr>wp_status := ''provisioning''\<rparr>) d;
          run = we_run env; server = show_opt id (wt_opnsense_server_uuid t)
      in then_do (lift_db d1 (generate_keypair run tn w)) (\<lambda>(priv, pub) (_, w1).
         case (if wp_allowed_ip p \<noteq> [] then Inr (wp_allowed_ip p) else allocate_peer_ip d1 t) of
           Inl e \<Rightarrow> raise e (d1, w1)
         | Inr ip \<Rightarrow>
             then_do (lift_db d1 (add_wg_client run tn server (wp_name p) pub (we_psk env) (ip @ ''/32'')
                 (if wp_keepalive p \<noteq> 0 then wp_keepalive p else if wt_peer_keepalive t \<noteq> 0 then wt_peer_keepalive t else 25)
                 (case wp_endpoint p of None \<Rightarrow> '''' | Some e \<Rightarrow> e) w1)) (\<lambda>uuid (_, w2).
               let d2 = save_peer (wp_id p) (\<lambda>x. x\<lparr>wp_allowed_ip := ip, wp_opnsense_client_uuid := Some uuid, wp_public_key := pub,
                          wp_private_key_enc := we_encrypt env priv, wp_preshared_key_enc := we_encrypt env (we_psk env)\<rparr>) d1
               in then_do (lift_db d2 (set_endpoint_again env tn server t w2)) (\<lambda>_ (_, w3).
                  then_do (lift_db d2 (wg_general_enable run tn True w3)) (\<lambda>_ (_, w4).
                  then_do (lift_db d2 (wg_service_reconfigure run tn w4)) (\<lambda>_ (_, w5).
                    ok uuid
                      (log_audit_event ((wg_event ''WIREGUARD_PEER_CREATE'' ''wireguard_peer'' actor uname (wp_id p) (wp_name p) (t_id tn))
                         \<lparr>a_new_value := Some (''tunnel_id='' @ show_int (wt_id t) @ '',allowed_ip='' @ ip)\<rparr>) None
                         (save_peer (wp_id p) (\<lambda>x. x\<lparr>wp_status := ''active'', wp_error := None\<rparr>) d2), w5)))))))"

text \<open>
  The exception that hands the task back is raised where every exception is caught, so the task answers
  with an error although it has been queued again. After the last try the peer is deleted.
\<close>

definition delete_peer_row :: "int \<Rightarrow> db \<Rightarrow> db" where
  "delete_peer_row j d = d\<lparr>wg_peers := del_rows wp_id j (wg_peers d)\<rparr>"

definition peer_failed :: "nat \<Rightarrow> task \<Rightarrow> int \<Rightarrow> py_exc \<Rightarrow> db \<times> 'w \<Rightarrow> task_reply \<times> db \<times> 'w" where
  "peer_failed retries again j e s =
     (let (d, w) = s
      in (task_error (exc_str e),
          (if j \<notin> set (map wp_id (wg_peers d)) then d
           else if retries < 3 then send_task again d
           else delete_peer_row j d), w))"

definition provision_wireguard_peer_task ::
  "'w wg_env \<Rightarrow> nat \<Rightarrow> int \<Rightarrow> int \<Rightarrow> int \<Rightarrow> int \<Rightarrow> string \<Rightarrow> db \<times> 'w \<Rightarrow> task_reply \<times> db \<times> 'w" where
  "provision_wireguard_peer_task env retries tid i j actor uname s =
     (let (d, w) = s; again = ProvisionWgPeer tid i j actor uname
      in case (task_tenant tid d, find_tunnel i tid d, find_peer j i d) of
           (Some tn, Some t, Some p) \<Rightarrow>
             (if \<not> truthy (wt_opnsense_server_uuid t)
              then peer_failed retries again j (OtherError ''Tunnel has no OPNsense server UUID; is it provisioned?'') s
              else if wt_status t \<noteq> ''active''
                then peer_failed retries again j (OtherError (''Tunnel is in status '' @ wt_status t @ ''; cannot add peer'')) s
              else case peer_steps env tn (Some actor) uname t p d w of
                (Inr uuid, s') \<Rightarrow> (Reply [(''status'', JStr ''success''), (''peer_id'', JInt j), (''tunnel_id'', JInt i), (''client_uuid'', JStr uuid)], s')
              | (Inl e, s') \<Rightarrow> peer_failed retries again j e s')
         | _ \<Rightarrow> (task_error ''tenant/tunnel/peer not found'', s))"

definition destroy_wireguard_peer_task ::
  "'w wg_env \<Rightarrow> int \<Rightarrow> int \<Rightarrow> int \<Rightarrow> int option \<Rightarrow> string \<Rightarrow> db \<times> 'w \<Rightarrow> task_reply \<times> db \<times> 'w" where
  "destroy_wireguard_peer_task env tid i j actor uname s =
     (let (d, w) = s
      in case find_peer j i d of
           None \<Rightarrow> (Reply [(''status'', JStr ''success''), (''peer_id'', JInt j), (''already_gone'', JBool True)], s)
         | Some p \<Rightarrow>
             (let w' = (case task_tenant tid d of
                     None \<Rightarrow> w
                   | Some tn \<Rightarrow>
                       (if truthy_id (t_opnsense_vm_id tn) \<and> truthy (t_opnsense_api_key tn) \<and> truthy (wp_opnsense_client_uuid p)
                        then snd (then_do (del_wg_client (we_run env) tn (the (wp_opnsense_client_uuid p)) w) (\<lambda>_. wg_service_reconfigure (we_run env) tn))
                        else w))
              in (Reply [(''status'', JStr ''success''), (''peer_id'', JInt j)],
                  log_audit_event (wg_event ''WIREGUARD_PEER_DELETE'' ''wireguard_peer'' actor uname j (wp_name p) tid) None (delete_peer_row j d), w')))"


section \<open>What a tunnel may reach\<close>

text \<open>A step that leaves the rules and the networks as they are in \<open>d\<close>.\<close>

definition quiet :: "db \<Rightarrow> ('a, db \<times> 'w) result \<Rightarrow> bool" where
  "quiet d r \<longleftrightarrow> fw_rules (fst (snd r)) = fw_rules d \<and> networks (fst (snd r)) = networks d"

lemma quiet_leaf [simp]:
  "quiet d (ok x (d', w)) \<longleftrightarrow> fw_rules d' = fw_rules d \<and> networks d' = networks d"
  "quiet d (raise e (d', w)) \<longleftrightarrow> fw_rules d' = fw_rules d \<and> networks d' = networks d"
  "quiet d (lift_db d' r) \<longleftrightarrow> fw_rules d' = fw_rules d \<and> networks d' = networks d"
  by (simp_all add: quiet_def ok_def raise_def lift_db_def)

lemma quiet_then:
  assumes "quiet d r" "\<And>x d' w. fw_rules d' = fw_rules d \<Longrightarrow> networks d' = networks d \<Longrightarrow> quiet d (k x (d', w))"
  shows "quiet d (then_do r k)"
  using assms by (cases r) (auto simp: quiet_def then_do_def split: sum.split)

lemma save_tunnel_frame [row_simps, simp]:
  "fw_rules (save_tunnel i f d) = fw_rules d" "networks (save_tunnel i f d) = networks d"
  "tenants (save_tunnel i f d) = tenants d" "wg_pool (save_tunnel i f d) = wg_pool d" "queue (save_tunnel i f d) = queue d"
  "wg_tunnels (save_tunnel i f d) = upd_rows wt_id i f (wg_tunnels d)"
  by (simp_all add: save_tunnel_def)

lemma quiet_commit [simp]:
  "quiet d (commit_tunnel f t d' w) \<longleftrightarrow> fw_rules d' = fw_rules d \<and> networks d' = networks d"
  by (simp add: commit_tunnel_def)

lemma quiet_give_subnet: "fw_rules d' = fw_rules d \<Longrightarrow> networks d' = networks d \<Longrightarrow> quiet d (give_tunnel_subnet env t d' w)"
  by (auto simp: give_tunnel_subnet_def allocate_tunnel_subnet_def split: option.split)

lemma quiet_add_server: "fw_rules d' = fw_rules d \<Longrightarrow> networks d' = networks d \<Longrightarrow> quiet d (add_server env tn keys t d' w)"
  by (auto simp: add_server_def Let_def case_prod_beta split: sum.split intro!: quiet_then)

lemma quiet_add_interface: "fw_rules d' = fw_rules d \<Longrightarrow> networks d' = networks d \<Longrightarrow> quiet d (add_interface env tn t d' w)"
  by (auto simp: add_interface_def Let_def case_prod_beta intro!: quiet_then)

lemma add_net_rules_tunnels: "wg_tunnels (add_net_rules tid t opt d i ns x) = wg_tunnels x"
  by (induction ns arbitrary: i x) (simp_all add: add_rule_row_def)

lemma ensure_tunnels: "wg_tunnels (ensure_firewall_rules tid t opt ids d) = wg_tunnels d"
  by (simp add: ensure_firewall_rules_def add_net_rules_tunnels add_rule_row_def)

text \<open>
  The rules the task adds: an enabled rule that waits to be applied and lets traffic in, for the WAN or
  for one network, and only where no rule of the tenant, whatever its state, had its description in \<open>d\<close>.
\<close>

definition waiting_pass :: "int \<Rightarrow> fw_rule \<Rightarrow> bool" where
  "waiting_pass tid r \<longleftrightarrow> fw_tenant_id r = tid \<and> fw_apply_status r = ''pending'' \<and> fw_enabled r = ''1'' \<and>
     fw_action r = Some ''pass'' \<and> fw_direction r = Some ''in'' \<and> fw_source_net r = Some ''any''"

definition tunnel_networks :: "int \<Rightarrow> int list \<Rightarrow> db \<Rightarrow> tenant_network set" where
  "tunnel_networks tid ids d = {n \<in> set (networks d). n_tenant_id n = tid \<and> n_id n \<in> set ids \<and> n_status n = ''active''}"

lemma set_allowed: "set (allowed_networks tid ids d) = tunnel_networks tid ids d"
  by (auto simp: allowed_networks_def tunnel_networks_def)

definition wan_granted :: "int \<Rightarrow> wg_tunnel \<Rightarrow> db \<Rightarrow> fw_rule \<Rightarrow> bool" where
  "wan_granted tid t d r \<longleftrightarrow>
     waiting_pass tid r \<and> fw_description r = Some (wan_desc (wt_name t)) \<and> fw_interface r = Some ''wan'' \<and>
     fw_destination_net r = Some ''wanip'' \<and> described_rule tid (wan_desc (wt_name t)) d = None"

definition net_granted :: "int \<Rightarrow> wg_tunnel \<Rightarrow> string \<Rightarrow> db \<Rightarrow> tenant_network \<Rightarrow> fw_rule \<Rightarrow> bool" where
  "net_granted tid t opt d n r \<longleftrightarrow>
     waiting_pass tid r \<and> fw_description r = Some (rule_desc (wt_name t) (n_name n)) \<and> fw_interface r = Some opt \<and>
     fw_destination_net r = Some (n_cidr n) \<and> fw_protocol r = Some ''any'' \<and>
     described_rule tid (rule_desc (wt_name t) (n_name n)) d = None"

definition granted_rule :: "int \<Rightarrow> wg_tunnel \<Rightarrow> string \<Rightarrow> int list \<Rightarrow> db \<Rightarrow> fw_rule \<Rightarrow> bool" where
  "granted_rule tid t opt ids d r \<longleftrightarrow>
     wan_granted tid t d r \<or> (\<exists>n \<in> tunnel_networks tid ids d. net_granted tid t opt d n r)"

lemma add_net_rules_rows:
  "\<exists>rs. fw_rules (add_net_rules tid t opt d i ns x) = fw_rules x @ rs \<and>
     (\<forall>r \<in> set rs. \<exists>n \<in> set ns. net_granted tid t opt d n r) \<and>
     (\<forall>n \<in> set ns. described_rule tid (rule_desc (wt_name t) (n_name n)) d = None \<longrightarrow>
        (\<exists>r \<in> set rs. net_granted tid t opt d n r))"
proof (induction ns arbitrary: i x)
  case Nil
  then show ?case by simp
next
  case (Cons n ns)
  let ?desc = "rule_desc (wt_name t) (n_name n)"
  show ?case
  proof (cases "described_rule tid ?desc d = None")
    case False
    then show ?thesis using Cons.IH [of "i + 1" x] by auto
  next
    case True
    let ?r = "access_rule tid (wg_rule_uuid (wt_id t) (n_id n)) (200 + i) (Some opt) ?desc (n_cidr n) x"
    obtain rs where rs: "fw_rules (add_net_rules tid t opt d (i + 1) ns (add_rule_row ?r x)) = fw_rules (add_rule_row ?r x) @ rs"
      "\<forall>r \<in> set rs. \<exists>n \<in> set ns. net_granted tid t opt d n r"
      "\<forall>n \<in> set ns. described_rule tid (rule_desc (wt_name t) (n_name n)) d = None \<longrightarrow>
        (\<exists>r \<in> set rs. net_granted tid t opt d n r)"
      using Cons.IH [of "i + 1" "add_rule_row ?r x"] by blast
    have "fw_rules (add_net_rules tid t opt d i (n # ns) x) = fw_rules x @ ?r # rs"
      using rs(1) True by (simp add: add_rule_row_def)
    moreover have "net_granted tid t opt d n ?r"
      using True by (simp add: net_granted_def waiting_pass_def access_rule_def)
    ultimately show ?thesis using rs(2,3) by (intro exI [of _ "?r # rs"]) auto
  qed
qed

lemma described_rule_None: "described_rule tid x d = None \<longleftrightarrow> (\<forall>r \<in> set (fw_rules d). fw_tenant_id r = tid \<longrightarrow> fw_description r \<noteq> Some x)"
  by (auto simp: described_rule_def first_row_None)

lemma ensure_rows:
  "\<exists>rs. fw_rules (ensure_firewall_rules tid t opt ids d) = fw_rules d @ rs \<and> (\<forall>r \<in> set rs. granted_rule tid t opt ids d r) \<and>
     (described_rule tid (wan_desc (wt_name t)) d = None \<longrightarrow> (\<exists>r \<in> set rs. wan_granted tid t d r)) \<and>
     (\<forall>n \<in> tunnel_networks tid ids d. described_rule tid (rule_desc (wt_name t) (n_name n)) d = None \<longrightarrow>
        (\<exists>r \<in> set rs. net_granted tid t opt d n r))"
proof -
  let ?x = "if described_rule tid (wan_desc (wt_name t)) d = None then add_rule_row (wan_rule tid t d) d else d"
  let ?ns = "if ids = [] then [] else allowed_networks tid ids d"
  have ns: "?ns = allowed_networks tid ids d" by (simp add: allowed_networks_def)
  obtain rs where rs: "fw_rules (ensure_firewall_rules tid t opt ids d) = fw_rules ?x @ rs"
    "\<forall>r \<in> set rs. \<exists>n \<in> tunnel_networks tid ids d. net_granted tid t opt d n r"
    "\<forall>n \<in> tunnel_networks tid ids d. described_rule tid (rule_desc (wt_name t) (n_name n)) d = None \<longrightarrow>
        (\<exists>r \<in> set rs. net_granted tid t opt d n r)"
    using add_net_rules_rows [of tid t opt d 0 ?ns ?x] unfolding ns set_allowed ensure_firewall_rules_def by blast
  let ?w = "if described_rule tid (wan_desc (wt_name t)) d = None then [wan_rule tid t d] else []"
  have x: "fw_rules ?x = fw_rules d @ ?w" by (simp add: add_rule_row_def)
  have "wan_granted tid t d (wan_rule tid t d)" if "described_rule tid (wan_desc (wt_name t)) d = None"
    using that by (simp add: wan_granted_def waiting_pass_def wan_rule_def access_rule_def)
  then have w: "\<forall>r \<in> set ?w. wan_granted tid t d r"
    "described_rule tid (wan_desc (wt_name t)) d = None \<longrightarrow> (\<exists>r \<in> set ?w. wan_granted tid t d r)" by auto
  have "\<forall>r \<in> set (?w @ rs). granted_rule tid t opt ids d r"
    using rs(2) w(1) unfolding granted_rule_def set_append by blast
  moreover have "described_rule tid (wan_desc (wt_name t)) d = None \<longrightarrow> (\<exists>r \<in> set (?w @ rs). wan_granted tid t d r)"
    using w(2) unfolding set_append by blast
  moreover have "\<forall>n \<in> tunnel_networks tid ids d. described_rule tid (rule_desc (wt_name t) (n_name n)) d = None \<longrightarrow>
        (\<exists>r \<in> set (?w @ rs). net_granted tid t opt d n r)"
    using rs(3) unfolding set_append by blast
  moreover have "fw_rules (ensure_firewall_rules tid t opt ids d) = fw_rules d @ (?w @ rs)" using rs(1) x by simp
  ultimately show ?thesis by (intro exI [of _ "?w @ rs"] conjI) assumption+
qed


text \<open>
  A step that also hands on the same tunnel, as far as its rules are concerned, whose row is in the
  database as it is handed on.
\<close>

definition same_tunnel :: "wg_tunnel \<Rightarrow> wg_tunnel \<Rightarrow> bool" where
  "same_tunnel t t' \<longleftrightarrow> wt_id t' = wt_id t \<and> wt_tenant_id t' = wt_tenant_id t \<and> wt_name t' = wt_name t \<and>
     wt_allowed_network_ids t' = wt_allowed_network_ids t"

lemma same_tunnel_refl [simp]: "same_tunnel t t"
  by (simp add: same_tunnel_def)

lemma same_tunnel_trans: "same_tunnel t u \<Longrightarrow> same_tunnel u v \<Longrightarrow> same_tunnel t v"
  by (simp add: same_tunnel_def)

definition row_in :: "wg_tunnel \<Rightarrow> db \<Rightarrow> bool" where
  "row_in t d \<longleftrightarrow> find_tunnel (wt_id t) (wt_tenant_id t) d = Some t"

lemma row_in_cong: "wg_tunnels d' = wg_tunnels d \<Longrightarrow> row_in t d' = row_in t d"
  by (simp add: row_in_def find_tunnel_def)

lemma find_save_tunnel:
  assumes "\<And>x. wt_id (f x) = wt_id x" "\<And>x. wt_tenant_id (f x) = wt_tenant_id x" "find_tunnel i tid d = Some t"
  shows "find_tunnel i tid (save_tunnel i f d) = Some (f t)"
proof -
  have "first_row (\<lambda>t. wt_id t = i \<and> wt_tenant_id t = tid) (upd_rows wt_id i f rows) =
      map_option f (first_row (\<lambda>t. wt_id t = i \<and> wt_tenant_id t = tid) rows)" for rows
    using assms(1,2) by (induction rows) (auto simp: upd_rows_def)
  then show ?thesis using assms(3) by (simp add: find_tunnel_def)
qed

lemma row_in_save:
  assumes "\<And>x. same_tunnel x (f x)" "row_in t d"
  shows "row_in (f t) (save_tunnel (wt_id t) f d)"
proof -
  have "wt_id (f x) = wt_id x" "wt_tenant_id (f x) = wt_tenant_id x" for x
    using assms(1) [of x] by (simp_all add: same_tunnel_def)
  then show ?thesis using assms(2) find_save_tunnel [of f "wt_id t" "wt_tenant_id t" d t] by (simp add: row_in_def)
qed

definition step_ok :: "db \<Rightarrow> wg_tunnel \<Rightarrow> 'w wg_step \<Rightarrow> bool" where
  "step_ok d t r \<longleftrightarrow> quiet d r \<and> (\<forall>t'. fst r = Inr t' \<longrightarrow> same_tunnel t t' \<and> row_in t' (fst (snd r)))"

lemma step_ok_raise: "fw_rules d' = fw_rules d \<Longrightarrow> networks d' = networks d \<Longrightarrow> step_ok d t (raise e (d', w))"
  by (simp add: step_ok_def quiet_def raise_def)

lemma step_ok_commit:
  assumes "fw_rules d' = fw_rules d" "networks d' = networks d" "\<And>x. same_tunnel x (f x)" "row_in t d'"
  shows "step_ok d t (commit_tunnel f t d' w)"
  using assms row_in_save [OF assms(3,4)] by (simp add: step_ok_def) (simp add: commit_tunnel_def)

lemma step_ok_then:
  assumes "fw_rules d1 = fw_rules d" "networks d1 = networks d" "\<And>x w. step_ok d t (k x (d1, w))"
  shows "step_ok d t (then_do (lift_db d1 r) k)"
  using assms(3) step_ok_raise [OF assms(1,2)]
  by (cases r) (auto simp: then_do_def lift_db_def raise_def split: sum.split)

lemma give_tunnel_subnet_ok:
  assumes "fw_rules d' = fw_rules d" "networks d' = networks d" "row_in t d'"
  shows "step_ok d t (give_tunnel_subnet env t d' w)"
proof (cases "truthy_id (wt_pool_id t)")
  case True
  then show ?thesis using assms by (simp add: give_tunnel_subnet_def step_ok_def)
next
  case False
  show ?thesis
  proof (cases "allocate_tunnel_subnet {} (we_now env) d'")
    case (Inl e)
    then show ?thesis using False assms(1,2) by (simp add: give_tunnel_subnet_def step_ok_raise)
  next
    case (Inr p)
    obtain r d1 where p: "p = (r, d1)" by (cases p)
    have d1: "fw_rules d1 = fw_rules d'" "networks d1 = networks d'" "wg_tunnels d1 = wg_tunnels d'"
      using Inr unfolding p by (auto simp: allocate_tunnel_subnet_def split: option.splits)
    let ?d2 = "d1\<lparr>wg_pool := upd_rows wgp_id (wgp_id r) (\<lambda>x. x\<lparr>wgp_tunnel_id := Some (wt_id t)\<rparr>) (wg_pool d1)\<rparr>"
    have "row_in t ?d2" using assms(3) d1(3) by (simp add: row_in_def find_tunnel_def)
    moreover have "give_tunnel_subnet env t d' w = commit_tunnel (\<lambda>x. x\<lparr>wt_pool_id := Some (wgp_id r), wt_cidr := wgp_cidr r,
        wt_gateway_ip := wgp_gateway_ip r, wt_tunnel_address := wgp_gateway_ip r @ ''/24''\<rparr>) t ?d2 w"
      unfolding give_tunnel_subnet_def if_not_P [OF False] Inr p sum.case prod.case ..
    ultimately show ?thesis using assms(1,2) d1(1,2) by (simp add: step_ok_commit same_tunnel_def)
  qed
qed

lemma add_server_ok:
  "fw_rules d' = fw_rules d \<Longrightarrow> networks d' = networks d \<Longrightarrow> row_in t d' \<Longrightarrow> step_ok d t (add_server env tn keys t d' w)"
  by (auto simp: add_server_def Let_def case_prod_beta same_tunnel_def split: sum.split
      intro!: step_ok_then step_ok_raise step_ok_commit)

lemma add_interface_ok:
  "fw_rules d' = fw_rules d \<Longrightarrow> networks d' = networks d \<Longrightarrow> row_in t d' \<Longrightarrow> step_ok d t (add_interface env tn t d' w)"
  by (auto simp: add_interface_def Let_def case_prod_beta same_tunnel_def intro!: step_ok_then step_ok_commit)

lemma add_interface_opt: "fst (add_interface env tn t d' w) = Inr t' \<Longrightarrow> wt_opt_interface t' \<noteq> None"
  by (auto simp: add_interface_def Let_def case_prod_beta then_do_def commit_tunnel_def split: sum.splits)

definition effective_ids :: "int list \<Rightarrow> wg_tunnel \<Rightarrow> int list" where
  "effective_ids ids t = (if ids \<noteq> [] then ids else case wt_allowed_network_ids t of None \<Rightarrow> [] | Some xs \<Rightarrow> xs)"

lemma described_cong: "fw_rules d' = fw_rules d \<Longrightarrow> described_rule tid x d' = described_rule tid x d"
  by (simp add: described_rule_def)

lemma granted_cong:
  assumes "same_tunnel t t'" "fw_rules d' = fw_rules d" "networks d' = networks d"
  shows "wan_granted tid t' d' r = wan_granted tid t d r"
    "net_granted tid t' opt d' n r = net_granted tid t opt d n r"
    "tunnel_networks tid (effective_ids ids t') d' = tunnel_networks tid (effective_ids ids t) d"
    "granted_rule tid t' opt (effective_ids ids t') d' r = granted_rule tid t opt (effective_ids ids t) d r"
  using assms described_cong [OF assms(2)]
  by (simp_all add: granted_rule_def wan_granted_def net_granted_def same_tunnel_def effective_ids_def tunnel_networks_def)

text \<open>The rules after all steps, in terms of those before; on success the tunnel's interface is in its row.\<close>

definition opens_only :: "int \<Rightarrow> wg_tunnel \<Rightarrow> int list \<Rightarrow> db \<Rightarrow> db \<Rightarrow> bool" where
  "opens_only tid t ids d d' \<longleftrightarrow>
     (\<exists>rs opt. fw_rules d' = fw_rules d @ rs \<and> (\<forall>r \<in> set rs. granted_rule tid t opt ids d r))"

definition opens_all :: "int \<Rightarrow> wg_tunnel \<Rightarrow> int list \<Rightarrow> db \<Rightarrow> db \<Rightarrow> bool" where
  "opens_all tid t ids d d' \<longleftrightarrow>
     (\<exists>t' opt rs. find_tunnel (wt_id t) (wt_tenant_id t) d' = Some t' \<and> wt_opt_interface t' = Some opt \<and>
        fw_rules d' = fw_rules d @ rs \<and> (\<forall>r \<in> set rs. granted_rule tid t opt ids d r) \<and>
        (described_rule tid (wan_desc (wt_name t)) d = None \<longrightarrow> (\<exists>r \<in> set rs. wan_granted tid t d r)) \<and>
        (\<forall>n \<in> tunnel_networks tid ids d. described_rule tid (rule_desc (wt_name t) (n_name n)) d = None \<longrightarrow>
           (\<exists>r \<in> set rs. net_granted tid t opt d n r)))"

text \<open>
  The lookup goes by the description alone, so a rule that has it stands in for the one the tunnel needs,
  whatever its state, interface and destination: the rules with that description stay those there were.
  A rule of a destroyed tunnel of the same name that still waits to be deleted keeps the network closed.
\<close>

lemma stale_rule_keeps_network_closed:
  assumes "opens_only tid t ids d d'" "described_rule tid x d = Some r0"
    and "r \<in> set (fw_rules d')" "fw_tenant_id r = tid" "fw_description r = Some x"
  shows "r \<in> set (fw_rules d)"
proof (rule ccontr)
  assume "r \<notin> set (fw_rules d)"
  moreover obtain rs opt where "fw_rules d' = fw_rules d @ rs" "\<forall>r \<in> set rs. granted_rule tid t opt ids d r"
    using assms(1) unfolding opens_only_def by (elim exE conjE) (rule that)
  ultimately have "granted_rule tid t opt ids d r" using assms(3) by simp
  then show False using assms(2,5) by (auto simp: granted_rule_def wan_granted_def net_granted_def)
qed

lemma add_rules_ok:
  assumes "fw_rules d' = fw_rules d" "networks d' = networks d" "same_tunnel t t'" "row_in t' d'"
  shows "opens_only (t_id tn) t (effective_ids ids t) d (fst (snd (add_rules tn ids t' d' w)))"
    and "wt_opt_interface t' \<noteq> None \<Longrightarrow> fst (add_rules tn ids t' d' w) = Inr t'' \<Longrightarrow>
      t'' = t' \<and> opens_all (t_id tn) t (effective_ids ids t) d (fst (snd (add_rules tn ids t' d' w)))"
proof -
  let ?e = "effective_ids ids t'" and ?opt = "show_opt id (wt_opt_interface t')"
  let ?d = "ensure_firewall_rules (t_id tn) t' ?opt ?e d'"
  obtain rs where rs: "fw_rules ?d = fw_rules d' @ rs"
    "\<forall>r \<in> set rs. granted_rule (t_id tn) t' ?opt ?e d' r"
    "described_rule (t_id tn) (wan_desc (wt_name t')) d' = None \<longrightarrow> (\<exists>r \<in> set rs. wan_granted (t_id tn) t' d' r)"
    "\<forall>n \<in> tunnel_networks (t_id tn) ?e d'. described_rule (t_id tn) (rule_desc (wt_name t') (n_name n)) d' = None \<longrightarrow>
        (\<exists>r \<in> set rs. net_granted (t_id tn) t' ?opt d' n r)"
    using ensure_rows [of "t_id tn" t' ?opt ?e d'] by (elim exE conjE) (rule that)
  have name: "wt_name t' = wt_name t" using assms(3) by (simp add: same_tunnel_def)
  note new = rs [unfolded granted_cong [OF assms(3,1,2)] described_cong [OF assms(1)] name assms(1)]
  have out: "add_rules tn ids t' d' w =
      (if \<not> distinct_keys fw_uuid (fw_rules ?d) then raise (IntegrityError ''opnsense_firewall_rules_uuid_key'') (d', w)
       else ok t' (send_task (ApplyFirewallRules (t_id tn)) ?d, w))"
    by (simp add: add_rules_def effective_ids_def Let_def)
  show "opens_only (t_id tn) t (effective_ids ids t) d (fst (snd (add_rules tn ids t' d' w)))"
    using new(1,2) assms(1) unfolding out opens_only_def by (auto simp: raise_def ok_def)
  show "t'' = t' \<and> opens_all (t_id tn) t (effective_ids ids t) d (fst (snd (add_rules tn ids t' d' w)))"
    if opt: "wt_opt_interface t' \<noteq> None" and fin: "fst (add_rules tn ids t' d' w) = Inr t''"
  proof -
    have eq: "add_rules tn ids t' d' w = ok t' (send_task (ApplyFirewallRules (t_id tn)) ?d, w)"
      using fin unfolding out by (auto simp: raise_def)
    obtain op where o: "wt_opt_interface t' = Some op" using opt by blast
    then have so: "?opt = op" by (simp add: show_opt_def)
    have "wg_tunnels ?d = wg_tunnels d'" by (rule ensure_tunnels)
    then have "find_tunnel (wt_id t) (wt_tenant_id t) (send_task (ApplyFirewallRules (t_id tn)) ?d) = Some t'"
      using assms(3,4) by (simp add: row_in_def find_tunnel_def same_tunnel_def)
    then have "opens_all (t_id tn) t (effective_ids ids t) d (send_task (ApplyFirewallRules (t_id tn)) ?d)"
      unfolding opens_all_def
      by (intro exI [of _ t'] exI [of _ op] exI [of _ rs] conjI) (use o new [unfolded so] so in simp_all)
    then show ?thesis using fin unfolding eq by (simp add: ok_def)
  qed
qed

definition opens_right :: "int \<Rightarrow> wg_tunnel \<Rightarrow> int list \<Rightarrow> db \<Rightarrow> 'w wg_step \<Rightarrow> bool" where
  "opens_right tid t ids d r \<longleftrightarrow> opens_only tid t ids d (fst (snd r)) \<and> (\<forall>t'. fst r = Inr t' \<longrightarrow> opens_all tid t ids d (fst (snd r)))"

lemma opens_same: "fw_rules d' = fw_rules d \<Longrightarrow> opens_only tid t ids d d'"
  by (simp add: opens_only_def exI [of _ "[]"])

lemma opens_stop: "fw_rules d' = fw_rules d \<Longrightarrow> opens_right tid t ids d (Inl e, d', w)"
  by (simp add: opens_right_def opens_same)

lemma opens_then:
  assumes r: "step_ok d u r" "same_tunnel t u"
    and k: "\<And>t1 d1 w1. same_tunnel t t1 \<Longrightarrow> fw_rules d1 = fw_rules d \<Longrightarrow> networks d1 = networks d \<Longrightarrow> row_in t1 d1 \<Longrightarrow>
      fst r = Inr t1 \<Longrightarrow> opens_right tid t ids d (k t1 (d1, w1))"
  shows "opens_right tid t ids d (then_do r k)"
proof -
  obtain x d1 w1 where rx: "r = (x, d1, w1)" by (metis surj_pair)
  have q: "fw_rules d1 = fw_rules d" "networks d1 = networks d" using r(1) rx by (simp_all add: step_ok_def quiet_def)
  show ?thesis
  proof (cases x)
    case (Inl e)
    then show ?thesis using opens_stop [OF q(1), of tid t ids e w1] rx by (simp add: then_do_def)
  next
    case (Inr t1)
    then have "same_tunnel t t1" "row_in t1 d1" using r rx by (auto simp: step_ok_def intro: same_tunnel_trans)
    from k [OF this(1) q this(2), of w1] Inr rx show ?thesis by (simp add: then_do_def)
  qed
qed

lemma opens_lift:
  assumes "fw_rules d1 = fw_rules d" "\<And>x w. opens_right tid t ids d (k x (d1, w))"
  shows "opens_right tid t ids d (then_do (lift_db d1 r) k)"
  using assms(2) opens_stop [OF assms(1)]
  by (cases r) (auto simp: then_do_def lift_db_def split: sum.split)

lemma activate_opens: "opens_all tid t ids d d5 \<Longrightarrow> opens_all tid t ids d (fst (snd (activate tn actor uname t5 d5 w6)))"
proof -
  assume "opens_all tid t ids d d5"
  then obtain t' opt rs where o: "find_tunnel (wt_id t) (wt_tenant_id t) d5 = Some t'" "wt_opt_interface t' = Some opt"
    "fw_rules d5 = fw_rules d @ rs" "\<forall>r \<in> set rs. granted_rule tid t opt ids d r"
    "described_rule tid (wan_desc (wt_name t)) d = None \<longrightarrow> (\<exists>r \<in> set rs. wan_granted tid t d r)"
    "\<forall>n \<in> tunnel_networks tid ids d. described_rule tid (rule_desc (wt_name t) (n_name n)) d = None \<longrightarrow>
           (\<exists>r \<in> set rs. net_granted tid t opt d n r)"
    unfolding opens_all_def by (elim exE conjE) (rule that)
  let ?f = "\<lambda>x. x\<lparr>wt_status := ''active''\<rparr>"
  let ?p = "\<lambda>x. wt_id x = wt_id t \<and> wt_tenant_id x = wt_tenant_id t"
  have fr: "first_row ?p (upd_rows wt_id k ?f rows) = map_option (\<lambda>x. if wt_id x = k then ?f x else x) (first_row ?p rows)" for rows k
    by (induction rows) (auto simp: upd_rows_def)
  have "\<exists>t''. find_tunnel (wt_id t) (wt_tenant_id t) (save_tunnel k ?f d5) = Some t'' \<and> wt_opt_interface t'' = Some opt" for k
  proof -
    have "find_tunnel (wt_id t) (wt_tenant_id t) (save_tunnel k ?f d5) = Some (if wt_id t' = k then ?f t' else t')"
      using o(1) unfolding find_tunnel_def save_tunnel_frame fr by simp
    then show ?thesis using o(2) by simp
  qed
  then obtain t'' where t'': "find_tunnel (wt_id t) (wt_tenant_id t) (fst (snd (activate tn actor uname t5 d5 w6))) = Some t''"
    "wt_opt_interface t'' = Some opt"
    unfolding activate_def by (auto simp: find_tunnel_def ok_def)
  have "fw_rules (fst (snd (activate tn actor uname t5 d5 w6))) = fw_rules d @ rs"
    using o(3) by (simp add: activate_def ok_def)
  with t'' o(4,5,6) show ?thesis
    unfolding opens_all_def by (intro exI [of _ t''] exI [of _ opt] exI [of _ rs] conjI)
qed

lemma rules_step_opens:
  assumes "fw_rules d4 = fw_rules d" "networks d4 = networks d" "same_tunnel t t4" "row_in t4 d4" "wt_opt_interface t4 \<noteq> None"
  shows "opens_right (t_id tn) t (effective_ids ids t) d (then_do (add_rules tn ids t4 d4 w5) (\<lambda>t5 (d5, w6). activate tn actor uname t5 d5 w6))"
proof -
  let ?good = "opens_right (t_id tn) t (effective_ids ids t) d"
  obtain x d5 w6 where r: "add_rules tn ids t4 d4 w5 = (x, d5, w6)" by (metis surj_pair)
  have only: "opens_only (t_id tn) t (effective_ids ids t) d d5"
    using add_rules_ok(1) [OF assms(1,2,3,4), of tn ids w5] r by simp
  show ?thesis
  proof (cases x)
    case (Inl e)
    then show ?thesis using only r by (simp add: then_do_def opens_right_def)
  next
    case (Inr t5)
    then have "opens_all (t_id tn) t (effective_ids ids t) d d5"
      using add_rules_ok(2) [OF assms(1,2,3,4,5), of tn ids w5 t5] r by simp
    from activate_opens [OF this] have "opens_all (t_id tn) t (effective_ids ids t) d (fst (snd (activate tn actor uname t5 d5 w6)))" .
    moreover have "opens_only (t_id tn) t (effective_ids ids t) d (fst (snd (activate tn actor uname t5 d5 w6)))"
      using only by (simp add: opens_only_def activate_def ok_def)
    ultimately show ?thesis using Inr r by (simp add: then_do_def opens_right_def)
  qed
qed

lemma provision_steps_rules:
  assumes "row_in t d"
  shows "opens_right (t_id tn) t (effective_ids ids t) d (provision_steps env tn ids actor uname t d w)"
proof -
  let ?good = "opens_right (t_id tn) t (effective_ids ids t) d"
  have s4: "?good (then_do (add_interface env tn t3 d3 w4) (\<lambda>t4 (d4, w5).
       then_do (add_rules tn ids t4 d4 w5) (\<lambda>t5 (d5, w6). activate tn actor uname t5 d5 w6)))"
    if "same_tunnel t t3" "fw_rules d3 = fw_rules d" "networks d3 = networks d" "row_in t3 d3" for t3 d3 w4
    by (rule opens_then [OF add_interface_ok [OF that(2,3,4)] that(1)]) (simp add: rules_step_opens add_interface_opt)
  have s3: "?good (then_do (add_server env tn keys t2 d2 w3) (\<lambda>t3 (d3, w4).
       then_do (add_interface env tn t3 d3 w4) (\<lambda>t4 (d4, w5).
       then_do (add_rules tn ids t4 d4 w5) (\<lambda>t5 (d5, w6). activate tn actor uname t5 d5 w6))))"
    if "same_tunnel t t2" "fw_rules d2 = fw_rules d" "networks d2 = networks d" "row_in t2 d2" for keys t2 d2 w3
    by (rule opens_then [OF add_server_ok [OF that(2,3,4)] that(1)]) (simp add: s4)
  have s2: "?good (then_do (give_tunnel_subnet env t1 d1 w2) (\<lambda>t2 (d2, w3).
       then_do (add_server env tn keys t2 d2 w3) (\<lambda>t3 (d3, w4).
       then_do (add_interface env tn t3 d3 w4) (\<lambda>t4 (d4, w5).
       then_do (add_rules tn ids t4 d4 w5) (\<lambda>t5 (d5, w6). activate tn actor uname t5 d5 w6)))))"
    if "same_tunnel t t1" "fw_rules d1 = fw_rules d" "networks d1 = networks d" "row_in t1 d1" for keys t1 d1 w2
    by (rule opens_then [OF give_tunnel_subnet_ok [OF that(2,3,4)] that(1)]) (simp add: s3)
  have first: "step_ok d t (commit_tunnel (\<lambda>x. x\<lparr>wt_status := ''provisioning'', wt_error := None\<rparr>) t d w)"
    using assms by (intro step_ok_commit) (simp_all add: same_tunnel_def)
  show ?thesis
    unfolding provision_steps_def
    by (rule opens_then [OF first]) (simp_all add: opens_lift s2)
qed



definition sample_answer :: string where
  "sample_answer = json_dump '','' '':'' (JObj [(''privkey'', JStr ''k''), (''pubkey'', JStr ''p''), (''result'', JStr ''saved''),
     (''uuid'', JStr ''s1''), (''rows'', JArr [JObj [(''uuid'', JStr ''s1''), (''interface'', JStr ''wg0''), (''pubkey'', JStr ''p'')]])])"

definition sample_env :: "unit wg_env" where
  "sample_env = \<lparr>we_run = (\<lambda>vm cmd. ok \<lparr>xr_out = sample_answer, xr_err = '''', xr_exitcode = 0\<rparr>),
     we_names = (\<lambda>vm. ok [''wan'', ''lan'', ''opt1'']), we_add_opt = (\<lambda>vm nm dev ip descr. ok ()), we_reload = (\<lambda>vm. ok ()),
     we_encrypt = id, we_psk = ''psk'', we_now = 0\<rparr>"

definition sample_wg_db :: db where
  "sample_wg_db = empty_db\<lparr>tenants := [(new_tenant 1 ''a'' ''a'')\<lparr>t_opnsense_vm_id := Some 9, t_opnsense_api_key := Some ''k'',
       t_opnsense_api_secret := Some ''s'', t_wan_ip := Some ''192.0.2.1''\<rparr>],
     networks := [\<lparr>n_id = 4, n_tenant_id = 1, n_pod_id = 1, n_ip_pool_id = Some 1, n_cidr = ''10.0.4.0/24'', n_gateway_ip = ''10.0.4.1'',
       n_vlan_id = Some 4, n_name = ''web'', n_is_default = False, n_status = ''active'', n_provider_ref = None, n_opnsense_interface = None\<rparr>],
     wg_tunnels := [sample_tunnel\<lparr>wt_status := ''pending'', wt_opnsense_server_uuid := None, wt_endpoint := None, wt_opt_interface := None,
       wt_allowed_network_ids := Some [4]\<rparr>]\<rparr>"

definition sample_json :: json where
  "sample_json = JObj [(''privkey'', JStr ''k''), (''pubkey'', JStr ''p''), (''result'', JStr ''saved''), (''uuid'', JStr ''s1''),
     (''rows'', JArr [JObj [(''uuid'', JStr ''s1''), (''interface'', JStr ''wg0''), (''pubkey'', JStr ''p'')]])]"

lemma sample_parse: "strip sample_answer = sample_answer" "sample_answer \<noteq> []" "loads sample_answer = Some sample_json"
  by code_simp+

definition sample_tenant :: tenant where
  "sample_tenant = (new_tenant 1 ''a'' ''a'')\<lparr>t_opnsense_vm_id := Some 9, t_opnsense_api_key := Some ''k'',
       t_opnsense_api_secret := Some ''s'', t_wan_ip := Some ''192.0.2.1''\<rparr>"

lemma sample_exec: "fw_exec (we_run sample_env) sample_tenant m p body w = ok sample_json w"
  using sample_parse
  by (simp add: fw_exec_def exec_opnsense_api_def sample_env_def sample_tenant_def then_do_def ok_def api_answer_def Let_def)

lemma sample_calls:
  "generate_keypair (we_run sample_env) sample_tenant w = ok (''k'', ''p'') w"
  "add_wg_server (we_run sample_env) sample_tenant nm pub priv port addr mtu w = ok ''s1'' w"
  "set_wg_server_endpoint (we_run sample_env) sample_tenant u ep w = ok sample_json w"
  "wg_general_enable (we_run sample_env) sample_tenant b w = ok sample_json w"
  "wg_service_reconfigure (we_run sample_env) sample_tenant w = ok sample_json w"
  "get_wg_device_name (we_run sample_env) sample_tenant ''s1'' w = ok ''wg0'' w"
  by (simp_all add: generate_keypair_def add_wg_server_def set_wg_server_endpoint_def wg_general_enable_def wg_service_reconfigure_def
      get_wg_device_name_def wg_exec_def sample_exec as_dict_def dict_of_def then_do_def ok_def sample_json_def saved_uuid_def
      jstr_def json_get_def member_def rule_rows_def json_has_def iter_rows_def)

text \<open>The steps of a run that meets no error, for a tunnel that has its subnet.\<close>

lemma sample_server:
  "\<exists>t' d'. add_server sample_env sample_tenant (''k'', ''p'') t d w = ok t' (d', w) \<and> wt_opnsense_server_uuid t' = Some ''s1''"
proof -
  have "truthy (t_wan_ip sample_tenant)" by code_simp
  then show ?thesis
    by (cases "truthy (wt_endpoint t)")
      (simp_all add: add_server_def Let_def sample_calls then_do_def lift_db_def commit_tunnel_def tunnel_endpoint_def ok_def)
qed

lemma sample_interface:
  "wt_opnsense_server_uuid t = Some ''s1'' \<Longrightarrow> \<exists>t' d'. add_interface sample_env sample_tenant t d w = ok t' (d', w)"
proof -
  have "we_names sample_env vm w = ok [''wan'', ''lan'', ''opt1''] w" "we_add_opt sample_env vm nm dev ip descr w = ok () w"
    "we_reload sample_env vm w = ok () w" for vm nm dev ip descr by (simp_all add: sample_env_def)
  then show "wt_opnsense_server_uuid t = Some ''s1'' \<Longrightarrow> ?thesis"
    by (simp add: add_interface_def Let_def sample_calls then_do_def lift_db_def commit_tunnel_def show_opt_def ok_def)
qed

lemma sample_rules:
  assumes "fw_rules d = []" "length (allowed_networks (t_id tn) (effective_ids ids t) d) \<le> 1"
  shows "\<exists>d'. add_rules tn ids t d w = ok t (d', w)"
proof -
  have none: "described_rule tid x d = None" for tid x using assms(1) by (simp add: described_rule_None)
  let ?ns = "if effective_ids ids t = [] then [] else allowed_networks (t_id tn) (effective_ids ids t) d"
  have "?ns = [] \<or> (\<exists>n. ?ns = [n])" using assms(2) by (cases "allowed_networks (t_id tn) (effective_ids ids t) d") auto
  then have "distinct_keys fw_uuid (fw_rules (ensure_firewall_rules (t_id tn) t opt (effective_ids ids t) d))" for opt
    unfolding ensure_firewall_rules_def
    by (elim disjE exE) (simp_all add: none assms(1) add_rule_row_def access_rule_def wan_rule_def wg_rule_uuid_def distinct_keys_def)
  then show ?thesis by (simp add: add_rules_def effective_ids_def [symmetric] Let_def ok_def)
qed

lemma lift_ok: "lift_db d (ok x w) = ok x (d, w)"
  by (simp add: lift_db_def ok_def)


section \<open>Taking a tunnel down\<close>

definition literal_pattern :: "string \<Rightarrow> bool" where
  "literal_pattern s \<longleftrightarrow> list_all (\<lambda>c. c \<notin> {CHR ''%'', CHR ''_'', backslash_char}) s"

lemma like_percent: "like ''%'' s"
  by (induction s) simp_all

lemma like_prefix: "literal_pattern p \<Longrightarrow> like (p @ ''%'') (p @ s)"
  by (induction p) (simp_all add: literal_pattern_def like_percent del: like.simps(2), simp_all)

lemma drop_rule_rows: "x \<in> set (fw_rules (drop_rule r d)) \<Longrightarrow> x \<in> set (fw_rules d) \<or> fw_apply_status x = ''pending_delete''"
  by (auto simp: drop_rule_def set_upd_rows set_del_rows split: if_splits)

lemma drop_rule_gone:
  assumes "fw_apply_status r \<noteq> ''pending_delete''"
  shows "r \<notin> set (fw_rules (drop_rule r d))"
proof
  assume r: "r \<in> set (fw_rules (drop_rule r d))"
  show False
  proof (cases "fw_apply_status r = ''synced''")
    case True
    then have "r \<in> (\<lambda>y. if fw_id y = fw_id r then y\<lparr>fw_apply_status := ''pending_delete''\<rparr> else y) ` set (fw_rules d)"
      using r by (simp add: drop_rule_def upd_rows_def)
    then obtain y where y: "r = (if fw_id y = fw_id r then y\<lparr>fw_apply_status := ''pending_delete''\<rparr> else y)" by (elim imageE)
    have "fw_id y = fw_id r"
    proof (rule ccontr)
      assume ne: "fw_id y \<noteq> fw_id r"
      with y have "r = y" by (simp only: if_False)
      with ne show False by (simp only:)
    qed
    with y have "r = y\<lparr>fw_apply_status := ''pending_delete''\<rparr>" by (simp only: if_True simp_thms)
    then have "fw_apply_status r = ''pending_delete''" by (rule ssubst) simp
    with assms show False by simp
  next
    case False
    then show False using r by (simp add: drop_rule_def set_del_rows)
  qed
qed

lemma drop_rules_gone:
  assumes "r \<in> set rs" "fw_apply_status r \<noteq> ''pending_delete''" "distinct_keys fw_id (fw_rules d)"
  shows "r \<notin> set (fw_rules (fold drop_rule rs d))"
  using assms
proof (induction rs arbitrary: d)
  case (Cons x rs)
  have dk: "distinct_keys fw_id (fw_rules (drop_rule x d))"
    using Cons.prems(3) by (simp add: drop_rule_def distinct_keys_upd_rows distinct_keys_del_rows)
  have keep: "y \<notin> set (fw_rules (fold drop_rule zs e))" if "y \<notin> set (fw_rules e)" "fw_apply_status y \<noteq> ''pending_delete''" for y zs e
    using that
  proof (induction zs arbitrary: e)
    case (Cons z zs)
    have "y \<notin> set (fw_rules (drop_rule z e))" using drop_rule_rows [of y z e] Cons.prems by blast
    then show ?case using Cons.IH Cons.prems(2) by simp
  qed simp
  show ?case
  proof (cases "r = x")
    case True
    have "r \<notin> set (fw_rules (drop_rule r d))" using Cons.prems(2) by (rule drop_rule_gone)
    with True keep Cons.prems(2) show ?thesis by simp
  next
    case False
    then show ?thesis using Cons dk by simp
  qed
qed simp

lemma release_subnet_frame [row_simps, simp]:
  "fw_rules (release_tunnel_subnet k d) = fw_rules d" "wg_tunnels (release_tunnel_subnet k d) = wg_tunnels d"
  by (simp_all add: release_tunnel_subnet_def)

text \<open>The database after a tunnel was found and destroyed.\<close>

lemma destroy_task_db:
  assumes "task_tenant tid d = Some tn" "find_tunnel i tid d = Some t"
    and "destroy_wireguard_tunnel_task env tid i actor uname (d, w) = (reply, d', w')"
  shows "\<exists>d2. (if truthy_id (wt_pool_id t) then d2 = release_tunnel_subnet (the (wt_pool_id t)) (save_tunnel i (\<lambda>x. x\<lparr>wt_status := ''destroying''\<rparr>) d)
      else d2 = save_tunnel i (\<lambda>x. x\<lparr>wt_status := ''destroying''\<rparr>) d) \<and>
    fw_rules d' = fw_rules (fold drop_rule (tunnel_rules tid (wt_name t) d2) d2) \<and>
    wg_pool d' = wg_pool d2 \<and> wg_tunnels d' = del_rows wt_id i (wg_tunnels d2) \<and> wg_peers d' = filter (\<lambda>p. wp_tunnel_id p \<noteq> i) (wg_peers d) \<and> fw_rules d2 = fw_rules d"
proof -
  let ?d1 = "save_tunnel i (\<lambda>x. x\<lparr>wt_status := ''destroying''\<rparr>) d"
  let ?d2 = "if truthy_id (wt_pool_id t) then release_tunnel_subnet (the (wt_pool_id t)) ?d1 else ?d1"
  have frame: "wg_pool (fold drop_rule rs x) = wg_pool x \<and> wg_tunnels (fold drop_rule rs x) = wg_tunnels x \<and> wg_peers (fold drop_rule rs x) = wg_peers x" for rs x
    by (induction rs arbitrary: x) (simp_all add: drop_rule_def)
  have "d' = log_audit_event (wg_event ''WIREGUARD_TUNNEL_DELETE'' ''wireguard_tunnel'' actor uname i (wt_name t) tid) None
      (delete_tunnel_row i (fold drop_rule (tunnel_rules tid (wt_name t) ?d2) ?d2))"
    using assms by (simp add: destroy_wireguard_tunnel_task_def Let_def)
  moreover have "wg_peers ?d2 = wg_peers d" "fw_rules ?d2 = fw_rules d" by (simp_all add: release_tunnel_subnet_def save_tunnel_def)
  ultimately show ?thesis using frame by (intro exI [of _ ?d2]) (simp add: delete_tunnel_row_def)
qed


lemma find_tunnel_Some: "find_tunnel i tid d = Some t \<Longrightarrow> t \<in> set (wg_tunnels d) \<and> wt_id t = i \<and> wt_tenant_id t = tid"
  by (auto simp: find_tunnel_def dest: first_row_Some)

text \<open>
  Destroying a tunnel leaves no row of it or of its peers, and its subnet is free again.
\<close>

theorem destroyed_tunnel_returns_subnet:
  assumes "find_tunnel i tid d = Some t" "task_tenant tid d \<noteq> None"
    and "destroy_wireguard_tunnel_task env tid i actor uname (d, w) = (reply, d', w')"
  shows "reply = Reply [(''status'', JStr ''success''), (''tunnel_id'', JInt i)] \<and>
    i \<notin> set (map wt_id (wg_tunnels d')) \<and> i \<notin> set (map wp_tunnel_id (wg_peers d')) \<and>
    (\<forall>k. wt_pool_id t = Some k \<and> k \<noteq> 0 \<and> k \<in> wg_ids d \<longrightarrow> k \<in> free_wg_ids d') \<and>
    free_wg_ids d \<subseteq> free_wg_ids d'"
proof -
  obtain tn where tn: "task_tenant tid d = Some tn" using assms(2) by auto
  from destroy_task_db [OF tn assms(1,3)]
  obtain d2 where d2: "if truthy_id (wt_pool_id t) then d2 = release_tunnel_subnet (the (wt_pool_id t)) (save_tunnel i (\<lambda>x. x\<lparr>wt_status := ''destroying''\<rparr>) d)
      else d2 = save_tunnel i (\<lambda>x. x\<lparr>wt_status := ''destroying''\<rparr>) d"
    "wg_pool d' = wg_pool d2" "wg_tunnels d' = del_rows wt_id i (wg_tunnels d2)" "wg_peers d' = filter (\<lambda>p. wp_tunnel_id p \<noteq> i) (wg_peers d)"
    by blast
  have "reply = Reply [(''status'', JStr ''success''), (''tunnel_id'', JInt i)]"
    using assms(1,3) tn by (simp add: destroy_wireguard_tunnel_task_def Let_def)
  moreover have "i \<notin> set (map wt_id (wg_tunnels d'))" by (auto simp: d2(3) set_del_rows)
  moreover have "i \<notin> set (map wp_tunnel_id (wg_peers d'))" by (auto simp: d2(4))
  moreover have "k \<in> free_wg_ids d'" if k: "wt_pool_id t = Some k" "k \<noteq> 0" "k \<in> wg_ids d" for k
  proof -
    obtain r where r: "r \<in> set (wg_pool d)" "wgp_id r = k" using k(3) by (auto simp: wg_ids_def)
    have pool: "wg_pool d' = upd_rows wgp_id k give_wg_subnet (wg_pool d)"
      using d2(1,2) k by (simp add: truthy_id_def release_tunnel_subnet_def)
    have "give_wg_subnet r \<in> set (wg_pool d')" unfolding pool by (rule upd_rows_hit) (use r in simp_all)
    then show ?thesis unfolding free_wg_ids_def
      by (intro image_eqI [of _ _ "give_wg_subnet r"]) (simp_all add: give_wg_subnet_def r)
  qed
  moreover have "free_wg_ids d \<subseteq> free_wg_ids d'"
  proof
    fix k
    assume "k \<in> free_wg_ids d"
    then obtain r where r: "r \<in> set (wg_pool d)" "wgp_status r = ''free''" "k = wgp_id r" by (auto simp: free_wg_ids_def)
    have "\<exists>r' \<in> set (wg_pool d'). wgp_status r' = ''free'' \<and> wgp_id r' = k"
    proof (cases "truthy_id (wt_pool_id t)")
      case False
      then show ?thesis using d2(1,2) r by auto
    next
      case True
      then have pool: "wg_pool d' = upd_rows wgp_id (the (wt_pool_id t)) give_wg_subnet (wg_pool d)"
        using d2(1,2) by (simp add: release_tunnel_subnet_def)
      show ?thesis
      proof (cases "wgp_id r = the (wt_pool_id t)")
        case True
        then have "give_wg_subnet r \<in> set (wg_pool d')" unfolding pool by (intro upd_rows_hit) (use r in simp_all)
        then show ?thesis by (rule rev_bexI) (simp add: give_wg_subnet_def r(3))
      next
        case False
        then have "r \<in> set (wg_pool d')" unfolding pool by (intro upd_rows_other) (use r in simp_all)
        then show ?thesis using r(2,3) by auto
      qed
    qed
    then show "k \<in> free_wg_ids d'" by (auto simp: free_wg_ids_def)
  qed
  ultimately show ?thesis by blast
qed

lemma destroyed_tunnel_returns_subnet_witness:
  "\<exists>d reply d' w'. destroy_wireguard_tunnel_task sample_env 1 1 None ''system'' (d, ()) = (reply, d', w') \<and>
     map wt_id (wg_tunnels d) = [1] \<and> 1 \<notin> free_wg_ids d \<and> 1 \<notin> set (map wt_id (wg_tunnels d')) \<and> 1 \<in> free_wg_ids d'"
proof -
  let ?row = "\<lparr>wgp_id = 1, wgp_cidr = ''10.200.0.0/24'', wgp_gateway_ip = ''10.200.0.1'', wgp_status = ''allocated'',
    wgp_tunnel_id = Some 1, wgp_allocated_at = Some 0\<rparr>"
  let ?d = "sample_wg_db\<lparr>wg_pool := [?row], wg_tunnels := [sample_tunnel]\<rparr>"
  have at: "find_tunnel 1 1 ?d = Some sample_tunnel" "task_tenant 1 ?d = Some sample_tenant" "wt_pool_id sample_tunnel = Some 1"
    "map wt_id (wg_tunnels ?d) = [1]"
    by code_simp+
  have ids: "1 \<in> wg_ids ?d" "1 \<notin> free_wg_ids ?d" by (auto simp: wg_ids_def free_wg_ids_def)
  obtain reply d' w' where run: "destroy_wireguard_tunnel_task sample_env 1 1 None ''system'' (?d, ()) = (reply, d', w')"
    by (metis surj_pair)
  have "task_tenant 1 ?d \<noteq> None" using at(2) by simp
  from destroyed_tunnel_returns_subnet [OF at(1) this run] at(3) ids(1)
  have "1 \<notin> set (map wt_id (wg_tunnels d'))" "1 \<in> free_wg_ids d'" by auto
  with run at(4) ids(2) show ?thesis by (intro exI conjI)
qed

text \<open>
  Destroying a tunnel also takes the rules of every other tunnel of the tenant whose name begins
  with its name: the rules are found by a prefix of their description.
\<close>

theorem destroy_takes_longer_names:
  assumes "find_tunnel i tid d = Some t" "task_tenant tid d \<noteq> None" "literal_pattern (wt_name t)"
    and "r \<in> set (fw_rules d)" "fw_tenant_id r = tid" "fw_description r = Some (rule_desc (wt_name t @ suffix) net)"
    and "fw_apply_status r \<noteq> ''pending_delete''" "distinct_keys fw_id (fw_rules d)"
    and "destroy_wireguard_tunnel_task env tid i actor uname (d, w) = (reply, d', w')"
  shows "r \<notin> set (fw_rules d')"
proof -
  obtain tn where tn: "task_tenant tid d = Some tn" using assms(2) by auto
  from destroy_task_db [OF tn assms(1,9)] obtain d2 where d2: "fw_rules d2 = fw_rules d"
    "fw_rules d' = fw_rules (fold drop_rule (tunnel_rules tid (wt_name t) d2) d2)"
    by blast
  have "literal_pattern ''WireGuard ''" by code_simp
  then have "literal_pattern (''WireGuard '' @ wt_name t)" using assms(3) by (simp add: literal_pattern_def)
  from like_prefix [OF this, of "suffix @ '' -> '' @ net"]
  have "r \<in> set (tunnel_rules tid (wt_name t) d2)"
    using assms(4-6) d2(1) by (simp add: tunnel_rules_def rule_desc_def)
  then show ?thesis unfolding d2(2) using assms(7,8) d2(1) by (intro drop_rules_gone) simp_all
qed

text \<open>
  A tunnel whose server was created but could not be given its endpoint is forgotten: the firewall
  keeps the server, but no tunnel row gets to know its identifier, so that nothing can delete it and the
  next attempt creates another one.
\<close>

theorem failed_endpoint_leaks_server:
  assumes "add_wg_server (we_run env) tn (wt_name t) (snd keys) (fst keys)
      (if wt_listen_port t \<noteq> 0 then wt_listen_port t else free_port (used_ports (t_id tn) d) DEFAULT_LISTEN_PORT)
      (wt_tunnel_address t) (if wt_mtu t \<noteq> 0 then wt_mtu t else 1420) w = ok uuid w1"
    and "truthy (wt_endpoint t)" "set_wg_server_endpoint (we_run env) tn uuid (the (wt_endpoint t)) w1 = raise e w2"
  shows "add_server env tn keys t d w = raise e (d, w2)"
  using assms by (cases keys) (simp add: add_server_def lift_db_def tunnel_endpoint_def ok_def raise_def then_do_def Let_def)

end
