(* ===== verification/Rate_Limit.thy ===== *)
theory Rate_Limit
  imports Tenant_Context Token_Blacklist
begin

text \<open>
  The request limiter (\<open>app/core/rate_limit.py\<close>): the sliding window in memory, the one in Redis, and
  the check the handlers call.

  A call reads the clock once (\<open>rl_now\<close>, in seconds). Redis is a map from keys to sorted sets with the
  time they expire; a member is the text of its own score, so that two requests at the same instant are
  one member. Whether a client object can be made and whether the server answers during the call are
  parts of the environment.
\<close>

section \<open>The window in memory\<close>

type_synonym windows = "string \<Rightarrow> rat list"

definition cleanup_old_requests :: "string \<Rightarrow> int \<Rightarrow> rat \<Rightarrow> windows \<Rightarrow> windows" where
  "cleanup_old_requests key period now m = m(key := filter (\<lambda>t. now - of_int period < t) (m key))"

definition retry_after :: "int \<Rightarrow> rat \<Rightarrow> rat \<Rightarrow> int" where
  "retry_after period now oldest = max 1 (trunc (of_int period - (now - oldest)) + 1)"

definition memory_is_allowed :: "string \<Rightarrow> int \<Rightarrow> int \<Rightarrow> rat \<Rightarrow> windows \<Rightarrow> (bool \<times> int, windows) result" where
  "memory_is_allowed key max_requests period now m =
     (let m1 = cleanup_old_requests key period now m;
          n = int (length (m1 key))
      in if max_requests \<le> n
         then (case m1 key of
             [] \<Rightarrow> raise (OtherError ''list index out of range'') m1
           | t # ts \<Rightarrow> ok (False, retry_after period now t) m1)
         else ok (True, max_requests - n - 1) (m1(key := m1 key @ [now])))"

definition memory_get_remaining :: "string \<Rightarrow> int \<Rightarrow> int \<Rightarrow> rat \<Rightarrow> windows \<Rightarrow> int \<times> windows" where
  "memory_get_remaining key max_requests period now m =
     (let m1 = cleanup_old_requests key period now m in (max 0 (max_requests - int (length (m1 key))), m1))"

definition memory_reset :: "windows \<Rightarrow> windows" where
  "memory_reset m = (\<lambda>_. [])"

section \<open>The window in Redis\<close>

record zset =
  zs_scores :: "rat list"
  zs_expires :: rat

record rl_env =
  rl_now :: rat
  rl_client :: bool
  rl_up :: bool
  rl_testing :: bool
  rl_fail_closed :: bool

record rl_state =
  rl_mem :: windows
  rl_redis :: "string \<Rightarrow> zset option"

definition window_key :: "string \<Rightarrow> string" where
  "window_key key = ''ratelimit:'' @ key"

definition scores_at :: "rat \<Rightarrow> string \<Rightarrow> rl_state \<Rightarrow> rat list" where
  "scores_at now k s = (case rl_redis s k of None \<Rightarrow> [] | Some z \<Rightarrow> (if now < zs_expires z then zs_scores z else []))"

text \<open>\<open>zremrangebyscore key 0 limit\<close>, \<open>zadd\<close> and the least score.\<close>

definition zrem_upto :: "rat \<Rightarrow> rat list \<Rightarrow> rat list" where
  "zrem_upto limit xs = filter (\<lambda>t. \<not> (0 \<le> t \<and> t \<le> limit)) xs"

definition zadd :: "rat \<Rightarrow> rat list \<Rightarrow> rat list" where
  "zadd t xs = (if t \<in> set xs then xs else insort t xs)"

definition redis_is_allowed :: "rl_env \<Rightarrow> string \<Rightarrow> int \<Rightarrow> int \<Rightarrow> rl_state \<Rightarrow> (bool \<times> int) \<times> rl_state" where
  "redis_is_allowed env key max_requests period s =
     (let now = rl_now env; k = window_key key;
          before = zrem_upto (now - of_int period) (scores_at now k s);
          after = zadd now before;
          s1 = s\<lparr>rl_redis := (rl_redis s)(k \<mapsto> \<lparr>zs_scores = after, zs_expires = now + of_int period\<rparr>)\<rparr>
      in (if max_requests \<le> int (length before)
          then (False, case scores_at now k s1 of [] \<Rightarrow> period | t # ts \<Rightarrow> retry_after period now t)
          else (True, max_requests - int (length before) - 1), s1))"

definition limiter_unavailable :: "string \<Rightarrow> py_exc" where
  "limiter_unavailable what = HTTPException 503 (''Rate limiting service '' @ what @ ''. Please try again later.'')"

definition on_fallback :: "(windows \<Rightarrow> ('a, windows) result) \<Rightarrow> rl_state \<Rightarrow> ('a, rl_state) result" where
  "on_fallback f s = (let (x, m) = f (rl_mem s) in (x, s\<lparr>rl_mem := m\<rparr>))"

definition limiter_is_allowed :: "rl_env \<Rightarrow> string \<Rightarrow> int \<Rightarrow> int \<Rightarrow> rl_state \<Rightarrow> (bool \<times> int, rl_state) result" where
  "limiter_is_allowed env key max_requests period s =
     (let fallback = on_fallback (memory_is_allowed key max_requests period (rl_now env)) s;
          closed = rl_fail_closed env \<and> \<not> rl_testing env
      in if \<not> rl_client env then (if closed then raise (limiter_unavailable ''unavailable'') s else fallback)
         else if rl_up env then (let (x, s1) = redis_is_allowed env key max_requests period s in ok x s1)
         else if closed then raise (limiter_unavailable ''error'') s
         else fallback)"

definition limiter_get_remaining :: "rl_env \<Rightarrow> string \<Rightarrow> int \<Rightarrow> int \<Rightarrow> rl_state \<Rightarrow> int \<times> rl_state" where
  "limiter_get_remaining env key max_requests period s =
     (if rl_client env \<and> rl_up env
      then (let k = window_key key; now = rl_now env;
                left = zrem_upto (now - of_int period) (scores_at now k s)
            in (max 0 (max_requests - int (length left)),
                s\<lparr>rl_redis := (rl_redis s)(k := map_option (\<lambda>z. z\<lparr>zs_scores := left\<rparr>) (rl_redis s k))\<rparr>))
      else (let (n, m) = memory_get_remaining key max_requests period (rl_now env) (rl_mem s) in (n, s\<lparr>rl_mem := m\<rparr>)))"

definition limiter_reset :: "rl_state \<Rightarrow> rl_state" where
  "limiter_reset s = s\<lparr>rl_mem := memory_reset (rl_mem s)\<rparr>"

section \<open>The check of the handlers\<close>

record rl_settings =
  rs_enabled :: bool
  rs_broker_url :: "string option"
  rs_requests :: int
  rs_period :: int
  rs_admin_requests :: int
  rs_admin_period :: int

definition create_rate_limiter :: "rl_settings \<Rightarrow> bool \<Rightarrow> bool" where
  "create_rate_limiter cfg testing =
     (\<not> testing \<and> truthy (rs_broker_url cfg) \<and> starts_with (the (rs_broker_url cfg)) ''redis://'')"

definition admin_endpoints :: "string list" where
  "admin_endpoints = [''admin_audit'', ''admin_fix'', ''admin_reconcile'', ''admin_status_override'', ''admin_users'']"

definition intensive_endpoints :: "string list" where
  "intensive_endpoints = [''vm_logs'', ''vm_create'', ''network_create'']"

definition limits_of :: "rl_settings \<Rightarrow> string \<Rightarrow> int \<times> int" where
  "limits_of cfg endpoint =
     (if endpoint \<in> set admin_endpoints then (rs_admin_requests cfg, rs_admin_period cfg)
      else if endpoint \<in> set intensive_endpoints then (max 1 (rs_requests cfg div 2), rs_period cfg)
      else (rs_requests cfg, rs_period cfg))"

definition limit_key :: "request \<Rightarrow> string \<Rightarrow> string" where
  "limit_key req endpoint = endpoint @ '':'' @ show_opt id (get_client_ip req)"

definition check_rate_limit :: "rl_settings \<Rightarrow> rl_env \<Rightarrow> request \<Rightarrow> string \<Rightarrow> rl_state \<Rightarrow> (unit, rl_state) result" where
  "check_rate_limit cfg env req endpoint s =
     (if \<not> rs_enabled cfg \<or> rl_testing env then ok () s
      else let (n, period) = limits_of cfg endpoint; key = limit_key req endpoint
           in then_do (if create_rate_limiter cfg (rl_testing env) then limiter_is_allowed env key n period s
                       else on_fallback (memory_is_allowed key n period (rl_now env)) s)
                (\<lambda>(allowed, wait) s1.
                   if allowed then ok () s1
                   else http 429 (''Rate limit exceeded. Try again in '' @ show_int wait @ '' seconds.'') s1))"

definition check_admin_rate_limit :: "rl_settings \<Rightarrow> rl_env \<Rightarrow> request \<Rightarrow> string \<Rightarrow> rl_state \<Rightarrow> (unit, rl_state) result" where
  "check_admin_rate_limit cfg env req endpoint s = check_rate_limit cfg env req (''admin_'' @ endpoint) s"

section \<open>The window counts what was let in\<close>

text \<open>
  A sequence of calls for one limit, with the answer of each; and the answers a full history gives: a
  call is let in when fewer than \<open>n\<close> calls with its key were let in within the period before it.
\<close>

fun memory_serve :: "int \<Rightarrow> int \<Rightarrow> (string \<times> rat) list \<Rightarrow> windows \<Rightarrow> bool list" where
  "memory_serve n period [] m = []"
| "memory_serve n period ((k, t) # cs) m =
     (case memory_is_allowed k n period t m of
        (Inr (a, w), m') \<Rightarrow> a # memory_serve n period cs m'
      | (Inl e, m') \<Rightarrow> False # memory_serve n period cs m')"

definition recent :: "string \<Rightarrow> int \<Rightarrow> rat \<Rightarrow> (string \<times> rat) list \<Rightarrow> (string \<times> rat) list" where
  "recent k period t h = filter (\<lambda>(k', t'). k' = k \<and> t - of_int period < t') h"

fun window_serve :: "int \<Rightarrow> int \<Rightarrow> (string \<times> rat) list \<Rightarrow> (string \<times> rat) list \<Rightarrow> bool list" where
  "window_serve n period [] h = []"
| "window_serve n period ((k, t) # cs) h =
     (if int (length (recent k period t h)) < n then True # window_serve n period cs (h @ [(k, t)])
      else False # window_serve n period cs h)"

text \<open>The list kept for a key is the recent part of the history, for every later time.\<close>

definition remembers :: "int \<Rightarrow> rat \<Rightarrow> windows \<Rightarrow> (string \<times> rat) list \<Rightarrow> bool" where
  "remembers period t0 m h \<longleftrightarrow>
     (\<forall>k t. t0 \<le> t \<longrightarrow> filter (\<lambda>x. t - of_int period < x) (m k) = map snd (recent k period t h))"

lemma remembers_empty: "remembers period t0 (\<lambda>_. []) []"
  by (simp add: remembers_def recent_def)

lemma remembers_later: "remembers period t0 m h \<Longrightarrow> t0 \<le> t1 \<Longrightarrow> remembers period t1 m h"
  by (auto simp: remembers_def)

lemma remembers_cleanup:
  assumes "remembers period t0 m h" "t0 \<le> t1"
  shows "remembers period t1 (cleanup_old_requests k period t1 m) h"
  unfolding remembers_def
proof (intro allI impI)
  fix k' t
  assume t: "t1 \<le> t"
  have "filter (\<lambda>x. t - of_int period < x) (filter (\<lambda>x. t1 - of_int period < x) xs) = filter (\<lambda>x. t - of_int period < x) xs" for xs
    using t by (induction xs) auto
  then have "filter (\<lambda>x. t - of_int period < x) (cleanup_old_requests k period t1 m k') = filter (\<lambda>x. t - of_int period < x) (m k')"
    by (simp only: cleanup_old_requests_def fun_upd_apply split: if_split) simp
  also have "\<dots> = map snd (recent k' period t h)" using assms t by (simp add: remembers_def)
  finally show "filter (\<lambda>x. t - of_int period < x) (cleanup_old_requests k period t1 m k') = map snd (recent k' period t h)" .
qed

lemma remembers_add:
  assumes "remembers period t0 m h"
  shows "remembers period t0 (m(k := m k @ [t0])) (h @ [(k, t0)])"
  using assms by (auto simp: remembers_def recent_def)

lemma memory_call:
  assumes "remembers period t0 m h" "t0 \<le> t" "0 < n"
  shows "\<exists>a w m'. memory_is_allowed k n period t m = (Inr (a, w), m') \<and> (a \<longleftrightarrow> int (length (recent k period t h)) < n) \<and>
    remembers period t m' (if a then h @ [(k, t)] else h)"
proof -
  let ?m = "cleanup_old_requests k period t m"
  have m: "remembers period t ?m h" by (rule remembers_cleanup [OF assms(1,2)])
  have "?m k = map snd (recent k period t h)"
    using assms(1,2) by (simp add: cleanup_old_requests_def remembers_def)
  then have len: "length (?m k) = length (recent k period t h)" by simp
  show ?thesis
  proof (cases "int (length (recent k period t h)) < n")
    case True
    then show ?thesis using len remembers_add [OF m, of k]
      by (intro exI [of _ True]) (simp add: memory_is_allowed_def Let_def ok_def)
  next
    case False
    then have "?m k \<noteq> []" using len assms(3) by auto
    then obtain x xs where "?m k = x # xs" by (cases "?m k") auto
    then show ?thesis using False len m by (intro exI [of _ False]) (simp add: memory_is_allowed_def Let_def ok_def)
  qed
qed

lemma memory_serve_window:
  assumes "remembers period t0 m h" "0 < n" "sorted (map snd cs)" "\<forall>c \<in> set cs. t0 \<le> snd c"
  shows "memory_serve n period cs m = window_serve n period cs h"
  using assms
proof (induction cs arbitrary: m t0 h)
  case (Cons c cs)
  obtain k t where c: "c = (k, t)" by (cases c)
  have "t0 \<le> t" using Cons.prems(4) c by simp
  from memory_call [OF Cons.prems(1) this Cons.prems(2), of k] obtain a w m' where call:
    "memory_is_allowed k n period t m = (Inr (a, w), m')" "a \<longleftrightarrow> int (length (recent k period t h)) < n"
    "remembers period t m' (if a then h @ [(k, t)] else h)" by blast
  have "sorted (map snd cs)" "\<forall>c \<in> set cs. t \<le> snd c" using Cons.prems(3) c by simp_all
  from Cons.IH [OF call(3) Cons.prems(2) this] show ?case using call(1,2) c by simp
qed simp

text \<open>
  C22: The limiter in memory keeps no more than it needs and forgets nothing that counts: it answers every
  sequence of calls as the full history does, where a call is let in exactly when fewer than the limit
  were let in for its key within the period before it.
\<close>

theorem memory_limiter_exact:
  assumes "0 < n" "sorted (map snd cs)"
  shows "memory_serve n period cs (\<lambda>_. []) = window_serve n period cs []"
proof (cases cs)
  case (Cons c cs')
  then have "\<forall>x \<in> set cs. snd c \<le> snd x" using assms(2) by auto
  then show ?thesis by (rule memory_serve_window [OF remembers_empty assms])
qed simp

lemma memory_limiter_exact_witness:
  "memory_serve 2 60 [(''a'', 0), (''a'', 10), (''b'', 20), (''a'', 30), (''a'', 61)] (\<lambda>_. []) = [True, True, True, False, True]"
  by (subst memory_limiter_exact) (simp_all add: recent_def)

text \<open>No window of one period, wherever it ends, holds more than the limit of calls that were let in.\<close>

fun let_in :: "int \<Rightarrow> int \<Rightarrow> (string \<times> rat) list \<Rightarrow> (string \<times> rat) list \<Rightarrow> (string \<times> rat) list" where
  "let_in n period [] h = h"
| "let_in n period ((k, t) # cs) h =
     let_in n period cs (if int (length (recent k period t h)) < n then h @ [(k, t)] else h)"

definition in_window :: "string \<Rightarrow> int \<Rightarrow> rat \<Rightarrow> (string \<times> rat) list \<Rightarrow> (string \<times> rat) list" where
  "in_window k period t h = filter (\<lambda>c. snd c \<le> t) (recent k period t h)"

lemma in_window_recent:
  assumes "t1 \<le> t" "\<forall>c \<in> set h. snd c \<le> t1"
  shows "length (in_window k period t h) \<le> length (recent k period t1 h)"
proof -
  have sub: "length (filter P xs) \<le> length (filter Q xs)" if "\<forall>x \<in> set xs. P x \<longrightarrow> Q x" for P Q and xs :: "(string \<times> rat) list"
    using that by (induction xs) auto
  have "in_window k period t h = filter (\<lambda>c. fst c = k \<and> t - of_int period < snd c \<and> snd c \<le> t) h"
    "recent k period t1 h = filter (\<lambda>c. fst c = k \<and> t1 - of_int period < snd c) h"
    by (auto simp: in_window_def recent_def intro!: filter_cong)
  then show ?thesis using assms by (simp only:) (rule sub, auto)
qed

lemma let_in_bound:
  assumes "0 \<le> n" "sorted (map snd cs)" "\<forall>c \<in> set h. \<forall>c' \<in> set cs. snd c \<le> snd c'" "\<forall>k t. int (length (in_window k period t h)) \<le> n"
  shows "int (length (in_window k period t (let_in n period cs h))) \<le> n"
  using assms
proof (induction n period cs h rule: let_in.induct)
  case (2 n period k1 t1 cs h)
  let ?h = "if int (length (recent k1 period t1 h)) < n then h @ [(k1, t1)] else h"
  have sorted: "sorted (map snd cs)" "\<forall>c \<in> set cs. t1 \<le> snd c" using 2(3) by auto
  have early: "\<forall>c \<in> set h. snd c \<le> t1" using 2(4) by simp
  have "\<forall>c \<in> set ?h. \<forall>c' \<in> set cs. snd c \<le> snd c'" using 2(4) sorted(2) by auto
  moreover have "\<forall>k t. int (length (in_window k period t ?h)) \<le> n"
  proof (intro allI)
    fix k t
    show "int (length (in_window k period t ?h)) \<le> n"
    proof (cases "int (length (recent k1 period t1 h)) < n \<and> t1 \<le> t \<and> k = k1")
      case True
      then have "length (in_window k1 period t h) \<le> length (recent k1 period t1 h)" using in_window_recent [OF _ early] by blast
      then show ?thesis using True by (auto simp: in_window_def recent_def)
    next
      case False
      have "int (length (in_window k period t h)) \<le> n" using 2(5) by blast
      then show ?thesis using False by (auto simp: in_window_def recent_def)
    qed
  qed
  ultimately show ?case using 2(1) [OF 2(2) sorted(1)] by simp
qed simp

lemma window_serve_let_in:
  "let_in n period cs h = h @ map fst (filter snd (zip cs (window_serve n period cs h)))"
  by (induction n period cs h rule: let_in.induct) simp_all

text \<open>
  However the calls come, the limiter in memory lets in no more than the limit for one key within any
  period.
\<close>

theorem memory_limiter_bound:
  assumes "0 < n" "sorted (map snd cs)"
  shows "int (length (in_window k period t (map fst (filter snd (zip cs (memory_serve n period cs (\<lambda>_. []))))))) \<le> n"
proof -
  have same: "memory_serve n period cs (\<lambda>_. []) = window_serve n period cs []"
  proof (cases cs)
    case (Cons c cs')
    then have "\<forall>x \<in> set cs. snd c \<le> snd x" using assms(2) by auto
    then show ?thesis by (rule memory_serve_window [OF remembers_empty assms])
  qed simp
  have "int (length (in_window k period t (let_in n period cs []))) \<le> n"
    using assms by (intro let_in_bound) (simp_all add: in_window_def recent_def)
  then show ?thesis by (simp add: same window_serve_let_in)
qed

lemma memory_limiter_bound_witness:
  "int (length (in_window ''a'' 60 61 (map fst (filter snd (zip [(''a'', 0), (''a'', 10), (''a'', 30), (''a'', 61)]
     (memory_serve 2 60 [(''a'', 0), (''a'', 10), (''a'', 30), (''a'', 61)] (\<lambda>_. []))))))) \<le> 2"
  using memory_limiter_bound [of 2 "[(''a'', 0), (''a'', 10), (''a'', 30), (''a'', 61)]" "''a''" 60 61] by simp

section \<open>The window in Redis counts every call\<close>

fun redis_serve :: "rl_env \<Rightarrow> string \<Rightarrow> int \<Rightarrow> int \<Rightarrow> rat list \<Rightarrow> rl_state \<Rightarrow> bool list" where
  "redis_serve env key n period [] s = []"
| "redis_serve env key n period (t # ts) s =
     (case redis_is_allowed (env\<lparr>rl_now := t\<rparr>) key n period s of ((a, w), s') \<Rightarrow> a # redis_serve env key n period ts s')"

fun all_calls :: "int \<Rightarrow> int \<Rightarrow> rat list \<Rightarrow> rat list \<Rightarrow> bool list" where
  "all_calls n period [] h = []"
| "all_calls n period (t # ts) h =
     (int (length (filter (\<lambda>x. t - of_int period < x) h)) < n) # all_calls n period ts (h @ [t])"

definition redis_holds :: "string \<Rightarrow> int \<Rightarrow> rl_state \<Rightarrow> rat list \<Rightarrow> bool" where
  "redis_holds key period s h \<longleftrightarrow>
     (\<forall>t. (\<forall>x \<in> set h. x < t) \<longrightarrow>
        zrem_upto (t - of_int period) (scores_at t (window_key key) s) = filter (\<lambda>x. t - of_int period < x) h)"

lemma redis_call:
  assumes "redis_holds key period s h" "sorted h" "\<forall>x \<in> set h. 0 \<le> x \<and> x < t" "0 \<le> t"
  shows "\<exists>w s'. redis_is_allowed (env\<lparr>rl_now := t\<rparr>) key n period s = ((int (length (filter (\<lambda>x. t - of_int period < x) h)) < n, w), s') \<and>
    redis_holds key period s' (h @ [t])"
proof -
  let ?before = "filter (\<lambda>x. t - of_int period < x) h"
  have before: "zrem_upto (t - of_int period) (scores_at t (window_key key) s) = ?before"
    using assms(1,3) by (simp add: redis_holds_def)
  have "sorted ?before" using assms(2) by (rule sorted_wrt_filter)
  moreover have "\<forall>x \<in> set ?before. x \<le> t" using assms(3) by auto
  ultimately have "insort t ?before = ?before @ [t]" by (rule sorted_insort_is_snoc)
  moreover have "t \<notin> set ?before" using assms(3) by auto
  ultimately have after: "zadd t ?before = ?before @ [t]" by (simp add: zadd_def)
  have keep: "zrem_upto (t' - of_int period) (if t' < t + of_int period then ?before @ [t] else []) =
      filter (\<lambda>x. t' - of_int period < x) (h @ [t])" if "t < t'" for t'
  proof (cases "t' < t + of_int period")
    case True
    have "filter (\<lambda>x. \<not> (0 \<le> x \<and> x \<le> t' - of_int period)) (filter (\<lambda>x. t - of_int period < x) xs) =
        filter (\<lambda>x. t' - of_int period < x) xs" if "\<forall>x \<in> set xs. 0 \<le> x" for xs
      using that \<open>t < t'\<close> by (induction xs) auto
    then have "filter (\<lambda>x. \<not> (0 \<le> x \<and> x \<le> t' - of_int period)) ?before = filter (\<lambda>x. t' - of_int period < x) h"
      using assms(3) by blast
    then show ?thesis using True assms(4) by (auto simp: zrem_upto_def)
  next
    case False
    have "\<not> t' - of_int period < x" if "x \<in> set h" for x
    proof -
      have "x < t" using that assms(3) by blast
      then show ?thesis using False by simp
    qed
    then have "filter (\<lambda>x. t' - of_int period < x) h = []" by (simp add: filter_empty_conv)
    then show ?thesis using False by (simp add: zrem_upto_def)
  qed
  define s' where "s' = s\<lparr>rl_redis := (rl_redis s)(window_key key \<mapsto> \<lparr>zs_scores = ?before @ [t], zs_expires = t + of_int period\<rparr>)\<rparr>"
  have "redis_holds key period s' (h @ [t])"
    unfolding redis_holds_def
  proof (intro allI impI)
    fix t'
    assume "\<forall>x \<in> set (h @ [t]). x < t'"
    then have "t < t'" by simp
    have "scores_at t' (window_key key) s' = (if t' < t + of_int period then ?before @ [t] else [])"
      by (simp add: s'_def scores_at_def)
    then show "zrem_upto (t' - of_int period) (scores_at t' (window_key key) s') = filter (\<lambda>x. t' - of_int period < x) (h @ [t])"
      by (simp only: keep [OF \<open>t < t'\<close>])
  qed
  moreover have "\<exists>w. redis_is_allowed (env\<lparr>rl_now := t\<rparr>) key n period s = ((int (length ?before) < n, w), s')"
    by (auto simp: redis_is_allowed_def Let_def before after s'_def)
  ultimately show ?thesis by blast
qed

lemma redis_serve_all:
  assumes "redis_holds key period s h" "sorted_wrt (<) (h @ ts)" "\<forall>x \<in> set (h @ ts). 0 \<le> x"
  shows "redis_serve env key n period ts s = all_calls n period ts h"
  using assms
proof (induction ts arbitrary: s h)
  case (Cons t ts)
  have "sorted h" using Cons.prems(2) by (auto simp: sorted_wrt_append intro: sorted_wrt_mono_rel [of _ "(<)" "(\<le>)"])
  moreover have "\<forall>x \<in> set h. 0 \<le> x \<and> x < t" using Cons.prems(2,3) by (auto simp: sorted_wrt_append)
  moreover have "0 \<le> t" using Cons.prems(3) by simp
  ultimately obtain w s' where call: "redis_is_allowed (env\<lparr>rl_now := t\<rparr>) key n period s =
      ((int (length (filter (\<lambda>x. t - of_int period < x) h)) < n, w), s')" "redis_holds key period s' (h @ [t])"
    using redis_call [OF Cons.prems(1)] by blast
  then show ?case using Cons.IH [OF call(2)] Cons.prems(2,3) by simp
qed simp

text \<open>
  In Redis a call counts whether it was let in or not: a client is let in only while fewer than the limit
  of its own calls, refused ones included, lie within the period. One that keeps trying is shut out for as
  long as it tries, where the limiter in memory lets it in again.
\<close>

theorem redis_limiter_counts_refusals:
  assumes "sorted_wrt (<) ts" "\<forall>t \<in> set ts. 0 \<le> t" "rl_redis s (window_key key) = None"
  shows "redis_serve env key n period ts s = all_calls n period ts []"
  using assms by (intro redis_serve_all) (simp_all add: redis_holds_def scores_at_def zrem_upto_def)

lemma limiters_differ:
  "redis_serve env ''k'' 2 60 [0, 20, 40, 60, 80, 100] \<lparr>rl_mem = (\<lambda>_. []), rl_redis = Map.empty\<rparr> = [True, True, False, False, False, False] \<and>
   memory_serve 2 60 (map (Pair ''k'') [0, 20, 40, 60, 80, 100]) (\<lambda>_. []) = [True, True, False, True, True, False]"
  by (subst redis_limiter_counts_refusals, simp, simp, simp, subst memory_serve_window [OF remembers_empty, of _ _ 0])
    (simp_all add: recent_def)

section \<open>What the key is worth\<close>

text \<open>
  Who sends a forwarding header chooses the key it is limited under: with an address that was not
  used before, every limited call is let in, however many calls the client has made.
\<close>

theorem forwarded_header_evades_limit:
  assumes "header req ''X-Forwarded-For'' = Some ip" "ip \<noteq> []" "CHR '','' \<notin> set ip" "strip ip = ip"
    and "\<not> create_rate_limiter cfg (rl_testing env)" "0 < fst (limits_of cfg endpoint)"
    and "rl_mem s (endpoint @ '':'' @ ip) = []"
  shows "is_ok (check_rate_limit cfg env req endpoint s)"
proof -
  obtain c cs where ip: "ip = c # cs" using assms(2) by (cases ip) auto
  have "split_on CHR '','' ip = [ip]" using assms(3) by (rule split_on_no_sep)
  then have "get_client_ip req = Some ip" using assms(1,4) by (simp add: get_client_ip_def ip)
  then have "limit_key req endpoint = endpoint @ '':'' @ ip" by (simp add: limit_key_def show_opt_def)
  then show ?thesis using assms(5-7)
    by (cases "limits_of cfg endpoint"; cases "rl_testing env")
      (simp_all add: check_rate_limit_def on_fallback_def memory_is_allowed_def cleanup_old_requests_def Let_def then_do_def ok_def is_ok_def)
qed

lemma forwarded_header_evades_limit_witness:
  "\<exists>s req cfg env. int (length (rl_mem s ''login:1'')) = 5 \<and> rs_requests cfg = 5 \<and>
     \<not> is_ok (check_rate_limit cfg env req ''login'' s) \<and>
     is_ok (check_rate_limit cfg env (req\<lparr>req_headers := [''x-forwarded-for'' \<mapsto> ''9'']\<rparr>) ''login'' s)"
proof -
  let ?cfg = "\<lparr>rs_enabled = True, rs_broker_url = None, rs_requests = 5, rs_period = 60, rs_admin_requests = 10, rs_admin_period = 60\<rparr>"
  let ?env = "\<lparr>rl_now = 10, rl_client = False, rl_up = False, rl_testing = False, rl_fail_closed = True\<rparr>"
  let ?req = "plain_request [(''x-forwarded-for'', ''1'')] 0"
  let ?s = "\<lparr>rl_mem = (\<lambda>k. if k = ''login:1'' then [1, 2, 3, 4, 5] else []), rl_redis = Map.empty\<rparr>"
  let ?forged = "?req\<lparr>req_headers := [''x-forwarded-for'' \<mapsto> ''9'']\<rparr>"
  have "header ?forged ''X-Forwarded-For'' = Some ''9''" "strip ''9'' = ''9''" by code_simp+
  moreover have "\<not> create_rate_limiter ?cfg False" by (simp add: create_rate_limiter_def truthy_def)
  moreover have "limits_of ?cfg ''login'' = (5, 60)" by (simp add: limits_of_def admin_endpoints_def intensive_endpoints_def)
  ultimately have evades: "is_ok (check_rate_limit ?cfg ?env ?forged ''login'' ?s)"
    by (intro forwarded_header_evades_limit [where ip = "''9''"]) simp_all
  have "limit_key ?req ''login'' = ''login:1''" by code_simp
  then have "\<not> is_ok (check_rate_limit ?cfg ?env ?req ''login'' ?s)"
    using \<open>\<not> create_rate_limiter ?cfg False\<close> \<open>limits_of ?cfg ''login'' = (5, 60)\<close>
    by (simp add: check_rate_limit_def on_fallback_def memory_is_allowed_def cleanup_old_requests_def Let_def then_do_def ok_def is_ok_def http_def raise_def)
  with evades show ?thesis by (intro exI [of _ ?s] exI [of _ ?req] exI [of _ ?cfg] exI [of _ ?env]) simp
qed

text \<open>A limiter that must not fail open refuses everything while Redis does not answer.\<close>

lemma closed_limiter_refuses:
  assumes "rs_enabled cfg" "\<not> rl_testing env" "create_rate_limiter cfg False" "rl_fail_closed env" "\<not> rl_client env \<or> \<not> rl_up env"
  shows "\<exists>m. check_rate_limit cfg env req endpoint s = (Inl (HTTPException 503 m), s)"
  using assms by (cases "limits_of cfg endpoint")
    (auto simp: check_rate_limit_def limiter_is_allowed_def limiter_unavailable_def Let_def)

end
