(* ===== verification/Vlan_Tasks.thy ===== *)
theory Vlan_Tasks
  imports Firewall_Tasks Ip_Address
begin

text \<open>
  VLANs and DHCP on the firewall: \<open>app/workers/tasks/vlan.py\<close> and \<open>app/workers/tasks/kea.py\<close>.

  \<open>cfg_calls\<close> holds what the tasks use of \<open>OPNsenseConfigInVM\<close>, each call with the machine it is made
  for, and the way a command is run in a machine; the world \<open>'w\<close> is everything outside the database.
  Log and status messages leave no state. A VLAN task sees the database in three sessions: it reads the
  tenant and the network, marks the network, and marks it again at the end.
\<close>

section \<open>What the tasks use of the configuration module\<close>

record vlan_entry =
  ve_tag :: int
  ve_parent :: string
  ve_vlanif :: string
  ve_descr :: string

record 'w cfg_calls =
  cf_run :: "'w vm_run"
  cf_vlans :: "int \<Rightarrow> 'w \<Rightarrow> (vlan_entry list, 'w) result"
  cf_names :: "int \<Rightarrow> 'w \<Rightarrow> (string list, 'w) result"
  cf_opt_for :: "int \<Rightarrow> string \<Rightarrow> 'w \<Rightarrow> (string option, 'w) result"
  cf_ip :: "int \<Rightarrow> string \<Rightarrow> 'w \<Rightarrow> (string option \<times> int option, 'w) result"
  cf_set_ip :: "int \<Rightarrow> string \<Rightarrow> string \<Rightarrow> int \<Rightarrow> 'w \<Rightarrow> (unit, 'w) result"
  cf_add_vlan :: "int \<Rightarrow> vlan_entry \<Rightarrow> 'w \<Rightarrow> (unit, 'w) result"
  cf_add_opt :: "int \<Rightarrow> string \<Rightarrow> string \<Rightarrow> string \<Rightarrow> int \<Rightarrow> string \<Rightarrow> 'w \<Rightarrow> (unit, 'w) result"
  cf_create_iface :: "int \<Rightarrow> vlan_entry \<Rightarrow> string \<Rightarrow> int \<Rightarrow> 'w \<Rightarrow> (unit, 'w) result"
  cf_reload :: "int \<Rightarrow> 'w \<Rightarrow> (unit, 'w) result"
  cf_remove :: "int \<Rightarrow> int \<Rightarrow> string \<Rightarrow> 'w \<Rightarrow> (unit, 'w) result"

section \<open>Names\<close>

text \<open>\<open>re.match(r"pre(\d+)$", name)\<close>\<close>

definition number_after :: "string \<Rightarrow> string \<Rightarrow> nat option" where
  "number_after pre nm =
     (let rest = drop (length pre) nm
      in if starts_with nm pre \<and> rest \<noteq> [] \<and> list_all is_digit rest then Some (nat_of_digits rest) else None)"

definition next_number :: "string \<Rightarrow> string list \<Rightarrow> nat" where
  "next_number pre names = (case List.map_filter (number_after pre) names of [] \<Rightarrow> 1 | n # ns \<Rightarrow> fold max ns n + 1)"

definition two_digits :: "nat \<Rightarrow> string" where
  "two_digits n = (if n < 10 then CHR ''0'' # show_nat n else show_nat n)"

definition next_vlanif :: "string list \<Rightarrow> string" where
  "next_vlanif names = ''vlan'' @ two_digits (next_number ''vlan'' names)"

definition next_opt_name :: "string list \<Rightarrow> string" where
  "next_opt_name names = ''opt'' @ show_nat (next_number ''opt'' names)"

section \<open>DHCP\<close>

text \<open>\<open>x.get(key, {})\<close> of a value that need not be an object.\<close>

definition get_object :: "string \<Rightarrow> json \<Rightarrow> py_exc + json" where
  "get_object k j = (case dict_of j of Inl e \<Rightarrow> Inl e | Inr _ \<Rightarrow> Inr (if json_has k j then json_get k j else JObj []))"

definition equals_one :: "json \<Rightarrow> bool" where
  "equals_one j =
     (case j of JInt i \<Rightarrow> i = 1 | JBool b \<Rightarrow> b
      | JFloat m e \<Rightarrow> (if 0 \<le> e then m * 10 ^ nat e = 1 else m = 10 ^ nat (- e)) | _ \<Rightarrow> False)"

definition enabled_interfaces :: "json \<Rightarrow> string list" where
  "enabled_interfaces j =
     (case j of
        JObj ms \<Rightarrow> map fst (filter (\<lambda>(k, v). (case v of JObj _ \<Rightarrow> equals_one (json_get ''selected'' v) | _ \<Rightarrow> False)) ms)
      | JStr s \<Rightarrow> filter (\<lambda>x. x \<noteq> []) (map strip (split_on CHR '','' s))
      | _ \<Rightarrow> [])"

definition texts :: "(string \<times> string) list \<Rightarrow> json" where
  "texts kvs = JObj (map (\<lambda>(k, v). (k, JStr v)) kvs)"

definition vlan_subnet_body :: "string \<Rightarrow> string \<Rightarrow> string \<Rightarrow> string \<Rightarrow> json" where
  "vlan_subnet_body subnet descr pools router =
     JObj [(''subnet4'', JObj [(''subnet'', JStr subnet), (''description'', JStr descr), (''pools'', JStr pools),
       (''match-client-id'', JStr ''0''), (''option_data_autocollect'', JStr ''1''),
       (''option_data'', texts ((''routers'', router) # map (\<lambda>k. (k, ''''))
          [''static_routes'', ''classless_static_route'', ''domain_name_servers'', ''domain_name'', ''domain_search'',
           ''ntp_servers'', ''time_servers'', ''tftp_server_name'', ''boot_file_name'', ''v6_only_preferred'', ''v4_dnr''])),
       (''next_server'', JStr '''')])]"

definition kea_general :: "string \<Rightarrow> json" where
  "kea_general ifs = texts [(''enabled'', ''1''), (''manual_config'', ''0''), (''interfaces'', ifs),
     (''valid_lifetime'', ''4000''), (''fwrules'', ''1''), (''dhcp_socket_type'', ''raw'')]"

definition vlan_kea_body :: "string \<Rightarrow> json" where
  "vlan_kea_body ifs =
     JObj [(''dhcpv4'', JObj [(''general'', kea_general ifs),
       (''lexpire'', texts (map (\<lambda>k. (k, '''')) [''hold_reclaimed_time'', ''reclaim_timer_wait_time'',
          ''flush_reclaimed_timer_wait_time'', ''max_reclaim_time'', ''max_reclaim_leases'', ''unwarned_reclaim_cycles''])),
       (''ha'', texts [(''enabled'', ''0''), (''this_server_name'', ''''), (''max_unacked_clients'', ''2'')])])]"

definition invalid_network :: "string \<Rightarrow> py_exc" where
  "invalid_network s = ValueError (repr_str s @ '' does not appear to be an IPv4 or IPv6 network'')"

definition kea_interfaces :: "json \<Rightarrow> py_exc + string list" where
  "kea_interfaces j =
     (case get_object ''dhcpv4'' j of
        Inl e \<Rightarrow> Inl e
      | Inr d \<Rightarrow> (case get_object ''general'' d of
          Inl e \<Rightarrow> Inl e
        | Inr g \<Rightarrow> map_sum id enabled_interfaces (get_object ''interfaces'' g)))"

definition setup_kea_dhcp ::
  "'w vm_run \<Rightarrow> int \<Rightarrow> string option \<Rightarrow> string option \<Rightarrow> string \<Rightarrow> string \<Rightarrow> string \<Rightarrow> string \<Rightarrow> string \<Rightarrow> 'w \<Rightarrow> (string, 'w) result" where
  "setup_kea_dhcp run vm key secret opt gw cidr lo hi w =
     then_do (exec_opnsense_api run vm ''GET'' ''kea/dhcpv4/get'' key secret JNull w) (\<lambda>cur w1.
       case kea_interfaces cur of
         Inl e \<Rightarrow> raise e w1
       | Inr ifs \<Rightarrow>
           (case parse_network cidr of
              None \<Rightarrow> raise (invalid_network cidr) w1
            | Some n \<Rightarrow>
                (let all = join_with '','' (if opt \<in> set ifs then ifs else ifs @ [opt])
                 in then_do (exec_opnsense_api run vm ''POST'' ''kea/dhcpv4/add_subnet/'' key secret
                      (vlan_subnet_body (show_network n) (upper opt) (lo @ '' - '' @ hi) gw) w1) (\<lambda>_ w2.
                    then_do (exec_opnsense_api run vm ''POST'' ''kea/dhcpv4/set'' key secret (vlan_kea_body all) w2) (\<lambda>_ w3.
                    then_do (exec_opnsense_api run vm ''POST'' ''kea/service/reconfigure'' key secret JNull w3) (\<lambda>_.
                      ok all))))))"

text \<open>\<open>configure_kea_dhcp\<close>, for the LAN of a new tenant.\<close>

definition lan_subnet_body :: "string \<Rightarrow> string \<Rightarrow> string \<Rightarrow> json" where
  "lan_subnet_body cidr pools router =
     JObj [(''subnet4'', JObj [(''subnet'', JStr cidr), (''description'', JStr ''LAN''), (''pools'', JStr pools),
       (''match-client-id'', JStr ''0''), (''option_data_autocollect'', JStr ''1''),
       (''option_data'', texts ((''routers'', router) # map (\<lambda>k. (k, '''')) [''domain_name_servers'', ''domain_name'', ''domain_search'', ''ntp_servers''])),
       (''next_server'', JStr '''')])]"

definition lan_kea_body :: json where
  "lan_kea_body = JObj [(''dhcpv4'', JObj [(''general'', kea_general ''lan''), (''lexpire'', JObj []),
     (''ha'', texts [(''enabled'', ''0''), (''max_unacked_clients'', ''2'')])])]"

text \<open>\<open>network[i]\<close>\<close>

definition nth_address :: "ipv4_net \<Rightarrow> nat \<Rightarrow> py_exc + string" where
  "nth_address n i =
     (if i < block_size (net_prefix n) then Inr (show_ipv4 (net_base n + i)) else Inl (OtherError ''address out of range''))"

definition dhcp_pool :: "string \<Rightarrow> string option \<Rightarrow> string option \<Rightarrow> py_exc + string \<times> string" where
  "dhcp_pool cidr lo hi =
     (if truthy lo \<and> truthy hi then Inr (the lo, the hi)
      else case parse_network cidr of
        None \<Rightarrow> Inl (invalid_network cidr)
      | Some n \<Rightarrow> (case nth_address n 10 of
          Inl e \<Rightarrow> Inl e
        | Inr a \<Rightarrow> map_sum id (Pair a) (nth_address n 200)))"

definition configure_kea_dhcp ::
  "'w vm_run \<Rightarrow> int \<Rightarrow> string option \<Rightarrow> string option \<Rightarrow> string \<Rightarrow> string \<Rightarrow> string option \<Rightarrow> string option \<Rightarrow> 'w \<Rightarrow> (unit, 'w) result" where
  "configure_kea_dhcp run vm key secret cidr gw lo hi w =
     (if vm = 0 \<or> \<not> truthy key \<or> \<not> truthy secret \<or> cidr = []
      then raise (ValueError ''Missing required parameters for Kea configuration'') w
      else case dhcp_pool cidr lo hi of
        Inl e \<Rightarrow> raise e w
      | Inr (a, b) \<Rightarrow>
          (let post = (\<lambda>path body w. exec_opnsense_api run vm ''POST'' path key secret body w)
           in then_do (post ''core/service/stop/dnsmasq'' JNull w) (\<lambda>_ w1.
              then_do (post ''kea/dhcpv4/add_subnet/'' (lan_subnet_body cidr (a @ '' - '' @ b) gw) w1) (\<lambda>_ w2.
              then_do (post ''kea/dhcpv4/set'' lan_kea_body w2) (\<lambda>_ w3.
              then_do (post ''kea/service/reconfigure'' JNull w3) (\<lambda>_ w4.
              then_do (post ''core/service/restart/kea-dhcp/v4'' JNull w4) (\<lambda>_. ok ())))))))"

definition configure_kea_dhcp_task :: "'w vm_run \<Rightarrow> int \<Rightarrow> db \<Rightarrow> 'w \<Rightarrow> (int, 'w) result" where
  "configure_kea_dhcp_task run tid d w =
     (let missing = (\<lambda>what. raise (ValueError (''Tenant '' @ show_int tid @ '' '' @ what)) w)
      in case first_row (\<lambda>t. t_id t = tid) (tenants d) of
        None \<Rightarrow> missing ''not found''
      | Some t \<Rightarrow>
          (if \<not> truthy_id (t_opnsense_vm_id t) then missing ''has no OPNsense VM''
           else if \<not> truthy (t_opnsense_api_key t) \<or> \<not> truthy (t_opnsense_api_secret t) then missing ''has no API credentials''
           else if \<not> truthy (t_lan_ip t) then missing ''has no LAN IP configured''
           else (let cidr = the (t_lan_ip t) @ ''/24''
                 in case parse_network cidr of
                      None \<Rightarrow> raise (invalid_network cidr) w
                    | Some n \<Rightarrow>
                        (case nth_address n 1 of
                           Inl e \<Rightarrow> raise e w
                         | Inr gw \<Rightarrow>
                             then_do (configure_kea_dhcp run (the (t_opnsense_vm_id t)) (t_opnsense_api_key t) (t_opnsense_api_secret t)
                               cidr gw (t_dhcp_pool_start t) (t_dhcp_pool_end t) w) (\<lambda>_. ok tid)))))"

section \<open>The VLAN tasks\<close>

definition DEFAULT_OPNSENSE_VM_ID :: int where
  "DEFAULT_OPNSENSE_VM_ID = 10000"

definition DEFAULT_OPNSENSE_PARENT_IF :: string where
  "DEFAULT_OPNSENSE_PARENT_IF = ''vtnet1''"

text \<open>The arguments of the task; \<open>queued_vlan\<close> is what a queued \<open>CreateOpnsenseVlan\<close> gives.\<close>

record vlan_args =
  va_tenant_id :: int
  va_vlan_tag :: int
  va_ip_address :: string
  va_subnet :: int
  va_dhcp_start :: "string option"
  va_dhcp_end :: "string option"
  va_vm_id :: "int option"
  va_parent_if :: "string option"
  va_description :: string
  va_wan_ip :: "string option"
  va_api_key :: "string option"
  va_api_secret :: "string option"

definition queued_vlan :: "int \<Rightarrow> int \<Rightarrow> string \<Rightarrow> int \<Rightarrow> vlan_args" where
  "queued_vlan tid tag ip subnet =
     \<lparr>va_tenant_id = tid, va_vlan_tag = tag, va_ip_address = ip, va_subnet = subnet, va_dhcp_start = None,
      va_dhcp_end = None, va_vm_id = None, va_parent_if = None, va_description = '''', va_wan_ip = None,
      va_api_key = None, va_api_secret = None\<rparr>"

definition or_else :: "string option \<Rightarrow> string option \<Rightarrow> string option" where
  "or_else x y = (if truthy x then x else y)"

definition args_vm :: "vlan_args \<Rightarrow> int" where
  "args_vm a = (if truthy_id (va_vm_id a) then the (va_vm_id a) else DEFAULT_OPNSENSE_VM_ID)"

definition args_parent :: "vlan_args \<Rightarrow> string" where
  "args_parent a = (if truthy (va_parent_if a) then the (va_parent_if a) else DEFAULT_OPNSENSE_PARENT_IF)"

definition waiting_network :: "int \<Rightarrow> int \<Rightarrow> db \<Rightarrow> tenant_network option" where
  "waiting_network tid tag d =
     first_row (\<lambda>n. n_tenant_id n = tid \<and> n_vlan_id n = Some tag \<and> n_status n \<in> {''active'', ''pending''}) (networks d)"

definition vlan_credentials :: "vlan_args \<Rightarrow> tenant \<Rightarrow> py_exc + string option \<times> string option" where
  "vlan_credentials a t =
     (let key = or_else (va_api_key a) (t_opnsense_api_key t);
          secret = or_else (va_api_secret a) (t_opnsense_api_secret t)
      in if \<not> truthy (or_else (va_wan_ip a) (t_wan_ip t)) then Inl (ValueError (''Tenant '' @ show_int (va_tenant_id a) @ '' has no WAN IP''))
         else if \<not> truthy key \<or> \<not> truthy secret
           then Inl (ValueError (''Tenant '' @ show_int (va_tenant_id a) @ '' has no OPNsense API credentials''))
         else Inr (key, secret))"

definition save_network :: "int \<Rightarrow> (tenant_network \<Rightarrow> tenant_network) \<Rightarrow> db \<Rightarrow> db" where
  "save_network i f d = d\<lparr>networks := upd_rows n_id i f (networks d)\<rparr>"

text \<open>Finding or making the VLAN and its interface; the answer is the device and the interface.\<close>

definition reuse_vlan :: "'w cfg_calls \<Rightarrow> vlan_args \<Rightarrow> string list \<Rightarrow> vlan_entry \<Rightarrow> 'w \<Rightarrow> (string \<times> string, 'w) result" where
  "reuse_vlan cfg a names v w =
     (let vm = args_vm a
      in then_do (cf_opt_for cfg vm (ve_vlanif v) w) (\<lambda>found w1.
           let opt = (if truthy found then the found else next_opt_name names)
           in then_do (cf_ip cfg vm opt w1) (\<lambda>(ip, subnet) w2.
                if ip \<noteq> Some (va_ip_address a) \<or> subnet \<noteq> Some (va_subnet a)
                then then_do (cf_set_ip cfg vm opt (va_ip_address a) (va_subnet a) w2) (\<lambda>_ w3.
                     then_do (cf_reload cfg vm w3) (\<lambda>_. ok (ve_vlanif v, opt)))
                else ok (ve_vlanif v, opt) w2)))"

definition new_vlan :: "'w cfg_calls \<Rightarrow> vlan_args \<Rightarrow> vlan_entry list \<Rightarrow> string list \<Rightarrow> 'w \<Rightarrow> (string \<times> string, 'w) result" where
  "new_vlan cfg a devs names w =
     (let vm = args_vm a;
          opt = next_opt_name names;
          descr = (if va_description a \<noteq> [] then va_description a
                   else ''tenant'' @ show_int (va_tenant_id a) @ ''-vlan'' @ show_int (va_vlan_tag a));
          v = \<lparr>ve_tag = va_vlan_tag a, ve_parent = args_parent a, ve_vlanif = next_vlanif (map ve_vlanif devs), ve_descr = descr\<rparr>
      in then_do (cf_add_vlan cfg vm v w) (\<lambda>_ w1.
         then_do (cf_add_opt cfg vm opt (ve_vlanif v) (va_ip_address a) (va_subnet a) (upper descr) w1) (\<lambda>_ w2.
         then_do (cf_create_iface cfg vm v (va_ip_address a) (va_subnet a) w2) (\<lambda>_ w3.
         then_do (cf_reload cfg vm w3) (\<lambda>_. ok (ve_vlanif v, opt))))))"

definition configure_vlan :: "'w cfg_calls \<Rightarrow> vlan_args \<Rightarrow> 'w \<Rightarrow> (string \<times> string, 'w) result" where
  "configure_vlan cfg a w =
     then_do (cf_vlans cfg (args_vm a) w) (\<lambda>devs w1.
     then_do (cf_names cfg (args_vm a) w1) (\<lambda>names.
       case find (\<lambda>v. ve_tag v = va_vlan_tag a \<and> ve_parent v = args_parent a) devs of
         Some v \<Rightarrow> reuse_vlan cfg a names v
       | None \<Rightarrow> new_vlan cfg a devs names))"

definition dhcp_bound :: "string option \<Rightarrow> string \<Rightarrow> string \<Rightarrow> string" where
  "dhcp_bound given ip host =
     (if truthy given then the given else join_with ''.'' (take 3 (split_on CHR ''.'' ip)) @ CHR ''.'' # host)"

definition provision_vlan :: "'w cfg_calls \<Rightarrow> vlan_args \<Rightarrow> string option \<Rightarrow> string option \<Rightarrow> 'w \<Rightarrow> (string \<times> string, 'w) result" where
  "provision_vlan cfg a key secret w =
     then_do (configure_vlan cfg a w) (\<lambda>(vlanif, opt) w1.
     then_do (setup_kea_dhcp (cf_run cfg) (args_vm a) key secret opt (va_ip_address a) (va_ip_address a @ CHR ''/'' # show_int (va_subnet a))
         (dhcp_bound (va_dhcp_start a) (va_ip_address a) ''10'') (dhcp_bound (va_dhcp_end a) (va_ip_address a) ''200'') w1)
       (\<lambda>_. ok (vlanif, opt)))"

definition retry_or_crash :: "nat \<Rightarrow> nat \<Rightarrow> py_exc \<Rightarrow> task_reply" where
  "retry_or_crash retries max_retries e = (if retries < max_retries then Retried e else Crashed e)"

definition vlan_result :: "vlan_args \<Rightarrow> string \<Rightarrow> string \<Rightarrow> task_reply" where
  "vlan_result a vlanif opt =
     Reply [(''tenant_id'', JInt (va_tenant_id a)), (''vm_id'', JInt (args_vm a)), (''vlan_tag'', JInt (va_vlan_tag a)),
       (''vlanif'', JStr vlanif), (''opt_name'', JStr opt), (''ip'', JStr (va_ip_address a)), (''subnet'', JInt (va_subnet a)),
       (''dhcp_start'', JStr (dhcp_bound (va_dhcp_start a) (va_ip_address a) ''10'')),
       (''dhcp_end'', JStr (dhcp_bound (va_dhcp_end a) (va_ip_address a) ''200'')), (''kea_uuid'', JNull)]"

text \<open>
  \<open>network_id\<close> is the VLAN tag until a network that waits for it is found; the row that is set active at
  the end is looked up by \<open>network_id\<close> alone.
\<close>

definition create_opnsense_vlan :: "'w cfg_calls \<Rightarrow> nat \<Rightarrow> vlan_args \<Rightarrow> db \<times> 'w \<Rightarrow> task_reply \<times> db \<times> 'w" where
  "create_opnsense_vlan cfg retries a s =
     (let (d, w) = s
      in case first_row (\<lambda>t. t_id t = va_tenant_id a) (tenants d) of
           None \<Rightarrow> (retry_or_crash retries 3 (ValueError (''Tenant '' @ show_int (va_tenant_id a) @ '' not found'')), s)
         | Some t \<Rightarrow>
             (let net = waiting_network (va_tenant_id a) (va_vlan_tag a) d;
                  mark = (\<lambda>status d. case net of None \<Rightarrow> d | Some n \<Rightarrow> save_network (n_id n) (\<lambda>x. x\<lparr>n_status := status\<rparr>) d);
                  i = (case net of None \<Rightarrow> va_vlan_tag a | Some n \<Rightarrow> n_id n)
              in case vlan_credentials a t of
                   Inl e \<Rightarrow> (retry_or_crash retries 3 e, mark ''error'' d, w)
                 | Inr (key, secret) \<Rightarrow>
                     (let d1 = mark ''provisioning'' d
                      in case provision_vlan cfg a key secret w of
                           (Inl e, w') \<Rightarrow> (retry_or_crash retries 3 e, mark ''error'' d1, w')
                         | (Inr (vlanif, opt), w') \<Rightarrow>
                             (vlan_result a vlanif opt,
                              save_network i (\<lambda>x. x\<lparr>n_status := ''active'', n_opnsense_interface := Some opt\<rparr>) d1, w'))))"

definition remove_opnsense_vlan ::
  "'w cfg_calls \<Rightarrow> nat \<Rightarrow> int \<Rightarrow> int \<Rightarrow> int option \<Rightarrow> string option \<Rightarrow> 'w \<Rightarrow> task_reply \<times> 'w" where
  "remove_opnsense_vlan cfg retries tid tag vm parent w =
     (let v = (if truthy_id vm then the vm else DEFAULT_OPNSENSE_VM_ID);
          p = (if truthy parent then the parent else DEFAULT_OPNSENSE_PARENT_IF)
      in case then_do (cf_remove cfg v tag p w) (\<lambda>_. cf_reload cfg v) of
           (Inl e, w') \<Rightarrow> (retry_or_crash retries 2 e, w')
         | (Inr _, w') \<Rightarrow>
             (Reply [(''removed'', JBool True), (''vlan_tag'', JInt tag), (''tenant_id'', JInt tid), (''vm_id'', JInt v)], w'))"

section \<open>Fresh names\<close>

lemma next_number_gt:
  assumes "nm \<in> set names" "number_after pre nm = Some k"
  shows "k < next_number pre names"
proof -
  have "k \<in> set (List.map_filter (number_after pre) names)"
    using assms by (force simp: List.map_filter_def)
  moreover have le: "x \<le> fold max ns m" if "x \<in> set (m # ns)" for x m :: nat and ns
    using that
  proof (induction ns arbitrary: m x)
    case (Cons n ns)
    show ?case
    proof (cases "x \<in> set (max n m # ns)")
      case True
      then show ?thesis using Cons.IH by simp
    next
      case False
      then have "x \<le> max n m" using Cons.prems by auto
      also have "\<dots> \<le> fold max ns (max n m)" using Cons.IH [of "max n m" "max n m"] by simp
      finally show ?thesis by simp
    qed
  qed simp
  ultimately show ?thesis by (cases "List.map_filter (number_after pre) names") (auto simp: next_number_def less_Suc_eq_le dest: le)
qed

lemma digits_two_digits: "list_all is_digit (two_digits n)" "two_digits n \<noteq> []" "nat_of_digits (two_digits n) = n"
proof -
  have zero: "is_digit CHR ''0''" by code_simp
  have "nat_of_digits (CHR ''0'' # s) = nat_of_digits s" for s
  proof (induction s rule: rev_induct)
    case Nil
    show ?case by code_simp
  next
    case (snoc c s)
    then show ?case using nat_of_digits_snoc [of "CHR ''0'' # s" c] nat_of_digits_snoc [of s c] by simp
  qed
  then show "list_all is_digit (two_digits n)" "two_digits n \<noteq> []" "nat_of_digits (two_digits n) = n"
    using zero by (simp_all add: two_digits_def show_nat_digits show_nat_nonempty nat_of_digits_show)
qed

lemma number_after_append:
  "s \<noteq> [] \<Longrightarrow> list_all is_digit s \<Longrightarrow> number_after pre (pre @ s) = Some (nat_of_digits s)"
  by (simp add: number_after_def starts_with_append)

text \<open>The names given to a new device and a new interface are not in use.\<close>

lemma next_names_fresh: "next_vlanif names \<notin> set names" "next_opt_name names \<notin> set names"
proof -
  have "number_after ''vlan'' (next_vlanif names) = Some (next_number ''vlan'' names)"
    unfolding next_vlanif_def by (subst number_after_append) (simp_all add: digits_two_digits)
  then show "next_vlanif names \<notin> set names" using next_number_gt by blast
  have "number_after ''opt'' (next_opt_name names) = Some (next_number ''opt'' names)"
    unfolding next_opt_name_def by (subst number_after_append) (simp_all add: show_nat_nonempty show_nat_digits nat_of_digits_show)
  then show "next_opt_name names \<notin> set names" using next_number_gt by blast
qed


section \<open>Which machine is configured\<close>

text \<open>Two environments that answer alike for one machine.\<close>

definition same_machine :: "int \<Rightarrow> 'w cfg_calls \<Rightarrow> 'w cfg_calls \<Rightarrow> bool" where
  "same_machine vm c c' \<longleftrightarrow>
     cf_run c vm = cf_run c' vm \<and> cf_vlans c vm = cf_vlans c' vm \<and> cf_names c vm = cf_names c' vm \<and>
     cf_opt_for c vm = cf_opt_for c' vm \<and> cf_ip c vm = cf_ip c' vm \<and> cf_set_ip c vm = cf_set_ip c' vm \<and>
     cf_add_vlan c vm = cf_add_vlan c' vm \<and> cf_add_opt c vm = cf_add_opt c' vm \<and>
     cf_create_iface c vm = cf_create_iface c' vm \<and> cf_reload c vm = cf_reload c' vm"

lemma exec_same_machine: "run vm = run' vm \<Longrightarrow> exec_opnsense_api run vm = exec_opnsense_api run' vm"
  by (intro ext) (simp add: exec_opnsense_api_def split: option.split)

lemma kea_same_machine:
  assumes "run vm = run' vm"
  shows "setup_kea_dhcp run vm = setup_kea_dhcp run' vm"
  unfolding fun_eq_iff setup_kea_dhcp_def exec_same_machine [of run vm run', OF assms] by simp

lemma provision_same_machine:
  assumes "same_machine (args_vm a) c c'"
  shows "provision_vlan c a key secret w = provision_vlan c' a key secret w"
proof -
  note same = assms [unfolded same_machine_def]
  have ip: "cf_ip c (args_vm a) = cf_ip c' (args_vm a)" and set_ip: "cf_set_ip c (args_vm a) = cf_set_ip c' (args_vm a)"
    and opt_for: "cf_opt_for c (args_vm a) = cf_opt_for c' (args_vm a)"
    and devs: "cf_vlans c (args_vm a) = cf_vlans c' (args_vm a)" and names: "cf_names c (args_vm a) = cf_names c' (args_vm a)"
    and add_vlan: "cf_add_vlan c (args_vm a) = cf_add_vlan c' (args_vm a)" and add_opt: "cf_add_opt c (args_vm a) = cf_add_opt c' (args_vm a)"
    and create: "cf_create_iface c (args_vm a) = cf_create_iface c' (args_vm a)" and reload: "cf_reload c (args_vm a) = cf_reload c' (args_vm a)"
    using same by blast+
  have reuse: "reuse_vlan c a = reuse_vlan c' a" and new: "new_vlan c a = new_vlan c' a"
    unfolding fun_eq_iff reuse_vlan_def new_vlan_def Let_def ip set_ip opt_for add_vlan add_opt create reload by simp_all
  have "configure_vlan c a w = configure_vlan c' a w" unfolding configure_vlan_def reuse new devs names ..
  moreover have "setup_kea_dhcp (cf_run c) (args_vm a) = setup_kea_dhcp (cf_run c') (args_vm a)"
    using assms by (intro kea_same_machine) (simp add: same_machine_def)
  ultimately show ?thesis by (simp add: provision_vlan_def)
qed

text \<open>
  The VLAN of a new network is set up on the default firewall machine, whatever machine the tenant has:
  the task that is queued names no machine, and the run depends on nothing but what the default machine
  answers.
\<close>

theorem vlan_on_default_machine:
  assumes "same_machine DEFAULT_OPNSENSE_VM_ID c c'"
  shows "create_opnsense_vlan c retries (queued_vlan tid tag ip subnet) s =
    create_opnsense_vlan c' retries (queued_vlan tid tag ip subnet) s"
proof -
  have vm: "args_vm (queued_vlan tid tag ip subnet) = DEFAULT_OPNSENSE_VM_ID"
    by (simp add: args_vm_def queued_vlan_def truthy_id_def)
  have "provision_vlan c (queued_vlan tid tag ip subnet) = provision_vlan c' (queued_vlan tid tag ip subnet)"
    by (intro ext provision_same_machine) (simp add: vm assms)
  then show ?thesis unfolding create_opnsense_vlan_def by (simp only:)
qed

section \<open>What happens to the networks\<close>

lemma save_network_frame [row_simps, simp]:
  "tenants (save_network i f d) = tenants d" "networks (save_network i f d) = upd_rows n_id i f (networks d)"
  by (simp_all add: save_network_def)

lemma waiting_network_Some:
  "waiting_network tid tag d = Some n \<Longrightarrow> n \<in> set (networks d) \<and> n_tenant_id n = tid \<and> n_vlan_id n = Some tag \<and>
    n_status n \<in> {''active'', ''pending''}"
  by (auto simp: waiting_network_def dest: first_row_Some)

text \<open>The end of a run for a network that waits for it: active with its interface, or in error.\<close>

lemma vlan_task_marks:
  assumes "waiting_network (va_tenant_id a) (va_vlan_tag a) d = Some n"
    and "first_row (\<lambda>t. t_id t = va_tenant_id a) (tenants d) = Some t"
    and "create_opnsense_vlan c retries a (d, w) = (reply, d', w')"
  shows "(\<exists>vlanif opt. reply = vlan_result a vlanif opt \<and>
        networks d' = upd_rows n_id (n_id n) (\<lambda>x. x\<lparr>n_status := ''active'', n_opnsense_interface := Some opt\<rparr>)
          (upd_rows n_id (n_id n) (\<lambda>x. x\<lparr>n_status := ''provisioning''\<rparr>) (networks d))) \<or>
    (\<exists>e ns. reply = retry_or_crash retries 3 e \<and> networks d' = upd_rows n_id (n_id n) (\<lambda>x. x\<lparr>n_status := ''error''\<rparr>) ns \<and>
        (ns = networks d \<or> ns = upd_rows n_id (n_id n) (\<lambda>x. x\<lparr>n_status := ''provisioning''\<rparr>) (networks d)))"
proof (cases "vlan_credentials a t")
  case (Inl e)
  with assms have "reply = retry_or_crash retries 3 e" "networks d' = upd_rows n_id (n_id n) (\<lambda>x. x\<lparr>n_status := ''error''\<rparr>) (networks d)"
    by (auto simp: create_opnsense_vlan_def Let_def)
  then show ?thesis by blast
next
  case (Inr cred)
  obtain key secret where cred: "cred = (key, secret)" by (cases cred)
  obtain out w1 where run: "provision_vlan c a key secret w = (out, w1)" by fastforce
  show ?thesis
  proof (cases out)
    case (Inl e)
    with assms \<open>vlan_credentials a t = Inr cred\<close> cred run have "reply = retry_or_crash retries 3 e"
      "networks d' = upd_rows n_id (n_id n) (\<lambda>x. x\<lparr>n_status := ''error''\<rparr>)
        (upd_rows n_id (n_id n) (\<lambda>x. x\<lparr>n_status := ''provisioning''\<rparr>) (networks d))"
      by (auto simp: create_opnsense_vlan_def Let_def)
    then show ?thesis by blast
  next
    case (Inr found)
    obtain vlanif opt where found: "found = (vlanif, opt)" by (cases found)
    with Inr assms \<open>vlan_credentials a t = Inr cred\<close> cred run have "reply = vlan_result a vlanif opt"
      "networks d' = upd_rows n_id (n_id n) (\<lambda>x. x\<lparr>n_status := ''active'', n_opnsense_interface := Some opt\<rparr>)
        (upd_rows n_id (n_id n) (\<lambda>x. x\<lparr>n_status := ''provisioning''\<rparr>) (networks d))"
      by (auto simp: create_opnsense_vlan_def Let_def)
    then show ?thesis by blast
  qed
qed


text \<open>
  A network whose VLAN fails once is lost. The failure marks it as being in error, so the next attempt
  does not find it; that attempt takes the VLAN tag for the number of a network, and when it succeeds it
  marks the network with that number, whoever owns it, as active, and leaves the right one in error.
\<close>

theorem vlan_retry_marks_wrong_network:
  assumes "waiting_network tid tag d = Some n" "distinct_keys n_id (networks d)" "n_id n \<noteq> tag"
    and "\<forall>x \<in> set (networks d). n_tenant_id x = tid \<and> n_vlan_id x = Some tag \<and> n_status x \<in> {''active'', ''pending''} \<longrightarrow> x = n"
    and "first_row (\<lambda>t. t_id t = tid) (tenants d) = Some t"
    and "create_opnsense_vlan c1 k (queued_vlan tid tag ip subnet) (d, w) = (Retried e, d1, w1)"
    and "create_opnsense_vlan c2 k' (queued_vlan tid tag ip subnet) (d1, w2) = (Reply answer, d2, w3)"
    and "m \<in> set (networks d)" "n_id m = tag"
  shows "(\<exists>x \<in> set (networks d2). n_id x = n_id n \<and> n_status x = ''error'') \<and>
    (\<exists>x \<in> set (networks d2). n_id x = tag \<and> n_tenant_id x = n_tenant_id m \<and> n_status x = ''active'' \<and> n_opnsense_interface x \<noteq> None)"
proof -
  let ?a = "queued_vlan tid tag ip subnet"
  have a: "va_tenant_id ?a = tid" "va_vlan_tag ?a = tag" by (simp_all add: queued_vlan_def)
  from vlan_task_marks [of ?a, unfolded a, OF assms(1,5,6)] obtain ns where ns:
    "networks d1 = upd_rows n_id (n_id n) (\<lambda>x. x\<lparr>n_status := ''error''\<rparr>) ns"
    "ns = networks d \<or> ns = upd_rows n_id (n_id n) (\<lambda>x. x\<lparr>n_status := ''provisioning''\<rparr>) (networks d)"
    by (auto simp: vlan_result_def)
  have "upd_rows n_id (n_id n) (\<lambda>x. x\<lparr>n_status := ''error''\<rparr>) (upd_rows n_id (n_id n) (\<lambda>x. x\<lparr>n_status := ''provisioning''\<rparr>) rs) =
      upd_rows n_id (n_id n) (\<lambda>x. x\<lparr>n_status := ''error''\<rparr>) rs" for rs :: "tenant_network list"
    by (induction rs) simp_all
  with ns have d1: "networks d1 = upd_rows n_id (n_id n) (\<lambda>x. x\<lparr>n_status := ''error''\<rparr>) (networks d)" by auto
  note n = waiting_network_Some [OF assms(1)]
  have lost: "waiting_network tid tag d1 = None"
    unfolding waiting_network_def first_row_None d1 using assms(4) n by (auto simp: set_upd_rows)
  have d2: "\<exists>opt. networks d2 = upd_rows n_id tag (\<lambda>x. x\<lparr>n_status := ''active'', n_opnsense_interface := Some opt\<rparr>) (networks d1)"
    using assms(7) lost a by (auto simp: create_opnsense_vlan_def Let_def retry_or_crash_def split: option.splits sum.splits prod.splits if_splits)
  then obtain opt where d2: "networks d2 = upd_rows n_id tag (\<lambda>x. x\<lparr>n_status := ''active'', n_opnsense_interface := Some opt\<rparr>) (networks d1)" ..
  have "n\<lparr>n_status := ''error''\<rparr> \<in> set (networks d1)" unfolding d1 using n by (intro upd_rows_hit [where f = "\<lambda>x. x\<lparr>n_status := ''error''\<rparr>"]) simp_all
  then have one: "n\<lparr>n_status := ''error''\<rparr> \<in> set (networks d2)" unfolding d2 using assms(3) by (intro upd_rows_other) simp_all
  have "m \<in> set (networks d1)" unfolding d1 using assms(3,8,9) by (intro upd_rows_other) auto
  then have two: "m\<lparr>n_status := ''active'', n_opnsense_interface := Some opt\<rparr> \<in> set (networks d2)"
    unfolding d2 using assms(9) by (intro upd_rows_hit [where f = "\<lambda>x. x\<lparr>n_status := ''active'', n_opnsense_interface := Some opt\<rparr>"]) simp_all
  show ?thesis using one two assms(9) by (intro conjI) (rule bexI, rule_tac [2] one, simp, rule bexI, rule_tac [2] two, simp)
qed


text \<open>Two tenants; the first has a network that waits for VLAN 7, the second one with the number 7.\<close>

definition vlan_tenant :: tenant where
  "vlan_tenant = (new_tenant 1 ''a'' ''a'')\<lparr>t_opnsense_vm_id := Some 9, t_opnsense_api_key := Some ''k'',
     t_opnsense_api_secret := Some ''s'', t_wan_ip := Some ''192.0.2.1''\<rparr>"

definition vlan_net :: "int \<Rightarrow> int \<Rightarrow> int \<Rightarrow> string \<Rightarrow> tenant_network" where
  "vlan_net i tid tag status =
     \<lparr>n_id = i, n_tenant_id = tid, n_pod_id = 1, n_ip_pool_id = Some i, n_cidr = ''10.0.4.0/24'', n_gateway_ip = ''10.0.4.1'',
      n_vlan_id = Some tag, n_name = ''net'', n_is_default = False, n_status = status, n_provider_ref = None,
      n_opnsense_interface = None\<rparr>"

definition vlan_db :: db where
  "vlan_db = empty_db\<lparr>tenants := [vlan_tenant], networks := [vlan_net 1 1 7 ''pending'', vlan_net 7 2 8 ''deleted'']\<rparr>"

definition good_cfg :: "unit cfg_calls" where
  "good_cfg = \<lparr>cf_run = (\<lambda>vm cmd. ok \<lparr>xr_out = '''', xr_err = '''', xr_exitcode = 0\<rparr>), cf_vlans = (\<lambda>vm. ok []),
     cf_names = (\<lambda>vm. ok [''wan'', ''lan'']), cf_opt_for = (\<lambda>vm v. ok None), cf_ip = (\<lambda>vm nm. ok (None, None)),
     cf_set_ip = (\<lambda>vm nm ip n. ok ()), cf_add_vlan = (\<lambda>vm v. ok ()), cf_add_opt = (\<lambda>vm nm v ip n descr. ok ()),
     cf_create_iface = (\<lambda>vm v ip n. ok ()), cf_reload = (\<lambda>vm. ok ()), cf_remove = (\<lambda>vm tag p. ok ())\<rparr>"

definition down_cfg :: "unit cfg_calls" where
  "down_cfg = good_cfg\<lparr>cf_vlans := (\<lambda>vm. raise (RuntimeError ''no agent''))\<rparr>"

lemma good_exec: "exec_opnsense_api (cf_run good_cfg) vm m p (Some k) (Some x) body w = ok (JObj []) w"
proof -
  have "strip '''' = ''''" by code_simp
  then show ?thesis by (simp add: exec_opnsense_api_def good_cfg_def then_do_def ok_def api_answer_def Let_def)
qed

lemma parse_vlan_gateway: "parse_network ''10.0.4.1/24'' = Some \<lparr>net_base = 167773184, net_prefix = 24\<rparr>"
  by (simp add: parse_ipv4_def parse_network_def parse_octet_def block_size_def nat_of_digits_def digit_val_def is_digit_def)

lemma good_provision: "\<exists>v opt. provision_vlan good_cfg (queued_vlan 1 7 ''10.0.4.1'' 24) (Some k) (Some x) w = ok (v, opt) w"
proof -
  let ?a = "queued_vlan 1 7 ''10.0.4.1'' 24"
  have calls: "cf_vlans good_cfg vm u = ok [] u" "cf_names good_cfg vm u = ok [''wan'', ''lan''] u" "cf_add_vlan good_cfg vm e u = ok () u"
    "cf_add_opt good_cfg vm nm v ip n ds u = ok () u" "cf_create_iface good_cfg vm e ip n u = ok () u" "cf_reload good_cfg vm u = ok () u"
    for vm u e nm v ip n ds by (simp_all add: good_cfg_def)
  have conf: "\<exists>v opt. configure_vlan good_cfg ?a w = ok (v, opt) w"
    unfolding configure_vlan_def new_vlan_def Let_def calls then_do_simps by (simp add: calls ok_def)
  have "kea_interfaces (JObj []) = Inr []" by code_simp
  moreover have "va_ip_address ?a @ CHR ''/'' # show_int (va_subnet ?a) = ''10.0.4.1/24''" by code_simp
  ultimately have kea: "\<exists>s. setup_kea_dhcp (cf_run good_cfg) vm (Some k) (Some x) opt gw (va_ip_address ?a @ CHR ''/'' # show_int (va_subnet ?a)) lo hi w = ok s w"
    for vm opt gw lo hi by (simp only: setup_kea_dhcp_def good_exec then_do_simps sum.case parse_vlan_gateway option.case Let_def) (rule exI, rule refl)
  from conf obtain v opt where conf: "configure_vlan good_cfg ?a w = ok (v, opt) w" by blast
  obtain s where "setup_kea_dhcp (cf_run good_cfg) (args_vm ?a) (Some k) (Some x) opt (va_ip_address ?a)
      (va_ip_address ?a @ CHR ''/'' # show_int (va_subnet ?a)) (dhcp_bound (va_dhcp_start ?a) (va_ip_address ?a) ''10'')
      (dhcp_bound (va_dhcp_end ?a) (va_ip_address ?a) ''200'') w = ok s w"
    using kea by blast
  then have "provision_vlan good_cfg ?a (Some k) (Some x) w = ok (v, opt) w"
    unfolding provision_vlan_def conf then_do_simps prod.case by (simp only: then_do_simps)
  then show ?thesis by blast
qed

lemma vlan_retry_marks_wrong_network_witness:
  "\<exists>d1 d2 e answer. create_opnsense_vlan down_cfg 0 (queued_vlan 1 7 ''10.0.4.1'' 24) (vlan_db, ()) = (Retried e, d1, ()) \<and>
     create_opnsense_vlan good_cfg 1 (queued_vlan 1 7 ''10.0.4.1'' 24) (d1, ()) = (Reply answer, d2, ()) \<and>
     (\<exists>x \<in> set (networks d2). n_id x = 1 \<and> n_status x = ''error'') \<and>
     (\<exists>x \<in> set (networks d2). n_id x = 7 \<and> n_tenant_id x = 2 \<and> n_status x = ''active'')"
proof -
  let ?a = "queued_vlan 1 7 ''10.0.4.1'' 24"
  have start: "waiting_network 1 7 vlan_db = Some (vlan_net 1 1 7 ''pending'')" "distinct_keys n_id (networks vlan_db)"
    "first_row (\<lambda>t. t_id t = 1) (tenants vlan_db) = Some vlan_tenant" "n_id (vlan_net 1 1 7 ''pending'') = 1"
    by code_simp+
  have only: "\<forall>x \<in> set (networks vlan_db). n_tenant_id x = 1 \<and> n_vlan_id x = Some 7 \<and> n_status x \<in> {''active'', ''pending''} \<longrightarrow>
      x = vlan_net 1 1 7 ''pending''"
    by (simp add: vlan_db_def vlan_net_def)
  have creds: "vlan_credentials ?a vlan_tenant = Inr (Some ''k'', Some ''s'')" by code_simp
  have a: "va_tenant_id ?a = 1" "va_vlan_tag ?a = 7" by (simp_all add: queued_vlan_def)
  have "\<exists>d1. create_opnsense_vlan down_cfg 0 ?a (vlan_db, ()) = (Retried (RuntimeError ''no agent''), d1, ()) \<and>
      tenants d1 = [vlan_tenant]"
    by (simp add: create_opnsense_vlan_def a start creds Let_def provision_vlan_def configure_vlan_def down_cfg_def retry_or_crash_def
        raise_def then_do_def) (simp add: vlan_db_def)
  then obtain d1 where d1: "create_opnsense_vlan down_cfg 0 ?a (vlan_db, ()) = (Retried (RuntimeError ''no agent''), d1, ())"
    "tenants d1 = [vlan_tenant]" by blast
  have "first_row (\<lambda>t. t_id t = 1) [vlan_tenant] = Some vlan_tenant" by code_simp
  then have "\<exists>answer d2. create_opnsense_vlan good_cfg 1 ?a (d1, ()) = (Reply answer, d2, ())"
    using good_provision [of "''k''" "''s''" "()"]
    by (auto simp: create_opnsense_vlan_def a d1(2) creds Let_def vlan_result_def ok_def)
  then obtain answer d2 where d2: "create_opnsense_vlan good_cfg 1 ?a (d1, ()) = (Reply answer, d2, ())" by blast
  have "vlan_net 7 2 8 ''deleted'' \<in> set (networks vlan_db)" "n_id (vlan_net 7 2 8 ''deleted'') = 7" "n_tenant_id (vlan_net 7 2 8 ''deleted'') = 2"
    by (simp_all add: vlan_db_def vlan_net_def)
  from vlan_retry_marks_wrong_network [OF start(1,2) _ only start(3) d1(1) d2 this(1,2)] this(3) start(4)
  have "(\<exists>x \<in> set (networks d2). n_id x = 1 \<and> n_status x = ''error'') \<and>
     (\<exists>x \<in> set (networks d2). n_id x = 7 \<and> n_tenant_id x = 2 \<and> n_status x = ''active'')" by auto
  with d1(1) d2 show ?thesis by blast
qed

lemma vlan_on_default_machine_witness:
  "create_opnsense_vlan good_cfg 0 (queued_vlan 1 7 ''10.0.4.1'' 24) (vlan_db, ()) =
   create_opnsense_vlan (good_cfg\<lparr>cf_vlans := (\<lambda>vm. if vm = 9 then raise (RuntimeError ''wrong machine'') else ok [])\<rparr>) 0
     (queued_vlan 1 7 ''10.0.4.1'' 24) (vlan_db, ()) \<and>
   map t_opnsense_vm_id (tenants vlan_db) = [Some 9]"
proof -
  have "same_machine DEFAULT_OPNSENSE_VM_ID good_cfg (good_cfg\<lparr>cf_vlans := (\<lambda>vm. if vm = 9 then raise (RuntimeError ''wrong machine'') else ok [])\<rparr>)"
    by (simp add: same_machine_def good_cfg_def DEFAULT_OPNSENSE_VM_ID_def)
  moreover have "map t_opnsense_vm_id (tenants vlan_db) = [Some 9]" by code_simp
  ultimately show ?thesis using vlan_on_default_machine by blast
qed

end
