(* ===== verification/Opnsense_Config.thy ===== *)
theory Opnsense_Config
  imports Vlan_Tasks "HOL-Library.AList"
begin

text \<open>
  The configuration file of the firewall (\<open>app/workers/modules/opnsense_config_invm.py\<close>).

  \<open>OPNsenseConfigInVM\<close> never moves the file: each call writes a small PHP script into the machine and runs
  it there. A script is modelled by what it does, a function from the file to what it prints and the new file;
  \<open>None\<close> is a file that cannot be loaded. A PHP string such as \<open>'{opt_name}'\<close> is taken to be its text: the
  tasks only pass names, addresses and numbers. Only the sections \<open>vlans\<close> and \<open>interfaces\<close> are kept, because
  no script looks at another; \<open>(int)\<close> reads the digits at the start of a text. \<open>die\<close> with a message ends a script with exit code 0, so its message comes back like an
  ordinary answer. Calls of the guest agent can fail: \<open>cw_faults\<close> says how each of the next ones does, and
  whether the command was carried out before. The DHCP server's own file and the LAN and WAN scripts are left
  out: no VLAN task uses them.
\<close>

section \<open>XML as the scripts see it\<close>

type_synonym element = "(string \<times> string) list"

record fw_config =
  fc_vlans :: "element list option"
  fc_ifaces :: "(string \<times> element) list option"

definition text_of :: "string \<Rightarrow> element \<Rightarrow> string" where
  "text_of k e = (case map_of e k of None \<Rightarrow> '''' | Some t \<Rightarrow> t)"

definition put_texts :: "(string \<times> string) list \<Rightarrow> element \<Rightarrow> element" where
  "put_texts ts e = fold (\<lambda>(k, t). AList.update k t) ts e"

definition set_default :: "string \<Rightarrow> string \<Rightarrow> element \<Rightarrow> element" where
  "set_default k t e = (if map_of e k = None then e @ [(k, t)] else AList.update k t e)"

definition php_int :: "string \<Rightarrow> int" where
  "php_int s =
     (case lstrip s of
        [] \<Rightarrow> 0
      | c # r \<Rightarrow>
          (if c = CHR ''-'' then - int (nat_of_digits (takeWhile is_digit r))
           else if c = CHR ''+'' then int (nat_of_digits (takeWhile is_digit r))
           else int (nat_of_digits (takeWhile is_digit (c # r)))))"

fun upd_first :: "('a \<Rightarrow> bool) \<Rightarrow> ('a \<Rightarrow> 'a) \<Rightarrow> 'a list \<Rightarrow> 'a list" where
  "upd_first P f [] = []"
| "upd_first P f (x # xs) = (if P x then f x # xs else x # upd_first P f xs)"

fun drop_first :: "('a \<Rightarrow> bool) \<Rightarrow> 'a list \<Rightarrow> 'a list" where
  "drop_first P [] = []"
| "drop_first P (x # xs) = (if P x then xs else x # drop_first P xs)"

definition line_feed :: char where
  "line_feed = char_of (10 :: nat)"

section \<open>The guest agent\<close>

datatype fault = Fine | Refused py_exc | Lost py_exc | Broken string

record cfg_world =
  cw_files :: "int \<Rightarrow> fw_config option"
  cw_faults :: "fault list"
  cw_shell :: "int \<Rightarrow> string \<Rightarrow> exec_result"

definition printed :: "string \<Rightarrow> exec_result" where
  "printed s = \<lparr>xr_out = s, xr_err = '''', xr_exitcode = 0\<rparr>"

definition exec_vm :: "(cfg_world \<Rightarrow> exec_result \<times> cfg_world) \<Rightarrow> cfg_world \<Rightarrow> (exec_result, cfg_world) result" where
  "exec_vm run w =
     (let w0 = w\<lparr>cw_faults := tl (cw_faults w)\<rparr>
      in case cw_faults w of
           Refused e # _ \<Rightarrow> raise e w0
         | Lost e # _ \<Rightarrow> raise e (snd (run w0))
         | Broken err # _ \<Rightarrow> ok \<lparr>xr_out = '''', xr_err = err, xr_exitcode = 1\<rparr> w0
         | _ \<Rightarrow> (let (r, w1) = run w0 in ok r w1))"

type_synonym script = "fw_config option \<Rightarrow> string \<times> fw_config option"

definition write_script :: "cfg_world \<Rightarrow> (exec_result, cfg_world) result" where
  "write_script w = exec_vm (\<lambda>w1. (printed '''', w1)) w"

definition php :: "int \<Rightarrow> script \<Rightarrow> cfg_world \<Rightarrow> exec_result \<times> cfg_world" where
  "php vm script w =
     (let (out, file) = script (cw_files w vm) in (printed out, w\<lparr>cw_files := (cw_files w)(vm := file)\<rparr>))"

definition php_answer :: "string \<Rightarrow> int \<Rightarrow> exec_result \<Rightarrow> cfg_world \<Rightarrow> (string, cfg_world) result" where
  "php_answer what vm r w =
     (let out = strip (xr_out r); err = strip (xr_err r)
      in if xr_exitcode r \<noteq> 0 \<or> err \<noteq> []
         then raise (RuntimeError (what @ '' failed on VM '' @ show_int vm @ '' (exit='' @ show_int (xr_exitcode r) @ '')'' @ line_feed # 
                ''STDOUT: '' @ out @ line_feed #  ''STDERR: '' @ err)) w
         else ok out w)"

definition run_php :: "int \<Rightarrow> script \<Rightarrow> cfg_world \<Rightarrow> (string, cfg_world) result" where
  "run_php vm script w =
     then_do (write_script w) (\<lambda>_ w1. then_do (exec_vm (php vm script) w1) (php_answer ''PHP script'' vm))"

definition run_read_only_php :: "int \<Rightarrow> (fw_config option \<Rightarrow> string) \<Rightarrow> cfg_world \<Rightarrow> (string, cfg_world) result" where
  "run_read_only_php vm script w =
     then_do (write_script w) (\<lambda>_ w1. then_do (exec_vm (php vm (\<lambda>f. (script f, f))) w1) (php_answer ''Read PHP script'' vm))"

definition run_shell :: "int \<Rightarrow> string \<Rightarrow> cfg_world \<Rightarrow> (exec_result, cfg_world) result" where
  "run_shell vm cmd w = exec_vm (\<lambda>w1. (cw_shell w1 vm cmd, w1)) w"

section \<open>Reading\<close>

definition cannot_load :: string where
  "cannot_load = ''Cannot load config.xml''"

definition vlan_line :: "element \<Rightarrow> string" where
  "vlan_line v = join_with ''|'' (map (\<lambda>k. text_of k v) [''tag'', ''if'', ''vlanif'', ''descr''])"

definition vlan_list_script :: "fw_config option \<Rightarrow> string" where
  "vlan_list_script file =
     (case file of None \<Rightarrow> cannot_load
      | Some c \<Rightarrow> (case fc_vlans c of None \<Rightarrow> '''' | Some vs \<Rightarrow> join_with [line_feed] (map vlan_line vs)))"

text \<open>\<open>str.splitlines()\<close> and \<open>str.split(c, n)\<close>.\<close>

definition is_line_end :: "char \<Rightarrow> bool" where
  "is_line_end c \<longleftrightarrow> (of_char c :: nat) \<in> {10, 11, 12, 13, 28, 29, 30}"

fun lines_from :: "string \<Rightarrow> string \<Rightarrow> string list" where
  "lines_from acc [] = (if acc = [] then [] else [rev acc])"
| "lines_from acc (c # s) =
     (if is_line_end c
      then rev acc # (if c = char_of (13 :: nat) \<and> (case s of [] \<Rightarrow> False | b # _ \<Rightarrow> b = line_feed)
                      then lines_from [] (tl s) else lines_from [] s)
      else lines_from (c # acc) s)"

definition splitlines :: "string \<Rightarrow> string list" where
  "splitlines s = lines_from [] s"

fun split_max :: "char \<Rightarrow> nat \<Rightarrow> string \<Rightarrow> string list" where
  "split_max c 0 s = [s]"
| "split_max c (Suc n) s =
     (if c \<in> set s then takeWhile (\<lambda>x. x \<noteq> c) s # split_max c n (tl (dropWhile (\<lambda>x. x \<noteq> c) s)) else [s])"

definition bad_int :: "string \<Rightarrow> py_exc" where
  "bad_int s = ValueError (''invalid literal for int() with base 10: '' @ repr_str s)"

fun read_vlans :: "string list \<Rightarrow> py_exc + vlan_entry list" where
  "read_vlans [] = Inr []"
| "read_vlans (l # ls) =
     (case split_max CHR ''|'' 3 l of
        [tag, parent, vlanif, descr] \<Rightarrow>
          (if strip l = [] \<or> strip tag = [] then read_vlans ls
           else case py_int tag of
             None \<Rightarrow> Inl (bad_int tag)
           | Some t \<Rightarrow> map_sum id (Cons \<lparr>ve_tag = t, ve_parent = parent, ve_vlanif = vlanif, ve_descr = descr\<rparr>) (read_vlans ls))
      | _ \<Rightarrow> read_vlans ls)"

definition get_vlan_list :: "int \<Rightarrow> cfg_world \<Rightarrow> (vlan_entry list, cfg_world) result" where
  "get_vlan_list vm w =
     then_do (run_read_only_php vm vlan_list_script w) (\<lambda>raw w1. (read_vlans (splitlines raw), w1))"

definition ifaces_of :: "fw_config \<Rightarrow> (string \<times> element) list" where
  "ifaces_of c = (case fc_ifaces c of None \<Rightarrow> [] | Some is \<Rightarrow> is)"

definition names_script :: "fw_config option \<Rightarrow> string" where
  "names_script file = (case file of None \<Rightarrow> cannot_load | Some c \<Rightarrow> join_with '','' (map fst (ifaces_of c)))"

definition get_interface_names :: "int \<Rightarrow> cfg_world \<Rightarrow> (string list, cfg_world) result" where
  "get_interface_names vm w =
     then_do (run_read_only_php vm names_script w) (\<lambda>raw. ok (filter (\<lambda>n. strip n \<noteq> []) (split_on CHR '','' raw)))"

definition opt_for_script :: "string \<Rightarrow> fw_config option \<Rightarrow> string" where
  "opt_for_script vlanif file =
     (case file of None \<Rightarrow> cannot_load
      | Some c \<Rightarrow> (case find (\<lambda>(nm, e). text_of ''if'' e = vlanif) (ifaces_of c) of None \<Rightarrow> '''' | Some (nm, _) \<Rightarrow> nm))"

definition get_opt_for_vlanif :: "int \<Rightarrow> string \<Rightarrow> cfg_world \<Rightarrow> (string option, cfg_world) result" where
  "get_opt_for_vlanif vm vlanif w =
     then_do (run_read_only_php vm (opt_for_script vlanif) w) (\<lambda>raw. ok (if strip raw = [] then None else Some (strip raw)))"

definition get_interface_ip :: "int \<Rightarrow> string \<Rightarrow> cfg_world \<Rightarrow> (string option, cfg_world) result" where
  "get_interface_ip vm opt w =
     then_do (run_read_only_php vm (\<lambda>file. case file of None \<Rightarrow> cannot_load
       | Some c \<Rightarrow> (case map_of (ifaces_of c) opt of None \<Rightarrow> '''' | Some e \<Rightarrow> text_of ''ipaddr'' e)) w)
       (\<lambda>raw. ok (if strip raw = [] then None else Some (strip raw)))"

definition ip_subnet_script :: "string \<Rightarrow> fw_config option \<Rightarrow> string" where
  "ip_subnet_script opt file =
     (case file of None \<Rightarrow> cannot_load
      | Some c \<Rightarrow> (case map_of (ifaces_of c) opt of None \<Rightarrow> ''''
          | Some e \<Rightarrow> text_of ''ipaddr'' e @ CHR ''|'' # text_of ''subnet'' e))"

definition ip_subnet_answer :: "string \<Rightarrow> py_exc + string option \<times> int option" where
  "ip_subnet_answer raw =
     (if strip raw = [] then Inr (None, None)
      else (case split_on CHR ''|'' (strip raw) of
              ip # subnet # _ \<Rightarrow> (case py_int subnet of None \<Rightarrow> Inl (bad_int subnet) | Some n \<Rightarrow> Inr (Some ip, Some n))
            | ip # _ \<Rightarrow> Inr (Some ip, None)
            | [] \<Rightarrow> Inr (None, None)))"

definition get_interface_ip_and_subnet ::
  "int \<Rightarrow> string \<Rightarrow> cfg_world \<Rightarrow> (string option \<times> int option, cfg_world) result" where
  "get_interface_ip_and_subnet vm opt w =
     then_do (run_read_only_php vm (ip_subnet_script opt) w) (\<lambda>raw w1. (ip_subnet_answer raw, w1))"

section \<open>Verifying\<close>

definition quoted :: "string \<Rightarrow> string" where
  "quoted s = quote_char # s @ [quote_char]"

definition is_vlan :: "int \<Rightarrow> string \<Rightarrow> element \<Rightarrow> bool" where
  "is_vlan tag parent v \<longleftrightarrow> php_int (text_of ''tag'' v) = tag \<and> text_of ''if'' v = parent"

definition vlan_exists_script :: "int \<Rightarrow> string \<Rightarrow> string \<Rightarrow> fw_config option \<Rightarrow> string" where
  "vlan_exists_script tag parent vlanif file =
     (case file of None \<Rightarrow> ''VERIFY FAILED: cannot load config.xml''
      | Some c \<Rightarrow>
          (case fc_vlans c of None \<Rightarrow> ''VERIFY FAILED: no <vlans> section exists''
           | Some vs \<Rightarrow>
               (if \<exists>v \<in> set vs. is_vlan tag parent v \<and> text_of ''vlanif'' v = vlanif then ''ok''
                else ''VERIFY FAILED: vlan tag='' @ show_int tag @ '' parent_if='' @ parent @ '' vlanif='' @ vlanif @ '' not found in config.xml'')))"

definition must_be_ok :: "string \<Rightarrow> int \<Rightarrow> (string, cfg_world) result \<Rightarrow> (unit, cfg_world) result" where
  "must_be_ok what vm r =
     then_do r (\<lambda>out w. if out \<noteq> ''ok''
       then raise (RuntimeError (what @ '' verify unexpected output on VM '' @ show_int vm @ '': '' @ out)) w else ok () w)"

definition verify_vlan_exists :: "int \<Rightarrow> int \<Rightarrow> string \<Rightarrow> string \<Rightarrow> cfg_world \<Rightarrow> (unit, cfg_world) result" where
  "verify_vlan_exists vm tag parent vlanif w = must_be_ok ''vlan'' vm (run_read_only_php vm (vlan_exists_script tag parent vlanif) w)"

definition opt_exists_script :: "string \<Rightarrow> string \<Rightarrow> string \<Rightarrow> fw_config option \<Rightarrow> string" where
  "opt_exists_script opt vlanif ip file =
     (case file of None \<Rightarrow> ''VERIFY FAILED: cannot load config.xml''
      | Some c \<Rightarrow>
          (case fc_ifaces c of None \<Rightarrow> ''VERIFY FAILED: no <interfaces> section exists''
           | Some is \<Rightarrow>
               (case map_of is opt of
                  None \<Rightarrow> ''VERIFY FAILED: interface '' @ opt @ '' not found in <interfaces>''
                | Some e \<Rightarrow>
                    (if text_of ''if'' e \<noteq> vlanif
                     then ''VERIFY FAILED: '' @ opt @ ''->if is '' @ quoted (text_of ''if'' e) @ '', expected '' @ quoted vlanif
                     else if text_of ''ipaddr'' e \<noteq> ip
                     then ''VERIFY FAILED: '' @ opt @ ''->ipaddr is '' @ quoted (text_of ''ipaddr'' e) @ '', expected '' @ quoted ip
                     else ''ok''))))"

definition verify_opt_exists :: "int \<Rightarrow> string \<Rightarrow> string \<Rightarrow> string \<Rightarrow> cfg_world \<Rightarrow> (unit, cfg_world) result" where
  "verify_opt_exists vm opt vlanif ip w = must_be_ok ''opt'' vm (run_read_only_php vm (opt_exists_script opt vlanif ip) w)"

definition vlan_removed_script :: "int \<Rightarrow> string \<Rightarrow> fw_config option \<Rightarrow> string" where
  "vlan_removed_script tag parent file =
     (case file of None \<Rightarrow> ''VERIFY FAILED: cannot load config.xml''
      | Some c \<Rightarrow>
          (case fc_vlans c of None \<Rightarrow> ''ok''
           | Some vs \<Rightarrow>
               (if \<exists>v \<in> set vs. is_vlan tag parent v
                then ''VERIFY FAILED: vlan tag='' @ show_int tag @ '' parent_if='' @ parent @ '' still present after removal''
                else ''ok'')))"

definition verify_vlan_removed :: "int \<Rightarrow> int \<Rightarrow> string \<Rightarrow> cfg_world \<Rightarrow> (unit, cfg_world) result" where
  "verify_vlan_removed vm tag parent w = must_be_ok ''vlan removal'' vm (run_read_only_php vm (vlan_removed_script tag parent) w)"

definition interface_ip_script :: "string \<Rightarrow> string \<Rightarrow> int \<Rightarrow> fw_config option \<Rightarrow> string" where
  "interface_ip_script opt ip subnet file =
     (case file of None \<Rightarrow> ''VERIFY FAILED: cannot load config.xml''
      | Some c \<Rightarrow>
          (case map_of (ifaces_of c) opt of
             None \<Rightarrow> ''VERIFY FAILED: interface '' @ opt @ '' not found''
           | Some e \<Rightarrow>
               (if text_of ''ipaddr'' e \<noteq> ip
                then ''VERIFY FAILED: '' @ opt @ ''->ipaddr is '' @ quoted (text_of ''ipaddr'' e) @ '', expected '' @ quoted ip
                else if php_int (text_of ''subnet'' e) \<noteq> subnet
                then ''VERIFY FAILED: '' @ opt @ ''->subnet is '' @ quoted (text_of ''subnet'' e) @ '', expected '' @ quoted (show_int subnet)
                else ''ok'')))"

definition verify_interface_ip :: "int \<Rightarrow> string \<Rightarrow> string \<Rightarrow> int \<Rightarrow> cfg_world \<Rightarrow> (unit, cfg_world) result" where
  "verify_interface_ip vm opt ip subnet w = must_be_ok ''interface ip'' vm (run_read_only_php vm (interface_ip_script opt ip subnet) w)"

section \<open>Writing\<close>

definition filled_vlan :: "vlan_entry \<Rightarrow> element \<Rightarrow> element" where
  "filled_vlan v =
     put_texts [(''if'', ve_parent v), (''tag'', show_int (ve_tag v)), (''pcp'', ''0''), (''proto'', ''''), (''descr'', ve_descr v),
       (''vlanif'', ve_vlanif v)]"

definition add_vlan_script :: "vlan_entry \<Rightarrow> script" where
  "add_vlan_script v file =
     (case file of None \<Rightarrow> (cannot_load, None)
      | Some c \<Rightarrow>
          (let vs = (case fc_vlans c of None \<Rightarrow> [] | Some vs \<Rightarrow> vs);
               is_it = is_vlan (ve_tag v) (ve_parent v)
           in (''ok: vlan '' @ ve_vlanif v @ '' tag='' @ show_int (ve_tag v),
               Some (c\<lparr>fc_vlans := Some (if list_ex is_it vs then upd_first is_it (filled_vlan v) vs else vs @ [filled_vlan v []])\<rparr>))))"

definition add_vlan_device :: "int \<Rightarrow> vlan_entry \<Rightarrow> cfg_world \<Rightarrow> (unit, cfg_world) result" where
  "add_vlan_device vm v w =
     then_do (run_php vm (add_vlan_script v) w) (\<lambda>_. verify_vlan_exists vm (ve_tag v) (ve_parent v) (ve_vlanif v))"

definition filled_opt :: "string \<Rightarrow> string \<Rightarrow> string \<Rightarrow> int \<Rightarrow> element \<Rightarrow> element" where
  "filled_opt vlanif descr ip subnet e =
     set_default ''blockbogons'' ''0'' (set_default ''blockpriv'' ''0'' (set_default ''ipaddrv6'' ''''
       (put_texts [(''descr'', descr), (''if'', vlanif), (''enable'', ''1''), (''ipaddr'', ip), (''subnet'', show_int subnet)] e)))"

definition add_opt_script :: "string \<Rightarrow> string \<Rightarrow> string \<Rightarrow> string \<Rightarrow> int \<Rightarrow> script" where
  "add_opt_script opt vlanif descr ip subnet file =
     (case file of None \<Rightarrow> (cannot_load, None)
      | Some c \<Rightarrow>
          (case fc_ifaces c of None \<Rightarrow> (''No <interfaces> section in config.xml'', file)
           | Some is \<Rightarrow>
               (let e = (case map_of is opt of None \<Rightarrow> [] | Some e \<Rightarrow> e)
                in (''ok: '' @ opt @ '' -> '' @ vlanif @ CHR '' '' # ip @ CHR ''/'' # show_int subnet,
                    Some (c\<lparr>fc_ifaces := Some (AList.update opt (filled_opt vlanif descr ip subnet e) is)\<rparr>)))))"

definition add_opt_interface :: "int \<Rightarrow> string \<Rightarrow> string \<Rightarrow> string \<Rightarrow> int \<Rightarrow> string \<Rightarrow> cfg_world \<Rightarrow> (unit, cfg_world) result" where
  "add_opt_interface vm opt vlanif ip subnet descr w =
     then_do (run_php vm (add_opt_script opt vlanif (if descr \<noteq> [] then descr else upper opt) ip subnet) w)
       (\<lambda>_. verify_opt_exists vm opt vlanif ip)"

definition set_ip_script :: "string \<Rightarrow> string \<Rightarrow> int \<Rightarrow> script" where
  "set_ip_script opt ip subnet file =
     (case file of None \<Rightarrow> (cannot_load, None)
      | Some c \<Rightarrow>
          (case map_of (ifaces_of c) opt of
             None \<Rightarrow> (''Interface '' @ opt @ '' not found in config.xml'', file)
           | Some e \<Rightarrow> (''ok: '' @ opt @ '' ip='' @ ip @ CHR ''/'' # show_int subnet,
               Some (c\<lparr>fc_ifaces := Some (AList.update opt (put_texts [(''ipaddr'', ip), (''subnet'', show_int subnet)] e) (ifaces_of c))\<rparr>))))"

definition set_interface_ip :: "int \<Rightarrow> string \<Rightarrow> string \<Rightarrow> int \<Rightarrow> cfg_world \<Rightarrow> (unit, cfg_world) result" where
  "set_interface_ip vm opt ip subnet w =
     then_do (run_php vm (set_ip_script opt ip subnet) w) (\<lambda>_. verify_interface_ip vm opt ip subnet)"

section \<open>Removing\<close>

definition vlan_selected :: "int \<Rightarrow> string \<Rightarrow> element \<Rightarrow> bool" where
  "vlan_selected tag parent v \<longleftrightarrow>
     php_int (text_of ''tag'' v) = tag \<and> (parent \<noteq> [] \<longrightarrow> text_of ''if'' v = parent)"

definition remove_vlan_script :: "int \<Rightarrow> string \<Rightarrow> script" where
  "remove_vlan_script tag parent file =
     (case file of None \<Rightarrow> (cannot_load, None)
      | Some c \<Rightarrow>
          (let vs = (case fc_vlans c of None \<Rightarrow> [] | Some vs \<Rightarrow> vs)
           in case find (vlan_selected tag parent) vs of
                None \<Rightarrow> (''not-found: tag='' @ show_int tag, file)
              | Some v \<Rightarrow>
                  (let c1 = c\<lparr>fc_vlans := Some (drop_first (vlan_selected tag parent) vs)\<rparr>;
                       uses_it = (\<lambda>(nm, e). text_of ''if'' e = text_of ''vlanif'' v)
                   in case fc_ifaces c of
                        None \<Rightarrow> (''not-found: tag='' @ show_int tag, Some c1)
                      | Some is \<Rightarrow>
                          (case find uses_it is of
                             None \<Rightarrow> ('''', Some c1)
                           | Some (nm, _) \<Rightarrow>
                               (''removed: tag='' @ show_int tag @ '' vlanif='' @ text_of ''vlanif'' v @ '' iface='' @ nm,
                                Some (c1\<lparr>fc_ifaces := Some (drop_first uses_it is)\<rparr>))))))"

text \<open>The text after the first \<open>sep\<close>, up to the next one.\<close>

fun cut_at :: "string \<Rightarrow> string \<Rightarrow> (string \<times> string) option" where
  "cut_at sep [] = (if sep = [] then Some ([], []) else None)"
| "cut_at sep (c # s) =
     (if starts_with (c # s) sep then Some ([], drop (length sep) (c # s))
      else map_option (\<lambda>(a, b). (c # a, b)) (cut_at sep s))"

definition second_part :: "string \<Rightarrow> string \<Rightarrow> string option" where
  "second_part sep s =
     (case cut_at sep s of None \<Rightarrow> None
      | Some (_, rest) \<Rightarrow> (case cut_at sep rest of None \<Rightarrow> Some rest | Some (a, _) \<Rightarrow> Some a))"

definition first_word :: "string \<Rightarrow> string option" where
  "first_word s = (case lstrip s of [] \<Rightarrow> None | r \<Rightarrow> Some (takeWhile (\<lambda>c. \<not> is_space c) r))"

definition destroy_vlan_iface :: "int \<Rightarrow> string \<Rightarrow> cfg_world \<Rightarrow> (unit, cfg_world) result" where
  "destroy_vlan_iface vm vlanif w = then_do (run_shell vm (''ifconfig '' @ vlanif @ '' destroy'') w) (\<lambda>_. ok ())"

definition remove_vlan :: "int \<Rightarrow> int \<Rightarrow> string \<Rightarrow> cfg_world \<Rightarrow> (unit, cfg_world) result" where
  "remove_vlan vm tag parent w =
     then_do (run_php vm (remove_vlan_script tag parent) w) (\<lambda>out w1.
     then_do (if contains_str out ''removed:''
              then (case second_part ''vlanif='' out of
                  None \<Rightarrow> ok () w1
                | Some part \<Rightarrow> (case first_word part of
                      None \<Rightarrow> raise (OtherError ''list index out of range'') w1
                    | Some vlanif \<Rightarrow> destroy_vlan_iface vm vlanif w1))
              else ok () w1) (\<lambda>_ w2.
       if parent \<noteq> [] then verify_vlan_removed vm tag parent w2 else ok () w2))"

section \<open>Applying\<close>

definition reload_config :: "int \<Rightarrow> cfg_world \<Rightarrow> (unit, cfg_world) result" where
  "reload_config vm w =
     then_do (run_shell vm ''configctl interface reconfigure'' w) (\<lambda>_ w1.
     then_do (run_shell vm ''configctl filter reload'' w1) (\<lambda>_. ok ()))"

definition iface_command :: "vlan_entry \<Rightarrow> string \<Rightarrow> int \<Rightarrow> string" where
  "iface_command v ip subnet =
     (let dq = [dquote_char]; sq = [quote_char]
      in ''ifconfig '' @ ve_vlanif v @ '' destroy 2>/dev/null; NEWNAME=$(ifconfig vlan create) && ifconfig '' @ dq @ ''$NEWNAME'' @ dq @
         '' name '' @ ve_vlanif v @ '' && ifconfig '' @ ve_vlanif v @ '' vlan '' @ show_int (ve_tag v) @ '' vlandev '' @ ve_parent v @
         '' && ifconfig '' @ ve_vlanif v @ '' inet '' @ ip @ CHR ''/'' # show_int subnet @ '' && ifconfig '' @ ve_vlanif v @ '' up && ifconfig '' @
         ve_vlanif v @ '' | grep -q '' @ sq @ ''inet '' @ ip @ sq @ '' && echo '' @ sq @ ''ok'' @ sq @ '' || echo '' @ sq @ ''ip-check-failed'' @ sq)"

definition create_vlan_iface_with_ip :: "int \<Rightarrow> vlan_entry \<Rightarrow> string \<Rightarrow> int \<Rightarrow> cfg_world \<Rightarrow> (unit, cfg_world) result" where
  "create_vlan_iface_with_ip vm v ip subnet w =
     then_do (run_shell vm (iface_command v ip subnet) w) (\<lambda>r w1.
       let out = strip (xr_out r); err = strip (xr_err r)
       in if xr_exitcode r \<noteq> 0 \<or> contains_str out ''ip-check-failed''
          then raise (RuntimeError (''Failed to create VLAN '' @ ve_vlanif v @ '' with IP '' @ ip @ CHR ''/'' # show_int subnet @ '': exit='' @
                 show_int (xr_exitcode r) @ '' out='' @ repr_str out @ '' err='' @ repr_str err)) w1
          else ok () w1)"

text \<open>The calls as the VLAN tasks make them; \<open>run\<close> runs a command of the firewall's own interface.\<close>

definition invm_calls :: "cfg_world vm_run \<Rightarrow> cfg_world cfg_calls" where
  "invm_calls run =
     \<lparr>cf_run = run, cf_vlans = get_vlan_list, cf_names = get_interface_names, cf_opt_for = get_opt_for_vlanif,
      cf_ip = get_interface_ip_and_subnet, cf_set_ip = set_interface_ip, cf_add_vlan = add_vlan_device, cf_add_opt = add_opt_interface,
      cf_create_iface = create_vlan_iface_with_ip, cf_reload = reload_config, cf_remove = remove_vlan\<rparr>"

section \<open>What a call that answers has done\<close>

lemma exec_vm_ok:
  assumes "exec_vm run w = (Inr r, w')"
  obtains (ran) w0 where "cw_files w0 = cw_files w" "cw_shell w0 = cw_shell w" "run w0 = (r, w')"
  | (broken) "xr_exitcode r = 1" "cw_files w' = cw_files w" "cw_shell w' = cw_shell w"
proof -
  let ?w0 = "w\<lparr>cw_faults := tl (cw_faults w)\<rparr>"
  have same: "cw_files ?w0 = cw_files w" "cw_shell ?w0 = cw_shell w" by simp_all
  consider "run ?w0 = (r, w')" | "xr_exitcode r = 1" "w' = ?w0"
    using assms by (auto simp: exec_vm_def Let_def split: list.splits fault.splits prod.splits)
  then show thesis using ran [OF same] broken same by cases simp_all
qed

lemma script_ok:
  assumes "then_do (write_script w) (\<lambda>_ w1. then_do (exec_vm (php vm s) w1) (php_answer what vm)) = (Inr out, w')"
  shows "out = strip (fst (s (cw_files w vm))) \<and> cw_files w' = (cw_files w)(vm := snd (s (cw_files w vm))) \<and> cw_shell w' = cw_shell w"
proof -
  from assms obtain x w1 r w2 where 1: "write_script w = (Inr x, w1)" and 2: "exec_vm (php vm s) w1 = (Inr r, w2)"
    and 3: "php_answer what vm r w2 = (Inr out, w')"
    unfolding then_do_ok by blast
  have w1: "cw_files w1 = cw_files w" "cw_shell w1 = cw_shell w"
    using 1 unfolding write_script_def by (rule exec_vm_ok; simp)+
  have 4: "xr_exitcode r = 0" "out = strip (xr_out r)" "w' = w2"
    using 3 by (auto simp: php_answer_def Let_def split: if_splits)
  from 2 show ?thesis
  proof (rule exec_vm_ok)
    fix w0 assume "cw_files w0 = cw_files w1" "cw_shell w0 = cw_shell w1" "php vm s w0 = (r, w2)"
    then show ?thesis using w1 4 by (auto simp: php_def printed_def split: prod.splits)
  qed (use 4 in simp)
qed

lemma run_php_ok:
  "run_php vm s w = (Inr out, w') \<Longrightarrow>
    out = strip (fst (s (cw_files w vm))) \<and> cw_files w' = (cw_files w)(vm := snd (s (cw_files w vm)))"
  unfolding run_php_def by (drule script_ok) blast

lemma read_php_ok: "run_read_only_php vm s w = (Inr out, w') \<Longrightarrow> out = strip (s (cw_files w vm)) \<and> cw_files w' = cw_files w"
  unfolding run_read_only_php_def by (drule script_ok) simp

lemma run_shell_ok: "run_shell vm cmd w = (Inr r, w') \<Longrightarrow> cw_files w' = cw_files w"
  unfolding run_shell_def by (erule exec_vm_ok) auto

lemma must_be_ok_ok: "must_be_ok what vm r = (Inr u, w') \<longleftrightarrow> r = (Inr ''ok'', w')"
  by (cases r) (auto simp: must_be_ok_def then_do_ok split: if_splits)

lemma strip_head: "\<not> is_space c \<Longrightarrow> \<exists>t. strip (c # s) = c # t"
proof -
  assume "\<not> is_space c"
  then have "lstrip (c # s) = c # s" "\<exists>t. dropWhile is_space (rev s @ [c]) = t @ [c]"
    by (auto simp: lstrip_def dropWhile_append)
  then obtain t where "strip (c # s) = rev (t @ [c])" by (auto simp: strip_def lstrip_def)
  then show ?thesis by simp
qed

lemma strip_failed: "strip (''VERIFY FAILED'' @ s) \<noteq> ''ok''"
proof -
  have "\<not> is_space CHR ''V''" by code_simp
  from strip_head [OF this, of "''ERIFY FAILED'' @ s"] show ?thesis by auto
qed

named_theorems answers

lemma reload_ok [answers]: "reload_config vm w = (Inr u, w') \<Longrightarrow> cw_files w' = cw_files w"
  by (auto simp: reload_config_def then_do_ok dest!: run_shell_ok)

lemma create_iface_ok [answers]: "create_vlan_iface_with_ip vm v ip n w = (Inr u, w') \<Longrightarrow> cw_files w' = cw_files w"
  by (auto simp: create_vlan_iface_with_ip_def then_do_ok Let_def dest!: run_shell_ok split: if_splits)

lemma get_names_ok [answers]:
  "get_interface_names vm w = (Inr ns, w') \<Longrightarrow>
    cw_files w' = cw_files w \<and> ns = filter (\<lambda>n. strip n \<noteq> []) (split_on CHR '','' (strip (names_script (cw_files w vm))))"
  by (auto simp: get_interface_names_def then_do_ok dest!: read_php_ok)

lemma get_vlans_ok [answers]:
  "get_vlan_list vm w = (Inr vs, w') \<Longrightarrow>
    cw_files w' = cw_files w \<and> read_vlans (splitlines (strip (vlan_list_script (cw_files w vm)))) = Inr vs"
  by (auto simp: get_vlan_list_def then_do_ok dest!: read_php_ok)

lemma get_opt_ok [answers]:
  "get_opt_for_vlanif vm vlanif w = (Inr found, w') \<Longrightarrow>
    cw_files w' = cw_files w \<and> (let raw = strip (strip (opt_for_script vlanif (cw_files w vm))) in found = (if raw = [] then None else Some raw))"
  by (auto simp: get_opt_for_vlanif_def then_do_ok Let_def dest!: read_php_ok)

lemma get_ip_ok [answers]:
  "get_interface_ip_and_subnet vm opt w = (Inr r, w') \<Longrightarrow>
    cw_files w' = cw_files w \<and> ip_subnet_answer (strip (ip_subnet_script opt (cw_files w vm))) = Inr r"
  by (auto simp: get_interface_ip_and_subnet_def then_do_ok dest!: read_php_ok)

section \<open>What is in the file after a call\<close>

lemma text_of_update [simp]: "text_of k (AList.update j t e) = (if k = j then t else text_of k e)"
  by (simp add: text_of_def update_conv')

lemma text_of_default [simp]: "k \<noteq> j \<Longrightarrow> text_of k (set_default j t e) = text_of k e"
  by (auto simp: set_default_def text_of_def map_add_def update_conv' split: option.splits)

lemma filled_vlan_texts [simp]:
  "text_of ''if'' (filled_vlan v e) = ve_parent v" "text_of ''tag'' (filled_vlan v e) = show_int (ve_tag v)"
  "text_of ''vlanif'' (filled_vlan v e) = ve_vlanif v" "text_of ''descr'' (filled_vlan v e) = ve_descr v"
  by (simp_all add: filled_vlan_def put_texts_def)

lemma filled_opt_texts [simp]:
  "text_of ''if'' (filled_opt vlanif descr ip n e) = vlanif" "text_of ''ipaddr'' (filled_opt vlanif descr ip n e) = ip"
  "text_of ''subnet'' (filled_opt vlanif descr ip n e) = show_int n"
  by (simp_all add: filled_opt_def put_texts_def)

lemma php_int_show [simp]: "php_int (show_int i) = i"
proof -
  have all: "takeWhile is_digit (show_nat n) = show_nat n" for n
    using show_nat_digits [of n] by (simp add: list_all_iff)
  have head: "lstrip (show_nat n) = show_nat n" "hd (show_nat n) \<noteq> CHR ''-''" "hd (show_nat n) \<noteq> CHR ''+''" for n
  proof -
    have d: "is_digit (hd (show_nat n))" by (rule show_nat_hd_digit)
    from d show "hd (show_nat n) \<noteq> CHR ''-''" by (auto simp: is_digit_def Let_def)
    from d show "hd (show_nat n) \<noteq> CHR ''+''" by (auto simp: is_digit_def Let_def)
    show "lstrip (show_nat n) = show_nat n"
      using digit_not_space [OF d] show_nat_nonempty [of n] by (cases "show_nat n") (simp_all add: lstrip_def)
  qed
  show ?thesis
  proof (cases "i < 0")
    case True
    have "\<not> is_space CHR ''-''" by code_simp
    with True show ?thesis by (simp add: php_int_def show_int_def lstrip_def all nat_of_digits_show)
  next
    case False
    obtain c r where cr: "show_nat (nat i) = c # r" using show_nat_nonempty [of "nat i"] by (cases "show_nat (nat i)") auto
    from head [of "nat i"] cr have "lstrip (c # r) = c # r" "c \<noteq> CHR ''-''" "c \<noteq> CHR ''+''" by simp_all
    moreover have "takeWhile is_digit (c # r) = c # r" "nat_of_digits (c # r) = nat i"
      using all [of "nat i"] nat_of_digits_show [of "nat i"] cr by simp_all
    ultimately show ?thesis using False by (simp add: php_int_def show_int_def cr)
  qed
qed

definition vlans_in :: "fw_config \<Rightarrow> element list" where
  "vlans_in c = (case fc_vlans c of None \<Rightarrow> [] | Some vs \<Rightarrow> vs)"

lemma vlans_in_put [simp]: "vlans_in (c\<lparr>fc_vlans := Some vs\<rparr>) = vs" "vlans_in (c\<lparr>fc_ifaces := is\<rparr>) = vlans_in c"
  by (simp_all add: vlans_in_def)

lemma upd_first_hit: "list_ex P xs \<Longrightarrow> \<exists>x \<in> set xs. P x \<and> f x \<in> set (upd_first P f xs)"
  by (induction xs) auto

lemma upd_first_others: "(\<And>x. P x \<Longrightarrow> P (f x)) \<Longrightarrow> filter (\<lambda>x. \<not> P x) (upd_first P f xs) = filter (\<lambda>x. \<not> P x) xs"
  by (induction xs) auto

lemma filled_is_vlan [simp]: "is_vlan (ve_tag v) (ve_parent v) (filled_vlan v e)"
  by (simp add: is_vlan_def)

text \<open>Adding a device leaves the entries of other VLANs and all interfaces as they were.\<close>

lemma add_vlan_ok [answers]:
  assumes "add_vlan_device vm v w = (Inr u, w')" "cw_files w vm = Some c"
  shows "\<exists>c'. cw_files w' = (cw_files w)(vm \<mapsto> c') \<and> fc_ifaces c' = fc_ifaces c \<and>
    (\<exists>x \<in> set (vlans_in c'). is_vlan (ve_tag v) (ve_parent v) x \<and> text_of ''vlanif'' x = ve_vlanif v) \<and>
    filter (\<lambda>x. \<not> is_vlan (ve_tag v) (ve_parent v) x) (vlans_in c') = filter (\<lambda>x. \<not> is_vlan (ve_tag v) (ve_parent v) x) (vlans_in c)"
proof -
  let ?P = "is_vlan (ve_tag v) (ve_parent v)"
  let ?vs = "if list_ex ?P (vlans_in c) then upd_first ?P (filled_vlan v) (vlans_in c) else vlans_in c @ [filled_vlan v []]"
  have "cw_files w' = (cw_files w)(vm := snd (add_vlan_script v (cw_files w vm)))"
    using assms(1) by (auto simp: add_vlan_device_def verify_vlan_exists_def then_do_ok must_be_ok_ok dest!: run_php_ok read_php_ok)
  then have "cw_files w' = (cw_files w)(vm \<mapsto> c\<lparr>fc_vlans := Some ?vs\<rparr>)"
    using assms(2) by (simp add: add_vlan_script_def vlans_in_def Let_def)
  moreover have "\<exists>x \<in> set ?vs. ?P x \<and> text_of ''vlanif'' x = ve_vlanif v"
  proof (cases "list_ex ?P (vlans_in c)")
    case True
    with upd_first_hit [OF True, of "filled_vlan v"] obtain x where "filled_vlan v x \<in> set ?vs" by auto
    then show ?thesis by (intro bexI [of _ "filled_vlan v x"]) simp_all
  qed simp
  moreover have "filter (\<lambda>x. \<not> ?P x) ?vs = filter (\<lambda>x. \<not> ?P x) (vlans_in c)"
    using upd_first_others [of ?P "filled_vlan v" "vlans_in c"] by simp
  ultimately show ?thesis by (intro exI [of _ "c\<lparr>fc_vlans := Some ?vs\<rparr>"] conjI) (simp_all only: vlans_in_put fw_config.select_convs fw_config.update_convs simp_thms, simp_all)
qed

lemma map_of_update_other: "n \<noteq> opt \<Longrightarrow> map_of (AList.update opt e is) n = map_of is n"
  by (simp add: update_conv')

text \<open>Adding an interface or changing its address leaves the VLANs and the other interfaces as they were.\<close>

lemma add_opt_ok [answers]:
  assumes "add_opt_interface vm opt vlanif ip n descr w = (Inr u, w')" "cw_files w vm = Some c"
  shows "\<exists>c' e. cw_files w' = (cw_files w)(vm \<mapsto> c') \<and> fc_vlans c' = fc_vlans c \<and>
    map_of (ifaces_of c') opt = Some e \<and> text_of ''if'' e = vlanif \<and> text_of ''ipaddr'' e = ip \<and> text_of ''subnet'' e = show_int n \<and>
    (\<forall>nm. nm \<noteq> opt \<longrightarrow> map_of (ifaces_of c') nm = map_of (ifaces_of c) nm)"
proof -
  let ?s = "add_opt_script opt vlanif (if descr \<noteq> [] then descr else upper opt) ip n"
  from assms(1) obtain out w1 where 1: "run_php vm ?s w = (Inr out, w1)" and 2: "verify_opt_exists vm opt vlanif ip w1 = (Inr u, w')"
    unfolding add_opt_interface_def then_do_ok by blast
  have files: "cw_files w1 = (cw_files w)(vm := snd (?s (Some c)))" using run_php_ok [OF 1] assms(2) by simp
  have same: "cw_files w' = cw_files w1" and okay: "strip (opt_exists_script opt vlanif ip (cw_files w1 vm)) = ''ok''"
    using 2 by (auto simp: verify_opt_exists_def must_be_ok_ok dest!: read_php_ok)
  show ?thesis
  proof (cases "fc_ifaces c")
    case None
    then show ?thesis using okay files strip_failed by (auto simp: opt_exists_script_def add_opt_script_def)
  next
    case (Some ifs)
    let ?e = "filled_opt vlanif (if descr \<noteq> [] then descr else upper opt) ip n (case map_of ifs opt of None \<Rightarrow> [] | Some e \<Rightarrow> e)"
    have "cw_files w' = (cw_files w)(vm \<mapsto> c\<lparr>fc_ifaces := Some (AList.update opt ?e ifs)\<rparr>)"
      using files same Some by (simp add: add_opt_script_def Let_def)
    then show ?thesis
      using Some by (intro exI [of _ "c\<lparr>fc_ifaces := Some (AList.update opt ?e ifs)\<rparr>"] exI [of _ ?e] conjI)
        (simp_all add: ifaces_of_def update_conv')
  qed
qed

lemma set_ip_ok [answers]:
  assumes "set_interface_ip vm opt ip n w = (Inr u, w')" "cw_files w vm = Some c"
  shows "\<exists>c' e e0. cw_files w' = (cw_files w)(vm \<mapsto> c') \<and> fc_vlans c' = fc_vlans c \<and> map_of (ifaces_of c) opt = Some e0 \<and>
    map_of (ifaces_of c') opt = Some e \<and> text_of ''if'' e = text_of ''if'' e0 \<and> text_of ''ipaddr'' e = ip \<and> text_of ''subnet'' e = show_int n \<and>
    (\<forall>nm. nm \<noteq> opt \<longrightarrow> map_of (ifaces_of c') nm = map_of (ifaces_of c) nm)"
proof -
  from assms(1) obtain out w1 where 1: "run_php vm (set_ip_script opt ip n) w = (Inr out, w1)" and 2: "verify_interface_ip vm opt ip n w1 = (Inr u, w')"
    unfolding set_interface_ip_def then_do_ok by blast
  have files: "cw_files w1 = (cw_files w)(vm := snd (set_ip_script opt ip n (Some c)))" using run_php_ok [OF 1] assms(2) by simp
  have same: "cw_files w' = cw_files w1" and okay: "strip (interface_ip_script opt ip n (cw_files w1 vm)) = ''ok''"
    using 2 by (auto simp: verify_interface_ip_def must_be_ok_ok dest!: read_php_ok)
  show ?thesis
  proof (cases "map_of (ifaces_of c) opt")
    case None
    then show ?thesis using okay files strip_failed by (auto simp: interface_ip_script_def set_ip_script_def)
  next
    case (Some e0)
    let ?e = "put_texts [(''ipaddr'', ip), (''subnet'', show_int n)] e0"
    have "cw_files w' = (cw_files w)(vm \<mapsto> c\<lparr>fc_ifaces := Some (AList.update opt ?e (ifaces_of c))\<rparr>)"
      using files same Some by (simp add: set_ip_script_def)
    then show ?thesis
      using Some by (intro exI [of _ "c\<lparr>fc_ifaces := Some (AList.update opt ?e (ifaces_of c))\<rparr>"] exI [of _ ?e] exI [of _ e0] conjI)
        (simp_all add: ifaces_of_def update_conv' put_texts_def)
  qed
qed

section \<open>Reading back what is there\<close>

definition plain_text :: "string \<Rightarrow> bool" where
  "plain_text s \<longleftrightarrow> (\<forall>c \<in> set s. \<not> is_space c \<and> c \<noteq> CHR ''|'' \<and> c \<noteq> CHR '','')"

definition tidy_vlan :: "element \<Rightarrow> bool" where
  "tidy_vlan v \<longleftrightarrow>
     text_of ''tag'' v = show_int (php_int (text_of ''tag'' v)) \<and> plain_text (text_of ''if'' v) \<and> plain_text (text_of ''vlanif'' v) \<and>
     (\<forall>c \<in> set (text_of ''descr'' v). \<not> is_line_end c) \<and> (text_of ''descr'' v = [] \<or> \<not> is_space (last (text_of ''descr'' v)))"

definition tidy_config :: "fw_config \<Rightarrow> bool" where
  "tidy_config c \<longleftrightarrow>
     (\<forall>v \<in> set (vlans_in c). tidy_vlan v) \<and> distinct (map (text_of ''vlanif'') (vlans_in c)) \<and> distinct (map fst (ifaces_of c)) \<and>
     (\<forall>p \<in> set (ifaces_of c). fst p \<noteq> [] \<and> plain_text (fst p) \<and> plain_text (text_of ''ipaddr'' (snd p)) \<and> plain_text (text_of ''subnet'' (snd p)))"

definition entry_of :: "element \<Rightarrow> vlan_entry" where
  "entry_of v = \<lparr>ve_tag = php_int (text_of ''tag'' v), ve_parent = text_of ''if'' v, ve_vlanif = text_of ''vlanif'' v, ve_descr = text_of ''descr'' v\<rparr>"

lemma is_line_end_space: "is_line_end c \<Longrightarrow> is_space c"
  by (auto simp: is_line_end_def is_space_def Let_def)

lemma line_feed_simps [simp]: "is_line_end line_feed" "line_feed \<noteq> char_of (13 :: nat)"
  by code_simp+

lemma lines_from_line:
  "\<forall>c \<in> set l. \<not> is_line_end c \<Longrightarrow> lines_from acc (l @ line_feed # s) = (rev acc @ l) # lines_from [] s"
  "\<forall>c \<in> set l. \<not> is_line_end c \<Longrightarrow> acc @ l \<noteq> [] \<Longrightarrow> lines_from acc l = [rev acc @ l]"
  by (induction l arbitrary: acc) auto

lemma splitlines_join:
  "(\<And>l. l \<in> set ls \<Longrightarrow> l \<noteq> [] \<and> (\<forall>c \<in> set l. \<not> is_line_end c)) \<Longrightarrow> splitlines (join_with [line_feed] ls) = ls"
proof (induction ls rule: induct_list012)
  case (3 l m ls)
  have "splitlines (join_with [line_feed] (m # ls)) = m # ls" by (rule 3(2), rule 3(3)) simp
  moreover have "\<forall>c \<in> set l. \<not> is_line_end c" using 3(3) [of l] by simp
  ultimately show ?case using lines_from_line(1) [of l "[]" "join_with [line_feed] (m # ls)"] by (simp add: splitlines_def)
qed (simp_all add: splitlines_def lines_from_line)

lemma split_max_append: "c \<notin> set s \<Longrightarrow> split_max c (Suc n) (s @ c # t) = s # split_max c n t"
proof -
  assume "c \<notin> set s"
  then have "takeWhile (\<lambda>x. x \<noteq> c) (s @ c # t) = s" "dropWhile (\<lambda>x. x \<noteq> c) (s @ c # t) = c # t"
    by (induction s) auto
  then show ?thesis by simp
qed

lemma show_int_chars: "c \<in> set (show_int i) \<Longrightarrow> is_digit c \<or> c = CHR ''-''"
  using show_nat_digits by (auto simp: show_int_def list_all_iff split: if_splits)

lemma show_int_plain: "plain_text (show_int i)" "show_int i \<noteq> []"
proof -
  have "\<not> is_space CHR ''-''" by code_simp
  then have "\<not> is_space c \<and> c \<noteq> CHR ''|'' \<and> c \<noteq> CHR '',''" if "c \<in> set (show_int i)" for c
    using show_int_chars [OF that] digit_not_space [of c] by (auto simp: is_digit_def Let_def)
  then show "plain_text (show_int i)" by (simp add: plain_text_def)
  show "show_int i \<noteq> []" by (simp add: show_int_def show_nat_nonempty)
qed

lemma plain_no_line_end: "plain_text s \<Longrightarrow> \<forall>c \<in> set s. \<not> is_line_end c"
  using is_line_end_space by (auto simp: plain_text_def)

lemma vlan_line_eq:
  "vlan_line v = text_of ''tag'' v @ CHR ''|'' # text_of ''if'' v @ CHR ''|'' # text_of ''vlanif'' v @ CHR ''|'' # text_of ''descr'' v"
  by (simp add: vlan_line_def)

lemma tidy_line:
  assumes "tidy_vlan v"
  shows "vlan_line v \<noteq> []" "\<forall>c \<in> set (vlan_line v). \<not> is_line_end c" "\<not> is_space (hd (vlan_line v))" "\<not> is_space (last (vlan_line v))"
    "split_max CHR ''|'' 3 (vlan_line v) = [text_of ''tag'' v, text_of ''if'' v, text_of ''vlanif'' v, text_of ''descr'' v]"
proof -
  obtain t where t: "text_of ''tag'' v = show_int t" using assms by (auto simp: tidy_vlan_def)
  have bar: "\<not> is_line_end CHR ''|''" "\<not> is_space CHR ''|''" by code_simp+
  note parts = assms [unfolded tidy_vlan_def]
  show "vlan_line v \<noteq> []" by (simp add: vlan_line_eq)
  show "\<forall>c \<in> set (vlan_line v). \<not> is_line_end c"
    using parts bar plain_no_line_end show_int_plain(1) [of t] by (auto simp: vlan_line_eq t)
  show "\<not> is_space (hd (vlan_line v))" using show_int_plain [of t] by (cases "show_int t") (auto simp: vlan_line_eq t plain_text_def)
  show "\<not> is_space (last (vlan_line v))" using parts bar by (auto simp: vlan_line_eq)
  have "CHR ''|'' \<notin> set (text_of ''tag'' v)" "CHR ''|'' \<notin> set (text_of ''if'' v)" "CHR ''|'' \<notin> set (text_of ''vlanif'' v)"
    using parts show_int_plain(1) [of t] by (auto simp: plain_text_def t)
  then show "split_max CHR ''|'' 3 (vlan_line v) = [text_of ''tag'' v, text_of ''if'' v, text_of ''vlanif'' v, text_of ''descr'' v]"
    unfolding vlan_line_eq numeral_3_eq_3 by (simp add: split_max_append del: split_max.simps(2))
qed

lemma read_vlans_lines: "(\<And>v. v \<in> set vs \<Longrightarrow> tidy_vlan v) \<Longrightarrow> read_vlans (map vlan_line vs) = Inr (map entry_of vs)"
proof (induction vs)
  case (Cons v vs)
  then have tidy: "tidy_vlan v" by simp
  then obtain t where t: "text_of ''tag'' v = show_int t" by (auto simp: tidy_vlan_def)
  have "strip (vlan_line v) \<noteq> []" using tidy_line(1,3,4) [OF tidy] strip_id [of "vlan_line v"] by simp
  then show ?case
    using Cons tidy_line(5) [OF tidy] show_int_plain(2) [of t] by (simp add: entry_of_def t py_int_show_int strip_show_int)
qed simp

lemma hd_last_join:
  "ls \<noteq> [] \<Longrightarrow> (\<And>l. l \<in> set ls \<Longrightarrow> l \<noteq> []) \<Longrightarrow>
    join_with sep ls \<noteq> [] \<and> hd (join_with sep ls) = hd (hd ls) \<and> last (join_with sep ls) = last (last ls)"
  by (induction sep ls rule: join_with.induct) auto

lemma strip_join:
  assumes "\<And>l. l \<in> set ls \<Longrightarrow> l \<noteq> [] \<and> \<not> is_space (hd l) \<and> \<not> is_space (last l)"
  shows "strip (join_with sep ls) = join_with sep ls"
proof (cases ls)
  case Nil
  then show ?thesis by (simp add: strip_def lstrip_def)
next
  case (Cons l ms)
  then have "hd ls \<in> set ls" "last ls \<in> set ls" by auto
  then show ?thesis using hd_last_join [of ls sep] assms Cons by (intro strip_id) auto
qed

text \<open>The list of VLANs is read exactly.\<close>

lemma vlan_list_read:
  assumes "\<forall>v \<in> set (vlans_in c). tidy_vlan v"
  shows "read_vlans (splitlines (strip (vlan_list_script (Some c)))) = Inr (map entry_of (vlans_in c))"
proof -
  have script: "vlan_list_script (Some c) = join_with [line_feed] (map vlan_line (vlans_in c))"
    by (simp add: vlan_list_script_def vlans_in_def split: option.split)
  have "strip (vlan_list_script (Some c)) = vlan_list_script (Some c)"
    unfolding script using assms tidy_line by (intro strip_join) auto
  moreover have "splitlines (vlan_list_script (Some c)) = map vlan_line (vlans_in c)"
    unfolding script using assms tidy_line by (intro splitlines_join) auto
  ultimately show ?thesis using read_vlans_lines [of "vlans_in c"] assms by simp
qed

lemma names_read:
  assumes "tidy_config c"
  shows "filter (\<lambda>n. strip n \<noteq> []) (split_on CHR '','' (strip (names_script (Some c)))) = map fst (ifaces_of c)"
proof (cases "map fst (ifaces_of c) = []")
  case True
  have "filter (\<lambda>n. strip n \<noteq> []) (split_on CHR '','' (strip [])) = []" by code_simp
  with True show ?thesis by (simp add: names_script_def)
next
  case False
  have plain: "nm \<noteq> [] \<and> plain_text nm" if "nm \<in> set (map fst (ifaces_of c))" for nm
    using assms that by (auto simp: tidy_config_def)
  then have ends: "nm \<noteq> [] \<and> \<not> is_space (hd nm) \<and> \<not> is_space (last nm) \<and> CHR '','' \<notin> set nm" if "nm \<in> set (map fst (ifaces_of c))" for nm
    using that by (auto simp: plain_text_def)
  have "split_on CHR '','' (strip (names_script (Some c))) = map fst (ifaces_of c)"
    using strip_join [of "map fst (ifaces_of c)" "'',''"] split_join [OF False, of "CHR '',''"] ends by (simp add: names_script_def)
  moreover have "filter (\<lambda>n. strip n \<noteq> []) (map fst (ifaces_of c)) = map fst (ifaces_of c)"
    using ends strip_id by (intro filter_True) (metis)
  ultimately show ?thesis by simp
qed

lemma strip_plain: "plain_text s \<Longrightarrow> strip s = s"
proof (cases "s = []")
  case True
  then show ?thesis by (simp add: strip_def lstrip_def)
next
  case False
  assume "plain_text s"
  with False show ?thesis by (intro strip_id) (simp_all add: plain_text_def)
qed

lemma opt_read:
  assumes "tidy_config c" "get_opt_for_vlanif vm vlanif w = (Inr found, w1)" "cw_files w vm = Some c"
  shows "(\<exists>nm e. found = Some nm \<and> nm \<noteq> [] \<and> map_of (ifaces_of c) nm = Some e \<and> text_of ''if'' e = vlanif) \<or> found = None"
proof (cases "find (\<lambda>(nm, e). text_of ''if'' e = vlanif) (ifaces_of c)")
  case None
  have "strip (strip []) = []" by code_simp
  with None assms show ?thesis using get_opt_ok [OF assms(2)] by (simp add: opt_for_script_def Let_def)
next
  case (Some p)
  obtain nm e where p: "p = (nm, e)" by (cases p)
  with Some have e: "(nm, e) \<in> set (ifaces_of c)" "text_of ''if'' e = vlanif" using nth_mem by (fastforce simp: find_Some_iff)+
  then have nm: "map_of (ifaces_of c) nm = Some e" "nm \<noteq> []" "strip nm = nm"
    using assms(1) strip_plain by (fastforce simp: tidy_config_def)+
  have "opt_for_script vlanif (Some c) = nm" by (simp add: opt_for_script_def Some p)
  then have "found = Some nm" using get_opt_ok [OF assms(2)] assms(3) nm(2,3) by (simp add: Let_def)
  with nm(1,2) e(2) show ?thesis by blast
qed

lemma ip_read:
  assumes "tidy_config c" "ip_subnet_answer (strip (ip_subnet_script opt (Some c))) = Inr (Some ip, Some n)"
  shows "\<exists>e. map_of (ifaces_of c) opt = Some e \<and> text_of ''ipaddr'' e = ip \<and> py_int (text_of ''subnet'' e) = Some n"
proof (cases "map_of (ifaces_of c) opt")
  case None
  have "strip (strip []) = []" by code_simp
  with None assms(2) show ?thesis by (simp add: ip_subnet_script_def ip_subnet_answer_def)
next
  case (Some e)
  then have member: "(opt, e) \<in> set (ifaces_of c)" by (rule map_of_SomeD)
  have "\<forall>p \<in> set (ifaces_of c). plain_text (text_of ''ipaddr'' (snd p)) \<and> plain_text (text_of ''subnet'' (snd p))"
    using assms(1) by (simp add: tidy_config_def)
  from bspec [OF this member] have plain: "plain_text (text_of ''ipaddr'' e)" "plain_text (text_of ''subnet'' e)" by simp_all
  let ?t = "text_of ''ipaddr'' e @ CHR ''|'' # text_of ''subnet'' e"
  have bar: "\<not> is_space CHR ''|''" by code_simp
  have spaces: "\<not> is_space x" if "x \<in> set ?t" for x using that plain bar by (auto simp: plain_text_def)
  define u where "u = ?t"
  have "u \<noteq> []" by (simp add: u_def)
  with spaces have "strip u = u" unfolding u_def [symmetric] by (intro strip_id) simp_all
  then have t: "strip ?t = ?t" by (simp only: u_def)
  have no_bar: "CHR ''|'' \<notin> set (text_of ''ipaddr'' e)" "CHR ''|'' \<notin> set (text_of ''subnet'' e)"
    using plain unfolding plain_text_def by blast+
  have "split_on CHR ''|'' ?t = [text_of ''ipaddr'' e, text_of ''subnet'' e]"
    unfolding split_on_append_sep [OF no_bar(1)] split_on_no_sep [OF no_bar(2)] ..
  then have "ip_subnet_answer ?t = (case py_int (text_of ''subnet'' e) of None \<Rightarrow> Inl (bad_int (text_of ''subnet'' e))
      | Some n \<Rightarrow> Inr (Some (text_of ''ipaddr'' e), Some n))"
    by (simp add: ip_subnet_answer_def t)
  moreover have "ip_subnet_script opt (Some c) = ?t" by (simp add: ip_subnet_script_def Some)
  ultimately have "py_int (text_of ''subnet'' e) = Some n" "text_of ''ipaddr'' e = ip"
    using assms(2) unfolding t by (cases "py_int (text_of ''subnet'' e)"; simp add: t)+
  with Some show ?thesis by blast
qed

section \<open>A VLAN that is set up\<close>

lemma invm_sel [simp]:
  "cf_vlans (invm_calls run) = get_vlan_list" "cf_names (invm_calls run) = get_interface_names"
  "cf_opt_for (invm_calls run) = get_opt_for_vlanif" "cf_ip (invm_calls run) = get_interface_ip_and_subnet"
  "cf_set_ip (invm_calls run) = set_interface_ip" "cf_add_vlan (invm_calls run) = add_vlan_device"
  "cf_add_opt (invm_calls run) = add_opt_interface" "cf_create_iface (invm_calls run) = create_vlan_iface_with_ip"
  "cf_reload (invm_calls run) = reload_config" "cf_remove (invm_calls run) = remove_vlan" "cf_run (invm_calls run) = run"
  by (simp_all add: invm_calls_def)

text \<open>The interface \<open>opt\<close> belongs to the device and has the address; the others are as in \<open>c\<close>.\<close>

definition iface_set :: "vlan_args \<Rightarrow> string \<Rightarrow> string \<Rightarrow> fw_config \<Rightarrow> fw_config \<Rightarrow> bool" where
  "iface_set a vlanif opt c c' \<longleftrightarrow>
     (\<exists>e. map_of (ifaces_of c') opt = Some e \<and> text_of ''if'' e = vlanif \<and> text_of ''ipaddr'' e = va_ip_address a \<and>
       py_int (text_of ''subnet'' e) = Some (va_subnet a)) \<and>
     (\<forall>nm. nm \<noteq> opt \<longrightarrow> map_of (ifaces_of c') nm = map_of (ifaces_of c) nm) \<and>
     (\<forall>e. map_of (ifaces_of c) opt = Some e \<longrightarrow> text_of ''if'' e = vlanif)"

lemma reuse_vlan_ok:
  assumes "reuse_vlan (invm_calls run) a (map fst (ifaces_of c)) v w = (Inr (vlanif, opt), w')" "tidy_config c" "cw_files w (args_vm a) = Some c"
  shows "vlanif = ve_vlanif v \<and> (\<exists>c'. cw_files w' = (cw_files w)(args_vm a \<mapsto> c') \<and> fc_vlans c' = fc_vlans c \<and> iface_set a vlanif opt c c') \<and>
    opt \<in> dom (map_of (ifaces_of c))"
proof -
  let ?vm = "args_vm a" and ?opt = "\<lambda>found. if truthy found then the found else next_opt_name (map fst (ifaces_of c))"
  from assms(1) obtain found w1 r w2 where 1: "get_opt_for_vlanif ?vm (ve_vlanif v) w = (Inr found, w1)"
    and 2: "get_interface_ip_and_subnet ?vm (?opt found) w1 = (Inr r, w2)"
    and 3: "(case r of (ip, subnet) \<Rightarrow> \<lambda>w2. if ip \<noteq> Some (va_ip_address a) \<or> subnet \<noteq> Some (va_subnet a)
        then then_do (set_interface_ip ?vm (?opt found) (va_ip_address a) (va_subnet a) w2)
          (\<lambda>_ w3. then_do (reload_config ?vm w3) (\<lambda>_. ok (ve_vlanif v, ?opt found)))
        else ok (ve_vlanif v, ?opt found) w2) w2 = (Inr (vlanif, opt), w')"
    unfolding reuse_vlan_def Let_def then_do_ok invm_sel by blast
  have files: "cw_files w1 ?vm = Some c" "cw_files w2 ?vm = Some c" "cw_files w2 = cw_files w"
    using get_opt_ok [OF 1] get_ip_ok [OF 2] assms(3) by simp_all
  have there: "text_of ''if'' e = ve_vlanif v" if "map_of (ifaces_of c) (?opt found) = Some e" for e
  proof (cases found)
    case None
    then have "?opt found \<notin> set (map fst (ifaces_of c))" using next_names_fresh(2) [of "map fst (ifaces_of c)"] by (simp add: truthy_def)
    with that show ?thesis by (force dest: map_of_SomeD)
  next
    case (Some nm)
    with opt_read [OF assms(2) 1 assms(3)] that show ?thesis by (auto simp: truthy_def)
  qed
  obtain ip subnet where r: "r = (ip, subnet)" by (cases r)
  show ?thesis
  proof (cases "ip = Some (va_ip_address a) \<and> subnet = Some (va_subnet a)")
    case True
    with 3 r have fin: "vlanif = ve_vlanif v" "opt = ?opt found" "w' = w2" by simp_all
    from get_ip_ok [OF 2] files(1) r True have "ip_subnet_answer (strip (ip_subnet_script (?opt found) (Some c))) = Inr (Some (va_ip_address a), Some (va_subnet a))"
      by simp
    from ip_read [OF assms(2) this] there have "iface_set a vlanif opt c c" unfolding iface_set_def fin(1,2) by blast
    moreover have "cw_files w' = (cw_files w)(?vm \<mapsto> c)" using fin files assms(3) by (simp add: fun_upd_idem)
    moreover have "opt \<in> dom (map_of (ifaces_of c))" using \<open>iface_set a vlanif opt c c\<close> by (auto simp: iface_set_def)
    ultimately show ?thesis using fin(1) by blast
  next
    case False
    with 3 r obtain w3 w4 where 4: "set_interface_ip ?vm (?opt found) (va_ip_address a) (va_subnet a) w2 = (Inr (), w3)"
      and 5: "reload_config ?vm w3 = (Inr (), w4)" and fin: "vlanif = ve_vlanif v" "opt = ?opt found" "w' = w4"
      by (auto simp: then_do_ok)
    from set_ip_ok [OF 4 files(2)] obtain c' e e0 where c': "cw_files w3 = (cw_files w)(?vm \<mapsto> c')" "fc_vlans c' = fc_vlans c"
      "map_of (ifaces_of c) (?opt found) = Some e0" "map_of (ifaces_of c') (?opt found) = Some e" "text_of ''if'' e = text_of ''if'' e0"
      "text_of ''ipaddr'' e = va_ip_address a" "text_of ''subnet'' e = show_int (va_subnet a)"
      "\<forall>nm. nm \<noteq> ?opt found \<longrightarrow> map_of (ifaces_of c') nm = map_of (ifaces_of c) nm"
      unfolding files(3) by blast
    have "iface_set a vlanif opt c c'"
      unfolding iface_set_def fin(1,2) using c'(4-8) there [OF c'(3)] there py_int_show_int [of "va_subnet a"] by auto
    moreover have "opt \<in> dom (map_of (ifaces_of c))" using c'(3) fin(2) by blast
    moreover have "cw_files w' = (cw_files w)(?vm \<mapsto> c')" using c'(1) fin(3) reload_ok [OF 5] by simp
    ultimately show ?thesis using fin(1) c'(2) by blast
  qed
qed

lemma ifaces_cong: "fc_ifaces c = fc_ifaces c' \<Longrightarrow> ifaces_of c = ifaces_of c'"
  by (simp add: ifaces_of_def)

lemma vlans_cong: "fc_vlans c = fc_vlans c' \<Longrightarrow> vlans_in c = vlans_in c'"
  by (simp add: vlans_in_def)

lemma new_vlan_ok:
  assumes "new_vlan (invm_calls run) a devs (map fst (ifaces_of c)) w = (Inr (vlanif, opt), w')" "cw_files w (args_vm a) = Some c"
  shows "vlanif = next_vlanif (map ve_vlanif devs) \<and>
    (\<exists>c'. cw_files w' = (cw_files w)(args_vm a \<mapsto> c') \<and>
      (\<exists>x \<in> set (vlans_in c'). is_vlan (va_vlan_tag a) (args_parent a) x \<and> text_of ''vlanif'' x = vlanif) \<and>
      filter (\<lambda>x. \<not> is_vlan (va_vlan_tag a) (args_parent a) x) (vlans_in c') =
        filter (\<lambda>x. \<not> is_vlan (va_vlan_tag a) (args_parent a) x) (vlans_in c) \<and> iface_set a vlanif opt c c')"
proof -
  let ?vm = "args_vm a" and ?opt = "next_opt_name (map fst (ifaces_of c))"
  let ?descr = "if va_description a \<noteq> [] then va_description a else ''tenant'' @ show_int (va_tenant_id a) @ ''-vlan'' @ show_int (va_vlan_tag a)"
  let ?v = "\<lparr>ve_tag = va_vlan_tag a, ve_parent = args_parent a, ve_vlanif = next_vlanif (map ve_vlanif devs), ve_descr = ?descr\<rparr>"
  from assms(1) obtain u1 w1 u2 w2 u3 w3 u4 w4 where 1: "add_vlan_device ?vm ?v w = (Inr u1, w1)"
    and 2: "add_opt_interface ?vm ?opt (ve_vlanif ?v) (va_ip_address a) (va_subnet a) (upper ?descr) w1 = (Inr u2, w2)"
    and 3: "create_vlan_iface_with_ip ?vm ?v (va_ip_address a) (va_subnet a) w2 = (Inr u3, w3)" and 4: "reload_config ?vm w3 = (Inr u4, w4)"
    and fin: "ok (ve_vlanif ?v, ?opt) w4 = (Inr (vlanif, opt), w')"
    unfolding new_vlan_def Let_def then_do_ok invm_sel by blast
  have eqs: "vlanif = ve_vlanif ?v" "opt = ?opt" "w' = w4" using fin by simp_all
  from add_vlan_ok [OF 1 assms(2)] obtain c1 where c1: "cw_files w1 = (cw_files w)(?vm \<mapsto> c1)" "fc_ifaces c1 = fc_ifaces c"
    "\<exists>x \<in> set (vlans_in c1). is_vlan (va_vlan_tag a) (args_parent a) x \<and> text_of ''vlanif'' x = ve_vlanif ?v"
    "filter (\<lambda>x. \<not> is_vlan (va_vlan_tag a) (args_parent a) x) (vlans_in c1) = filter (\<lambda>x. \<not> is_vlan (va_vlan_tag a) (args_parent a) x) (vlans_in c)"
    by auto
  have "cw_files w1 ?vm = Some c1" using c1(1) by simp
  from add_opt_ok [OF 2 this] obtain c2 e where c2: "cw_files w2 = (cw_files w1)(?vm \<mapsto> c2)" "fc_vlans c2 = fc_vlans c1"
    "map_of (ifaces_of c2) ?opt = Some e" "text_of ''if'' e = ve_vlanif ?v" "text_of ''ipaddr'' e = va_ip_address a"
    "text_of ''subnet'' e = show_int (va_subnet a)" "\<forall>nm. nm \<noteq> ?opt \<longrightarrow> map_of (ifaces_of c2) nm = map_of (ifaces_of c) nm"
    unfolding ifaces_cong [OF c1(2)] by blast
  have "map_of (ifaces_of c) ?opt = None"
    using next_names_fresh(2) [of "map fst (ifaces_of c)"] by (simp add: map_of_eq_None_iff)
  then have "iface_set a vlanif opt c c2" unfolding iface_set_def eqs(1,2) using c2(3-7) by (simp add: py_int_show_int)
  moreover have "cw_files w' = (cw_files w)(?vm \<mapsto> c2)" using create_iface_ok [OF 3] reload_ok [OF 4] c1(1) c2(1) eqs(3) by simp
  ultimately show ?thesis using c1(3,4) unfolding vlans_cong [OF c2(2), symmetric] eqs(1) by auto
qed

text \<open>
  C12: When the configuration of a VLAN succeeds, whatever calls before it failed, the file has an entry for
  the tag on the right parent, and the interface that is reported belongs to its device and has the address.
  The entries of all other VLANs and all other interfaces are as they were, no interface that belonged to
  another device was taken, no device name is used twice, and the files of other machines are untouched.
\<close>

theorem vlan_configured:
  assumes "configure_vlan (invm_calls run) a w = (Inr (vlanif, opt), w')" "cw_files w (args_vm a) = Some c" "tidy_config c"
  shows "\<exists>c'. cw_files w' = (cw_files w)(args_vm a \<mapsto> c') \<and>
    (\<exists>x \<in> set (vlans_in c'). is_vlan (va_vlan_tag a) (args_parent a) x \<and> text_of ''vlanif'' x = vlanif) \<and>
    iface_set a vlanif opt c c' \<and>
    filter (\<lambda>x. \<not> is_vlan (va_vlan_tag a) (args_parent a) x) (vlans_in c') =
      filter (\<lambda>x. \<not> is_vlan (va_vlan_tag a) (args_parent a) x) (vlans_in c) \<and>
    (\<forall>x \<in> set (vlans_in c). text_of ''vlanif'' x = vlanif \<longrightarrow> is_vlan (va_vlan_tag a) (args_parent a) x)"
proof -
  from assms(1) obtain devs w1 names w2 where 1: "get_vlan_list (args_vm a) w = (Inr devs, w1)"
    and 2: "get_interface_names (args_vm a) w1 = (Inr names, w2)"
    and 3: "(case find (\<lambda>v. ve_tag v = va_vlan_tag a \<and> ve_parent v = args_parent a) devs of
        None \<Rightarrow> new_vlan (invm_calls run) a devs names | Some v \<Rightarrow> reuse_vlan (invm_calls run) a names v) w2 = (Inr (vlanif, opt), w')"
    unfolding configure_vlan_def then_do_ok invm_sel by (auto split: option.splits)
  have files: "cw_files w2 = cw_files w" "cw_files w2 (args_vm a) = Some c" using get_vlans_ok [OF 1] get_names_ok [OF 2] assms(2) by simp_all
  have tidy: "\<forall>v \<in> set (vlans_in c). tidy_vlan v" using assms(3) by (simp add: tidy_config_def)
  have devs: "devs = map entry_of (vlans_in c)" using get_vlans_ok [OF 1] assms(2) vlan_list_read [OF tidy] by simp
  have names: "names = map fst (ifaces_of c)" using get_names_ok [OF 2] get_vlans_ok [OF 1] assms(2) names_read [OF assms(3)] by simp
  have entry: "ve_tag (entry_of x) = va_vlan_tag a \<and> ve_parent (entry_of x) = args_parent a \<longleftrightarrow> is_vlan (va_vlan_tag a) (args_parent a) x" for x
    by (simp add: entry_of_def is_vlan_def)
  show ?thesis
  proof (cases "find (\<lambda>v. ve_tag v = va_vlan_tag a \<and> ve_parent v = args_parent a) devs")
    case None
    then have "\<forall>x \<in> set (vlans_in c). \<not> is_vlan (va_vlan_tag a) (args_parent a) x" unfolding devs find_None_iff using entry by simp
    moreover have "next_vlanif (map ve_vlanif devs) \<notin> text_of ''vlanif'' ` set (vlans_in c)"
      using next_names_fresh(1) [of "map ve_vlanif devs"] by (simp add: devs entry_of_def image_image)
    moreover from 3 None names have "new_vlan (invm_calls run) a devs (map fst (ifaces_of c)) w2 = (Inr (vlanif, opt), w')" by simp
    from new_vlan_ok [OF this files(2)] obtain c' where c': "vlanif = next_vlanif (map ve_vlanif devs)" "cw_files w' = (cw_files w)(args_vm a \<mapsto> c')"
      "\<exists>x \<in> set (vlans_in c'). is_vlan (va_vlan_tag a) (args_parent a) x \<and> text_of ''vlanif'' x = vlanif"
      "filter (\<lambda>x. \<not> is_vlan (va_vlan_tag a) (args_parent a) x) (vlans_in c') = filter (\<lambda>x. \<not> is_vlan (va_vlan_tag a) (args_parent a) x) (vlans_in c)"
      "iface_set a vlanif opt c c'"
      unfolding files(1) by blast
    ultimately show ?thesis by (intro exI [of _ c'] conjI) (assumption | force)+
  next
    case (Some v)
    then have "v \<in> set devs" "ve_tag v = va_vlan_tag a \<and> ve_parent v = args_parent a" using nth_mem by (fastforce simp: find_Some_iff)+
    then obtain x where x: "x \<in> set (vlans_in c)" "v = entry_of x" "is_vlan (va_vlan_tag a) (args_parent a) x" using entry by (auto simp: devs)
    have once: "is_vlan (va_vlan_tag a) (args_parent a) y" if "y \<in> set (vlans_in c)" "text_of ''vlanif'' y = text_of ''vlanif'' x" for y
      using assms(3) x(1,3) that by (auto simp: tidy_config_def distinct_map dest: inj_onD)
    from 3 Some names have "reuse_vlan (invm_calls run) a (map fst (ifaces_of c)) v w2 = (Inr (vlanif, opt), w')" by simp
    from reuse_vlan_ok [OF this assms(3) files(2)] obtain c' where c': "vlanif = text_of ''vlanif'' x" "cw_files w' = (cw_files w)(args_vm a \<mapsto> c')"
      "fc_vlans c' = fc_vlans c" "iface_set a vlanif opt c c'"
      unfolding x(2) files(1) by (auto simp: entry_of_def)
    show ?thesis using c' x(1,3) once vlans_cong [OF c'(3)] by (intro exI [of _ c'] conjI) auto
  qed
qed

section \<open>A VLAN that is only half made\<close>

text \<open>The device is in the file, but no interface uses it.\<close>

definition half_made :: "vlan_args \<Rightarrow> fw_config \<Rightarrow> bool" where
  "half_made a c \<longleftrightarrow>
     (\<exists>x \<in> set (vlans_in c). is_vlan (va_vlan_tag a) (args_parent a) x) \<and>
     (\<forall>x \<in> set (vlans_in c). is_vlan (va_vlan_tag a) (args_parent a) x \<longrightarrow>
        (\<forall>p \<in> set (ifaces_of c). text_of ''if'' (snd p) \<noteq> text_of ''vlanif'' x))"

definition keeps_files :: "('a, cfg_world) result \<Rightarrow> cfg_world \<Rightarrow> bool" where
  "keeps_files r w \<longleftrightarrow> cw_files (snd r) = cw_files w"

lemma keeps_then: "keeps_files r w \<Longrightarrow> (\<And>x s. r = (Inr x, s) \<Longrightarrow> keeps_files (k x s) s) \<Longrightarrow> keeps_files (then_do r k) w"
  by (cases r) (auto simp: keeps_files_def then_do_def split: sum.splits)

lemma fruitless_then:
  "keeps_files r w \<Longrightarrow> (\<And>x s. r = (Inr x, s) \<Longrightarrow> keeps_files (k x s) s \<and> \<not> is_ok (k x s)) \<Longrightarrow>
    keeps_files (then_do r k) w \<and> \<not> is_ok (then_do r k)"
  by (cases r) (auto simp: keeps_files_def then_do_def is_ok_def split: sum.splits)

lemma keeps_exec: "(\<And>w0. cw_files w0 = cw_files w \<Longrightarrow> cw_files (snd (run w0)) = cw_files w) \<Longrightarrow> keeps_files (exec_vm run w) w"
proof -
  assume same: "\<And>w0. cw_files w0 = cw_files w \<Longrightarrow> cw_files (snd (run w0)) = cw_files w"
  have "cw_files (snd (run (w\<lparr>cw_faults := tl (cw_faults w)\<rparr>))) = cw_files w" by (rule same) simp
  then show ?thesis
    by (cases "cw_faults w"; cases "run (w\<lparr>cw_faults := tl (cw_faults w)\<rparr>)") (auto simp: keeps_files_def exec_vm_def Let_def split: fault.split)
qed

lemma keeps_run:
  assumes "snd (s (cw_files w vm)) = cw_files w vm"
  shows "keeps_files (then_do (write_script w) (\<lambda>_ w1. then_do (exec_vm (php vm s) w1) (php_answer what vm))) w"
proof (rule keeps_then)
  show "keeps_files (write_script w) w" unfolding write_script_def by (rule keeps_exec) simp
next
  fix x w1 assume "write_script w = (Inr x, w1)"
  then have w1: "cw_files w1 = cw_files w" unfolding write_script_def by (rule exec_vm_ok) simp_all
  show "keeps_files (then_do (exec_vm (php vm s) w1) (php_answer what vm)) w1"
  proof (rule keeps_then)
    show "keeps_files (exec_vm (php vm s) w1) w1"
      using assms w1 by (intro keeps_exec) (auto simp: php_def fun_upd_idem split: prod.splits)
  qed (simp add: keeps_files_def php_answer_def Let_def)
qed

lemma keeps_read: "keeps_files (run_read_only_php vm s w) w"
  unfolding run_read_only_php_def by (rule keeps_run) simp

lemma keeps_must: "keeps_files r w \<Longrightarrow> keeps_files (must_be_ok what vm r) w"
  unfolding must_be_ok_def by (erule keeps_then) (simp add: keeps_files_def)

lemma keeps_answers:
  "keeps_files (get_vlan_list vm w) w" "keeps_files (get_interface_names vm w) w" "keeps_files (get_opt_for_vlanif vm vlanif w) w"
  "keeps_files (get_interface_ip_and_subnet vm opt w) w"
  unfolding get_vlan_list_def get_interface_names_def get_opt_for_vlanif_def get_interface_ip_and_subnet_def
  by (rule keeps_then [OF keeps_read]; simp add: keeps_files_def)+

lemma set_ip_absent:
  assumes "cw_files w vm = Some c" "map_of (ifaces_of c) opt = None"
  shows "keeps_files (set_interface_ip vm opt ip n w) w \<and> \<not> is_ok (set_interface_ip vm opt ip n w)"
proof
  show "keeps_files (set_interface_ip vm opt ip n w) w"
    unfolding set_interface_ip_def run_php_def verify_interface_ip_def
    by (intro keeps_then [OF keeps_run] keeps_must keeps_read) (simp add: set_ip_script_def assms)
  show "\<not> is_ok (set_interface_ip vm opt ip n w)"
    unfolding is_ok_conv using set_ip_ok [OF _ assms(1)] assms(2) by (metis option.distinct(1))
qed

text \<open>Without an interface for the device the reuse of it fails and changes nothing.\<close>

lemma reuse_half_made:
  assumes "tidy_config c" "cw_files w (args_vm a) = Some c" "\<And>p. p \<in> set (ifaces_of c) \<Longrightarrow> text_of ''if'' (snd p) \<noteq> ve_vlanif v"
  shows "keeps_files (reuse_vlan (invm_calls run) a (map fst (ifaces_of c)) v w) w \<and>
    \<not> is_ok (reuse_vlan (invm_calls run) a (map fst (ifaces_of c)) v w)"
proof
  show "\<not> is_ok (reuse_vlan (invm_calls run) a (map fst (ifaces_of c)) v w)"
  proof
    assume "is_ok (reuse_vlan (invm_calls run) a (map fst (ifaces_of c)) v w)"
    then obtain vlanif opt w' where run: "reuse_vlan (invm_calls run) a (map fst (ifaces_of c)) v w = (Inr (vlanif, opt), w')"
      unfolding is_ok_conv by auto
    from reuse_vlan_ok [OF run assms(1,2)] obtain e where "map_of (ifaces_of c) opt = Some e" "text_of ''if'' e = ve_vlanif v"
      by (auto simp: iface_set_def)
    with assms(3) show False by (force dest: map_of_SomeD)
  qed
  show "keeps_files (reuse_vlan (invm_calls run) a (map fst (ifaces_of c)) v w) w"
    unfolding reuse_vlan_def Let_def invm_sel
  proof (rule keeps_then [OF keeps_answers(3)])
    fix found s3 assume found: "get_opt_for_vlanif (args_vm a) (ve_vlanif v) w = (Inr found, s3)"
    define opt where "opt = (if truthy found then the found else next_opt_name (map fst (ifaces_of c)))"
    have "found = None" using opt_read [OF assms(1) found assms(2)] assms(3) by (force dest: map_of_SomeD)
    then have absent: "map_of (ifaces_of c) opt = None"
      using next_names_fresh(2) [of "map fst (ifaces_of c)"] by (simp add: opt_def truthy_def map_of_eq_None_iff)
    have s3: "cw_files s3 (args_vm a) = Some c" using get_opt_ok [OF found] assms(2) by simp
    show "keeps_files (then_do (get_interface_ip_and_subnet (args_vm a) (if truthy found then the found else next_opt_name (map fst (ifaces_of c))) s3)
        (\<lambda>(ip, subnet) w2. if ip \<noteq> Some (va_ip_address a) \<or> subnet \<noteq> Some (va_subnet a)
          then then_do (set_interface_ip (args_vm a) (if truthy found then the found else next_opt_name (map fst (ifaces_of c))) (va_ip_address a) (va_subnet a) w2)
            (\<lambda>_ w3. then_do (reload_config (args_vm a) w3)
              (\<lambda>_. ok (ve_vlanif v, if truthy found then the found else next_opt_name (map fst (ifaces_of c)))))
          else ok (ve_vlanif v, if truthy found then the found else next_opt_name (map fst (ifaces_of c))) w2)) s3"
      unfolding opt_def [symmetric]
    proof (rule keeps_then [OF keeps_answers(4)])
      fix r s4 assume r: "get_interface_ip_and_subnet (args_vm a) opt s3 = (Inr r, s4)"
      obtain ip subnet where ips: "r = (ip, subnet)" by (cases r)
      have "cw_files s4 (args_vm a) = Some c" using get_ip_ok [OF r] s3 by simp
      from set_ip_absent [OF this absent, of "va_ip_address a" "va_subnet a"]
      have "keeps_files (then_do (set_interface_ip (args_vm a) opt (va_ip_address a) (va_subnet a) s4) k) s4" for k :: "unit \<Rightarrow> cfg_world \<Rightarrow> (string \<times> string, cfg_world) result"
        by (intro keeps_then) (auto simp: is_ok_conv)
      then show "keeps_files ((case r of (ip, subnet) \<Rightarrow> \<lambda>w2. if ip \<noteq> Some (va_ip_address a) \<or> subnet \<noteq> Some (va_subnet a)
          then then_do (set_interface_ip (args_vm a) opt (va_ip_address a) (va_subnet a) w2)
            (\<lambda>_ w3. then_do (reload_config (args_vm a) w3) (\<lambda>_. ok (ve_vlanif v, opt))) else ok (ve_vlanif v, opt) w2) s4) s4"
        unfolding ips prod.case if_split [of "\<lambda>x. keeps_files x s4"] by (simp add: keeps_files_def)
    qed
  qed
qed

lemma half_made_attempt:
  assumes "half_made a c" "tidy_config c" "cw_files w (args_vm a) = Some c"
  shows "keeps_files (configure_vlan (invm_calls run) a w) w \<and> \<not> is_ok (configure_vlan (invm_calls run) a w)"
proof -
  have tidy: "\<forall>v \<in> set (vlans_in c). tidy_vlan v" using assms(2) by (simp add: tidy_config_def)
  show ?thesis
    unfolding configure_vlan_def invm_sel
  proof (rule fruitless_then [OF keeps_answers(1)], rule fruitless_then [OF keeps_answers(2)])
    fix devs w1 names w2
    assume 1: "get_vlan_list (args_vm a) w = (Inr devs, w1)" and 2: "get_interface_names (args_vm a) w1 = (Inr names, w2)"
    have devs: "devs = map entry_of (vlans_in c)" using get_vlans_ok [OF 1] assms(3) vlan_list_read [OF tidy] by simp
    have names: "names = map fst (ifaces_of c)" using get_names_ok [OF 2] get_vlans_ok [OF 1] assms(3) names_read [OF assms(2)] by simp
    have w2: "cw_files w2 (args_vm a) = Some c" using get_vlans_ok [OF 1] get_names_ok [OF 2] assms(3) by simp
    let ?r = "(case find (\<lambda>v. ve_tag v = va_vlan_tag a \<and> ve_parent v = args_parent a) devs of
        None \<Rightarrow> new_vlan (invm_calls run) a devs names | Some v \<Rightarrow> reuse_vlan (invm_calls run) a names v) w2"
    show "keeps_files ?r w2 \<and> \<not> is_ok ?r"
    proof (cases "find (\<lambda>v. ve_tag v = va_vlan_tag a \<and> ve_parent v = args_parent a) devs")
      case None
      then show ?thesis using assms(1) by (auto simp: devs half_made_def find_None_iff entry_of_def is_vlan_def)
    next
      case (Some v)
      then have "v \<in> set devs" "ve_tag v = va_vlan_tag a \<and> ve_parent v = args_parent a" using nth_mem by (fastforce simp: find_Some_iff)+
      then have "text_of ''if'' (snd p) \<noteq> ve_vlanif v" if "p \<in> set (ifaces_of c)" for p
        using assms(1) that by (auto simp: devs half_made_def entry_of_def is_vlan_def)
      then show ?thesis using reuse_half_made [OF assms(2) w2, of v run] Some names by simp
    qed
  qed
qed

text \<open>A new VLAN is half made from the moment its device is in the file until its interface is.\<close>

lemma added_device_half_made:
  assumes "add_vlan_device vm v w = (Inr u, w')" "cw_files w vm = Some c" "ve_tag v = va_vlan_tag a" "ve_parent v = args_parent a"
    and "\<And>x. x \<in> set (vlans_in c) \<Longrightarrow> \<not> is_vlan (va_vlan_tag a) (args_parent a) x"
    and "\<And>p. p \<in> set (ifaces_of c) \<Longrightarrow> text_of ''if'' (snd p) \<noteq> ve_vlanif v"
  shows "\<exists>c'. cw_files w' = (cw_files w)(vm \<mapsto> c') \<and> half_made a c'"
proof -
  let ?c = "c\<lparr>fc_vlans := Some (vlans_in c @ [filled_vlan v []])\<rparr>"
  have "\<not> list_ex (is_vlan (ve_tag v) (ve_parent v)) (vlans_in c)" using assms(3-5) by (auto simp: list_ex_iff)
  moreover have "cw_files w' = (cw_files w)(vm := snd (add_vlan_script v (cw_files w vm)))"
    using assms(1) by (auto simp: add_vlan_device_def verify_vlan_exists_def then_do_ok must_be_ok_ok dest!: run_php_ok read_php_ok)
  ultimately have "cw_files w' = (cw_files w)(vm \<mapsto> ?c)" using assms(2) by (simp add: add_vlan_script_def Let_def vlans_in_def)
  moreover have "ifaces_of ?c = ifaces_of c" by (simp add: ifaces_of_def)
  moreover have "is_vlan (va_vlan_tag a) (args_parent a) (filled_vlan v [])" using filled_is_vlan [of v "[]"] assms(3,4) by simp
  ultimately have "half_made a ?c" using assms(5,6) by (auto simp: half_made_def)
  then show ?thesis using \<open>cw_files w' = (cw_files w)(vm \<mapsto> ?c)\<close> by blast
qed

text \<open>Attempts one after the other, each with its own faults: does one of them succeed?\<close>

fun some_attempt :: "cfg_world vm_run \<Rightarrow> vlan_args \<Rightarrow> fault list list \<Rightarrow> cfg_world \<Rightarrow> bool" where
  "some_attempt run a [] w = False"
| "some_attempt run a (fs # fss) w =
     (let (r, w') = configure_vlan (invm_calls run) a (w\<lparr>cw_faults := fs\<rparr>)
      in case r of Inr _ \<Rightarrow> True | Inl _ \<Rightarrow> some_attempt run a fss w')"

text \<open>
  C37: A VLAN whose device is in the file while no interface uses it is never set up: an attempt takes the
  device as it is, looks for its interface, and fails to change the address of one that does not exist. That
  is what an attempt leaves that breaks off after the device was written; no number of retries repairs it.
\<close>

theorem half_made_vlan_stuck:
  assumes "half_made a c" "tidy_config c" "cw_files w (args_vm a) = Some c"
  shows "\<not> some_attempt run a fss w"
  using assms(3)
proof (induction fss arbitrary: w)
  case (Cons fs fss)
  obtain r w' where r: "configure_vlan (invm_calls run) a (w\<lparr>cw_faults := fs\<rparr>) = (r, w')" by fastforce
  have "keeps_files (configure_vlan (invm_calls run) a (w\<lparr>cw_faults := fs\<rparr>)) (w\<lparr>cw_faults := fs\<rparr>) \<and>
      \<not> is_ok (configure_vlan (invm_calls run) a (w\<lparr>cw_faults := fs\<rparr>))"
    using Cons.prems by (intro half_made_attempt [OF assms(1,2)]) simp
  then have "cw_files w' (args_vm a) = Some c" "\<exists>e. r = Inl e"
    using r Cons.prems by (auto simp: keeps_files_def is_ok_def split: sum.splits)
  then show ?case using Cons.IH r by auto
qed simp

section \<open>A VLAN that is removed\<close>

lemma find_drop_first:
  "find P xs = None \<Longrightarrow> drop_first P xs = xs"
  "find P xs = Some x \<Longrightarrow> P x \<and> x \<in> set xs"
  by (induction xs) (auto split: if_splits)

lemma drop_first_others: "filter (\<lambda>x. \<not> P x) (drop_first P xs) = filter (\<lambda>x. \<not> P x) xs"
  by (induction xs) auto

lemma drop_first_lost: "x \<in> set xs \<Longrightarrow> x \<notin> set (drop_first P xs) \<Longrightarrow> P x"
  by (induction xs) (auto split: if_splits)

lemma removed_config:
  assumes "vlan_selected tag parent = is_vlan tag parent"
  obtains c' where "snd (remove_vlan_script tag parent (Some c)) = Some c'" "vlans_in c' = drop_first (is_vlan tag parent) (vlans_in c)"
    "\<forall>p \<in> set (ifaces_of c). p \<notin> set (ifaces_of c') \<longrightarrow> (\<exists>x \<in> set (vlans_in c). is_vlan tag parent x \<and> text_of ''if'' (snd p) = text_of ''vlanif'' x)"
proof (cases "find (is_vlan tag parent) (vlans_in c)")
  case None
  then show thesis using find_drop_first(1) [OF None] by (intro that [of c]) (simp_all add: remove_vlan_script_def assms vlans_in_def [symmetric])
next
  case (Some v)
  define c1 where "c1 = c\<lparr>fc_vlans := Some (drop_first (is_vlan tag parent) (vlans_in c))\<rparr>"
  have c1: "vlans_in c1 = drop_first (is_vlan tag parent) (vlans_in c)" "ifaces_of c1 = ifaces_of c" by (simp_all add: c1_def ifaces_of_def)
  let ?uses = "\<lambda>(nm, e). text_of ''if'' e = text_of ''vlanif'' v"
  show thesis
  proof (cases "\<exists>ifs p. fc_ifaces c = Some ifs \<and> find ?uses ifs = Some p")
    case False
    then have "snd (remove_vlan_script tag parent (Some c)) = Some c1"
      by (auto simp: remove_vlan_script_def assms vlans_in_def [symmetric] Some c1_def Let_def split: option.split)
    then show thesis using c1 by (intro that [of c1]) simp_all
  next
    case True
    then obtain ifs p where p: "fc_ifaces c = Some ifs" "find ?uses ifs = Some p" by blast
    define c2 where "c2 = c1\<lparr>fc_ifaces := Some (drop_first ?uses ifs)\<rparr>"
    have "snd (remove_vlan_script tag parent (Some c)) = Some c2"
      using p by (auto simp: remove_vlan_script_def assms vlans_in_def [symmetric] Some c1_def c2_def Let_def split: prod.split)
    moreover have "vlans_in c2 = drop_first (is_vlan tag parent) (vlans_in c)" by (simp add: c2_def c1)
    moreover have "?uses q" if "q \<in> set (ifaces_of c)" "q \<notin> set (ifaces_of c2)" for q
      using drop_first_lost [of q ifs ?uses] that p(1) by (simp add: ifaces_of_def c2_def)
    ultimately show thesis using find_drop_first(2) [OF Some] by (intro that [of c2]) (auto simp: case_prod_beta)
  qed
qed

text \<open>
  When removing a VLAN succeeds, the file has no entry for it any more; the entries of other VLANs and
  every interface that does not belong to a removed device are as they were.
\<close>

theorem removed_vlan_gone:
  assumes "remove_vlan vm tag parent w = (Inr u, w')" "parent \<noteq> []" "cw_files w vm = Some c"
  shows "\<exists>c'. cw_files w' = (cw_files w)(vm \<mapsto> c') \<and> (\<forall>x \<in> set (vlans_in c'). \<not> is_vlan tag parent x) \<and>
    vlans_in c' = filter (\<lambda>x. \<not> is_vlan tag parent x) (vlans_in c) \<and>
    (\<forall>p \<in> set (ifaces_of c). p \<notin> set (ifaces_of c') \<longrightarrow> (\<exists>x \<in> set (vlans_in c). is_vlan tag parent x \<and> text_of ''if'' (snd p) = text_of ''vlanif'' x))"
proof -
  from assms(1) obtain out w1 v w2 where 1: "run_php vm (remove_vlan_script tag parent) w = (Inr out, w1)"
    and 2: "(if contains_str out ''removed:''
              then (case second_part ''vlanif='' out of None \<Rightarrow> ok () w1
                | Some part \<Rightarrow> (case first_word part of None \<Rightarrow> raise (OtherError ''list index out of range'') w1
                    | Some vlanif \<Rightarrow> destroy_vlan_iface vm vlanif w1))
              else ok () w1) = (Inr v, w2)"
    and 3: "verify_vlan_removed vm tag parent w2 = (Inr u, w')"
    unfolding remove_vlan_def then_do_ok using assms(2) by auto
  have sel: "vlan_selected tag parent = is_vlan tag parent" using assms(2) by (auto simp: fun_eq_iff vlan_selected_def is_vlan_def)
  have "cw_files w2 = cw_files w1"
    using 2 by (auto simp: destroy_vlan_iface_def then_do_ok dest!: run_shell_ok split: if_splits option.splits)
  then have files: "cw_files w2 = (cw_files w)(vm := snd (remove_vlan_script tag parent (Some c)))" using run_php_ok [OF 1] assms(3) by simp
  have verified: "cw_files w' = cw_files w2" "strip (vlan_removed_script tag parent (cw_files w2 vm)) = ''ok''"
    using 3 by (auto simp: verify_vlan_removed_def must_be_ok_ok dest!: read_php_ok)
  obtain c' where c': "snd (remove_vlan_script tag parent (Some c)) = Some c'" "vlans_in c' = drop_first (is_vlan tag parent) (vlans_in c)"
    "\<forall>p \<in> set (ifaces_of c). p \<notin> set (ifaces_of c') \<longrightarrow> (\<exists>x \<in> set (vlans_in c). is_vlan tag parent x \<and> text_of ''if'' (snd p) = text_of ''vlanif'' x)"
    by (rule removed_config [OF sel])
  have gone: "\<forall>x \<in> set (vlans_in c'). \<not> is_vlan tag parent x"
    using verified(2) files c'(1) strip_failed by (auto simp: vlan_removed_script_def vlans_in_def split: option.splits if_splits)
  then have "vlans_in c' = filter (\<lambda>x. \<not> is_vlan tag parent x) (vlans_in c)"
    using drop_first_others [of "is_vlan tag parent" "vlans_in c"] c'(2) by (metis filter_True)
  then show ?thesis using gone c'(1,3) files verified(1) by auto
qed

section \<open>Runs without faults\<close>

lemma exec_fine: "cw_faults w = [] \<Longrightarrow> exec_vm run w = (let (r, w1) = run w in ok r w1)"
proof -
  assume none: "cw_faults w = []"
  then have same: "w\<lparr>cw_faults := tl (cw_faults w)\<rparr> = w" by (cases w) simp
  show ?thesis unfolding exec_vm_def Let_def same unfolding none by simp
qed

lemma php_answer_printed: "php_answer what vm (printed s) w = ok (strip s) w"
proof -
  have "strip [] = []" by code_simp
  then show ?thesis by (simp add: php_answer_def printed_def)
qed

lemma run_fine:
  "cw_faults w = [] \<Longrightarrow>
    run_php vm s w = ok (strip (fst (s (cw_files w vm)))) (w\<lparr>cw_files := (cw_files w)(vm := snd (s (cw_files w vm)))\<rparr>)"
  by (simp add: run_php_def write_script_def exec_fine php_def php_answer_printed split: prod.split)

lemma read_fine: "cw_faults w = [] \<Longrightarrow> run_read_only_php vm s w = ok (strip (s (cw_files w vm))) w"
  by (simp add: run_read_only_php_def write_script_def exec_fine php_def php_answer_printed)

lemma must_be_ok_fine: "must_be_ok what vm (ok ''ok'' w) = ok () w"
  by (simp add: must_be_ok_def)

lemma strip_ok: "strip ''ok'' = ''ok''"
  by code_simp

lemma add_vlan_fine:
  assumes "cw_faults w = []" "cw_files w vm = Some c"
  shows "\<exists>c'. add_vlan_device vm v w = ok () (w\<lparr>cw_files := (cw_files w)(vm \<mapsto> c')\<rparr>) \<and> fc_ifaces c' = fc_ifaces c"
proof -
  let ?P = "is_vlan (ve_tag v) (ve_parent v)"
  let ?vs = "if list_ex ?P (vlans_in c) then upd_first ?P (filled_vlan v) (vlans_in c) else vlans_in c @ [filled_vlan v []]"
  let ?c = "c\<lparr>fc_vlans := Some ?vs\<rparr>"
  have "\<exists>x \<in> set ?vs. ?P x \<and> text_of ''vlanif'' x = ve_vlanif v"
  proof (cases "list_ex ?P (vlans_in c)")
    case True
    with upd_first_hit [OF True, of "filled_vlan v"] obtain x where "filled_vlan v x \<in> set ?vs" by auto
    then show ?thesis by (intro bexI [of _ "filled_vlan v x"]) simp_all
  qed simp
  then have "vlan_exists_script (ve_tag v) (ve_parent v) (ve_vlanif v) (Some ?c) = ''ok''" by (simp add: vlan_exists_script_def)
  moreover have "snd (add_vlan_script v (Some c)) = Some ?c" by (simp add: add_vlan_script_def Let_def vlans_in_def)
  ultimately have "add_vlan_device vm v w = ok () (w\<lparr>cw_files := (cw_files w)(vm \<mapsto> ?c)\<rparr>)"
    using assms by (simp add: add_vlan_device_def verify_vlan_exists_def run_fine read_fine must_be_ok_fine strip_ok)
  then show ?thesis by (intro exI [of _ ?c]) simp
qed

lemma add_opt_fine:
  assumes "cw_faults w = []" "cw_files w vm = Some c" "fc_ifaces c = Some ifs"
  shows "\<exists>c'. add_opt_interface vm opt vlanif ip n descr w = ok () (w\<lparr>cw_files := (cw_files w)(vm \<mapsto> c')\<rparr>)"
proof -
  let ?d = "if descr \<noteq> [] then descr else upper opt"
  let ?c = "c\<lparr>fc_ifaces := Some (AList.update opt (filled_opt vlanif ?d ip n (case map_of ifs opt of None \<Rightarrow> [] | Some e \<Rightarrow> e)) ifs)\<rparr>"
  have "opt_exists_script opt vlanif ip (Some ?c) = ''ok''" by (simp add: opt_exists_script_def update_conv')
  moreover have "snd (add_opt_script opt vlanif ?d ip n (Some c)) = Some ?c" by (simp add: add_opt_script_def assms(3) Let_def)
  ultimately show ?thesis
    using assms by (intro exI [of _ ?c]) (simp add: add_opt_interface_def verify_opt_exists_def run_fine read_fine must_be_ok_fine strip_ok)
qed

lemma reload_fine: "cw_faults w = [] \<Longrightarrow> reload_config vm w = ok () w"
  by (simp add: reload_config_def run_shell_def exec_fine)

text \<open>
  Without faults a new VLAN is set up: if the file has no entry for the tag on the parent but a section of
  interfaces, and the command that brings the device up succeeds, the configuration succeeds, with names that
  nothing in the file uses.
\<close>

theorem new_vlan_succeeds:
  assumes "cw_faults w = []" "cw_files w (args_vm a) = Some c" "tidy_config c" "fc_ifaces c \<noteq> None"
    and "\<And>x. x \<in> set (vlans_in c) \<Longrightarrow> \<not> is_vlan (va_vlan_tag a) (args_parent a) x"
    and "\<And>cmd. cw_shell w (args_vm a) cmd = printed ''ok''"
  shows "\<exists>vlanif opt w'. configure_vlan (invm_calls run) a w = (Inr (vlanif, opt), w') \<and>
    vlanif \<notin> text_of ''vlanif'' ` set (vlans_in c) \<and> opt \<notin> fst ` set (ifaces_of c)"
proof -
  let ?vm = "args_vm a"
  have tidy: "\<forall>v \<in> set (vlans_in c). tidy_vlan v" using assms(3) by (simp add: tidy_config_def)
  define devs where "devs = map entry_of (vlans_in c)"
  define names where "names = map fst (ifaces_of c)"
  have 1: "get_vlan_list ?vm w = (Inr devs, w)"
    using assms(1,2) vlan_list_read [OF tidy] by (simp add: get_vlan_list_def read_fine devs_def)
  have 2: "get_interface_names ?vm w = ok names w"
    using assms(1,2) names_read [OF assms(3)] by (simp add: get_interface_names_def read_fine names_def)
  have none: "find (\<lambda>v. ve_tag v = va_vlan_tag a \<and> ve_parent v = args_parent a) devs = None"
    using assms(5) by (auto simp: devs_def find_None_iff entry_of_def is_vlan_def)
  obtain ifs where ifs: "fc_ifaces c = Some ifs" using assms(4) by blast
  let ?descr = "if va_description a \<noteq> [] then va_description a else ''tenant'' @ show_int (va_tenant_id a) @ ''-vlan'' @ show_int (va_vlan_tag a)"
  let ?v = "\<lparr>ve_tag = va_vlan_tag a, ve_parent = args_parent a, ve_vlanif = next_vlanif (map ve_vlanif devs), ve_descr = ?descr\<rparr>"
  obtain c1 where c1: "add_vlan_device ?vm ?v w = ok () (w\<lparr>cw_files := (cw_files w)(?vm \<mapsto> c1)\<rparr>)" "fc_ifaces c1 = fc_ifaces c"
    using add_vlan_fine [OF assms(1,2), of ?v] by blast
  let ?w1 = "w\<lparr>cw_files := (cw_files w)(?vm \<mapsto> c1)\<rparr>"
  obtain c2 where c2: "add_opt_interface ?vm (next_opt_name names) (ve_vlanif ?v) (va_ip_address a) (va_subnet a) (upper ?descr) ?w1 =
      ok () (?w1\<lparr>cw_files := (cw_files ?w1)(?vm \<mapsto> c2)\<rparr>)"
    using add_opt_fine [of ?w1 ?vm c1 ifs "next_opt_name names" "ve_vlanif ?v" "va_ip_address a" "va_subnet a" "upper ?descr"] assms(1) c1(2) ifs
    by fastforce
  let ?w2 = "?w1\<lparr>cw_files := (cw_files ?w1)(?vm \<mapsto> c2)\<rparr>"
  have "\<not> contains_str ''ok'' ''ip-check-failed''" by code_simp
  then have 3: "create_vlan_iface_with_ip ?vm ?v (va_ip_address a) (va_subnet a) ?w2 = ok () ?w2"
    using assms(1,6) by (simp add: create_vlan_iface_with_ip_def run_shell_def exec_fine printed_def strip_ok)
  have 4: "reload_config ?vm ?w2 = ok () ?w2" using assms(1) by (simp add: reload_fine)
  have "configure_vlan (invm_calls run) a w = (Inr (next_vlanif (map ve_vlanif devs), next_opt_name names), ?w2)"
    unfolding configure_vlan_def invm_sel 1 ok_def [symmetric] then_do_simps 2 none option.case new_vlan_def Let_def c1(1) c2 3 4 by (simp add: ok_def)
  moreover have "next_vlanif (map ve_vlanif devs) \<notin> text_of ''vlanif'' ` set (vlans_in c)"
    using next_names_fresh(1) [of "map ve_vlanif devs"] by (simp add: devs_def entry_of_def image_image)
  moreover have "next_opt_name names \<notin> fst ` set (ifaces_of c)" using next_names_fresh(2) [of names] by (simp add: names_def)
  ultimately show ?thesis by blast
qed

section \<open>Examples\<close>

definition sample_config :: fw_config where
  "sample_config = \<lparr>fc_vlans = Some [[(''if'', ''vtnet1''), (''tag'', ''12''), (''descr'', ''guests''), (''vlanif'', ''vlan01'')]],
     fc_ifaces = Some [(''wan'', [(''if'', ''vtnet0''), (''ipaddr'', ''192.0.2.2''), (''subnet'', ''24'')]),
       (''opt1'', [(''if'', ''vlan01''), (''ipaddr'', ''10.0.9.1''), (''subnet'', ''24'')])]\<rparr>"

definition sample_world :: "fw_config \<Rightarrow> cfg_world" where
  "sample_world c = \<lparr>cw_files = (\<lambda>vm. Some c), cw_faults = [], cw_shell = (\<lambda>vm cmd. printed ''ok'')\<rparr>"

definition sample_args :: vlan_args where
  "sample_args = queued_vlan 1 7 ''10.0.4.1'' 24"

definition sample_run :: "cfg_world vm_run" where
  "sample_run vm cmd w = ok (printed ''{}'') w"

lemma sample_new:
  "tidy_config sample_config" "fc_ifaces sample_config \<noteq> None" "cw_faults (sample_world c) = []" "cw_files (sample_world c) vm = Some c"
  "x \<in> set (vlans_in sample_config) \<Longrightarrow> \<not> is_vlan (va_vlan_tag sample_args) (args_parent sample_args) x"
  "cw_shell (sample_world c) vm cmd = printed ''ok''"
proof -
  show "tidy_config sample_config" by code_simp
  show "fc_ifaces sample_config \<noteq> None" "cw_faults (sample_world c) = []" "cw_files (sample_world c) vm = Some c"
    "cw_shell (sample_world c) vm cmd = printed ''ok''"
    by (simp_all add: sample_config_def sample_world_def)
  have "list_all (\<lambda>x. \<not> is_vlan (va_vlan_tag sample_args) (args_parent sample_args) x) (vlans_in sample_config)" by code_simp
  then show "x \<in> set (vlans_in sample_config) \<Longrightarrow> \<not> is_vlan (va_vlan_tag sample_args) (args_parent sample_args) x" by (simp add: list_all_iff)
qed

lemma sample_set_up:
  "\<exists>vlanif opt w'. configure_vlan (invm_calls sample_run) sample_args (sample_world sample_config) = (Inr (vlanif, opt), w') \<and>
    vlanif \<noteq> ''vlan01'' \<and> opt \<noteq> ''opt1'' \<and> opt \<noteq> ''wan''"
proof -
  have "text_of ''vlanif'' ` set (vlans_in sample_config) = {''vlan01''}" by code_simp
  moreover have "fst ` set (ifaces_of sample_config) = {''wan'', ''opt1''}" by code_simp
  ultimately show ?thesis
    using new_vlan_succeeds [OF sample_new(3,4,1,2,5,6), of sample_run] by auto
qed

lemma vlan_configured_witness:
  "\<exists>vlanif opt w' c'. configure_vlan (invm_calls sample_run) sample_args (sample_world sample_config) = (Inr (vlanif, opt), w') \<and>
    cw_files w' DEFAULT_OPNSENSE_VM_ID = Some c' \<and> map_of (ifaces_of c') opt \<noteq> None \<and>
    filter (\<lambda>x. \<not> is_vlan 7 ''vtnet1'' x) (vlans_in c') = vlans_in sample_config"
proof -
  obtain vlanif opt w' where run: "configure_vlan (invm_calls sample_run) sample_args (sample_world sample_config) = (Inr (vlanif, opt), w')"
    using new_vlan_succeeds [OF sample_new(3,4,1,2,5,6), of sample_run] by blast
  have args: "args_vm sample_args = DEFAULT_OPNSENSE_VM_ID" "va_vlan_tag sample_args = 7" "args_parent sample_args = ''vtnet1''" by code_simp+
  have others: "filter (\<lambda>x. \<not> is_vlan 7 ''vtnet1'' x) (vlans_in sample_config) = vlans_in sample_config"
    using sample_new(5) unfolding args by (intro filter_True) blast
  from vlan_configured [OF run sample_new(4,1)] run show ?thesis unfolding args others by (fastforce simp: iface_set_def)
qed

text \<open>What an attempt leaves that breaks off after the device was added and verified.\<close>

definition broken_off :: fw_config where
  "broken_off = sample_config\<lparr>fc_vlans := Some (vlans_in sample_config @
     [filled_vlan \<lparr>ve_tag = 7, ve_parent = ''vtnet1'', ve_vlanif = ''vlan02'', ve_descr = ''tenant1-vlan7''\<rparr> []])\<rparr>"

lemma half_made_vlan_stuck_witness:
  "\<not> some_attempt sample_run sample_args [[], [], []] (sample_world broken_off) \<and> length (vlans_in broken_off) = 2"
proof -
  have "half_made sample_args broken_off" "tidy_config broken_off" "length (vlans_in broken_off) = 2" by code_simp+
  then show ?thesis using half_made_vlan_stuck [of sample_args broken_off "sample_world broken_off" sample_run "[[], [], []]"] by (simp add: sample_new(4))
qed

lemma removed_vlan_gone_witness:
  "\<exists>w' c'. remove_vlan 9 12 ''vtnet1'' (sample_world sample_config) = (Inr (), w') \<and> cw_files w' 9 = Some c' \<and> vlans_in c' = []"
proof -
  define left where "left = \<lparr>fc_vlans = Some [], fc_ifaces = Some [hd (ifaces_of sample_config)]\<rparr>"
  let ?out = "''removed: tag=12 vlanif=vlan01 iface=opt1''"
  have script: "remove_vlan_script 12 ''vtnet1'' (Some sample_config) = (?out, Some left)" unfolding left_def by code_simp
  have texts: "strip ?out = ?out" "contains_str ?out ''removed:''" "second_part ''vlanif='' ?out = Some ''vlan01 iface=opt1''"
    "first_word ''vlan01 iface=opt1'' = Some ''vlan01''" by code_simp+
  have removed: "vlan_removed_script 12 ''vtnet1'' (Some left) = ''ok''" unfolding left_def by code_simp
  let ?w = "(sample_world sample_config)\<lparr>cw_files := (cw_files (sample_world sample_config))(9 \<mapsto> left)\<rparr>"
  have run: "remove_vlan 9 12 ''vtnet1'' (sample_world sample_config) = (Inr (), ?w)"
    by (simp add: remove_vlan_def run_fine read_fine sample_new(3,4) script texts destroy_vlan_iface_def run_shell_def exec_fine
        verify_vlan_removed_def removed strip_ok must_be_ok_fine)
  have "filter (\<lambda>x. \<not> is_vlan 12 ''vtnet1'' x) (vlans_in sample_config) = []" by code_simp
  moreover have "''vtnet1'' \<noteq> []" by simp
  ultimately obtain c' where "cw_files ?w = (cw_files (sample_world sample_config))(9 \<mapsto> c')" "vlans_in c' = []"
    using removed_vlan_gone [OF run _ sample_new(4)] by auto
  then have "cw_files ?w 9 = Some c' \<and> vlans_in c' = []" by (metis fun_upd_same)
  with run show ?thesis by blast
qed

end
