(* ===== verification/Reconciler.thy ===== *)
theory Reconciler
  imports Vm_Service "HOL-Library.AList"
begin

text \<open>
  Reconciliation of the machines in the database with the containers that exist
  (\<open>app/services/reconciler.py\<close>).

  \<open>rc_containers\<close> is what the container engine of a provider lists, a name and a status each, and
  \<open>rc_providers\<close> the registry and the removal calls of \<open>Vm_Service\<close>. The function the code imports to
  release an address, \<open>services.ipam.release_ip_reservation\<close>, does not exist; the import fails inside a
  \<open>try\<close> that logs the failure, so nothing is released there.
\<close>

section \<open>Audit\<close>

record reconcile_env =
  rc_providers :: provider_env
  rc_containers :: "string \<Rightarrow> py_exc + (string \<times> string) list"

record ghost =
  gh_vm_id :: int
  gh_name :: string
  gh_db_status :: string
  gh_provider :: string

record drift =
  dr_vm_id :: int
  dr_name :: string
  dr_db_status :: string
  dr_real_status :: string
  dr_provider :: string

record orphan =
  or_name :: string
  or_status :: string
  or_provider :: string

record audit_report =
  rp_orphans :: "orphan list"
  rp_ghosts :: "ghost list"
  rp_drift :: "drift list"
  rp_synced :: "string list"

definition get_container_status :: "reconcile_env \<Rightarrow> string \<Rightarrow> py_exc + (string \<times> string) list" where
  "get_container_status env provider =
     (case get_container_provider (rc_providers env) provider of
        Some _ \<Rightarrow> Inr []
      | None \<Rightarrow>
          (case rc_containers env provider of
             Inl (ProviderException p m) \<Rightarrow> Inr []
           | Inl e \<Rightarrow> Inl e
           | Inr cs \<Rightarrow> Inr (fold (\<lambda>(nm, st). AList.update nm st) cs [])))"

definition get_all_providers :: "reconcile_env \<Rightarrow> string list" where
  "get_all_providers env =
     ''docker'' # (if get_container_provider (rc_providers env) ''vsphere'' = None then [''vsphere''] else [])"

definition provider_vms :: "string \<Rightarrow> db \<Rightarrow> vm list" where
  "provider_vms provider d = filter (\<lambda>v. v_provider v = provider) (vms d)"

definition drifted :: "vm \<Rightarrow> string \<Rightarrow> bool" where
  "drifted v real \<longleftrightarrow> (v_status v = ''running'') \<noteq> (real = ''running'')"

definition ghost_of :: "string \<Rightarrow> vm \<Rightarrow> ghost" where
  "ghost_of provider v = \<lparr>gh_vm_id = v_id v, gh_name = v_name v, gh_db_status = v_status v, gh_provider = provider\<rparr>"

definition drift_of :: "string \<Rightarrow> (string \<times> string) list \<Rightarrow> vm \<Rightarrow> drift" where
  "drift_of provider cs v =
     \<lparr>dr_vm_id = v_id v, dr_name = v_name v, dr_db_status = v_status v, dr_real_status = the (map_of cs (v_name v)), dr_provider = provider\<rparr>"

definition audit_single_provider :: "reconcile_env \<Rightarrow> string \<Rightarrow> db \<Rightarrow> py_exc + audit_report" where
  "audit_single_provider env provider d =
     (case get_container_status env provider of
        Inl e \<Rightarrow> Inl e
      | Inr cs \<Rightarrow>
          (let rows = provider_vms provider d;
               here = filter (\<lambda>v. map_of cs (v_name v) \<noteq> None) rows
           in Inr \<lparr>rp_orphans = map (\<lambda>(nm, st). \<lparr>or_name = nm, or_status = st, or_provider = provider\<rparr>)
                     (filter (\<lambda>(nm, st). nm \<notin> v_name ` set rows) cs),
                   rp_ghosts = map (ghost_of provider) (filter (\<lambda>v. map_of cs (v_name v) = None) rows),
                   rp_drift = map (drift_of provider cs) (filter (\<lambda>v. drifted v (the (map_of cs (v_name v)))) here),
                   rp_synced = map v_name (filter (\<lambda>v. \<not> drifted v (the (map_of cs (v_name v)))) here)\<rparr>))"

definition join_reports :: "audit_report \<Rightarrow> audit_report \<Rightarrow> audit_report" where
  "join_reports a b =
     \<lparr>rp_orphans = rp_orphans a @ rp_orphans b, rp_ghosts = rp_ghosts a @ rp_ghosts b,
      rp_drift = rp_drift a @ rp_drift b, rp_synced = rp_synced a @ rp_synced b\<rparr>"

definition empty_report :: audit_report where
  "empty_report = \<lparr>rp_orphans = [], rp_ghosts = [], rp_drift = [], rp_synced = []\<rparr>"

text \<open>All providers together, with the report of each.\<close>

fun audit_providers :: "reconcile_env \<Rightarrow> string list \<Rightarrow> db \<Rightarrow> py_exc + audit_report \<times> (string \<times> audit_report) list" where
  "audit_providers env [] d = Inr (empty_report, [])"
| "audit_providers env (p # ps) d =
     (case audit_single_provider env p d of
        Inl e \<Rightarrow> Inl e
      | Inr r \<Rightarrow> map_sum id (\<lambda>(all, each). (join_reports r all, (p, r) # each)) (audit_providers env ps d))"

definition audit_all :: "reconcile_env \<Rightarrow> db \<Rightarrow> py_exc + audit_report \<times> (string \<times> audit_report) list" where
  "audit_all env d = audit_providers env (get_all_providers env) d"

section \<open>Reconciliation\<close>

record reconcile_result =
  rz_orphan_purged :: "string list"
  rz_ghost_purged :: "string list"
  rz_drift_corrected :: "(string \<times> string \<times> string) list"

fun purge_orphans :: "reconcile_env \<Rightarrow> string list \<Rightarrow> py_exc + string list" where
  "purge_orphans env [] = Inr []"
| "purge_orphans env (nm # nms) =
     (case pe_ct_remove (rc_providers env) nm True of
        None \<Rightarrow> map_sum id (Cons nm) (purge_orphans env nms)
      | Some (ProviderException p m) \<Rightarrow> purge_orphans env nms
      | Some e \<Rightarrow> Inl e)"

definition purge_ghost :: "ghost \<Rightarrow> string list \<times> db \<Rightarrow> string list \<times> db" where
  "purge_ghost g s =
     (let (names, d) = s
      in case find_vm (gh_vm_id g) d of
           None \<Rightarrow> s
         | Some v \<Rightarrow>
             (names @ [gh_name g],
              d\<lparr>vms := del_rows v_id (gh_vm_id g) (vms d),
                snapshots := filter (\<lambda>s. s_vm_id s \<noteq> gh_vm_id g) (snapshots d),
                ip_reservations := map (\<lambda>r. if res_vm_id r = Some (gh_vm_id g) then r\<lparr>res_status := ''released'', res_vm_id := None\<rparr> else r)
                  (ip_reservations d)\<rparr>))"

definition correct_drift :: "drift \<Rightarrow> (string \<times> string \<times> string) list \<times> db \<Rightarrow> (string \<times> string \<times> string) list \<times> db" where
  "correct_drift i s =
     (let (items, d) = s
      in case find_vm (dr_vm_id i) d of
           None \<Rightarrow> s
         | Some v \<Rightarrow> (items @ [(v_name v, dr_db_status i, dr_real_status i)],
             put_vm (dr_vm_id i) (\<lambda>x. x\<lparr>v_status := dr_real_status i\<rparr>) d))"

definition nothing_done :: reconcile_result where
  "nothing_done = \<lparr>rz_orphan_purged = [], rz_ghost_purged = [], rz_drift_corrected = []\<rparr>"

definition reconcile_single_provider :: "reconcile_env \<Rightarrow> string \<Rightarrow> db \<Rightarrow> (reconcile_result, db) result" where
  "reconcile_single_provider env provider d =
     (case audit_single_provider env provider d of
        Inl e \<Rightarrow> raise e d
      | Inr rep \<Rightarrow>
          (case get_container_provider (rc_providers env) provider of
             Some _ \<Rightarrow> ok nothing_done d
           | None \<Rightarrow>
               (case purge_orphans env (map or_name (rp_orphans rep)) of
                  Inl e \<Rightarrow> raise e d
                | Inr purged \<Rightarrow>
                    (let (ghosts, d1) = fold purge_ghost (rp_ghosts rep) ([], d);
                         (items, d2) = fold correct_drift (rp_drift rep) ([], d1)
                     in ok \<lparr>rz_orphan_purged = purged, rz_ghost_purged = ghosts, rz_drift_corrected = items\<rparr> d2))))"

definition join_results :: "reconcile_result \<Rightarrow> reconcile_result \<Rightarrow> reconcile_result" where
  "join_results a b =
     \<lparr>rz_orphan_purged = rz_orphan_purged a @ rz_orphan_purged b, rz_ghost_purged = rz_ghost_purged a @ rz_ghost_purged b,
      rz_drift_corrected = rz_drift_corrected a @ rz_drift_corrected b\<rparr>"

fun reconcile_providers :: "reconcile_env \<Rightarrow> string list \<Rightarrow> db \<Rightarrow> (reconcile_result, db) result" where
  "reconcile_providers env [] d = ok nothing_done d"
| "reconcile_providers env (p # ps) d =
     then_do (reconcile_single_provider env p d) (\<lambda>r d1. then_do (reconcile_providers env ps d1) (\<lambda>all. ok (join_results r all)))"

definition reconcile_all :: "reconcile_env \<Rightarrow> db \<Rightarrow> (reconcile_result, db) result" where
  "reconcile_all env d = reconcile_providers env (get_all_providers env) d"

text \<open>\<open>vm.disk_size\<close> is not an attribute of \<open>VM\<close>: the status is committed before the task is built.\<close>

definition fix_ghost_vm :: "int \<Rightarrow> db \<Rightarrow> (bool \<times> string, db) result" where
  "fix_ghost_vm i d =
     (case find_vm i d of
        None \<Rightarrow> ok (False, ''VM not found'') d
      | Some v \<Rightarrow> raise (AttributeError (quote_char # ''VM'' @ quote_char # '' object has no attribute '' @ quote_char # ''disk_size'' @ [quote_char]))
          (put_vm i (\<lambda>x. x\<lparr>v_status := ''pending''\<rparr>) d))"

section \<open>What an audit reports\<close>

text \<open>The four parts of a report, as functions of what the engine lists.\<close>

abbreviation missing :: "(string \<times> string) list \<Rightarrow> string \<Rightarrow> db \<Rightarrow> vm list" where
  "missing cs p d \<equiv> filter (\<lambda>v. map_of cs (v_name v) = None) (provider_vms p d)"

abbreviation present :: "(string \<times> string) list \<Rightarrow> string \<Rightarrow> db \<Rightarrow> vm list" where
  "present cs p d \<equiv> filter (\<lambda>v. map_of cs (v_name v) \<noteq> None) (provider_vms p d)"

lemma audit_single_eq:
  "get_container_status env p = Inr cs \<Longrightarrow> audit_single_provider env p d =
     Inr \<lparr>rp_orphans = map (\<lambda>(nm, st). \<lparr>or_name = nm, or_status = st, or_provider = p\<rparr>)
            (filter (\<lambda>(nm, st). nm \<notin> v_name ` set (provider_vms p d)) cs),
          rp_ghosts = map (ghost_of p) (missing cs p d),
          rp_drift = map (drift_of p cs) (filter (\<lambda>v. drifted v (the (map_of cs (v_name v)))) (present cs p d)),
          rp_synced = map v_name (filter (\<lambda>v. \<not> drifted v (the (map_of cs (v_name v)))) (present cs p d))\<rparr>"
  unfolding audit_single_provider_def Let_def by (simp only: sum.case)

lemma orphan_names:
  "map or_name (map (\<lambda>(nm, st). \<lparr>or_name = nm, or_status = st, or_provider = p\<rparr>) (filter (\<lambda>(nm, st). nm \<notin> N) cs)) =
    filter (\<lambda>nm. nm \<notin> N) (map fst cs)"
  by (induction cs) auto

lemma audit_settled:
  assumes "get_container_status env p = Inr cs"
    and "\<And>v. v \<in> set (provider_vms p d) \<Longrightarrow> \<exists>st. map_of cs (v_name v) = Some st \<and> \<not> drifted v st"
  shows "audit_single_provider env p d = Inr
    \<lparr>rp_orphans = map (\<lambda>(nm, st). \<lparr>or_name = nm, or_status = st, or_provider = p\<rparr>) (filter (\<lambda>(nm, st). nm \<notin> v_name ` set (provider_vms p d)) cs),
     rp_ghosts = [], rp_drift = [], rp_synced = map v_name (provider_vms p d)\<rparr>"
proof -
  have "missing cs p d = []" using assms(2) by (intro filter_False) force
  moreover have "present cs p d = provider_vms p d" using assms(2) by (intro filter_True) force
  moreover have "filter (\<lambda>v. drifted v (the (map_of cs (v_name v)))) (provider_vms p d) = []"
    using assms(2) by (intro filter_False) force
  moreover have "filter (\<lambda>v. \<not> drifted v (the (map_of cs (v_name v)))) (provider_vms p d) = provider_vms p d"
    using assms(2) by (intro filter_True) force
  ultimately show ?thesis by (simp only: audit_single_eq [OF assms(1)] list.map)
qed

section \<open>What reconciliation does to the rows\<close>

lemma purge_ghost_vms: "vms (snd (purge_ghost g s)) = filter (\<lambda>v. v_id v \<noteq> gh_vm_id g) (vms (snd s))"
proof (cases s)
  case (Pair names d)
  show ?thesis
  proof (cases "find_vm (gh_vm_id g) d")
    case None
    then have "filter (\<lambda>v. v_id v \<noteq> gh_vm_id g) (vms d) = vms d" by (intro filter_True) (simp add: find_vm_def first_row_None)
    with None Pair show ?thesis by (simp add: purge_ghost_def)
  next
    case (Some v)
    with Pair show ?thesis by (simp add: purge_ghost_def del_rows_def)
  qed
qed

lemma purge_ghosts_vms: "vms (snd (fold purge_ghost gs s)) = filter (\<lambda>v. v_id v \<notin> gh_vm_id ` set gs) (vms (snd s))"
  by (induction gs arbitrary: s) (simp_all add: purge_ghost_vms conj_commute)

definition corrected :: "drift list \<Rightarrow> vm \<Rightarrow> vm" where
  "corrected is v = (case map_of (map (\<lambda>i. (dr_vm_id i, dr_real_status i)) is) (v_id v) of None \<Rightarrow> v | Some st \<Rightarrow> v\<lparr>v_status := st\<rparr>)"

lemma corrected_fields [simp]:
  "v_id (corrected is v) = v_id v" "v_name (corrected is v) = v_name v" "v_provider (corrected is v) = v_provider v"
  by (simp_all add: corrected_def split: option.split)

lemma upd_status_corrected:
  "upd_rows v_id (dr_vm_id i) (\<lambda>x. x\<lparr>v_status := dr_real_status i\<rparr>) vs = map (corrected [i]) vs"
  by (induction vs) (simp_all add: corrected_def upd_rows_def)

lemma corrected_other: "v_id v \<notin> dr_vm_id ` set is \<Longrightarrow> corrected is v = v"
proof -
  assume "v_id v \<notin> dr_vm_id ` set is"
  then have "map_of (map (\<lambda>i. (dr_vm_id i, dr_real_status i)) is) (v_id v) = None" by (simp add: map_of_eq_None_iff image_image)
  then show ?thesis by (simp add: corrected_def)
qed

lemma corrected_Cons: "corrected (i # is) v = (if v_id v = dr_vm_id i then v\<lparr>v_status := dr_real_status i\<rparr> else corrected is v)"
  by (simp add: corrected_def)

lemma correct_drift_vms: "vms (snd (correct_drift i s)) = map (corrected [i]) (vms (snd s))"
proof (cases s)
  case (Pair names d)
  show ?thesis
  proof (cases "find_vm (dr_vm_id i) d")
    case None
    then have "map (corrected [i]) (vms d) = vms d"
      by (intro map_idI corrected_other) (auto simp: find_vm_def first_row_None)
    with None Pair show ?thesis by (simp add: correct_drift_def)
  next
    case (Some v)
    with Pair show ?thesis by (simp add: correct_drift_def put_vm_def upd_status_corrected)
  qed
qed

lemma correct_drifts_vms:
  "distinct (map dr_vm_id is) \<Longrightarrow> vms (snd (fold correct_drift is s)) = map (corrected is) (vms (snd s))"
proof (induction "is" arbitrary: s)
  case Nil
  then show ?case by (simp add: corrected_def [abs_def])
next
  case (Cons i "is")
  have "corrected is (corrected [i] v) = corrected (i # is) v" for v
  proof (cases "v_id v = dr_vm_id i")
    case True
    then have "corrected is (corrected [i] v) = corrected [i] v" using Cons.prems by (intro corrected_other) simp
    with True show ?thesis by (simp add: corrected_Cons)
  next
    case False
    then show ?thesis by (simp add: corrected_Cons corrected_other [of _ "[]"])
  qed
  then show ?case using Cons by (simp add: correct_drift_vms)
qed

text \<open>Removals that the engine refuses are passed over.\<close>

lemma purge_orphans_done:
  "(\<And>nm e. pe_ct_remove (rc_providers env) nm True = Some e \<Longrightarrow> \<exists>q m. e = ProviderException q m) \<Longrightarrow>
    purge_orphans env nms = Inr (filter (\<lambda>nm. pe_ct_remove (rc_providers env) nm True = None) nms)"
  by (induction nms) (fastforce split: option.split py_exc.split)+

text \<open>The machines after a reconciliation that nothing refused.\<close>

lemma reconcile_single_eq:
  assumes "audit_single_provider env p d = Inr rep" "get_container_provider (rc_providers env) p = None"
    and "purge_orphans env (map or_name (rp_orphans rep)) = Inr ps"
  shows "reconcile_single_provider env p d =
    (let (ghosts, d1) = fold purge_ghost (rp_ghosts rep) ([], d); (items, d2) = fold correct_drift (rp_drift rep) ([], d1)
     in ok \<lparr>rz_orphan_purged = ps, rz_ghost_purged = ghosts, rz_drift_corrected = items\<rparr> d2)"
  unfolding reconcile_single_provider_def assms sum.case option.case ..

lemma reconciled_vms:
  assumes "audit_single_provider env p d = Inr rep" "get_container_provider (rc_providers env) p = None"
    and "purge_orphans env (map or_name (rp_orphans rep)) = Inr ps" "distinct (map dr_vm_id (rp_drift rep))"
  obtains r d' where "reconcile_single_provider env p d = (Inr r, d')" "rz_orphan_purged r = ps"
    "vms d' = map (corrected (rp_drift rep)) (filter (\<lambda>v. v_id v \<notin> gh_vm_id ` set (rp_ghosts rep)) (vms d))"
proof -
  obtain names d1 where g: "fold purge_ghost (rp_ghosts rep) ([], d) = (names, d1)" by (meson surj_pair)
  obtain items d2 where i: "fold correct_drift (rp_drift rep) ([], d1) = (items, d2)" by (meson surj_pair)
  have "vms d1 = filter (\<lambda>v. v_id v \<notin> gh_vm_id ` set (rp_ghosts rep)) (vms d)"
    using purge_ghosts_vms [of "rp_ghosts rep" "([], d)"] g by simp
  moreover have "vms d2 = map (corrected (rp_drift rep)) (vms d1)" using correct_drifts_vms [OF assms(4), of "([], d1)"] i by simp
  ultimately show thesis
    using reconcile_single_eq [OF assms(1-3)] that [of "\<lparr>rz_orphan_purged = ps, rz_ghost_purged = names, rz_drift_corrected = items\<rparr>" d2]
    by (simp add: g i ok_def)
qed

lemma corrected_hit:
  "distinct (map dr_vm_id is) \<Longrightarrow> i \<in> set is \<Longrightarrow> v_id v = dr_vm_id i \<Longrightarrow> corrected is v = v\<lparr>v_status := dr_real_status i\<rparr>"
proof (induction "is")
  case (Cons a "is")
  show ?case
  proof (cases "i = a")
    case True
    with Cons.prems show ?thesis by (simp add: corrected_Cons)
  next
    case False
    with Cons.prems have "i \<in> set is" "dr_vm_id i \<noteq> dr_vm_id a" by (simp, metis distinct.simps(2) image_eqI list.map(2) list.set_map set_ConsD)
    with Cons show ?thesis by (simp add: corrected_Cons)
  qed
qed simp

text \<open>Ids are distinct, so a ghost or a drift found by its id is the machine it was reported for.\<close>

abbreviation drifts :: "(string \<times> string) list \<Rightarrow> string \<Rightarrow> db \<Rightarrow> vm list" where
  "drifts cs p d \<equiv> filter (\<lambda>v. drifted v (the (map_of cs (v_name v)))) (present cs p d)"

lemma ids_inj: "distinct_keys v_id (vms d) \<Longrightarrow> v \<in> set (vms d) \<Longrightarrow> u \<in> set (vms d) \<Longrightarrow> v_id v = v_id u \<Longrightarrow> v = u"
  by (auto simp: distinct_keys_def distinct_map inj_on_def)

lemma ghost_ids:
  assumes "distinct_keys v_id (vms d)" "v \<in> set (vms d)"
  shows "v_id v \<in> gh_vm_id ` set (map (ghost_of p) (missing cs p d)) \<longleftrightarrow> v_provider v = p \<and> map_of cs (v_name v) = None"
proof -
  have "gh_vm_id ` set (map (ghost_of p) (missing cs p d)) = v_id ` set (missing cs p d)" by (simp add: ghost_of_def image_image)
  moreover have "v_id v \<in> v_id ` set (missing cs p d) \<longleftrightarrow> v \<in> set (missing cs p d)"
    using ids_inj [OF assms] by (auto simp: provider_vms_def)
  ultimately show ?thesis using assms(2) by (simp add: provider_vms_def)
qed

lemma drift_ids_distinct: "distinct_keys v_id (vms d) \<Longrightarrow> distinct (map dr_vm_id (map (drift_of p cs) (drifts cs p d)))"
  by (simp add: distinct_keys_def provider_vms_def comp_def drift_of_def distinct_map_filter)

lemma drift_corrected:
  assumes "distinct_keys v_id (vms d)" "v \<in> set (vms d)"
  shows "corrected (map (drift_of p cs) (drifts cs p d)) v =
    (if v \<in> set (drifts cs p d) then v\<lparr>v_status := the (map_of cs (v_name v))\<rparr> else v)"
proof (cases "v \<in> set (drifts cs p d)")
  case True
  then have "drift_of p cs v \<in> set (map (drift_of p cs) (drifts cs p d))" by (simp only: list.set_map imageI)
  from corrected_hit [OF drift_ids_distinct [OF assms(1)] this, of v] True show ?thesis
    by (simp only: drift_of_def drift.simps if_True simp_thms)
next
  case False
  have "dr_vm_id ` set (map (drift_of p cs) (drifts cs p d)) = v_id ` set (drifts cs p d)" by (simp add: drift_of_def image_image)
  moreover have "v_id v \<notin> v_id ` set (drifts cs p d)" using ids_inj [OF assms] False by (auto simp: provider_vms_def)
  ultimately have "v_id v \<notin> dr_vm_id ` set (map (drift_of p cs) (drifts cs p d))" by (simp only: simp_thms)
  from corrected_other [OF this] False show ?thesis by (simp only: if_False)
qed

lemma map_of_kept: "P k \<Longrightarrow> map_of (filter (\<lambda>(a, b). P a) xs) k = map_of xs k"
  by (induction xs) auto



text \<open>A database with two machines of the engine, one of which it runs, beside a container nobody knows.\<close>

definition rc_vm :: "int \<Rightarrow> string \<Rightarrow> vm" where
  "rc_vm i nm =
     \<lparr>v_id = i, v_name = nm, v_description = None, v_provider = ''docker'', v_image = None, v_cpu = 1, v_ram = 512,
      v_disk_size_mb = 1024, v_ip_address = None, v_status = ''running'', v_terraform_job_id = None, v_celery_task_id = None,
      v_proxmox_vm_id = None, v_template_id = None, v_error = None, v_owner_id = 1, v_network_id = None, v_tenant_id = 1,
      v_ssh_user = ''ubuntu'', v_ssh_public_key = None, v_ssh_private_key_enc = None\<rparr>"

definition rc_db :: db where
  "rc_db = empty_db\<lparr>vms := [rc_vm 1 ''web'', rc_vm 2 ''gone'']\<rparr>"

definition rc_env :: "(py_exc + (string \<times> string) list) \<Rightarrow> reconcile_env" where
  "rc_env answer =
     \<lparr>rc_providers = \<lparr>pe_hypervisor = None, pe_start = (\<lambda>_. None), pe_stop = (\<lambda>_. None), pe_delete = (\<lambda>_. None),
        pe_interfaces = (\<lambda>_ _. Inr []), pe_registered = [''docker''], pe_ct_start = (\<lambda>_. None), pe_ct_stop = (\<lambda>_. None),
        pe_ct_restart = (\<lambda>_. None), pe_ct_remove = (\<lambda>_ _. None), pe_ct_logs = (\<lambda>_ _. Inr ('''', 0)),
        pe_ct_snapshot = (\<lambda>_ _. Inr ''''), pe_ct_restore = (\<lambda>_ _. None), pe_ct_delete_snapshot = (\<lambda>_. None)\<rparr>,
      rc_containers = (\<lambda>_. answer)\<rparr>"



end
