(* ===== verification/Auth_Api.thy ===== *)
theory Auth_Api
  imports Rate_Limit Invitations
begin

text \<open>
  Accounts and sessions: \<open>app/api/auth.py\<close>, the password and token functions of
  \<open>app/core/security.py\<close>, and the validators of \<open>app/schemas/user.py\<close> and
  \<open>app/schemas/invitation.py\<close>.

  Hashing (\<open>hashlib\<close>, \<open>bcrypt\<close>) and the encoding of tokens (\<open>jose\<close>) are library code: fields of
  \<open>auth_config\<close>. What a request draws or meets, the time, a salt, a uuid, whether Redis answers, is its
  \<open>auth_env\<close>. A handler works on the database, the rate limits and the token blacklist together. A row that
  does not fit its columns makes the commit fail.
\<close>

section \<open>Passwords\<close>

record payload = claims +
  pl_tenant_id :: "int option"
  pl_exp :: "int option"
  pl_iat :: "int option"

record auth_config =
  ac_sha256 :: "string \<Rightarrow> string"
  ac_hashpw :: "string \<Rightarrow> string \<Rightarrow> string"
  ac_checkpw :: "string \<Rightarrow> string \<Rightarrow> py_exc + bool"
  ac_encode :: "string \<Rightarrow> payload \<Rightarrow> py_exc + string"
  ac_decode :: "string \<Rightarrow> rat \<Rightarrow> string \<Rightarrow> payload option"
  ac_secret :: string
  ac_allow_registration :: bool
  ac_email_domains :: string
  ac_admin_username :: "string option"
  ac_admin_password :: "string option"
  ac_admin_email :: "string option"
  ac_limits :: rl_settings

record auth_env =
  ae_salt :: string
  ae_uuid :: string
  ae_rl :: rl_env
  ae_bl :: bl_env

record auth_world =
  aw_db :: db
  aw_rl :: rl_state
  aw_bl :: bl_state

definition prehash_password :: "auth_config \<Rightarrow> string \<Rightarrow> string" where
  "prehash_password cfg password = ac_sha256 cfg password"

definition hash_password :: "auth_config \<Rightarrow> auth_env \<Rightarrow> string \<Rightarrow> string" where
  "hash_password cfg env password = ac_hashpw cfg (prehash_password cfg password) (ae_salt env)"

definition verify_password :: "auth_config \<Rightarrow> string \<Rightarrow> string \<Rightarrow> py_exc + bool" where
  "verify_password cfg plain hashed = ac_checkpw cfg (prehash_password cfg plain) hashed"

text \<open>The complaint of the validators, if any.\<close>

definition password_problem :: "string \<Rightarrow> string option" where
  "password_problem v =
     (if length v < 8 then Some ''Password must be at least 8 characters long''
      else if 128 < length v then Some ''Password must be less than 128 characters''
      else if \<not> list_ex is_upper v then Some ''Password must contain at least one uppercase letter''
      else if \<not> list_ex is_lower v then Some ''Password must contain at least one lowercase letter''
      else if \<not> list_ex is_digit v then Some ''Password must contain at least one digit''
      else None)"

section \<open>Tokens\<close>

definition TOKEN_MINUTES :: int where
  "TOKEN_MINUTES = 30"

definition create_access_token :: "auth_config \<Rightarrow> auth_env \<Rightarrow> string \<Rightarrow> int option \<Rightarrow> py_exc + string" where
  "create_access_token cfg env sub tenant_id =
     ac_encode cfg (ac_secret cfg)
       \<lparr>c_sub = Some sub, c_jti = Some (ae_uuid env), pl_tenant_id = tenant_id,
        pl_exp = Some \<lfloor>be_now (ae_bl env) + of_int (TOKEN_MINUTES * 60)\<rfloor>, pl_iat = Some \<lfloor>be_now (ae_bl env)\<rfloor>\<rparr>"

definition decoded :: "auth_config \<Rightarrow> auth_env \<Rightarrow> string \<Rightarrow> payload option" where
  "decoded cfg env token = ac_decode cfg (ac_secret cfg) (be_now (ae_bl env)) token"

text \<open>\<open>get_current_user\<close> with the blacklist as it is; asking the blacklist may connect to Redis.\<close>

definition current_user :: "auth_config \<Rightarrow> auth_env \<Rightarrow> string \<Rightarrow> auth_world \<Rightarrow> (user, auth_world) result" where
  "current_user cfg env token w =
     (get_current_user (ac_secret cfg) (\<lambda>t. map_option claims.truncate (decoded cfg env t))
        (\<lambda>j. fst (is_token_blacklisted (ae_bl env) j (aw_bl w))) token (aw_db w),
      (case decoded cfg env token of
         Some p \<Rightarrow>
           (if ac_secret cfg \<noteq> [] \<and> c_sub p \<noteq> None \<and> truthy (c_jti p)
            then w\<lparr>aw_bl := snd (is_token_blacklisted (ae_bl env) (the (c_jti p)) (aw_bl w))\<rparr> else w)
       | None \<Rightarrow> w))"

section \<open>What the handlers share\<close>

definition limited :: "auth_config \<Rightarrow> auth_env \<Rightarrow> request \<Rightarrow> string \<Rightarrow> auth_world \<Rightarrow> (unit, auth_world) result" where
  "limited cfg env req endpoint w =
     (let (r, s) = check_rate_limit (ac_limits cfg) (ae_rl env) req endpoint (aw_rl w) in (r, w\<lparr>aw_rl := s\<rparr>))"

definition on_db :: "(db \<Rightarrow> ('a, db) result) \<Rightarrow> auth_world \<Rightarrow> ('a, auth_world) result" where
  "on_db f w = (let (r, d) = f (aw_db w) in (r, w\<lparr>aw_db := d\<rparr>))"

definition account_event :: "string \<Rightarrow> user \<Rightarrow> request \<Rightarrow> audit_entry" where
  "account_event action u req =
     (audit_event (audit_action action) ''user'' u)\<lparr>a_request_id := Some (request_id req), a_ip_address := get_client_ip req\<rparr>"

definition allowed_email_domains :: "auth_config \<Rightarrow> string list" where
  "allowed_email_domains cfg =
     (if ac_email_domains cfg = [] then []
      else map (\<lambda>x. lower (strip x)) (filter (\<lambda>x. strip x \<noteq> []) (split_on CHR '','' (ac_email_domains cfg))))"

definition validate_email_domain :: "auth_config \<Rightarrow> string \<Rightarrow> string option" where
  "validate_email_domain cfg email =
     (let allowed = allowed_email_domains cfg; domain = lower (last (split_on CHR ''@'' email))
      in if allowed = [] \<or> domain \<in> set allowed then None
         else Some (''Email domain '' @ quote_char # domain @ quote_char # '' is not allowed. Allowed domains: '' @ join_with '', '' allowed))"

definition user_row_fits :: "user \<Rightarrow> db \<Rightarrow> bool" where
  "user_row_fits u d \<longleftrightarrow>
     length (u_username u) \<le> 50 \<and> length (u_email u) \<le> 100 \<and> length (u_hashed_password u) \<le> 255 \<and> opt_fits 100 (u_full_name u) \<and>
     (\<forall>x \<in> set (users d). u_id x \<noteq> u_id u \<longrightarrow> u_username x \<noteq> u_username u \<and> u_email x \<noteq> u_email u)"

definition tenant_row_fits :: "tenant \<Rightarrow> db \<Rightarrow> bool" where
  "tenant_row_fits t d \<longleftrightarrow>
     length (t_name t) \<le> 100 \<and> length (t_slug t) \<le> 50 \<and>
     (\<forall>x \<in> set (tenants d). t_id x \<noteq> t_id t \<longrightarrow> t_name x \<noteq> t_name t \<and> t_slug x \<noteq> t_slug t)"

definition add_user :: "user \<Rightarrow> db \<Rightarrow> db" where
  "add_user u d = bump_seq TUsers (d\<lparr>users := users d @ [u]\<rparr>)"

definition add_tenant :: "tenant \<Rightarrow> db \<Rightarrow> db" where
  "add_tenant t d = bump_seq TTenants (d\<lparr>tenants := tenants d @ [t]\<rparr>)"

section \<open>Registration\<close>

record registration =
  rg_username :: string
  rg_email :: string
  rg_password :: string
  rg_full_name :: "string option"
  rg_tenant_name :: string
  rg_tenant_slug :: "string option"

definition slug_of :: "string \<Rightarrow> string" where
  "slug_of name = replace_char CHR '' '' ''-'' (lower name)"

definition generate_tenant_slug :: "string option \<Rightarrow> string option" where
  "generate_tenant_slug v = (if truthy v then Some (slug_of (the v)) else None)"

text \<open>The slug as the validator leaves it, or the one the handler makes of the name.\<close>

definition registered_slug :: "registration \<Rightarrow> string" where
  "registered_slug r = (case generate_tenant_slug (rg_tenant_slug r) of None \<Rightarrow> slug_of (rg_tenant_name r) | Some s \<Rightarrow> s)"

definition register_rows :: "auth_config \<Rightarrow> auth_env \<Rightarrow> request \<Rightarrow> registration \<Rightarrow> db \<Rightarrow> (user, db) result" where
  "register_rows cfg env req r d =
     (let t = new_tenant (next_id TTenants d) (rg_tenant_name r) (registered_slug r);
          u = new_user (next_id TUsers d) (rg_username r) (rg_email r) (hash_password cfg env (rg_password r)) (rg_full_name r) (Some (t_id t));
          d1 = assign_tenant_admin_role (seed_permissions (add_user u (add_tenant t d))) u (t_id t);
          d2 = log_audit_event ((account_event ''TENANT_CREATE'' u req)\<lparr>a_target_type := ''tenant'', a_target_id := Some (t_id t),
                 a_target_name := Some (t_name t), a_new_value := Some (''slug='' @ t_slug t @ '',is_verified=false''), a_tenant_id := Some (t_id t)\<rparr>) None d1;
          d3 = log_audit_event ((account_event ''USER_CREATE'' u req)\<lparr>a_target_id := Some (u_id u), a_target_name := Some (u_username u),
                 a_new_value := Some (''email='' @ u_email u @ '',tenant_id='' @ show_int (t_id t)), a_tenant_id := Some (t_id t)\<rparr>) None d2
      in if tenant_row_fits t d \<and> user_row_fits u d then ok u d3
         else http 500 ''An internal error occurred during registration.'' d)"

definition register :: "auth_config \<Rightarrow> auth_env \<Rightarrow> request \<Rightarrow> registration \<Rightarrow> auth_world \<Rightarrow> (user, auth_world) result" where
  "register cfg env req r w =
     (case password_problem (rg_password r) of
        Some m \<Rightarrow> http 422 m w
      | None \<Rightarrow> then_do (limited cfg env req ''register'' w) (\<lambda>_.
          on_db (\<lambda>d.
            if \<not> ac_allow_registration cfg then http 403 ''Public registration is disabled. Contact an administrator.'' d
            else case validate_email_domain cfg (rg_email r) of
              Some m \<Rightarrow> http 400 m d
            | None \<Rightarrow>
                (if \<exists>x \<in> set (users d). u_username x = rg_username r \<or> u_email x = rg_email r
                 then http 400 ''Username or email already registered'' d
                 else if \<exists>x \<in> set (tenants d). t_slug x = registered_slug r \<or> t_name x = rg_tenant_name r
                 then http 400 ''Organization with this name already exists'' d
                 else register_rows cfg env req r d))))"

text \<open>The administrator of a new installation; a failure is logged and leaves nothing.\<close>

definition create_default_admin :: "auth_config \<Rightarrow> auth_env \<Rightarrow> int option \<Rightarrow> db \<Rightarrow> bool \<times> db" where
  "create_default_admin cfg env tid d =
     (if \<not> truthy (ac_admin_username cfg) \<or> \<not> truthy (ac_admin_password cfg) then (False, d)
      else if \<exists>x \<in> set (users d). u_username x = the (ac_admin_username cfg) then (False, d)
      else case ac_admin_email cfg of
        None \<Rightarrow> (False, d)
      | Some email \<Rightarrow>
          (let u = new_user (next_id TUsers d) (the (ac_admin_username cfg)) email (hash_password cfg env (the (ac_admin_password cfg)))
                 (Some ''Default Administrator'') tid
           in if user_row_fits u d then (True, assign_super_admin_role (add_user u d) u) else (False, d)))"

section \<open>Login and logout\<close>

definition login_failed :: "request \<Rightarrow> int option \<Rightarrow> string \<Rightarrow> string \<Rightarrow> db \<Rightarrow> db" where
  "login_failed req actor_id name why d =
     log_audit_event \<lparr>a_actor_id = actor_id, a_actor_username = name, a_action = audit_action ''LOGIN_FAILED'', a_target_type = ''user'',
       a_target_id = None, a_target_name = None, a_old_value = None, a_new_value = None, a_details = Some why,
       a_request_id = Some (request_id req), a_ip_address = get_client_ip req, a_tenant_id = None\<rparr> None d"

definition tenant_of :: "user \<Rightarrow> db \<Rightarrow> tenant option" where
  "tenant_of u d = (case u_tenant_id u of None \<Rightarrow> None | Some i \<Rightarrow> first_row (\<lambda>t. t_id t = i) (tenants d))"

definition unverified :: "user \<Rightarrow> db \<Rightarrow> bool" where
  "unverified u d \<longleftrightarrow> (case tenant_of u d of None \<Rightarrow> False | Some t \<Rightarrow> \<not> t_is_verified t)"

definition login_rows :: "auth_config \<Rightarrow> auth_env \<Rightarrow> request \<Rightarrow> string \<Rightarrow> string \<Rightarrow> db \<Rightarrow> (string, db) result" where
  "login_rows cfg env req username password d =
     (case first_row (\<lambda>u. u_username u = username) (users d) of
        None \<Rightarrow> http 401 ''Incorrect username or password'' (login_failed req None username ''User not found'' d)
      | Some u \<Rightarrow>
          (case verify_password cfg password (u_hashed_password u) of
             Inl e \<Rightarrow> http 500 ''An internal error occurred during login.'' d
           | Inr good \<Rightarrow>
               (if \<not> good then http 401 ''Incorrect username or password'' (login_failed req (Some (u_id u)) (u_username u) ''Incorrect password'' d)
                else if \<not> u_is_active u then http 403 ''Inactive user'' (login_failed req (Some (u_id u)) (u_username u) ''User inactive'' d)
                else if unverified u d \<and> \<not> is_super_admin u d
                then http 403 ''Your tenant is pending verification. Contact an administrator.''
                       (login_failed req (Some (u_id u)) (u_username u) ''Tenant not verified'' d)
                else case create_access_token cfg env (show_int (u_id u)) (u_tenant_id u) of
                  Inl e \<Rightarrow> http 500 ''An internal error occurred during login.'' d
                | Inr token \<Rightarrow> ok token (log_audit_event (account_event ''LOGIN'' u req) None d))))"

definition login :: "auth_config \<Rightarrow> auth_env \<Rightarrow> request \<Rightarrow> string \<Rightarrow> string \<Rightarrow> auth_world \<Rightarrow> (string, auth_world) result" where
  "login cfg env req username password w =
     then_do (limited cfg env req ''login'' w) (\<lambda>_. on_db (login_rows cfg env req username password))"

text \<open>\<open>logout\<close> answers 204 whatever happens to the blacklist.\<close>

definition logout :: "auth_config \<Rightarrow> auth_env \<Rightarrow> request \<Rightarrow> string \<Rightarrow> auth_world \<Rightarrow> (unit, auth_world) result" where
  "logout cfg env req token w =
     then_do (current_user cfg env token w) (\<lambda>u w1.
       case decoded cfg env token of
         None \<Rightarrow> ok () w1
       | Some p \<Rightarrow>
           (if truthy (c_jti p) \<and> truthy_id (pl_exp p)
            then (case add_token_to_blacklist (ae_bl env) (the (c_jti p)) (the (pl_exp p)) (aw_bl w1) of
                    (Inl e, b) \<Rightarrow> ok () (w1\<lparr>aw_bl := b\<rparr>)
                  | (Inr _, b) \<Rightarrow> ok () (w1\<lparr>aw_bl := b, aw_db := log_audit_event
                      ((account_event ''LOGOUT'' u req)\<lparr>a_request_id := Some (header_or req ''X-Request-ID'' ''unknown'')\<rparr>) None (aw_db w1)\<rparr>))
            else ok () w1))"

section \<open>The own account\<close>

record iam_role_info =
  ir_role :: role
  ir_tenant_id :: "int option"
  ir_permissions :: "string list"

definition get_current_user_info :: "user \<Rightarrow> db \<Rightarrow> user \<times> iam_role_info list" where
  "get_current_user_info u d =
     (u, List.map_filter (\<lambda>ur. map_option (\<lambda>r. \<lparr>ir_role = r, ir_tenant_id = ur_tenant_id ur, ir_permissions = role_permission_names r d\<rparr>)
           (find_role (ur_role_id ur) d)) (filter (\<lambda>ur. ur_user_id ur = u_id u) (user_roles d)))"

definition quoted_name :: "string \<Rightarrow> string" where
  "quoted_name s = quote_char # s @ [quote_char]"

definition profile_changes :: "user \<Rightarrow> string option \<Rightarrow> string option \<Rightarrow> string list" where
  "profile_changes u email full =
     (case email of Some e \<Rightarrow> if u_email u \<noteq> e then [''email: '' @ u_email u @ '' -> '' @ e] else [] | None \<Rightarrow> []) @
     (case full of Some f \<Rightarrow>
        (let old = (case u_full_name u of None \<Rightarrow> '''' | Some x \<Rightarrow> x)
         in if old \<noteq> f then [''full_name: '' @ quoted_name old @ '' -> '' @ quoted_name f] else [])
      | None \<Rightarrow> [])"

definition updated_profile :: "user \<Rightarrow> string option \<Rightarrow> string option \<Rightarrow> user" where
  "updated_profile u email full =
     (let u1 = (case email of Some e \<Rightarrow> u\<lparr>u_email := e\<rparr> | None \<Rightarrow> u)
      in case full of Some f \<Rightarrow>
           (if (case u_full_name u of None \<Rightarrow> '''' | Some x \<Rightarrow> x) \<noteq> f then u1\<lparr>u_full_name := Some f\<rparr> else u1)
         | None \<Rightarrow> u1)"

definition update_current_user_profile :: "request \<Rightarrow> user \<Rightarrow> string option \<Rightarrow> string option \<Rightarrow> db \<Rightarrow> (user, db) result" where
  "update_current_user_profile req u email full d =
     (if email \<noteq> None \<and> (\<exists>x \<in> set (users d). u_email x = the email \<and> u_id x \<noteq> u_id u) then http 400 ''Email already in use'' d
      else let u' = updated_profile u email full; changes = profile_changes u email full;
               d1 = d\<lparr>users := upd_rows u_id (u_id u) (\<lambda>_. u') (users d)\<rparr>
           in if \<not> user_row_fits u' d then raise (IntegrityError ''users'') d
              else ok u' (if changes = [] then d1
                else log_audit_event ((account_event ''USER_PROFILE_UPDATE'' u' req)\<lparr>a_target_id := Some (u_id u), a_target_name := Some (u_username u),
                       a_details := Some (join_with ''; '' changes)\<rparr>) None d1))"

definition change_password ::
  "auth_config \<Rightarrow> auth_env \<Rightarrow> request \<Rightarrow> user \<Rightarrow> string \<Rightarrow> string \<Rightarrow> db \<Rightarrow> (unit, db) result" where
  "change_password cfg env req u current new d =
     (case password_problem new of
        Some m \<Rightarrow> http 422 m d
      | None \<Rightarrow>
          (case verify_password cfg current (u_hashed_password u) of
             Inl e \<Rightarrow> raise e d
           | Inr good \<Rightarrow>
               (if \<not> good then http 400 ''Current password is incorrect'' d
                else let u' = u\<lparr>u_hashed_password := hash_password cfg env new\<rparr>
                     in if \<not> user_row_fits u' d then raise (IntegrityError ''users'') d
                        else ok () (log_audit_event (account_event ''PASSWORD_CHANGE'' u req) None
                               (d\<lparr>users := upd_rows u_id (u_id u) (\<lambda>_. u') (users d)\<rparr>)))))"

definition require_super_admin :: "user \<Rightarrow> db \<Rightarrow> (unit, db) result" where
  "require_super_admin u d = (if is_super_admin u d then ok () d else http 403 ''Admin access required'' d)"

section \<open>What the shared steps do\<close>

lemma limited_ok: "limited cfg env req ep w = (Inr x, w') \<Longrightarrow> aw_db w' = aw_db w \<and> aw_bl w' = aw_bl w"
  by (auto simp: limited_def split: prod.splits)

lemma on_db_ok: "on_db f w = (r, w') \<longleftrightarrow> (\<exists>d. f (aw_db w) = (r, d) \<and> w' = w\<lparr>aw_db := d\<rparr>)"
  by (auto simp: on_db_def split: prod.splits)

lemma login_rows_ok:
  "login_rows cfg env req name pw d = (Inr tok, d') \<longleftrightarrow>
    (\<exists>u. first_row (\<lambda>u. u_username u = name) (users d) = Some u \<and> verify_password cfg pw (u_hashed_password u) = Inr True \<and>
      u_is_active u \<and> (unverified u d \<longrightarrow> is_super_admin u d) \<and>
      create_access_token cfg env (show_int (u_id u)) (u_tenant_id u) = Inr tok \<and>
      d' = log_audit_event (account_event ''LOGIN'' u req) None d)"
  by (auto simp: login_rows_def split: option.splits sum.splits if_splits)

lemma login_ok:
  assumes "login cfg env req name pw w = (Inr tok, w')"
  obtains u where "first_row (\<lambda>u. u_username u = name) (users (aw_db w)) = Some u" "u_is_active u"
    "verify_password cfg pw (u_hashed_password u) = Inr True" "unverified u (aw_db w) \<longrightarrow> is_super_admin u (aw_db w)"
    "create_access_token cfg env (show_int (u_id u)) (u_tenant_id u) = Inr tok" "users (aw_db w') = users (aw_db w)" "aw_bl w' = aw_bl w"
proof -
  from assms obtain x w1 where 1: "limited cfg env req ''login'' w = (Inr x, w1)" "on_db (login_rows cfg env req name pw) w1 = (Inr tok, w')"
    unfolding login_def then_do_ok by blast
  note same = limited_ok [OF 1(1)]
  from 1(2) same obtain d where "login_rows cfg env req name pw (aw_db w) = (Inr tok, d)" "w' = w1\<lparr>aw_db := d\<rparr>"
    unfolding on_db_ok by auto
  with same that show thesis unfolding login_rows_ok by auto
qed

text \<open>
  C16: Behind the rate limit, a login succeeds exactly for a user who exists, gives the right password, is active, and
  whose tenant, if there is one, is verified, unless the user is a super admin.
\<close>

theorem login_exact:
  assumes "limited cfg env req ''login'' w = (Inr (), w1)" "\<And>p. \<exists>tok. ac_encode cfg (ac_secret cfg) p = Inr tok"
  shows "is_ok (login cfg env req name pw w) \<longleftrightarrow>
    (\<exists>u. first_row (\<lambda>u. u_username u = name) (users (aw_db w)) = Some u \<and> verify_password cfg pw (u_hashed_password u) = Inr True \<and>
      u_is_active u \<and> (unverified u (aw_db w) \<longrightarrow> is_super_admin u (aw_db w)))"
proof -
  have "\<exists>tok. create_access_token cfg env sub tid = Inr tok" for sub tid
    unfolding create_access_token_def by (rule assms(2))
  moreover have "aw_db w1 = aw_db w" using limited_ok [OF assms(1)] by simp
  ultimately show ?thesis
    unfolding is_ok_conv login_def then_do_ok on_db_ok login_rows_ok using assms(1) by (simp, blast)
qed

section \<open>Sessions\<close>

text \<open>
  What \<open>jose\<close> promises: a token is read as what was written into it until its second of expiry has passed.
\<close>

definition jwt_sound :: "auth_config \<Rightarrow> bool" where
  "jwt_sound cfg \<longleftrightarrow>
     (\<forall>p tok t. ac_encode cfg (ac_secret cfg) p = Inr tok \<and> (case pl_exp p of None \<Rightarrow> True | Some x \<Rightarrow> \<lfloor>t\<rfloor> \<le> x) \<longrightarrow>
        ac_decode cfg (ac_secret cfg) t tok = Some p)"

definition session_end :: "auth_env \<Rightarrow> int" where
  "session_end env = \<lfloor>be_now (ae_bl env) + of_int (TOKEN_MINUTES * 60)\<rfloor>"

lemma token_decoded:
  assumes "jwt_sound cfg" "create_access_token cfg env sub tid = Inr tok" "\<lfloor>be_now (ae_bl env')\<rfloor> \<le> session_end env"
  shows "decoded cfg env' tok = Some \<lparr>c_sub = Some sub, c_jti = Some (ae_uuid env), pl_tenant_id = tid,
     pl_exp = Some (session_end env), pl_iat = Some \<lfloor>be_now (ae_bl env)\<rfloor>\<rparr>"
  using assms unfolding jwt_sound_def create_access_token_def decoded_def session_end_def by simp

lemma current_user_of_token:
  assumes "decoded cfg env tok = Some p" "c_sub p = Some (show_int (u_id u))" "c_jti p = Some j" "j \<noteq> []" "ac_secret cfg \<noteq> []"
    and "u \<in> set (users (aw_db w))" "distinct_keys u_id (users (aw_db w))" "is_token_blacklisted (ae_bl env) j (aw_bl w) = (Inr b, s)"
  shows "current_user cfg env tok w =
    ((if b then Inl credentials_exception else if u_is_active u then Inr u else Inl (HTTPException 403 ''User account is deactivated'')),
     w\<lparr>aw_bl := s\<rparr>)"
  using assms first_row_key [OF assms(7,6)]
  by (simp add: current_user_def get_current_user_def verify_token_def truthy_def py_int_show_int claims.truncate_def reraise_http_def credentials_exception_def)


text \<open>
  A logout that cannot reach Redis in production answers 204 as well and revokes nothing: the token is in no list.
\<close>

lemma failed_logout_answers_204:
  assumes "current_user cfg env tok w = (Inr u, w1)" "decoded cfg env tok = Some p" "c_jti p = Some (c # cs)" "truthy_id (pl_exp p)"
    and "be_production (ae_bl env)" "bl_available (aw_bl w1) = Some False"
  shows "logout cfg env req tok w = (Inr (), w1)"
  using assms by (simp add: logout_def then_do_def truthy_def add_token_to_blacklist_def with_redis_def check_redis_required_def raise_def ok_def)

text \<open>
  A new password does not end the sessions of the old one: every token that was accepted before the change is accepted after it.
\<close>

theorem password_change_keeps_sessions:
  assumes "current_user cfg env tok w = (Inr u, w1)" "distinct_keys u_id (users (aw_db w))"
    and "change_password cfg env' req u old new (aw_db w) = (Inr (), d')"
  shows "\<exists>v. fst (current_user cfg env tok (w\<lparr>aw_db := d'\<rparr>)) = Inr v \<and> u_id v = u_id u"
proof -
  have look: "\<exists>uid. py_int sub = Some uid \<and> first_row (\<lambda>x. u_id x = uid) (users (aw_db w)) = Some u \<and> u_is_active u"
    if "get_current_user s dec bl tok (aw_db w) = Inr u" "verify_token s dec bl tok = Inr pl" "c_sub pl = Some sub" for s dec bl pl sub
    using that by (auto simp: get_current_user_def split: option.splits if_splits)
  define u' where "u' = u\<lparr>u_hashed_password := hash_password cfg env' new\<rparr>"
  have users': "users d' = upd_rows u_id (u_id u) (\<lambda>_. u') (users (aw_db w))"
    using assms(3) by (auto simp: change_password_def u'_def Let_def split: option.splits sum.splits if_splits)
  let ?dec = "\<lambda>t. map_option claims.truncate (decoded cfg env t)"
  let ?bl = "\<lambda>j. fst (is_token_blacklisted (ae_bl env) j (aw_bl w))"
  have g: "get_current_user (ac_secret cfg) ?dec ?bl tok (aw_db w) = Inr u" using assms(1) by (simp add: current_user_def)
  then obtain pl sub where pl: "verify_token (ac_secret cfg) ?dec ?bl tok = Inr pl" "c_sub pl = Some sub"
    by (auto simp: get_current_user_def split: option.splits sum.splits)
  from look [OF g pl] obtain uid where uid: "py_int sub = Some uid" "first_row (\<lambda>x. u_id x = uid) (users (aw_db w)) = Some u" "u_is_active u"
    by blast
  have "u \<in> set (users (aw_db w))" "u_id u = uid" using first_row_Some [OF uid(2)] by simp_all
  then have "u' \<in> set (users d')" "u_id u' = uid" unfolding users' using upd_rows_hit [where f = "\<lambda>_. u'" and key = u_id] by (simp_all add: u'_def)
  moreover have "distinct_keys u_id (users d')"
    unfolding users' using assms(2) by (simp add: distinct_keys_replace u'_def)
  ultimately have "first_row (\<lambda>x. u_id x = uid) (users d') = Some u'" using first_row_key by metis
  then have "get_current_user (ac_secret cfg) ?dec ?bl tok d' = Inr u'"
    using pl uid(1,3) by (simp add: get_current_user_def u'_def)
  then show ?thesis by (simp add: current_user_def u'_def split: option.split)
qed

section \<open>Registration\<close>

lemma seed_rows [row_simps, simp]:
  "users (seed_permissions d) = users d" "tenants (seed_permissions d) = tenants d"
proof -
  have 1: "users (seed_permission_list rt ps e) = users e" "tenants (seed_permission_list rt ps e) = tenants e" for rt ps e
    by (induction ps arbitrary: e) simp_all
  have 2: "users (seed_permission_defs ds e) = users e" "tenants (seed_permission_defs ds e) = tenants e" for ds e
    by (induction ds e rule: seed_permission_defs.induct) (simp_all add: 1)
  have 3: "users (ensure_role n s b e) = users e" "tenants (ensure_role n s b e) = tenants e" for n s b e
    by (simp_all add: ensure_role_def split: option.split)
  have 4: "users (grant n ps e) = users e" "tenants (grant n ps e) = tenants e" for n ps e
    by (simp_all add: grant_def split: option.split)
  have 5: "users (seed_role_mapping m e) = users e" "tenants (seed_role_mapping m e) = tenants e" for m e
    by (induction m e rule: seed_role_mapping.induct) (simp_all add: 3 4)
  show "users (seed_permissions d) = users d" "tenants (seed_permissions d) = tenants d"
    by (simp_all add: seed_permissions_def seed_preset_roles_def Let_def 2 3 4 5)
qed

lemma add_rows [row_simps, simp]:
  "users (add_user u d) = users d @ [u]" "tenants (add_user u d) = tenants d" "roles (add_user u d) = roles d"
  "user_roles (add_user u d) = user_roles d" "users (add_tenant t d) = users d" "tenants (add_tenant t d) = tenants d @ [t]"
  "roles (add_tenant t d) = roles d" "user_roles (add_tenant t d) = user_roles d"
  by (simp_all add: add_user_def add_tenant_def)

lemma assign_tenant_admin_rows:
  "users (assign_tenant_admin_role d u i) = users d" "tenants (assign_tenant_admin_role d u i) = tenants d"
  "roles (assign_tenant_admin_role d u i) = roles d"
  by (simp_all add: assign_tenant_admin_role_def add_user_role_def split: option.split)

text \<open>The only role a new account gets is one of its tenant.\<close>

lemma assigned_in_tenant:
  "\<forall>ur \<in> set (user_roles d). ur_user_id ur \<noteq> u_id u \<Longrightarrow>
   \<forall>ur \<in> set (user_roles (assign_tenant_admin_role d u i)). ur_user_id ur = u_id u \<longrightarrow> ur_tenant_id ur \<noteq> None"
  by (auto simp: assign_tenant_admin_role_def add_user_role_def split: option.split)

lemma no_global_role: "\<forall>ur \<in> set (user_roles d). ur_user_id ur = u_id u \<longrightarrow> ur_tenant_id ur \<noteq> None \<Longrightarrow> \<not> is_super_admin u d"
  by (metis is_super_admin_def set_roles_of)

lemma register_ok:
  assumes "register cfg env req r w = (Inr u, w1)"
  shows "u = new_user (next_id TUsers (aw_db w)) (rg_username r) (rg_email r) (hash_password cfg env (rg_password r)) (rg_full_name r)
      (Some (next_id TTenants (aw_db w)))"
    and "users (aw_db w1) = users (aw_db w) @ [u]"
    and "tenants (aw_db w1) = tenants (aw_db w) @ [new_tenant (next_id TTenants (aw_db w)) (rg_tenant_name r) (registered_slug r)]"
    and "\<forall>ur \<in> set (user_roles (aw_db w)). ur_user_id ur \<noteq> u_id u \<Longrightarrow> \<not> is_super_admin u (aw_db w1)"
    and "\<forall>x \<in> set (users (aw_db w)). u_username x \<noteq> rg_username r"
proof -
  from assms obtain x wl where 1: "limited cfg env req ''register'' w = (Inr x, wl)"
    and "password_problem (rg_password r) = None"
    unfolding register_def by (auto simp: then_do_ok split: option.splits)
  note same = limited_ok [OF 1]
  with assms 1 obtain d where d: "register_rows cfg env req r (aw_db w) = (Inr u, d)" "w1 = wl\<lparr>aw_db := d\<rparr>"
    and new: "\<forall>x \<in> set (users (aw_db w)). u_username x \<noteq> rg_username r"
    unfolding register_def by (auto simp: then_do_ok on_db_ok split: option.splits if_splits)
  show "\<forall>x \<in> set (users (aw_db w)). u_username x \<noteq> rg_username r" by (rule new)
  note defs = register_rows_def Let_def new_user_def new_tenant_def
  show "u = new_user (next_id TUsers (aw_db w)) (rg_username r) (rg_email r) (hash_password cfg env (rg_password r)) (rg_full_name r)
      (Some (next_id TTenants (aw_db w)))"
    and "users (aw_db w1) = users (aw_db w) @ [u]"
    and "tenants (aw_db w1) = tenants (aw_db w) @ [new_tenant (next_id TTenants (aw_db w)) (rg_tenant_name r) (registered_slug r)]"
    using d by (auto simp: register_rows_def Let_def assign_tenant_admin_rows new_tenant_def split: if_splits)
  show "\<not> is_super_admin u (aw_db w1)" if "\<forall>ur \<in> set (user_roles (aw_db w)). ur_user_id ur \<noteq> u_id u"
    using d assigned_in_tenant [of "seed_permissions (add_user u (add_tenant
           (new_tenant (next_id TTenants (aw_db w)) (rg_tenant_name r) (registered_slug r)) (aw_db w)))" u "next_id TTenants (aw_db w)"] that
    by (intro no_global_role) (auto simp: register_rows_def Let_def new_tenant_def split: if_splits)
qed

text \<open>
  C29: Whoever registers waits for the platform: with a bcrypt that accepts the password it hashed, the new account cannot log in while its
  tenant is unverified, and can as soon as the tenant is verified.
\<close>

theorem registered_user_waits:
  assumes "register cfg env req r w = (Inr u, w1)" "\<And>pw salt. ac_checkpw cfg pw (ac_hashpw cfg pw salt) = Inr True"
    and "\<forall>t \<in> set (tenants (aw_db w)). t_id t < next_id TTenants (aw_db w)"
    and "\<forall>ur \<in> set (user_roles (aw_db w)). ur_user_id ur < next_id TUsers (aw_db w)"
    and "limited cfg env2 req2 ''login'' w1 = (Inr (), w2)" "\<And>p. \<exists>tok. ac_encode cfg (ac_secret cfg) p = Inr tok"
  shows "fst (login cfg env2 req2 (rg_username r) (rg_password r) w1) =
      Inl (HTTPException 403 ''Your tenant is pending verification. Contact an administrator.'') \<and>
    (\<exists>tok d. login_rows cfg env2 req2 (rg_username r) (rg_password r)
       ((aw_db w1)\<lparr>tenants := upd_rows t_id (the (u_tenant_id u)) (\<lambda>t. t\<lparr>t_is_verified := True\<rparr>) (tenants (aw_db w1))\<rparr>) = (Inr tok, d))"
proof -
  let ?i = "next_id TTenants (aw_db w)"
  let ?t = "new_tenant ?i (rg_tenant_name r) (registered_slug r)"
  note u = register_ok(1) [OF assms(1)]
  have uid: "u_id u = next_id TUsers (aw_db w)" "u_is_active u" "u_tenant_id u = Some ?i" by (simp_all add: u new_user_def)
  have no_super: "\<not> is_super_admin u (aw_db w1)" using register_ok(4) [OF assms(1)] assms(4) uid by force
  have found: "first_row (\<lambda>x. u_username x = rg_username r) (users (aw_db w1)) = Some u"
  proof -
    have "first_row (\<lambda>x. u_username x = rg_username r) (users (aw_db w)) = None"
      unfolding first_row_None by (rule register_ok(5) [OF assms(1)])
    then show ?thesis by (simp add: register_ok(2) [OF assms(1)] first_row_append) (simp add: u new_user_def)
  qed
  have good: "verify_password cfg (rg_password r) (u_hashed_password u) = Inr True"
    by (simp add: u new_user_def verify_password_def hash_password_def assms(2))
  have old: "first_row (\<lambda>t. t_id t = ?i) (tenants (aw_db w)) = None" using assms(3) by (auto simp: first_row_None)
  have t: "tenant_of u (aw_db w1) = Some ?t"
    by (simp add: tenant_of_def uid register_ok(3) [OF assms(1)] first_row_append old) (simp add: new_tenant_def)
  have "unverified u (aw_db w1)" by (simp add: unverified_def t) (simp add: new_tenant_def)
  moreover have w2: "aw_db w2 = aw_db w1" using limited_ok [OF assms(5)] by simp
  ultimately have first: "fst (login cfg env2 req2 (rg_username r) (rg_password r) w1) =
      Inl (HTTPException 403 ''Your tenant is pending verification. Contact an administrator.'')"
    by (simp add: login_def assms(5) then_do_def on_db_def login_rows_def found good uid(2) no_super http_def raise_def w2)
  let ?d = "(aw_db w1)\<lparr>tenants := upd_rows t_id ?i (\<lambda>t. t\<lparr>t_is_verified := True\<rparr>) (tenants (aw_db w1))\<rparr>"
  have "upd_rows t_id ?i f (tenants (aw_db w)) = tenants (aw_db w)" for f
    using assms(3) by (intro upd_rows_absent) auto
  then have "tenants ?d = tenants (aw_db w) @ [?t\<lparr>t_is_verified := True\<rparr>]"
    by (simp add: register_ok(3) [OF assms(1)] upd_rows_append) (simp add: new_tenant_def upd_rows_def)
  then have "tenant_of u ?d = Some (?t\<lparr>t_is_verified := True\<rparr>)"
    by (simp add: tenant_of_def uid first_row_append old) (simp add: new_tenant_def)
  then have "\<not> unverified u ?d" by (simp add: unverified_def)
  moreover obtain tok where "create_access_token cfg env2 (show_int (u_id u)) (u_tenant_id u) = Inr tok"
    unfolding create_access_token_def using assms(6) by blast
  ultimately have "login_rows cfg env2 req2 (rg_username r) (rg_password r) ?d = (Inr tok, log_audit_event (account_event ''LOGIN'' u req2) None ?d)"
    unfolding login_rows_ok using found good uid(2) by auto
  with first uid(3) show ?thesis by auto
qed

section \<open>Witnesses\<close>

definition plain_auth :: "(payload \<Rightarrow> py_exc + string) \<Rightarrow> (rat \<Rightarrow> string \<Rightarrow> payload option) \<Rightarrow> auth_config" where
  "plain_auth enc dec =
     \<lparr>ac_sha256 = id, ac_hashpw = (\<lambda>p s. CHR ''#'' # p), ac_checkpw = (\<lambda>p h. Inr (h = CHR ''#'' # p)),
      ac_encode = (\<lambda>_. enc), ac_decode = (\<lambda>_. dec), ac_secret = ''secret'', ac_allow_registration = True, ac_email_domains = ''example.org'',
      ac_admin_username = None, ac_admin_password = None, ac_admin_email = None,
      ac_limits = \<lparr>rs_enabled = False, rs_broker_url = None, rs_requests = 5, rs_period = 60, rs_admin_requests = 10, rs_admin_period = 60\<rparr>\<rparr>"

definition auth_at :: "rat \<Rightarrow> auth_env" where
  "auth_at t = \<lparr>ae_salt = ''s'', ae_uuid = ''j'', ae_rl = \<lparr>rl_now = t, rl_client = False, rl_up = False, rl_testing = False, rl_fail_closed = False\<rparr>,
     ae_bl = \<lparr>be_production = True, be_redis_url = True, be_up = True, be_now = t\<rparr>\<rparr>"

definition auth_start :: "db \<Rightarrow> auth_world" where
  "auth_start d = \<lparr>aw_db = d, aw_rl = \<lparr>rl_mem = (\<lambda>_. []), rl_redis = (\<lambda>_. None)\<rparr>, aw_bl = bl_init 0\<rparr>"

definition auth_db :: db where
  "auth_db = empty_db\<lparr>users := [new_user 7 ''ann'' ''ann@example.org'' ''#pw'' None None]\<rparr>"

definition ann_payload :: payload where
  "ann_payload = \<lparr>c_sub = Some ''7'', c_jti = Some ''j'', pl_tenant_id = None, pl_exp = Some 1810, pl_iat = Some 10\<rparr>"

definition ann_auth :: auth_config where
  "ann_auth = plain_auth (\<lambda>p. if p = ann_payload then Inr ''tok'' else Inl (OtherError ''refused''))
     (\<lambda>t tok. if tok = ''tok'' \<and> \<lfloor>t\<rfloor> \<le> 1810 then Some ann_payload else None)"

definition open_auth :: auth_config where
  "open_auth = plain_auth (\<lambda>_. Inr ''tok'') (\<lambda>_ _. None)"

lemma unlimited: "limited (plain_auth enc dec) env req ep w = (Inr (), w)"
  by (simp add: limited_def check_rate_limit_def plain_auth_def ok_def)

lemma ann_logs_in:
  "login ann_auth (auth_at 10) (plain_request [] 0) ''ann'' ''pw'' (auth_start auth_db) =
    (Inr ''tok'', (auth_start auth_db)\<lparr>aw_db := log_audit_event (account_event ''LOGIN'' (new_user 7 ''ann'' ''ann@example.org'' ''#pw'' None None) (plain_request [] 0)) None auth_db\<rparr>)"
proof -
  have "first_row (\<lambda>u. u_username u = ''ann'') (users auth_db) = Some (new_user 7 ''ann'' ''ann@example.org'' ''#pw'' None None)" by code_simp
  moreover have "verify_password ann_auth ''pw'' (u_hashed_password (new_user 7 ''ann'' ''ann@example.org'' ''#pw'' None None)) = Inr True"
    by (simp add: ann_auth_def plain_auth_def verify_password_def prehash_password_def new_user_def)
  moreover have "create_access_token ann_auth (auth_at 10) ''7'' None = Inr ''tok''"
    by (simp add: create_access_token_def ann_auth_def plain_auth_def ann_payload_def auth_at_def TOKEN_MINUTES_def)
  moreover have "show_int 7 = ''7''" by code_simp
  ultimately have "login_rows ann_auth (auth_at 10) (plain_request [] 0) ''ann'' ''pw'' auth_db =
      (Inr ''tok'', log_audit_event (account_event ''LOGIN'' (new_user 7 ''ann'' ''ann@example.org'' ''#pw'' None None) (plain_request [] 0)) None auth_db)"
    unfolding login_rows_ok by (simp add: new_user_def unverified_def tenant_of_def)
  then show ?thesis by (simp add: login_def ann_auth_def unlimited then_do_def on_db_def auth_start_def)
qed


lemma login_exact_witness:
  "is_ok (login open_auth (auth_at 10) (plain_request [] 0) ''ann'' ''pw'' (auth_start auth_db))"
proof -
  have "first_row (\<lambda>u. u_username u = ''ann'') (users auth_db) = Some (new_user 7 ''ann'' ''ann@example.org'' ''#pw'' None None)" by code_simp
  then show ?thesis
    by (subst login_exact [of _ _ _ _ "auth_start auth_db"])
      (simp_all add: open_auth_def unlimited, simp_all add: plain_auth_def auth_start_def verify_password_def prehash_password_def new_user_def unverified_def tenant_of_def)
qed

lemma password_change_keeps_sessions_witness:
  "\<exists>d'. change_password ann_auth (auth_at 50) (plain_request [] 0) (new_user 7 ''ann'' ''ann@example.org'' ''#pw'' None None) ''pw'' ''Longer1234'' auth_db = (Inr (), d') \<and>
    (\<exists>v. fst (current_user ann_auth (auth_at 100) ''tok'' ((auth_start auth_db)\<lparr>aw_db := d'\<rparr>)) = Inr v \<and> u_id v = 7)"
proof -
  let ?u = "new_user 7 ''ann'' ''ann@example.org'' ''#pw'' None None"
  have "password_problem ''Longer1234'' = None" by code_simp
  moreover have "user_row_fits (?u\<lparr>u_hashed_password := ''#Longer1234''\<rparr>) auth_db" by code_simp
  ultimately obtain d' where d': "change_password ann_auth (auth_at 50) (plain_request [] 0) ?u ''pw'' ''Longer1234'' auth_db = (Inr (), d')"
    by (simp add: change_password_def verify_password_def hash_password_def prehash_password_def ann_auth_def plain_auth_def new_user_def)
  obtain w1 where "current_user ann_auth (auth_at 100) ''tok'' (auth_start auth_db) = (Inr ?u, w1)"
  proof -
    have "is_token_blacklisted (ae_bl (auth_at 100)) ''j'' (aw_bl (auth_start auth_db)) =
        (Inr False, snd (is_token_blacklisted (ae_bl (auth_at 100)) ''j'' (aw_bl (auth_start auth_db))))"
      using lookup_redis_up [of "ae_bl (auth_at 100)" "aw_bl (auth_start auth_db)" "''j''"]
      by (auto simp: auth_at_def auth_start_def bl_init_def redis_exists_def)
    moreover have "decoded ann_auth (auth_at 100) ''tok'' = Some ann_payload"
      by (simp add: decoded_def ann_auth_def plain_auth_def auth_at_def)
    moreover have "c_sub ann_payload = Some (show_int (u_id ?u))" "c_jti ann_payload = Some ''j''" "u_is_active ?u" by code_simp+
    moreover have "ac_secret ann_auth \<noteq> []" by (simp add: ann_auth_def plain_auth_def)
    moreover have "?u \<in> set (users (aw_db (auth_start auth_db)))" "distinct_keys u_id (users (aw_db (auth_start auth_db)))"
      by (simp_all add: auth_start_def auth_db_def)
    ultimately show thesis using current_user_of_token [of ann_auth "auth_at 100" "''tok''" ann_payload ?u "''j''" "auth_start auth_db"] that by force
  qed
  from password_change_keeps_sessions [OF this, of "auth_at 50" "plain_request [] 0" "''pw''" "''Longer1234''" d'] d' show ?thesis
    by (simp add: auth_start_def auth_db_def new_user_def)
qed

definition newcomer :: registration where
  "newcomer = \<lparr>rg_username = ''eve'', rg_email = ''eve@example.org'', rg_password = ''Longer1234'', rg_full_name = None,
     rg_tenant_name = ''New Org'', rg_tenant_slug = None\<rparr>"

lemma registered_user_waits_witness:
  "\<exists>u w1. register open_auth (auth_at 10) (plain_request [] 0) newcomer (auth_start empty_db) = (Inr u, w1) \<and>
    fst (login open_auth (auth_at 20) (plain_request [] 0) ''eve'' ''Longer1234'' w1) =
      Inl (HTTPException 403 ''Your tenant is pending verification. Contact an administrator.'')"
proof -
  have nc: "rg_password newcomer = ''Longer1234''" "rg_email newcomer = ''eve@example.org''" "rg_username newcomer = ''eve''"
    by (simp_all add: newcomer_def)
  have "password_problem ''Longer1234'' = None" by code_simp
  moreover have "validate_email_domain open_auth ''eve@example.org'' = None" by code_simp
  moreover have "ac_allow_registration open_auth" by (simp add: open_auth_def plain_auth_def)
  moreover have none: "users (aw_db (auth_start empty_db)) = []" "tenants (aw_db (auth_start empty_db)) = []"
    by (simp_all add: auth_start_def empty_db_def)
  moreover have "limited open_auth (auth_at 10) (plain_request [] 0) ''register'' (auth_start empty_db) = (Inr (), auth_start empty_db)"
    by (simp add: open_auth_def unlimited)
  moreover have "\<exists>u d. register_rows open_auth (auth_at 10) (plain_request [] 0) newcomer empty_db = (Inr u, d)"
  proof -
    have "tenant_row_fits (new_tenant 1 ''New Org'' (registered_slug newcomer)) empty_db" by code_simp
    moreover have "user_row_fits (new_user 1 ''eve'' ''eve@example.org'' ''#Longer1234'' None (Some 1)) empty_db" by code_simp
    moreover have "hash_password open_auth (auth_at 10) ''Longer1234'' = ''#Longer1234''"
      by (simp add: hash_password_def prehash_password_def open_auth_def plain_auth_def)
    moreover have "next_id x empty_db = 1" for x by (simp add: next_id_def empty_db_def)
    moreover have "t_id (new_tenant i n s) = i" for i n s by (simp add: new_tenant_def)
    ultimately show ?thesis by (simp add: register_rows_def Let_def nc ok_def) (simp add: newcomer_def)
  qed
  moreover have "aw_db (auth_start empty_db) = empty_db" by (simp add: auth_start_def)
  ultimately obtain u w1 where r: "register open_auth (auth_at 10) (plain_request [] 0) newcomer (auth_start empty_db) = (Inr u, w1)"
    by (auto simp: register_def nc then_do_def on_db_def)
  have l: "limited open_auth (auth_at 20) (plain_request [] 0) ''login'' w1 = (Inr (), w1)" by (simp add: open_auth_def unlimited)
  have "ac_checkpw open_auth pw (ac_hashpw open_auth pw salt) = Inr True" "\<exists>tok. ac_encode open_auth (ac_secret open_auth) p = Inr tok" for pw salt p
    by (simp_all add: open_auth_def plain_auth_def)
  moreover have "user_roles (aw_db (auth_start empty_db)) = []" by (simp add: auth_start_def empty_db_def)
  ultimately show ?thesis using registered_user_waits [OF r _ _ _ l] none r unfolding nc by force
qed

end
