(* ===== verification/Tenant_Api.thy ===== *)
theory Tenant_Api
  imports Auth_Api Wireguard_Tasks Vm_Lifecycle
begin

text \<open>
  The tenant endpoints: \<open>app/api/tenant.py\<close>, without \<open>verify_tenant\<close>, which is in \<open>Provisioning\<close>.

  Creation dates are left out of the answers. Deleting a tenant follows its relationships and foreign keys: SQLAlchemy
  sets the tenant of the rows reached by a relationship to null, which the columns of networks, snapshots, invitations,
  address reservations and image assignments refuse, or deletes them where the relationship cascades (firewall rules);
  PostgreSQL deletes the tunnels, which no relationship reaches, by \<open>ON DELETE CASCADE\<close>, and refuses while a bridge refers
  to the tenant. In two handlers a loop
  variable \<open>status\<close> makes the module of that name unreachable: what they mean to be a 403 or 404 is an
  \<open>UnboundLocalError\<close>.
\<close>

section \<open>Answers\<close>

definition unbound_status :: py_exc where
  "unbound_status = OtherError ''cannot access local variable status where it is not associated with a value''"

definition super_required :: "user \<Rightarrow> db \<Rightarrow> ('a, db) result \<Rightarrow> ('a, db) result" where
  "super_required cu d r = (if is_super_admin cu d then r else http 403 ''Super admin access required'' d)"

definition the_tenant :: "int \<Rightarrow> db \<Rightarrow> tenant option" where
  "the_tenant tid d = first_row (\<lambda>t. t_id t = tid) (tenants d)"

definition on_tenant :: "int \<Rightarrow> db \<Rightarrow> (tenant \<Rightarrow> ('a, db) result) \<Rightarrow> ('a, db) result" where
  "on_tenant tid d k = (case the_tenant tid d of None \<Rightarrow> http 404 ''Tenant not found'' d | Some t \<Rightarrow> k t)"

definition tenant_event :: "string \<Rightarrow> user \<Rightarrow> request \<Rightarrow> audit_entry" where
  "tenant_event action cu req = with_request req None (audit_event (audit_action action) ''tenant'' cu)"

text \<open>\<open>TenantWithStats\<close>, whose fields default to what \<open>plain_stats\<close> holds. Disk sizes are in tenths of a GB.\<close>

record tenant_stats =
  ts_id :: int
  ts_name :: string
  ts_slug :: string
  ts_is_active :: bool
  ts_settings :: "string option"
  ts_user_count :: int
  ts_vm_count :: int
  ts_network_count :: int
  ts_vm_status :: "(string \<times> int) list"
  ts_is_verified :: bool
  ts_status :: string
  ts_error :: "string option"
  ts_total_cpu :: int
  ts_total_ram :: int
  ts_total_disk10 :: int
  ts_providers :: "(string \<times> int) list"
  ts_bridge_id :: "int option"
  ts_opnsense_vm_id :: "int option"
  ts_opnsense_vm_name :: "string option"
  ts_lan_ip :: "string option"
  ts_wan_ip :: "string option"

definition breakdown :: "(vm \<Rightarrow> string) \<Rightarrow> string list \<Rightarrow> int \<Rightarrow> db \<Rightarrow> (string \<times> int) list" where
  "breakdown f keys tid d =
     filter (\<lambda>(k, n). n > 0) (map (\<lambda>k. (k, count_rows (\<lambda>v. v_tenant_id v = tid \<and> f v = k) (vms d))) keys)"

definition plain_stats :: "tenant \<Rightarrow> db \<Rightarrow> tenant_stats" where
  "plain_stats t d =
     \<lparr>ts_id = t_id t, ts_name = t_name t, ts_slug = t_slug t, ts_is_active = t_is_active t, ts_settings = t_settings t,
      ts_user_count = count_rows (\<lambda>u. u_tenant_id u = Some (t_id t)) (users d),
      ts_vm_count = count_rows (\<lambda>v. v_tenant_id v = t_id t) (vms d),
      ts_network_count = count_rows (\<lambda>n. n_tenant_id n = t_id t \<and> n_status n = ''active'') (networks d),
      ts_vm_status = breakdown v_status [''running'', ''stopped'', ''error'', ''pending''] (t_id t) d,
      ts_is_verified = False, ts_status = ''pending'', ts_error = None, ts_total_cpu = 0, ts_total_ram = 0, ts_total_disk10 = 0,
      ts_providers = [], ts_bridge_id = None, ts_opnsense_vm_id = None, ts_opnsense_vm_name = None, ts_lan_ip = None, ts_wan_ip = None\<rparr>"

section \<open>Tenants\<close>

definition get_my_tenants :: "user \<Rightarrow> db \<Rightarrow> tenant list" where
  "get_my_tenants cu d =
     (let ids = map ur_tenant_id (filter (\<lambda>ur. ur_user_id ur = u_id cu) (user_roles d))
      in (case home_tenant cu d of None \<Rightarrow> [] | Some t \<Rightarrow> [t]) @
         filter (\<lambda>t. Some (t_id t) \<in> set ids \<and> Some (t_id t) \<noteq> u_tenant_id cu) (tenants d))"

definition list_tenants :: "user \<Rightarrow> db \<Rightarrow> (tenant_stats list, db) result" where
  "list_tenants cu d =
     (if \<not> is_super_admin cu d then raise unbound_status d
      else ok (map (\<lambda>t. (plain_stats t d)\<lparr>ts_is_verified := t_is_verified t, ts_status := t_status t, ts_error := t_error t,
             ts_bridge_id := t_bridge_id t, ts_opnsense_vm_id := t_opnsense_vm_id t, ts_opnsense_vm_name := t_opnsense_vm_name t,
             ts_lan_ip := t_lan_ip t, ts_wan_ip := t_wan_ip t\<rparr>) (tenants d)) d)"

text \<open>The body is a dictionary: each of the two texts may be absent, and the slug may be null.\<close>

definition create_tenant :: "user \<Rightarrow> request \<Rightarrow> string option \<Rightarrow> string option option \<Rightarrow> db \<Rightarrow> (tenant, db) result" where
  "create_tenant cu req name slug d =
     super_required cu d
       (case name of
          None \<Rightarrow> raise (AttributeError ''NoneType object has no attribute lower'') d
        | Some nm \<Rightarrow>
            (case (case slug of None \<Rightarrow> Some (slug_of nm) | Some s \<Rightarrow> s) of
               None \<Rightarrow> (if \<exists>x \<in> set (tenants d). t_name x = nm then http 400 ''Tenant with this name or slug already exists'' d
                         else raise (IntegrityError ''tenants'') d)
             | Some s \<Rightarrow>
                 (if \<exists>x \<in> set (tenants d). t_slug x = s \<or> t_name x = nm then http 400 ''Tenant with this name or slug already exists'' d
                  else let t = new_tenant (next_id TTenants d) nm s
                       in if \<not> tenant_row_fits t d then raise (IntegrityError ''tenants'') d
                          else ok t (log_audit_event ((tenant_event ''TENANT_CREATE'' cu req)\<lparr>a_target_id := Some (t_id t),
                                 a_target_name := Some nm, a_new_value := Some (''slug='' @ s)\<rparr>) None (add_tenant t d)))))"

definition get_tenant :: "user \<Rightarrow> int \<Rightarrow> db \<Rightarrow> (tenant_stats, db) result" where
  "get_tenant cu tid d =
     (case the_tenant tid d of
        None \<Rightarrow> raise unbound_status d
      | Some t \<Rightarrow>
          (if forbidden_tenant cu tid d then raise unbound_status d
           else let vs = tenant_vms tid d
                in ok ((plain_stats t d)\<lparr>ts_total_cpu := sum_by v_cpu vs, ts_total_ram := sum_by v_ram vs,
                     ts_total_disk10 := round_div (10 * sum_by v_disk_size_mb vs) 1024,
                     ts_providers := breakdown v_provider [''proxmox'', ''vsphere'', ''aws'', ''azure'', ''gcp''] tid d\<rparr>) d))"

definition updated_tenant :: "string option \<Rightarrow> bool option \<Rightarrow> string option \<Rightarrow> tenant \<Rightarrow> tenant" where
  "updated_tenant name active settings t =
     t\<lparr>t_name := case_option (t_name t) id name, t_is_active := case_option (t_is_active t) id active,
       t_settings := (case settings of None \<Rightarrow> t_settings t | Some s \<Rightarrow> Some s)\<rparr>"

definition show_flag :: "bool \<Rightarrow> string" where
  "show_flag b = (if b then ''True'' else ''False'')"

definition update_tenant ::
  "user \<Rightarrow> request \<Rightarrow> int \<Rightarrow> string option \<Rightarrow> bool option \<Rightarrow> string option \<Rightarrow> db \<Rightarrow> (tenant, db) result" where
  "update_tenant cu req tid name active settings d =
     super_required cu d (on_tenant tid d (\<lambda>t.
       let t' = updated_tenant name active settings t
       in if \<not> tenant_row_fits t' d then raise (IntegrityError ''tenants'') d
          else ok t' (log_audit_event ((tenant_event ''TENANT_UPDATE'' cu req)\<lparr>a_target_id := Some tid, a_target_name := Some (t_name t'),
                 a_new_value := Some (''name='' @ t_name t' @ '',is_active='' @ show_flag (t_is_active t'))\<rparr>) None
               (d\<lparr>tenants := upd_rows t_id tid (\<lambda>_. t') (tenants d)\<rparr>))))"

text \<open>What keeps a tenant in the database, and what goes with it.\<close>

definition tenant_tunnels :: "int \<Rightarrow> db \<Rightarrow> int set" where
  "tenant_tunnels tid d = wt_id ` {t \<in> set (wg_tunnels d). wt_tenant_id t = tid}"

definition tenant_referenced :: "int \<Rightarrow> db \<Rightarrow> bool" where
  "tenant_referenced tid d \<longleftrightarrow>
     (\<exists>n \<in> set (networks d). n_tenant_id n = tid) \<or> (\<exists>s \<in> set (snapshots d). s_tenant_id s = tid) \<or>
     (\<exists>i \<in> set (invitations d). inv_tenant_id i = tid) \<or> (\<exists>r \<in> set (ip_reservations d). res_tenant_id r = tid) \<or>
     (\<exists>a \<in> set (tenant_images d). ti_tenant_id a = tid) \<or> (\<exists>b \<in> set (bridges d). br_tenant_id b = Some tid) \<or>
     (\<exists>r \<in> set (wg_pool d). \<exists>i. wgp_tunnel_id r = Some i \<and> i \<in> tenant_tunnels tid d)"

definition without_tenant :: "int \<Rightarrow> db \<Rightarrow> db" where
  "without_tenant tid d =
     (let tunnels = tenant_tunnels tid d
      in d\<lparr>tenants := del_rows t_id tid (tenants d),
           roles := map (\<lambda>r. if r_tenant_id r = Some tid then r\<lparr>r_tenant_id := None\<rparr> else r) (roles d),
           user_roles := map (\<lambda>r. if ur_tenant_id r = Some tid then r\<lparr>ur_tenant_id := None\<rparr> else r) (user_roles d),
           wg_tunnels := filter (\<lambda>t. wt_tenant_id t \<noteq> tid) (wg_tunnels d),
           wg_peers := filter (\<lambda>p. wp_tunnel_id p \<notin> tunnels) (wg_peers d),
           fw_rules := filter (\<lambda>r. fw_tenant_id r \<noteq> tid) (fw_rules d),
           audit_log := map (\<lambda>a. if a_tenant_id a = Some tid then a\<lparr>a_tenant_id := None\<rparr> else a) (audit_log d)\<rparr>)"

definition delete_tenant :: "user \<Rightarrow> request \<Rightarrow> int \<Rightarrow> db \<Rightarrow> (unit, db) result" where
  "delete_tenant cu req tid d =
     super_required cu d (on_tenant tid d (\<lambda>t.
       let us = count_rows (\<lambda>u. u_tenant_id u = Some tid) (users d); vs = count_rows (\<lambda>v. v_tenant_id v = tid) (vms d)
       in if us > 0 then http 400 (''Cannot delete tenant with '' @ show_int us @ '' user(s). Please reassign or delete users first.'') d
          else if vs > 0 then http 400 (''Cannot delete tenant with '' @ show_int vs @ '' VM(s). Please delete or reassign VMs first.'') d
          else if tenant_referenced tid d then raise (IntegrityError ''tenants'') d
          else ok () (log_audit_event ((tenant_event ''TENANT_DELETE'' cu req)\<lparr>a_target_id := Some tid, a_target_name := Some (t_name t),
                 a_old_value := Some (''name='' @ t_name t @ '',slug='' @ t_slug t)\<rparr>) None (without_tenant tid d))))"

text \<open>Declared behind \<open>/{tenant_id}\<close>, which takes the path first and refuses it with 422.\<close>

definition get_unverified_tenants :: "user \<Rightarrow> int \<Rightarrow> int \<Rightarrow> db \<Rightarrow> (tenant_stats list, db) result" where
  "get_unverified_tenants cu skip limit d =
     super_required cu d
       (case page skip limit (filter (\<lambda>t. \<not> t_is_verified t) (tenants d)) of
          Inl e \<Rightarrow> raise e d
        | Inr ts \<Rightarrow> ok (map (\<lambda>t. (plain_stats t d)\<lparr>ts_vm_status := []\<rparr>) ts) d)"

section \<open>Users of all tenants\<close>

definition roles_of_user :: "user \<Rightarrow> db \<Rightarrow> (user_role \<times> role) list" where
  "roles_of_user u d =
     List.map_filter (\<lambda>ur. map_option (Pair ur) (find_role (ur_role_id ur) d)) (filter (\<lambda>ur. ur_user_id ur = u_id u) (user_roles d))"

definition get_tenant_users :: "user \<Rightarrow> int \<Rightarrow> db \<Rightarrow> ((user \<times> string list) list, db) result" where
  "get_tenant_users cu tid d =
     super_required cu d (on_tenant tid d (\<lambda>t.
       ok (map (\<lambda>u. (u, map (\<lambda>(ur, r). r_name r) (roles_of_user u d))) (filter (\<lambda>u. u_tenant_id u = Some tid) (users d))) d))"

record user_listing =
  ul_user :: user
  ul_tenant_name :: "string option"
  ul_roles :: "string list"
  ul_memberships :: "(int \<times> string \<times> string) list"
  ul_is_super_admin :: bool

definition user_listing_of :: "db \<Rightarrow> user \<Rightarrow> user_listing" where
  "user_listing_of d u =
     \<lparr>ul_user = u, ul_tenant_name = map_option t_name (home_tenant u d), ul_roles = map (\<lambda>(ur, r). r_name r) (roles_of_user u d),
      ul_memberships = List.map_filter (\<lambda>(ur, r). case ur_tenant_id ur of None \<Rightarrow> None
        | Some i \<Rightarrow> map_option (\<lambda>t. (t_id t, t_name t, r_name r)) (the_tenant i d)) (roles_of_user u d),
      ul_is_super_admin = is_super_admin u d\<rparr>"

definition ilike :: "string \<Rightarrow> string \<Rightarrow> bool" where
  "ilike search s = like (lower (''%'' @ search @ ''%'')) (lower s)"

definition list_all_users ::
  "user \<Rightarrow> int \<Rightarrow> int \<Rightarrow> string option \<Rightarrow> int option \<Rightarrow> bool option \<Rightarrow> db \<Rightarrow> (int \<times> user_listing list, db) result" where
  "list_all_users cu skip limit search tid active d =
     super_required cu d
       (let rows = filter (\<lambda>u.
              (truthy search \<longrightarrow> ilike (the search) (u_username u) \<or> ilike (the search) (u_email u) \<or>
                 (case u_full_name u of None \<Rightarrow> False | Some f \<Rightarrow> ilike (the search) f)) \<and>
              (tid \<noteq> None \<longrightarrow> u_tenant_id u = tid) \<and> (active \<noteq> None \<longrightarrow> u_is_active u = the active)) (users d)
        in case page skip limit (sort_key u_id rows) of
             Inl e \<Rightarrow> raise e d
           | Inr us \<Rightarrow> ok (int (length rows), map (user_listing_of d) us) d)"

definition ban_user :: "user \<Rightarrow> request \<Rightarrow> int \<Rightarrow> db \<Rightarrow> (bool \<times> string, db) result" where
  "ban_user cu req uid d =
     super_required cu d
       (case first_row (\<lambda>u. u_id u = uid) (users d) of
          None \<Rightarrow> http 404 ''User not found'' d
        | Some u \<Rightarrow>
            (if is_super_admin u d then http 400 ''Cannot ban a super admin'' d
             else let u' = u\<lparr>u_is_active := \<not> u_is_active u\<rparr>; word = (if u_is_active u' then ''unbanned'' else ''banned'')
                  in ok (u_is_active u', ''User '' @ word @ '' successfully'')
                    (log_audit_event ((with_request req (u_tenant_id u) (audit_event (audit_action ''USER_STATUS_CHANGE'') ''user'' cu))
                       \<lparr>a_target_id := Some uid, a_target_name := Some (u_username u), a_old_value := Some (''is_active='' @ show_flag (u_is_active u)),
                        a_new_value := Some (''is_active='' @ show_flag (u_is_active u')), a_details := Some (''User '' @ word @ '' by super admin'')\<rparr>) None
                     (d\<lparr>users := upd_rows u_id uid (\<lambda>_. u') (users d)\<rparr>))))"

section \<open>Machines and networks of a tenant\<close>

definition get_tenant_vms :: "user \<Rightarrow> int \<Rightarrow> db \<Rightarrow> ((vm \<times> int option) list, db) result" where
  "get_tenant_vms cu tid d =
     super_required cu d (on_tenant tid d (\<lambda>t.
       ok (map (\<lambda>v. (v, if v_disk_size_mb v = 0 then None else Some (round_div (10 * v_disk_size_mb v) 1024))) (tenant_vms tid d)) d))"

record network_info =
  ni_network :: tenant_network
  ni_pod_name :: "string option"
  ni_ips_used :: int
  ni_ips_available :: int
  ni_vms :: "vm list"

definition total_ips :: "string \<Rightarrow> int" where
  "total_ips cidr = (case parse_network cidr of None \<Rightarrow> 254 | Some w \<Rightarrow> int (block_size (net_prefix w)) - 2)"

definition network_info_of :: "db \<Rightarrow> tenant_network \<Rightarrow> network_info" where
  "network_info_of d n =
     (let here = filter (\<lambda>v. v_network_id v = Some (n_id n)) (vms d);
          pool = (if truthy_id (n_ip_pool_id n) then first_row (\<lambda>r. ipp_id r = the (n_ip_pool_id n)) (ip_pool d) else None)
      in \<lparr>ni_network = n, ni_pod_name = map_option pod_name (first_row (\<lambda>p. pod_id p = n_pod_id n) (pods d)),
          ni_ips_used = (case pool of None \<Rightarrow> 0 | Some r \<Rightarrow> int (length here)),
          ni_ips_available = (case pool of None \<Rightarrow> 0 | Some r \<Rightarrow> max 0 (total_ips (ipp_cidr r) - int (length here))),
          ni_vms = here\<rparr>)"

definition get_tenant_networks :: "user \<Rightarrow> int \<Rightarrow> db \<Rightarrow> (network_info list, db) result" where
  "get_tenant_networks cu tid d =
     super_required cu d (on_tenant tid d (\<lambda>t.
       ok (map (network_info_of d) (filter (\<lambda>n. n_tenant_id n = tid \<and> n_status n = ''active'') (networks d))) d))"

section \<open>Quota\<close>

definition all_usage :: "int \<Rightarrow> db \<Rightarrow> usage" where
  "all_usage tid d = (get_current_usage tid d)\<lparr>us_network_count := count_rows (\<lambda>n. n_tenant_id n = tid) (networks d)\<rparr>"

definition get_tenant_quota :: "user \<Rightarrow> int \<Rightarrow> db \<Rightarrow> (quota \<times> usage, db) result" where
  "get_tenant_quota cu tid d =
     on_tenant tid d (\<lambda>t.
       if forbidden_tenant cu tid d then http 403 ''Access denied'' d
       else case from_settings_json (t_settings t) of Inl e \<Rightarrow> raise e d | Inr q \<Rightarrow> ok (q, all_usage tid d) d)"

text \<open>The fields of a \<open>QuotaUpdate\<close> that were set, each to a limit or to none.\<close>

record quota_update =
  qu_max_vms :: "int option option"
  qu_max_cpu_cores :: "int option option"
  qu_max_ram_mb :: "int option option"
  qu_max_disk_gb :: "int option option"
  qu_max_networks :: "int option option"

definition set_fields :: "quota_update \<Rightarrow> (string \<times> int option) list" where
  "set_fields u =
     List.map_filter (\<lambda>(k, v). map_option (Pair k) v)
       [(''max_vms'', qu_max_vms u), (''max_cpu_cores'', qu_max_cpu_cores u), (''max_ram_mb'', qu_max_ram_mb u),
        (''max_disk_gb'', qu_max_disk_gb u), (''max_networks'', qu_max_networks u)]"

definition valid_update :: "quota_update \<Rightarrow> bool" where
  "valid_update u \<longleftrightarrow> (\<forall>(k, v) \<in> set (set_fields u). case v of None \<Rightarrow> True | Some n \<Rightarrow> 0 \<le> n)"

definition updated_quota :: "quota_update \<Rightarrow> quota \<Rightarrow> quota" where
  "updated_quota u q =
     \<lparr>q_max_vms = case_option (q_max_vms q) id (qu_max_vms u), q_max_cpu_cores = case_option (q_max_cpu_cores q) id (qu_max_cpu_cores u),
      q_max_ram_mb = case_option (q_max_ram_mb q) id (qu_max_ram_mb u), q_max_disk_gb = case_option (q_max_disk_gb q) id (qu_max_disk_gb u),
      q_max_networks = case_option (q_max_networks q) id (qu_max_networks u)\<rparr>"

definition show_fields :: "(string \<times> int option) list \<Rightarrow> string" where
  "show_fields fs = CHR ''{'' # join_with '', '' (map (\<lambda>(k, v). repr_str k @ '': '' @ show_opt show_int v) fs) @ ''}''"

definition update_tenant_quota :: "user \<Rightarrow> request \<Rightarrow> int \<Rightarrow> quota_update \<Rightarrow> db \<Rightarrow> (quota, db) result" where
  "update_tenant_quota cu req tid u d =
     (if \<not> valid_update u then http 422 ''Value must be positive or null'' d
      else super_required cu d (on_tenant tid d (\<lambda>t.
        case from_settings_json (t_settings t) of
          Inl e \<Rightarrow> raise e d
        | Inr q \<Rightarrow>
            (let q' = updated_quota u q
             in ok q' (log_audit_event ((tenant_event ''TENANT_UPDATE'' cu req)\<lparr>a_target_id := Some tid, a_target_name := Some (t_name t),
                    a_details := Some (''Quota updated: '' @ show_fields (set_fields u))\<rparr>) None
                  (d\<lparr>tenants := upd_rows t_id tid (\<lambda>x. x\<lparr>t_settings := Some (model_dump_json q')\<rparr>) (tenants d)\<rparr>))))))"

section \<open>Topology\<close>

record topo_network =
  tn_id :: string
  tn_name :: string
  tn_cidr :: string
  tn_gateway :: "string option"
  tn_vlan_id :: "int option"
  tn_type :: string

record topology =
  tp_tenant_id :: int
  tp_tenant_name :: string
  tp_status :: string
  tp_wan_bridge :: string
  tp_wan_ip :: "string option"
  tp_firewall_name :: "string option"
  tp_firewall_status :: string
  tp_networks :: "topo_network list"
  tp_lan_bridge :: "string option"
  tp_lan_cidr :: "string option"
  tp_lan_gateway :: "string option"
  tp_lan_vlan_id :: "int option"
  tp_dhcp :: "string option \<times> string option"
  tp_vms :: "vm list"
  tp_counts :: "int \<times> int \<times> int"
  tp_tunnels :: "(wg_tunnel \<times> wg_peer list) list"

definition get_network_type :: "string \<Rightarrow> string" where
  "get_network_type name =
     (if contains_str (lower name) ''dmz'' then ''dmz'' else if contains_str (lower name) ''internal'' then ''internal'' else ''lan'')"

text \<open>\<open>s.rsplit('.', 1)[0]\<close>.\<close>

definition before_last_dot :: "string \<Rightarrow> string" where
  "before_last_dot s = (let ws = split_on CHR ''.'' s in if length ws < 2 then s else join_with ''.'' (butlast ws))"

definition lan_cidr :: "string \<Rightarrow> string" where
  "lan_cidr ip = before_last_dot ip @ ''.0/24''"

definition topo_networks :: "tenant \<Rightarrow> db \<Rightarrow> topo_network list" where
  "topo_networks t d =
     (let ns = map (\<lambda>n. \<lparr>tn_id = show_int (n_id n), tn_name = n_name n, tn_cidr = n_cidr n, tn_gateway = Some (n_gateway_ip n),
             tn_vlan_id = n_vlan_id n, tn_type = get_network_type (n_name n)\<rparr>) (filter (\<lambda>n. n_tenant_id n = t_id t) (networks d))
      in if ns = [] \<and> truthy (t_lan_ip t)
         then [\<lparr>tn_id = ''lan'', tn_name = ''default'', tn_cidr = lan_cidr (the (t_lan_ip t)), tn_gateway = t_lan_ip t, tn_vlan_id = None,
                tn_type = ''lan''\<rparr>]
         else ns)"

definition topology_of :: "tenant \<Rightarrow> db \<Rightarrow> topology" where
  "topology_of t d =
     (let ns = topo_networks t d; vs = tenant_vms (t_id t) d
      in \<lparr>tp_tenant_id = t_id t, tp_tenant_name = t_name t, tp_status = t_status t,
          tp_wan_bridge = (if t_wan_bridge t = [] then ''vmbr0'' else t_wan_bridge t), tp_wan_ip = t_wan_ip t,
          tp_firewall_name = t_opnsense_vm_name t, tp_firewall_status = (if truthy_id (t_opnsense_vm_id t) then ''running'' else ''not_provisioned''),
          tp_networks = ns, tp_lan_bridge = (if truthy_id (t_bridge_id t) then Some (''vmbr'' @ show_int (the (t_bridge_id t))) else None),
          tp_lan_cidr = (if truthy (t_lan_ip t) then Some (lan_cidr (the (t_lan_ip t))) else None), tp_lan_gateway = t_lan_ip t,
          tp_lan_vlan_id = (case ns of [] \<Rightarrow> None | n # _ \<Rightarrow> tn_vlan_id n), tp_dhcp = (t_dhcp_pool_start t, t_dhcp_pool_end t),
          tp_vms = vs, tp_counts = (count_rows (\<lambda>v. v_status v = ''running'') vs, count_rows (\<lambda>v. v_status v = ''stopped'') vs,
             count_rows (\<lambda>v. v_status v = ''error'') vs),
          tp_tunnels = map (\<lambda>w. (w, filter wp_is_enabled (peers_of (wt_id w) d)))
             (filter (\<lambda>w. wt_tenant_id w = t_id t \<and> wt_status w \<in> {''active'', ''provisioning''}) (wg_tunnels d))\<rparr>)"

definition get_tenant_topology :: "user \<Rightarrow> int \<Rightarrow> db \<Rightarrow> (topology, db) result" where
  "get_tenant_topology cu tid d =
     on_tenant tid d (\<lambda>t. if forbidden_tenant cu tid d then http 403 ''Access denied'' d else ok (topology_of t d) d)"

section \<open>Banning\<close>

lemma super_required_ok: "super_required cu d r = (Inr x, d') \<longleftrightarrow> is_super_admin cu d \<and> r = (Inr x, d')"
  by (simp add: super_required_def)

lemma on_tenant_ok: "on_tenant tid d k = (Inr x, d') \<longleftrightarrow> (\<exists>t. the_tenant tid d = Some t \<and> k t = (Inr x, d'))"
  by (auto simp: on_tenant_def split: option.split)

lemma ban_user_ok:
  assumes "ban_user cu req uid d = (Inr (active, m), d')"
  obtains u where "first_row (\<lambda>u. u_id u = uid) (users d) = Some u" "\<not> is_super_admin u d" "active = (\<not> u_is_active u)"
    "users d' = upd_rows u_id uid (\<lambda>_. u\<lparr>u_is_active := active\<rparr>) (users d)"
  using assms by (auto simp: ban_user_def super_required_ok Let_def split: option.splits if_splits)

lemma current_user_Inr: "current_user cfg env tok w = (Inr u, w') \<Longrightarrow> u \<in> set (users (aw_db w)) \<and> u_is_active u"
  by (auto simp: current_user_def get_current_user_def split: option.splits sum.splits if_splits dest: first_row_Some)

text \<open>
  C27: A banned user is locked out at once: no token is accepted as theirs any more and their name cannot log in, while every other
  account is as it was; super admins cannot be banned.
\<close>

theorem banned_user_locked_out:
  assumes "ban_user cu req uid d = (Inr (False, m), d')" "distinct_keys u_id (users d)" "distinct_keys u_username (users d)"
  shows "\<exists>u. first_row (\<lambda>u. u_id u = uid) (users d) = Some u \<and> \<not> is_super_admin u d \<and>
    (\<forall>cfg env tok w v. fst (current_user cfg env tok (w\<lparr>aw_db := d'\<rparr>)) = Inr v \<longrightarrow> u_id v \<noteq> uid) \<and>
    (\<forall>cfg env req pw. \<not> is_ok (login_rows cfg env req (u_username u) pw d')) \<and>
    filter (\<lambda>v. u_id v \<noteq> uid) (users d') = filter (\<lambda>v. u_id v \<noteq> uid) (users d)"
proof -
  from assms(1) obtain u where u: "first_row (\<lambda>u. u_id u = uid) (users d) = Some u" "\<not> is_super_admin u d"
    "users d' = upd_rows u_id uid (\<lambda>_. u\<lparr>u_is_active := False\<rparr>) (users d)"
    by (rule ban_user_ok) simp
  let ?b = "u\<lparr>u_is_active := False\<rparr>"
  have mem: "u \<in> set (users d)" "u_id u = uid" using first_row_Some [OF u(1)] by simp_all
  have inactive: "\<not> u_is_active v" if "v \<in> set (users d')" "u_id v = uid" for v
    using that unfolding u(3) by (auto simp: set_upd_rows)
  have "u_id v \<noteq> uid" if "fst (current_user cfg env tok (w\<lparr>aw_db := d'\<rparr>)) = Inr v" for cfg env tok w v
    using current_user_Inr [of cfg env tok "w\<lparr>aw_db := d'\<rparr>" v] inactive [of v] that by (auto simp: prod_eq_iff)
  moreover have "\<not> is_ok (login_rows cfg env r (u_username u) pw d')" for cfg env r pw
  proof -
    have same: "map u_username (users d') = map u_username (users d)"
      unfolding u(3) using assms(2) mem by (auto simp: upd_rows_def intro!: map_cong [OF refl] dest: distinct_keys_eq)
    have "?b \<in> set (users d')" unfolding u(3) using upd_rows_hit [where f = "\<lambda>_. ?b" and key = u_id] mem by simp
    moreover have "distinct_keys u_username (users d')" using assms(3) same by (simp add: distinct_keys_def)
    ultimately have "first_row (\<lambda>x. u_username x = u_username u) (users d') = Some ?b"
      using first_row_key [of u_username "users d'" ?b] by simp
    then show ?thesis by (auto simp: is_ok_conv login_rows_ok)
  qed
  moreover have "filter (\<lambda>v. u_id v \<noteq> uid) (users d') = filter (\<lambda>v. u_id v \<noteq> uid) (users d)"
    unfolding u(3) using mem(2) by (induction "users d") (simp_all add: upd_rows_def filter_map comp_def, auto intro!: map_idI)
  ultimately show ?thesis using u by blast
qed

section \<open>Quotas\<close>

lemma set_fields_all:
  "(\<forall>(k, v) \<in> set (List.map_filter (\<lambda>(k, v). map_option (Pair k) v) kvs). P v) \<longleftrightarrow> (\<forall>(k, v) \<in> set kvs. case v of None \<Rightarrow> True | Some x \<Rightarrow> P x)"
  by (induction kvs) (auto simp: List.map_filter_simps split: option.split)

lemma updated_quota_ok:
  assumes "valid_update u" "quota_ok q"
  shows "quota_ok (updated_quota u q)"
proof -
  let ?pos = "\<lambda>x. case x of None \<Rightarrow> True | Some i \<Rightarrow> (0 :: int) \<le> i"
  have new: "case v of None \<Rightarrow> True | Some x \<Rightarrow> ?pos x" if "v \<in> {qu_max_vms u, qu_max_cpu_cores u, qu_max_ram_mb u, qu_max_disk_gb u, qu_max_networks u}" for v
    using assms(1) that unfolding valid_update_def set_fields_def set_fields_all by auto
  have old: "?pos x" if "x \<in> {q_max_vms q, q_max_cpu_cores q, q_max_ram_mb q, q_max_disk_gb q, q_max_networks q}" for x
    using assms(2) that unfolding quota_ok_def by blast
  have "?pos (case_option x id v)" if "case v of None \<Rightarrow> True | Some x \<Rightarrow> ?pos x" "?pos x" for v x
    using that by (cases v) simp_all
  then show ?thesis by (simp add: quota_ok_def updated_quota_def new old)
qed

text \<open>
  C30: A quota is read back as it was set: after an update the quota endpoint answers the new limit for every field the update sets and
  the old one for the others, and the settings of the other tenants are unchanged.
\<close>

theorem quota_update_read_back:
  assumes "update_tenant_quota cu req tid u d = (Inr q', d')" "from_settings_json (t_settings t) = Inr q" "the_tenant tid d = Some t"
    and "quota_ok q"
  shows "q' = updated_quota u q \<and> (\<exists>us. get_tenant_quota cu tid d' = (Inr (q', us), d')) \<and>
    (\<forall>i. i \<noteq> tid \<longrightarrow> the_tenant i d' = the_tenant i d)"
proof -
  have ok: "valid_update u" "q' = updated_quota u q"
    and d': "\<exists>a. d' = log_audit_event a None (d\<lparr>tenants := upd_rows t_id tid (\<lambda>x. x\<lparr>t_settings := Some (model_dump_json q')\<rparr>) (tenants d)\<rparr>)"
    using assms(1-3) by (auto simp: update_tenant_quota_def super_required_ok on_tenant_ok Let_def split: if_splits)
  have super: "is_super_admin cu d'"
  proof -
    have "is_super_admin cu d" using assms(1) ok(1) by (auto simp: update_tenant_quota_def super_required_ok)
    moreover have "roles d' = roles d" "user_roles d' = user_roles d" using d' by auto
    ultimately show ?thesis by (simp add: is_super_admin_def roles_of_def find_role_def)
  qed
  have ts: "tenants d' = upd_rows t_id tid (\<lambda>x. x\<lparr>t_settings := Some (model_dump_json q')\<rparr>) (tenants d)" using d' by auto
  have row: "the_tenant i d' = map_option (\<lambda>x. if i = tid then x\<lparr>t_settings := Some (model_dump_json q')\<rparr> else x) (the_tenant i d)" for i
    unfolding the_tenant_def ts by (rule first_row_upd_rows) simp
  have "from_settings_json (Some (model_dump_json q')) = Inr q'"
    unfolding model_dump_json_def by (rule settings_round_trip) (simp_all add: ok updated_quota_ok assms(4) separators_def)
  then have "get_tenant_quota cu tid d' = (Inr (q', all_usage tid d'), d')"
    by (simp add: get_tenant_quota_def on_tenant_def row assms(3) forbidden_tenant_def super ok_def)
  moreover have "the_tenant i d' = the_tenant i d" if "i \<noteq> tid" for i
    using that by (simp add: row option.map_ident)
  ultimately show ?thesis using ok(2) by blast
qed

section \<open>What a caller can see\<close>

text \<open>Two databases that hold the same rows for a tenant.\<close>

definition same_tenant_rows :: "int \<Rightarrow> db \<Rightarrow> db \<Rightarrow> bool" where
  "same_tenant_rows tid d e \<longleftrightarrow>
     the_tenant tid d = the_tenant tid e \<and> tenant_vms tid d = tenant_vms tid e \<and>
     filter (\<lambda>n. n_tenant_id n = tid) (networks d) = filter (\<lambda>n. n_tenant_id n = tid) (networks e) \<and>
     filter (\<lambda>u. u_tenant_id u = Some tid) (users d) = filter (\<lambda>u. u_tenant_id u = Some tid) (users e) \<and>
     filter (\<lambda>w. wt_tenant_id w = tid) (wg_tunnels d) = filter (\<lambda>w. wt_tenant_id w = tid) (wg_tunnels e) \<and>
     (\<forall>w \<in> set (wg_tunnels d). wt_tenant_id w = tid \<longrightarrow> peers_of (wt_id w) d = peers_of (wt_id w) e)"

lemma filter_conj: "filter (\<lambda>x. P x \<and> Q x) xs = filter Q (filter P xs)"
  by (simp add: conj_commute)

lemma count_conj: "count_rows (\<lambda>x. P x \<and> Q x) xs = count_rows Q (filter P xs)"
  by (simp add: count_rows_def conj_commute)

lemma same_counts:
  assumes "same_tenant_rows tid d e"
  shows "count_rows (\<lambda>v. v_tenant_id v = tid \<and> P v) (vms d) = count_rows (\<lambda>v. v_tenant_id v = tid \<and> P v) (vms e)"
    and "count_rows (\<lambda>v. v_tenant_id v = tid) (vms d) = count_rows (\<lambda>v. v_tenant_id v = tid) (vms e)"
    and "count_rows (\<lambda>n. n_tenant_id n = tid \<and> Q n) (networks d) = count_rows (\<lambda>n. n_tenant_id n = tid \<and> Q n) (networks e)"
    and "count_rows (\<lambda>n. n_tenant_id n = tid) (networks d) = count_rows (\<lambda>n. n_tenant_id n = tid) (networks e)"
    and "count_rows (\<lambda>u. u_tenant_id u = Some tid) (users d) = count_rows (\<lambda>u. u_tenant_id u = Some tid) (users e)"
  using assms unfolding same_tenant_rows_def tenant_vms_def count_conj by (simp_all add: count_rows_def)

lemma the_tenant_id: "the_tenant tid d = Some t \<Longrightarrow> t_id t = tid"
  by (auto simp: the_tenant_def dest: first_row_Some)

lemma same_stats:
  assumes "same_tenant_rows (t_id t) d e"
  shows "plain_stats t d = plain_stats t e" "breakdown f keys (t_id t) d = breakdown f keys (t_id t) e"
  using same_counts [OF assms] by (simp_all add: plain_stats_def breakdown_def)

lemma same_topology:
  assumes "same_tenant_rows (t_id t) d e"
  shows "topology_of t d = topology_of t e"
proof -
  have "tenant_vms (t_id t) d = tenant_vms (t_id t) e" "topo_networks t d = topo_networks t e"
    using assms by (simp_all add: same_tenant_rows_def topo_networks_def)
  moreover have "map (\<lambda>w. (w, filter wp_is_enabled (peers_of (wt_id w) d)))
       (filter (\<lambda>w. wt_tenant_id w = t_id t \<and> wt_status w \<in> S) (wg_tunnels d)) =
     map (\<lambda>w. (w, filter wp_is_enabled (peers_of (wt_id w) e)))
       (filter (\<lambda>w. wt_tenant_id w = t_id t \<and> wt_status w \<in> S) (wg_tunnels e))" for S
  proof -
    have ws: "filter (\<lambda>w. wt_tenant_id w = t_id t) (wg_tunnels e) = filter (\<lambda>w. wt_tenant_id w = t_id t) (wg_tunnels d)"
      using assms by (simp add: same_tenant_rows_def)
    have "peers_of (wt_id w) d = peers_of (wt_id w) e" if "w \<in> set (filter (\<lambda>w. wt_tenant_id w = t_id t) (wg_tunnels d))" for w
    proof -
      from that have "w \<in> set (wg_tunnels d)" "wt_tenant_id w = t_id t" by simp_all
      then show ?thesis using assms unfolding same_tenant_rows_def by blast
    qed
    then show ?thesis unfolding filter_conj ws by (intro map_cong refl) auto
  qed
  ultimately show ?thesis by (simp only: topology_of_def Let_def)
qed

text \<open>
  C8: Tenants cannot see each other: who is neither super admin nor at home in a tenant gets none of its details, quota and topology; and
  what the others get is the same in any two databases that hold the same rows for the tenant, whatever the other tenants have.
\<close>

theorem tenant_answers_isolated:
  "(forbidden_tenant cu tid d \<longrightarrow>
      \<not> is_ok (get_tenant cu tid d) \<and> \<not> is_ok (get_tenant_quota cu tid d) \<and> \<not> is_ok (get_tenant_topology cu tid d)) \<and>
   (same_tenant_rows tid d e \<and> is_super_admin cu d = is_super_admin cu e \<longrightarrow>
      fst (get_tenant cu tid d) = fst (get_tenant cu tid e) \<and> fst (get_tenant_quota cu tid d) = fst (get_tenant_quota cu tid e) \<and>
      fst (get_tenant_topology cu tid d) = fst (get_tenant_topology cu tid e))"
proof (intro conjI impI; (elim conjE)?)
  show "\<not> is_ok (get_tenant cu tid d)" "\<not> is_ok (get_tenant_quota cu tid d)" "\<not> is_ok (get_tenant_topology cu tid d)"
    if "forbidden_tenant cu tid d"
    using that by (simp_all add: get_tenant_def get_tenant_quota_def get_tenant_topology_def on_tenant_def split: option.split)
next
  assume same: "same_tenant_rows tid d e" and "is_super_admin cu d = is_super_admin cu e"
  then have who: "forbidden_tenant cu tid d = forbidden_tenant cu tid e" by (simp add: forbidden_tenant_def)
  have t: "the_tenant tid e = the_tenant tid d" "tenant_vms tid d = tenant_vms tid e" using same by (simp_all add: same_tenant_rows_def)
  have usage: "all_usage tid d = all_usage tid e"
    using same_counts [OF same] t(2) by (simp add: all_usage_def get_current_usage_def Let_def)
  show "fst (get_tenant cu tid d) = fst (get_tenant cu tid e)"
    using the_tenant_id [of tid d] same_stats [of _ d e] same t
    by (auto simp: get_tenant_def who Let_def split: option.split)
  show "fst (get_tenant_quota cu tid d) = fst (get_tenant_quota cu tid e)"
    by (simp add: get_tenant_quota_def on_tenant_def t(1) who usage split: option.split sum.split)
  show "fst (get_tenant_topology cu tid d) = fst (get_tenant_topology cu tid e)"
    using the_tenant_id [of tid d] same_topology [of _ d e] same
    by (auto simp: get_tenant_topology_def on_tenant_def t(1) who split: option.split)
qed

section \<open>Deleting a tenant\<close>

text \<open>
  C28: A tenant is deleted only when no account, machine, snapshot, network, bridge, invitation, address reservation or
  image assignment refers to it, and then nothing refers to it any more: its tunnels with their peers and its firewall
  rules are gone, its roles and the role assignments in it belong to no tenant. Nothing else changes: the tunnels, peers,
  rules, roles and assignments of everybody else are as they were, and so is every other table.
\<close>

theorem deleted_tenant_leaves_nothing:
  assumes "delete_tenant cu req tid d = (Inr (), d')"
  shows "the_tenant tid d' = None \<and> (\<forall>i. i \<noteq> tid \<longrightarrow> the_tenant i d' = the_tenant i d) \<and>
    users d' = users d \<and> vms d' = vms d \<and> networks d' = networks d \<and> bridges d' = bridges d \<and> snapshots d' = snapshots d \<and>
    invitations d' = invitations d \<and> ip_reservations d' = ip_reservations d \<and> tenant_images d' = tenant_images d \<and>
    (\<forall>u \<in> set (users d). u_tenant_id u \<noteq> Some tid) \<and> (\<forall>v \<in> set (vms d). v_tenant_id v \<noteq> tid) \<and>
    (\<forall>n \<in> set (networks d). n_tenant_id n \<noteq> tid) \<and> (\<forall>b \<in> set (bridges d). br_tenant_id b \<noteq> Some tid) \<and>
    (\<forall>s \<in> set (snapshots d). s_tenant_id s \<noteq> tid) \<and> (\<forall>i \<in> set (invitations d). inv_tenant_id i \<noteq> tid) \<and>
    (\<forall>r \<in> set (ip_reservations d). res_tenant_id r \<noteq> tid) \<and> (\<forall>a \<in> set (tenant_images d). ti_tenant_id a \<noteq> tid) \<and>
    wg_tunnels d' = filter (\<lambda>w. wt_tenant_id w \<noteq> tid) (wg_tunnels d) \<and>
    wg_peers d' = filter (\<lambda>p. \<forall>w \<in> set (wg_tunnels d). wt_tenant_id w = tid \<longrightarrow> wp_tunnel_id p \<noteq> wt_id w) (wg_peers d) \<and>
    fw_rules d' = filter (\<lambda>r. fw_tenant_id r \<noteq> tid) (fw_rules d) \<and>
    (\<forall>r \<in> set (roles d'). r_tenant_id r \<noteq> Some tid) \<and> (\<forall>r \<in> set (user_roles d'). ur_tenant_id r \<noteq> Some tid) \<and>
    (\<forall>r \<in> set (roles d). r_tenant_id r \<noteq> Some tid \<longrightarrow> r \<in> set (roles d')) \<and> length (roles d') = length (roles d) \<and>
    (\<forall>r \<in> set (user_roles d). ur_tenant_id r \<noteq> Some tid \<longrightarrow> r \<in> set (user_roles d')) \<and> length (user_roles d') = length (user_roles d)"
proof -
  from assms obtain t a where t: "count_rows (\<lambda>u. u_tenant_id u = Some tid) (users d) \<le> 0" "count_rows (\<lambda>v. v_tenant_id v = tid) (vms d) \<le> 0"
    "\<not> tenant_referenced tid d" "d' = log_audit_event a None (without_tenant tid d)"
    by (auto simp: delete_tenant_def super_required_ok on_tenant_ok Let_def split: if_splits)
  have none: "\<forall>u \<in> set (users d). u_tenant_id u \<noteq> Some tid" "\<forall>v \<in> set (vms d). v_tenant_id v \<noteq> tid"
    using t(1,2) by (auto simp: count_rows_def filter_empty_conv)
  have rows: "tenants d' = del_rows t_id tid (tenants d)" "users d' = users d" "vms d' = vms d" "networks d' = networks d" "bridges d' = bridges d"
    "snapshots d' = snapshots d" "invitations d' = invitations d" "ip_reservations d' = ip_reservations d" "tenant_images d' = tenant_images d"
    "wg_tunnels d' = filter (\<lambda>w. wt_tenant_id w \<noteq> tid) (wg_tunnels d)"
    "wg_peers d' = filter (\<lambda>p. \<forall>w \<in> set (wg_tunnels d). wt_tenant_id w = tid \<longrightarrow> wp_tunnel_id p \<noteq> wt_id w) (wg_peers d)"
    "fw_rules d' = filter (\<lambda>r. fw_tenant_id r \<noteq> tid) (fw_rules d)"
    "roles d' = map (\<lambda>r. if r_tenant_id r = Some tid then r\<lparr>r_tenant_id := None\<rparr> else r) (roles d)"
    "user_roles d' = map (\<lambda>r. if ur_tenant_id r = Some tid then r\<lparr>ur_tenant_id := None\<rparr> else r) (user_roles d)"
    by (auto simp: t(4) without_tenant_def Let_def tenant_tunnels_def log_audit_event_def intro!: filter_cong)
  have refs: "\<forall>n \<in> set (networks d). n_tenant_id n \<noteq> tid" "\<forall>b \<in> set (bridges d). br_tenant_id b \<noteq> Some tid"
    "\<forall>s \<in> set (snapshots d). s_tenant_id s \<noteq> tid" "\<forall>i \<in> set (invitations d). inv_tenant_id i \<noteq> tid"
    "\<forall>r \<in> set (ip_reservations d). res_tenant_id r \<noteq> tid" "\<forall>a \<in> set (tenant_images d). ti_tenant_id a \<noteq> tid"
    using t(3) unfolding tenant_referenced_def by blast+
  have tenant: "the_tenant i d' = (if i = tid then None else the_tenant i d)" for i
    unfolding the_tenant_def rows by (auto simp: first_row_del_rows first_row_None)
  have free: "\<forall>r \<in> set (roles d'). r_tenant_id r \<noteq> Some tid" "\<forall>r \<in> set (user_roles d'). ur_tenant_id r \<noteq> Some tid"
    "\<forall>r \<in> set (roles d). r_tenant_id r \<noteq> Some tid \<longrightarrow> r \<in> set (roles d')" "length (roles d') = length (roles d)"
    "\<forall>r \<in> set (user_roles d). ur_tenant_id r \<noteq> Some tid \<longrightarrow> r \<in> set (user_roles d')" "length (user_roles d') = length (user_roles d)"
    unfolding rows(13,14) by (auto simp: image_iff)
  show ?thesis by (intro conjI tenant [THEN trans] allI impI none refs free rows(2-12)) simp_all
qed

text \<open>Its own roles outlive it without a tenant, and so are offered to every other one.\<close>

lemma deleted_tenant_roles_turn_global:
  assumes "delete_tenant cu req tid d = (Inr (), d')" "r \<in> set (roles d)" "r_tenant_id r = Some tid"
  shows "r\<lparr>r_tenant_id := None\<rparr> \<in> set (roles d')"
  using assms by (auto simp: delete_tenant_def super_required_ok on_tenant_ok Let_def without_tenant_def image_iff intro!: bexI [of _ r] split: if_splits)

text \<open>An approved tenant holds a bridge and is never deleted here; the database refuses.\<close>

lemma tenant_with_bridge_undeletable:
  "b \<in> set (bridges d) \<Longrightarrow> br_tenant_id b = Some tid \<Longrightarrow> \<not> is_ok (delete_tenant cu req tid d)"
  by (auto simp: delete_tenant_def super_required_def on_tenant_def tenant_referenced_def Let_def split: option.split)

text \<open>\<open>get_tenant\<close> answers that every tenant waits for its approval.\<close>

lemma get_tenant_always_pending: "get_tenant cu tid d = (Inr s, d') \<Longrightarrow> ts_status s = ''pending'' \<and> \<not> ts_is_verified s \<and> ts_error s = None"
  by (auto simp: get_tenant_def plain_stats_def Let_def split: option.splits if_splits)

section \<open>Witnesses\<close>

text \<open>\<open>prov_db\<close> has the super admin \<open>demo_root\<close>, an admin of tenant 1, and a second tenant without users.\<close>

lemma demo_root_super: "is_super_admin demo_root (prov_db ''active'' None)"
  by code_simp

lemma banned_user_locked_out_witness:
  "\<exists>m d'. ban_user demo_root (plain_request [] 0) 1 (prov_db ''active'' None) = (Inr (False, m), d') \<and>
    (\<forall>cfg env req pw. \<not> is_ok (login_rows cfg env req ''ann'' pw d'))"
proof -
  let ?d = "prov_db ''active'' None"
  have u: "first_row (\<lambda>u. u_id u = 1) (users ?d) = Some demo_admin" by code_simp
  have a: "\<not> is_super_admin demo_admin ?d" "u_is_active demo_admin" "u_username demo_admin = ''ann''" by code_simp+
  obtain m d' where b: "ban_user demo_root (plain_request [] 0) 1 ?d = (Inr (False, m), d')"
    by (simp add: ban_user_def super_required_def demo_root_super u a Let_def ok_def)
  have "distinct_keys u_id (users ?d)" "distinct_keys u_username (users ?d)" by code_simp+
  from banned_user_locked_out [OF b this] u a(3) b show ?thesis by auto
qed

lemma quota_update_read_back_witness:
  "\<exists>d' us. get_tenant_quota demo_root 1 d' = (Inr (no_quota\<lparr>q_max_vms := Some 3\<rparr>, us), d')"
proof -
  let ?d = "prov_db ''active'' None"
  let ?u = "\<lparr>qu_max_vms = Some (Some 3), qu_max_cpu_cores = None, qu_max_ram_mb = None, qu_max_disk_gb = None, qu_max_networks = None\<rparr>"
  obtain t where t: "the_tenant 1 ?d = Some t" "t_settings t = Some ''{}''"
    by (simp add: the_tenant_def prov_db_def new_tenant_def)
  have q: "from_settings_json (t_settings t) = Inr no_quota" unfolding t(2) by code_simp
  have "valid_update ?u" "quota_ok no_quota" by code_simp+
  moreover obtain d' where "update_tenant_quota demo_root (plain_request [] 0) 1 ?u ?d = (Inr (updated_quota ?u no_quota), d')"
    using \<open>valid_update ?u\<close> by (simp add: update_tenant_quota_def super_required_def demo_root_super on_tenant_def t(1) q Let_def ok_def)
  moreover have "updated_quota ?u no_quota = no_quota\<lparr>q_max_vms := Some 3\<rparr>" by (simp add: updated_quota_def no_quota_def)
  ultimately show ?thesis using quota_update_read_back [OF _ q t(1)] by metis
qed

lemma tenant_answers_isolated_witness:
  "\<not> is_ok (get_tenant_topology demo_admin 2 (prov_db ''active'' None)) \<and>
   fst (get_tenant_topology demo_admin 1 (prov_db ''active'' None)) =
     fst (get_tenant_topology demo_admin 1 ((prov_db ''active'' None)\<lparr>vms := [demo_vm 4 ''db'' ''running'' 2 9]\<rparr>))"
proof -
  let ?d = "prov_db ''active'' None" and ?e = "(prov_db ''active'' None)\<lparr>vms := [demo_vm 4 ''db'' ''running'' 2 9]\<rparr>"
  have "forbidden_tenant demo_admin 2 ?d" by code_simp
  moreover have "same_tenant_rows 1 ?d ?e"
    by (simp add: same_tenant_rows_def the_tenant_def tenant_vms_def demo_vm_def peers_of_def prov_db_def two_roles_db_def empty_db_def)
  moreover have "is_super_admin demo_admin ?d = is_super_admin demo_admin ?e"
    by (simp add: is_super_admin_def roles_of_def find_role_def)
  ultimately show ?thesis
    using tenant_answers_isolated [of demo_admin 2 ?d ?d] tenant_answers_isolated [of demo_admin 1 ?d ?e] by blast
qed

lemma deleted_tenant_leaves_nothing_witness:
  "\<exists>d'. delete_tenant demo_root (plain_request [] 0) 2 (prov_db ''active'' None) = (Inr (), d') \<and> the_tenant 2 d' = None"
proof -
  let ?d = "prov_db ''active'' None"
  have "is_ok (delete_tenant demo_root (plain_request [] 0) 2 ?d)"
    by (simp add: delete_tenant_def super_required_def demo_root_super on_tenant_def)
      (simp add: the_tenant_def tenant_referenced_def tenant_tunnels_def prov_db_def two_roles_db_def empty_db_def demo_admin_def demo_root_def new_user_def new_tenant_def)
  then obtain d' where "delete_tenant demo_root (plain_request [] 0) 2 ?d = (Inr (), d')" by (auto simp: is_ok_conv)
  then show ?thesis using deleted_tenant_leaves_nothing by blast
qed

end
