(* ===== verification/Accounts.thy ===== *)
theory Accounts
  imports Tenant_Api
begin

text \<open>
  The rows of users and tenants stay well formed: across registration, the default administrator, logins, changes of the own profile and
  password, bans, and the creation, change and deletion of tenants, every row fits its columns, names and addresses are unique, and ids
  come from the sequences.
\<close>

definition users_wf :: "db \<Rightarrow> bool" where
  "users_wf d \<longleftrightarrow> distinct_keys u_id (users d) \<and> (\<forall>u \<in> set (users d). user_row_fits u d \<and> u_id u < next_id TUsers d)"

definition tenants_wf :: "db \<Rightarrow> bool" where
  "tenants_wf d \<longleftrightarrow> distinct_keys t_id (tenants d) \<and> (\<forall>t \<in> set (tenants d). tenant_row_fits t d \<and> t_id t < next_id TTenants d)"

definition accounts_wf :: "db \<Rightarrow> bool" where
  "accounts_wf d \<longleftrightarrow> users_wf d \<and> tenants_wf d"

text \<open>The calls. Who changes a profile or a password is the user the token names, a row of the database.\<close>

inductive account_step :: "db \<Rightarrow> db \<Rightarrow> bool" where
  Register: "account_step (aw_db w) (aw_db (snd (register cfg env req r w)))"
| DefaultAdmin: "account_step d (snd (create_default_admin cfg env None d))"
| Login: "account_step (aw_db w) (aw_db (snd (login cfg env req name pw w)))"
| Logout: "account_step (aw_db w) (aw_db (snd (logout cfg env req tok w)))"
| Profile: "u \<in> set (users d) \<Longrightarrow> account_step d (snd (update_current_user_profile req u email full d))"
| Password: "u \<in> set (users d) \<Longrightarrow> account_step d (snd (change_password cfg env req u old new d))"
| Ban: "account_step d (snd (ban_user cu req uid d))"
| CreateTenant: "account_step d (snd (create_tenant cu req nm slug d))"
| UpdateTenant: "account_step d (snd (update_tenant cu req tid nm active settings d))"
| UpdateQuota: "account_step d (snd (update_tenant_quota cu req tid q d))"
| DeleteTenant: "account_step d (snd (delete_tenant cu req tid d))"

inductive account_reach :: "db \<Rightarrow> db \<Rightarrow> bool" for d0 where
  Start: "account_reach d0 d0"
| Step: "account_reach d0 d \<Longrightarrow> account_step d d' \<Longrightarrow> account_reach d0 d'"

section \<open>The rows the invariant speaks of\<close>

lemma accounts_frame:
  assumes "users d' = users d" "tenants d' = tenants d" "seqs d' TUsers = seqs d TUsers" "seqs d' TTenants = seqs d TTenants"
  shows "accounts_wf d' = accounts_wf d"
  using assms by (simp add: accounts_wf_def users_wf_def tenants_wf_def user_row_fits_def tenant_row_fits_def next_id_def)

lemma log_accounts [simp]: "accounts_wf (log_audit_event a b d) = accounts_wf d"
  by (rule accounts_frame) simp_all

lemma user_fits_cong: "users d' = users d \<Longrightarrow> user_row_fits u d' = user_row_fits u d"
  by (simp add: user_row_fits_def)

lemma tenant_fits_cong: "tenants d' = tenants d \<Longrightarrow> tenant_row_fits t d' = tenant_row_fits t d"
  by (simp add: tenant_row_fits_def)

lemma users_frame: "users d' = users d \<Longrightarrow> seqs d' TUsers = seqs d TUsers \<Longrightarrow> users_wf d' = users_wf d"
  by (simp add: users_wf_def user_row_fits_def next_id_def)

lemma tenants_frame: "tenants d' = tenants d \<Longrightarrow> seqs d' TTenants = seqs d TTenants \<Longrightarrow> tenants_wf d' = tenants_wf d"
  by (simp add: tenants_wf_def tenant_row_fits_def next_id_def)

text \<open>A row that fits the old rows fits beside itself, and the old ones fit beside it.\<close>

lemma fits_beside_user:
  "user_row_fits x d \<Longrightarrow> user_row_fits u d \<Longrightarrow> x \<in> set (users d) \<Longrightarrow> users d' = users d @ [u] \<Longrightarrow> u_id x \<noteq> u_id u \<Longrightarrow>
    user_row_fits x d' \<and> user_row_fits u d'"
  unfolding user_row_fits_def by force

lemma fits_alone_user: "user_row_fits u d \<Longrightarrow> users d' = users d @ [u] \<Longrightarrow> user_row_fits u d'"
  unfolding user_row_fits_def by simp

lemma fits_beside_tenant:
  "tenant_row_fits x d \<Longrightarrow> tenant_row_fits t d \<Longrightarrow> x \<in> set (tenants d) \<Longrightarrow> tenants d' = tenants d @ [t] \<Longrightarrow> t_id x \<noteq> t_id t \<Longrightarrow>
    tenant_row_fits x d' \<and> tenant_row_fits t d'"
  unfolding tenant_row_fits_def by force

lemma fits_alone_tenant: "tenant_row_fits t d \<Longrightarrow> tenants d' = tenants d @ [t] \<Longrightarrow> tenant_row_fits t d'"
  unfolding tenant_row_fits_def by simp

lemma add_user_accounts:
  assumes "accounts_wf d" "u_id u = next_id TUsers d" "user_row_fits u d"
  shows "accounts_wf (add_user u d)"
proof -
  have wf: "users_wf d" "tenants_wf d" using assms(1) by (simp_all add: accounts_wf_def)
  have less: "u_id x < u_id u" if "x \<in> set (users d)" for x using wf(1) assms(2) that by (simp add: users_wf_def)
  have next_u: "next_id TUsers (add_user u d) = u_id u + 1" by (simp add: add_user_def bump_seq_def next_id_def assms(2))
  have "distinct_keys u_id (users d @ [u])" using wf(1) less by (fastforce simp: users_wf_def distinct_keys_def)
  moreover have "user_row_fits x (add_user u d) \<and> u_id x < u_id u + 1" if "x \<in> set (users d @ [u])" for x
  proof (cases "x \<in> set (users d)")
    case True
    then show ?thesis using fits_beside_user [OF _ assms(3) True add_rows(1)] less [OF True] wf(1) by (simp add: users_wf_def)
  next
    case False
    with that have "x = u" by simp
    then show ?thesis using fits_alone_user [OF assms(3) add_rows(1)] by simp
  qed
  ultimately have "users_wf (add_user u d)" unfolding users_wf_def next_u add_rows by blast
  moreover have "tenants_wf (add_user u d)"
    using wf(2) tenants_frame [of "add_user u d" d] by (simp add: add_user_def bump_seq_def)
  ultimately show ?thesis by (simp add: accounts_wf_def)
qed

lemma add_tenant_accounts:
  assumes "accounts_wf d" "t_id t = next_id TTenants d" "tenant_row_fits t d"
  shows "accounts_wf (add_tenant t d)"
proof -
  have wf: "users_wf d" "tenants_wf d" using assms(1) by (simp_all add: accounts_wf_def)
  have less: "t_id x < t_id t" if "x \<in> set (tenants d)" for x using wf(2) assms(2) that by (simp add: tenants_wf_def)
  have next_t: "next_id TTenants (add_tenant t d) = t_id t + 1" by (simp add: add_tenant_def bump_seq_def next_id_def assms(2))
  have "distinct_keys t_id (tenants d @ [t])" using wf(2) less by (fastforce simp: tenants_wf_def distinct_keys_def)
  moreover have "tenant_row_fits x (add_tenant t d) \<and> t_id x < t_id t + 1" if "x \<in> set (tenants d @ [t])" for x
  proof (cases "x \<in> set (tenants d)")
    case True
    then show ?thesis using fits_beside_tenant [OF _ assms(3) True add_rows(6)] less [OF True] wf(2) by (simp add: tenants_wf_def)
  next
    case False
    with that have "x = t" by simp
    then show ?thesis using fits_alone_tenant [OF assms(3) add_rows(6)] by simp
  qed
  ultimately have "tenants_wf (add_tenant t d)" unfolding tenants_wf_def next_t add_rows by blast
  moreover have "users_wf (add_tenant t d)"
    using wf(1) users_frame [of "add_tenant t d" d] by (simp add: add_tenant_def bump_seq_def)
  ultimately show ?thesis by (simp add: accounts_wf_def)
qed

lemma replace_user_accounts:
  assumes "accounts_wf d" "u \<in> set (users d)" "u_id u' = u_id u" "user_row_fits u' d"
  shows "accounts_wf (d\<lparr>users := upd_rows u_id (u_id u) (\<lambda>_. u') (users d)\<rparr>)"
proof -
  have "distinct_keys u_id (upd_rows u_id (u_id u) (\<lambda>_. u') (users d))"
    using assms(1,3) by (simp add: distinct_keys_replace accounts_wf_def users_wf_def)
  with assms show ?thesis
    by (auto simp: accounts_wf_def users_wf_def tenants_wf_def user_row_fits_def tenant_row_fits_def set_upd_rows next_id_def)
qed

lemma replace_tenant_accounts:
  assumes "accounts_wf d" "t \<in> set (tenants d)" "t_id t' = t_id t" "tenant_row_fits t' d"
  shows "accounts_wf (d\<lparr>tenants := upd_rows t_id (t_id t) (\<lambda>_. t') (tenants d)\<rparr>)"
proof -
  have "distinct_keys t_id (upd_rows t_id (t_id t) (\<lambda>_. t') (tenants d))"
    using assms(1,3) by (simp add: distinct_keys_replace accounts_wf_def tenants_wf_def)
  with assms show ?thesis
    by (auto simp: accounts_wf_def users_wf_def tenants_wf_def user_row_fits_def tenant_row_fits_def set_upd_rows next_id_def)
qed

lemma the_tenant_mem: "the_tenant tid d = Some t \<Longrightarrow> t \<in> set (tenants d) \<and> t_id t = tid"
  by (auto simp: the_tenant_def dest: first_row_Some)

lemma settings_accounts:
  "accounts_wf d \<Longrightarrow> accounts_wf (d\<lparr>tenants := upd_rows t_id tid (\<lambda>x. x\<lparr>t_settings := s\<rparr>) (tenants d)\<rparr>)"
  by (auto simp: accounts_wf_def users_wf_def tenants_wf_def user_row_fits_def tenant_row_fits_def set_upd_rows next_id_def distinct_keys_upd_rows)

lemma without_tenant_accounts: "accounts_wf d \<Longrightarrow> accounts_wf (without_tenant tid d)"
  by (auto simp: accounts_wf_def users_wf_def tenants_wf_def user_row_fits_def tenant_row_fits_def without_tenant_def Let_def
    next_id_def distinct_keys_del_rows set_del_rows)

lemma seed_seqs: "seqs (seed_permissions d) TUsers = seqs d TUsers" "seqs (seed_permissions d) TTenants = seqs d TTenants"
proof -
  have *: "seqs (seed_permissions d) x = seqs d x" if "x \<noteq> TPermissions" "x \<noteq> TRoles" for x
  proof -
    have 1: "seqs (seed_permission_list rt ps e) x = seqs e x" for rt ps e
      using that by (induction ps arbitrary: e) (simp_all add: seed_permission_def bump_seq_def)
    have 2: "seqs (seed_permission_defs ds e) x = seqs e x" for ds e
      by (induction ds e rule: seed_permission_defs.induct) (simp_all add: 1)
    have 3: "seqs (ensure_role n s b e) x = seqs e x" for n s b e
      using that by (simp add: ensure_role_def bump_seq_def split: option.split)
    have 4: "seqs (seed_role_mapping m e) x = seqs e x" for m e
      by (induction m e rule: seed_role_mapping.induct) (simp_all add: 3)
    show ?thesis by (simp add: seed_permissions_def seed_preset_roles_def Let_def 2 3 4)
  qed
  show "seqs (seed_permissions d) TUsers = seqs d TUsers" "seqs (seed_permissions d) TTenants = seqs d TTenants" by (simp_all add: *)
qed

lemma seed_accounts: "accounts_wf (seed_permissions d) = accounts_wf d"
  by (rule accounts_frame) (simp_all add: seed_seqs)

lemma assign_accounts [simp]:
  "accounts_wf (assign_tenant_admin_role d u i) = accounts_wf d" "accounts_wf (assign_super_admin_role d u) = accounts_wf d"
  by (rule accounts_frame; simp add: assign_tenant_admin_role_def assign_super_admin_role_def add_user_role_def bump_seq_def split: option.split)+

section \<open>Every call keeps it\<close>

lemma on_db_leaves: "accounts_wf (snd (f (aw_db w))) \<Longrightarrow> accounts_wf (aw_db (snd (on_db f w)))"
  by (cases "f (aw_db w)") (simp add: on_db_def)

lemma limited_then:
  assumes "\<And>w1. aw_db w1 = aw_db w \<Longrightarrow> accounts_wf (aw_db (snd (k () w1)))" "accounts_wf (aw_db w)"
  shows "accounts_wf (aw_db (snd (then_do (limited cfg env req ep w) k)))"
proof -
  obtain r s where l: "limited cfg env req ep w = (r, w\<lparr>aw_rl := s\<rparr>)" by (cases "check_rate_limit (ac_limits cfg) (ae_rl env) req ep (aw_rl w)") (simp add: limited_def)
  show ?thesis using assms by (cases r) (simp_all add: l then_do_def)
qed

lemma register_rows_accounts:
  assumes "accounts_wf d"
  shows "accounts_wf (snd (register_rows cfg env req r d))"
proof -
  let ?t = "new_tenant (next_id TTenants d) (rg_tenant_name r) (registered_slug r)"
  let ?u = "new_user (next_id TUsers d) (rg_username r) (rg_email r) (hash_password cfg env (rg_password r)) (rg_full_name r) (Some (t_id ?t))"
  have "accounts_wf (add_user ?u (add_tenant ?t d))" if "tenant_row_fits ?t d" "user_row_fits ?u d"
  proof (rule add_user_accounts)
    show "accounts_wf (add_tenant ?t d)" using assms that by (intro add_tenant_accounts) (simp_all add: new_tenant_def)
    show "user_row_fits ?u (add_tenant ?t d)" using that user_fits_cong [OF add_rows(5)] by simp
  qed (simp add: new_user_def add_tenant_def bump_seq_def next_id_def)
  then show ?thesis using assms by (simp add: register_rows_def Let_def seed_accounts http_def raise_def ok_def)
qed

lemma register_accounts: "accounts_wf (aw_db w) \<Longrightarrow> accounts_wf (aw_db (snd (register cfg env req r w)))"
  unfolding register_def
  by (auto split: option.split intro!: limited_then on_db_leaves register_rows_accounts)

lemma default_admin_accounts: "accounts_wf d \<Longrightarrow> accounts_wf (snd (create_default_admin cfg env tid d))"
  by (auto simp: create_default_admin_def Let_def new_user_def split: option.split intro!: add_user_accounts)

lemma login_accounts: "accounts_wf (aw_db w) \<Longrightarrow> accounts_wf (aw_db (snd (login cfg env req name pw w)))"
proof -
  have "accounts_wf d \<Longrightarrow> accounts_wf (snd (login_rows cfg env req name pw d))" for d
    by (simp add: login_rows_def login_failed_def split: option.split sum.split)
  then show "accounts_wf (aw_db w) \<Longrightarrow> ?thesis"
    unfolding login_def by (auto intro!: limited_then on_db_leaves)
qed

lemma logout_accounts: "accounts_wf (aw_db w) \<Longrightarrow> accounts_wf (aw_db (snd (logout cfg env req tok w)))"
proof -
  assume wf: "accounts_wf (aw_db w)"
  obtain r w1 where c: "current_user cfg env tok w = (r, w1)" "aw_db w1 = aw_db w"
    by (simp add: current_user_def split: option.split)
  show ?thesis
    using wf by (cases r) (simp_all add: logout_def c then_do_def split: option.split prod.split sum.split)
qed

lemma profile_accounts:
  assumes "accounts_wf d" "u \<in> set (users d)"
  shows "accounts_wf (snd (update_current_user_profile req u email full d))"
proof -
  define u' where "u' = updated_profile u email full"
  have "u_id u' = u_id u" by (simp add: u'_def updated_profile_def Let_def split: option.split)
  then have "accounts_wf (d\<lparr>users := upd_rows u_id (u_id u) (\<lambda>_. u') (users d)\<rparr>)" if "user_row_fits u' d"
    using assms that by (intro replace_user_accounts)
  then show ?thesis
    using assms(1) unfolding update_current_user_profile_def Let_def u'_def [symmetric] by simp
qed

lemma password_accounts:
  assumes "accounts_wf d" "u \<in> set (users d)"
  shows "accounts_wf (snd (change_password cfg env req u old new d))"
  using assms replace_user_accounts [of d u "u\<lparr>u_hashed_password := hash_password cfg env new\<rparr>"]
  by (simp add: change_password_def Let_def split: option.split sum.split)

lemma ban_accounts:
  assumes "accounts_wf d"
  shows "accounts_wf (snd (ban_user cu req uid d))"
proof -
  have "accounts_wf (d\<lparr>users := upd_rows u_id uid (\<lambda>_. u\<lparr>u_is_active := a\<rparr>) (users d)\<rparr>)"
    if "first_row (\<lambda>u. u_id u = uid) (users d) = Some u" for u a
  proof -
    have u: "u \<in> set (users d)" "u_id u = uid" using first_row_Some [OF that] by simp_all
    have "user_row_fits (u\<lparr>u_is_active := a\<rparr>) d"
      using assms u(1) by (auto simp: accounts_wf_def users_wf_def user_row_fits_def)
    with assms u show ?thesis using replace_user_accounts [of d u "u\<lparr>u_is_active := a\<rparr>"] by simp
  qed
  then show ?thesis using assms by (simp add: ban_user_def super_required_def Let_def split: option.split)
qed

lemma create_tenant_accounts: "accounts_wf d \<Longrightarrow> accounts_wf (snd (create_tenant cu req nm slug d))"
  by (auto simp: create_tenant_def super_required_def Let_def new_tenant_def split: option.split intro!: add_tenant_accounts)

lemma update_tenant_accounts:
  assumes "accounts_wf d"
  shows "accounts_wf (snd (update_tenant cu req tid nm active settings d))"
proof -
  have "accounts_wf (d\<lparr>tenants := upd_rows t_id tid (\<lambda>_. updated_tenant nm active settings t) (tenants d)\<rparr>)"
    if "the_tenant tid d = Some t" "tenant_row_fits (updated_tenant nm active settings t) d" for t
    using replace_tenant_accounts [of d t "updated_tenant nm active settings t"] assms the_tenant_mem [OF that(1)] that(2)
    by (simp add: updated_tenant_def)
  then show ?thesis using assms by (simp add: update_tenant_def super_required_def on_tenant_def Let_def split: option.split)
qed

lemma update_quota_accounts: "accounts_wf d \<Longrightarrow> accounts_wf (snd (update_tenant_quota cu req tid q d))"
  by (simp add: update_tenant_quota_def super_required_def on_tenant_def Let_def settings_accounts split: option.split sum.split)

lemma delete_tenant_accounts: "accounts_wf d \<Longrightarrow> accounts_wf (snd (delete_tenant cu req tid d))"
  by (simp add: delete_tenant_def super_required_def on_tenant_def Let_def without_tenant_accounts split: option.split)

lemma account_step_wf: "account_step d d' \<Longrightarrow> accounts_wf d \<Longrightarrow> accounts_wf d'"
  by (induction rule: account_step.induct)
    (simp_all only: register_accounts default_admin_accounts login_accounts logout_accounts profile_accounts password_accounts ban_accounts
      create_tenant_accounts update_tenant_accounts update_quota_accounts delete_tenant_accounts)



section \<open>The handlers find duplicates first\<close>

lemma new_user_fits:
  assumes "accounts_wf d"
  shows "user_row_fits (new_user (next_id TUsers d) nm email pw full tid) d \<longleftrightarrow>
    length nm \<le> 50 \<and> length email \<le> 100 \<and> length pw \<le> 255 \<and> opt_fits 100 full \<and>
    (\<forall>x \<in> set (users d). u_username x \<noteq> nm \<and> u_email x \<noteq> email)"
  using assms by (fastforce simp: user_row_fits_def new_user_def accounts_wf_def users_wf_def)

lemma new_tenant_fits:
  assumes "accounts_wf d"
  shows "tenant_row_fits (new_tenant (next_id TTenants d) nm slug) d \<longleftrightarrow>
    length nm \<le> 100 \<and> length slug \<le> 50 \<and> (\<forall>x \<in> set (tenants d). t_name x \<noteq> nm \<and> t_slug x \<noteq> slug)"
  using assms by (fastforce simp: tenant_row_fits_def new_tenant_def accounts_wf_def tenants_wf_def)

lemma profile_fits:
  assumes "accounts_wf d" "u \<in> set (users d)" "\<not> user_row_fits (updated_profile u email full) d"
    and "\<And>e x. email = Some e \<Longrightarrow> x \<in> set (users d) \<Longrightarrow> u_id x \<noteq> u_id u \<Longrightarrow> u_email x \<noteq> e"
  shows "\<not> opt_fits 100 email \<or> \<not> opt_fits 100 full"
proof (rule ccontr)
  assume fits: "\<not> (\<not> opt_fits 100 email \<or> \<not> opt_fits 100 full)"
  have u: "user_row_fits u d" using assms(1,2) by (simp add: accounts_wf_def users_wf_def)
  have same: "u_id (updated_profile u email full) = u_id u" "u_username (updated_profile u email full) = u_username u"
    "u_hashed_password (updated_profile u email full) = u_hashed_password u"
    "u_email (updated_profile u email full) = (case email of None \<Rightarrow> u_email u | Some e \<Rightarrow> e)"
    "u_full_name (updated_profile u email full) \<in> {u_full_name u, full}"
    by (simp_all add: updated_profile_def Let_def split: option.split)
  have "opt_fits 100 (u_full_name (updated_profile u email full))" using same(5) u fits by (auto simp: user_row_fits_def)
  moreover have "length (u_email (updated_profile u email full)) \<le> 100"
    unfolding same(4) using u fits by (auto simp: user_row_fits_def opt_fits_def split: option.splits)
  moreover have "u_email x \<noteq> u_email (updated_profile u email full)" if "x \<in> set (users d)" "u_id x \<noteq> u_id u" for x
    unfolding same(4) using that assms(4) u by (auto simp: user_row_fits_def split: option.splits)
  ultimately have "user_row_fits (updated_profile u email full) d" using u unfolding user_row_fits_def same(1-3) by blast
  with assms(3) show False by simp
qed

text \<open>
  C99: Duplicates are found by the handlers before the database refuses them. Behind its guards a registration answers 400
  exactly when the name or the address of the user, or else the name or the slug of the tenant, is taken, an internal
  error only when a text is longer than its column, and succeeds otherwise; whoever is refused has changed nothing. A
  change of the own profile and the creation of a tenant run into a constraint of the database only with a text longer
  than its column, or a slug that is null.
\<close>

theorem duplicates_answer_400:
  assumes "accounts_wf (aw_db w)" "limited cfg env req ''register'' w = (Inr (), w1)" "password_problem (rg_password r) = None"
    and "ac_allow_registration cfg" "validate_email_domain cfg (rg_email r) = None"
  shows "fst (register cfg env req r w) =
      (if \<exists>x \<in> set (users (aw_db w)). u_username x = rg_username r \<or> u_email x = rg_email r
       then Inl (HTTPException 400 ''Username or email already registered'')
       else if \<exists>x \<in> set (tenants (aw_db w)). t_slug x = registered_slug r \<or> t_name x = rg_tenant_name r
       then Inl (HTTPException 400 ''Organization with this name already exists'')
       else if length (rg_tenant_name r) \<le> 100 \<and> length (registered_slug r) \<le> 50 \<and> length (rg_username r) \<le> 50 \<and>
         length (rg_email r) \<le> 100 \<and> length (hash_password cfg env (rg_password r)) \<le> 255 \<and> opt_fits 100 (rg_full_name r)
       then Inr (new_user (next_id TUsers (aw_db w)) (rg_username r) (rg_email r) (hash_password cfg env (rg_password r)) (rg_full_name r)
         (Some (next_id TTenants (aw_db w))))
       else Inl (HTTPException 500 ''An internal error occurred during registration.'')) \<and>
    (\<not> is_ok (register cfg env req r w) \<longrightarrow> aw_db (snd (register cfg env req r w)) = aw_db w) \<and>
    (\<forall>u \<in> set (users (aw_db w)). \<forall>email full t. fst (update_current_user_profile req u email full (aw_db w)) = Inl (IntegrityError t) \<longrightarrow>
       \<not> opt_fits 100 email \<or> \<not> opt_fits 100 full) \<and>
    (\<forall>cu nm slug t. fst (create_tenant cu req (Some nm) slug (aw_db w)) = Inl (IntegrityError t) \<longrightarrow>
       slug = Some None \<or> 100 < length nm \<or> 50 < length (case slug of Some (Some s) \<Rightarrow> s | _ \<Rightarrow> slug_of nm))"
proof (intro conjI ballI allI impI)
  have w1: "aw_db w1 = aw_db w" using limited_ok [OF assms(2)] by simp
  have t_id: "t_id (new_tenant i nm s) = i" for i nm s by (simp add: new_tenant_def)
  note run = register_def assms(2-5) then_do_def on_db_def register_rows_def Let_def w1 http_def raise_def ok_def
    new_user_fits [OF assms(1)] new_tenant_fits [OF assms(1)] t_id
  show "fst (register cfg env req r w) =
      (if \<exists>x \<in> set (users (aw_db w)). u_username x = rg_username r \<or> u_email x = rg_email r
       then Inl (HTTPException 400 ''Username or email already registered'')
       else if \<exists>x \<in> set (tenants (aw_db w)). t_slug x = registered_slug r \<or> t_name x = rg_tenant_name r
       then Inl (HTTPException 400 ''Organization with this name already exists'')
       else if length (rg_tenant_name r) \<le> 100 \<and> length (registered_slug r) \<le> 50 \<and> length (rg_username r) \<le> 50 \<and>
         length (rg_email r) \<le> 100 \<and> length (hash_password cfg env (rg_password r)) \<le> 255 \<and> opt_fits 100 (rg_full_name r)
       then Inr (new_user (next_id TUsers (aw_db w)) (rg_username r) (rg_email r) (hash_password cfg env (rg_password r)) (rg_full_name r)
         (Some (next_id TTenants (aw_db w))))
       else Inl (HTTPException 500 ''An internal error occurred during registration.''))"
    by (simp add: run; blast)
  show "aw_db (snd (register cfg env req r w)) = aw_db w" if "\<not> is_ok (register cfg env req r w)"
    using that by (auto simp: run is_ok_def split: if_splits)
next
  fix u email full t
  assume u: "u \<in> set (users (aw_db w))" and e: "fst (update_current_user_profile req u email full (aw_db w)) = Inl (IntegrityError t)"
  then have "\<not> (email \<noteq> None \<and> (\<exists>x \<in> set (users (aw_db w)). u_email x = the email \<and> u_id x \<noteq> u_id u))"
    "\<not> user_row_fits (updated_profile u email full) (aw_db w)"
    unfolding update_current_user_profile_def Let_def by (auto simp: http_def raise_def ok_def split: if_splits)
  then show "\<not> opt_fits 100 email \<or> \<not> opt_fits 100 full" by (intro profile_fits [OF assms(1) u]) auto
next
  fix cu nm slug t
  assume "fst (create_tenant cu req (Some nm) slug (aw_db w)) = Inl (IntegrityError t)"
  then show "slug = Some None \<or> 100 < length nm \<or> 50 < length (case slug of Some (Some s) \<Rightarrow> s | _ \<Rightarrow> slug_of nm)"
    by (auto simp: create_tenant_def super_required_def Let_def http_def raise_def ok_def new_tenant_fits [OF assms(1)]
        split: option.splits if_splits)
qed

text \<open>\<open>update_tenant\<close> looks for no duplicate: a name that is taken is an internal error.\<close>

lemma renaming_to_taken_name_fails:
  assumes "is_super_admin cu d" "the_tenant tid d = Some t" "x \<in> set (tenants d)" "t_id x \<noteq> tid" "t_name x = nm"
  shows "update_tenant cu req tid (Some nm) active settings d = (Inl (IntegrityError ''tenants''), d)"
proof -
  have "t_id t = tid" using the_tenant_mem [OF assms(2)] by simp
  then have "\<not> tenant_row_fits (updated_tenant (Some nm) active settings t) d"
    using assms(3-5) by (auto simp: tenant_row_fits_def updated_tenant_def)
  then show ?thesis using assms(1,2) by (simp add: update_tenant_def super_required_def on_tenant_def Let_def raise_def)
qed

definition ann_db :: db where
  "ann_db = empty_db\<lparr>users := [new_user 1 ''ann'' ''ann@example.org'' ''#pw'' None None], seqs := (\<lambda>_. 2)\<rparr>"

lemma duplicates_answer_400_witness:
  "fst (register open_auth (auth_at 10) (plain_request [] 0) (newcomer\<lparr>rg_username := ''ann''\<rparr>) (auth_start ann_db)) =
     Inl (HTTPException 400 ''Username or email already registered'') \<and>
   fst (register open_auth (auth_at 10) (plain_request [] 0) newcomer (auth_start ann_db)) \<noteq>
     Inl (HTTPException 400 ''Username or email already registered'')"
proof -
  have wf: "accounts_wf (aw_db (auth_start ann_db))" by code_simp
  have l: "limited open_auth (auth_at 10) (plain_request [] 0) ''register'' (auth_start ann_db) = (Inr (), auth_start ann_db)"
    by (simp add: open_auth_def unlimited)
  have nc: "rg_password newcomer = ''Longer1234''" "rg_email newcomer = ''eve@example.org''" "rg_username newcomer = ''eve''"
    by (simp_all add: newcomer_def)
  have p: "password_problem ''Longer1234'' = None" "validate_email_domain open_auth ''eve@example.org'' = None" by code_simp+
  have a: "ac_allow_registration open_auth" by (simp add: open_auth_def plain_auth_def)
  have u: "\<exists>x \<in> set (users (aw_db (auth_start ann_db))). u_username x = ''ann'' \<or> u_email x = ''eve@example.org''"
    "\<not> (\<exists>x \<in> set (users (aw_db (auth_start ann_db))). u_username x = ''eve'' \<or> u_email x = ''eve@example.org'')"
    by code_simp+
  note d = duplicates_answer_400 [OF wf l _ a, THEN conjunct1]
  show ?thesis using d [of newcomer] d [of "newcomer\<lparr>rg_username := ''ann''\<rparr>"] u
    by (simp add: nc p del: bex_simps ball_simps split: if_split)
qed

end
