(* ===== verification/Spec2Isabelle.thy ===== *)
theory Spec2Isabelle
  imports Iam_Security Token_Blacklist Pods Vm_Resize Console Wireguard_Tasks Rate_Limit Opnsense_Config Reconciler Accounts
begin

text \<open>
  A verification library of the multi-tenant IaaS platform on Proxmox: the FastAPI backend and its Celery workers under \<open>app/\<close>.

  The program. A request passes the rate limit (\<open>core/rate_limit.py\<close>), its token is decoded and checked against the revoked tokens
  (\<open>core/security.py\<close>, \<open>core/token_blacklist.py\<close>), its tenant is fixed (\<open>core/dependencies.py\<close>) and its permission checked
  (\<open>core/iam\<close>). The handlers in \<open>api/\<close> read and write PostgreSQL through SQLAlchemy, write the audit trail (\<open>core/audit.py\<close>) and queue
  tasks; the tasks in \<open>workers/\<close> work on the hypervisor (\<open>providers/\<close>) and, through commands in the firewall machine of the tenant,
  on OPNsense: its rules, its WireGuard tunnels, its VLANs and its DHCP server.

  The model. The database is a record \<open>db\<close> of lists of rows, one per table, with the sequences of the ids and the queue of tasks
  (\<open>Data_Model\<close>). A handler is a function of its arguments and the state which returns \<open>py_exc + 'a\<close>, the exception or the answer,
  and the new state; \<open>http\<close>, \<open>raise\<close>, \<open>ok\<close> and \<open>then_do\<close> of \<open>Prelude\<close> build them. What a rollback undoes is not in the
  state returned. A handler or task reads the outside through the fields of an environment record: the time, random draws, whether
  Redis answers, what the hypervisor and the guest answer.

  The theories and the code they model:

  \<^item> \<open>Prelude\<close>: exceptions, results, and lists of rows with a key. \<open>Py_Strings\<close>, \<open>Json\<close>, \<open>Ip_Address\<close>: the string
    operations, the \<open>json\<close> module and the part of \<open>ipaddress\<close> the program uses; \<open>Json\<close> proves that what is dumped loads again.
  \<^item> \<open>Data_Model\<close>: \<open>models/\<close>. \<open>Audit_Trail\<close>: \<open>core/audit.py\<close>.
  \<^item> \<open>Iam_Core\<close>, \<open>Iam_Seed\<close>, \<open>Tenant_Context\<close>, \<open>Iam_Api\<close>, \<open>Invitations\<close>: permissions, their seeding, who calls for which tenant, and
    the endpoints of \<open>api/iam.py\<close> and \<open>api/invitations.py\<close>. \<open>Iam_Security\<close> takes the endpoints together as a step relation and proves by rule
    induction that nobody becomes super admin and that preset roles stay as they are, and that an invitation serves once.
  \<^item> \<open>Token_Blacklist\<close>, \<open>Auth_Api\<close>, \<open>Accounts\<close>: the revoked tokens in Redis and in memory, both instances of the locale
    \<open>revocation_list\<close>; registration, login, logout and the own account (\<open>api/auth.py\<close>) over database, rate limits and revoked tokens
    together; the invariant of the rows of users and tenants over any run of calls. \<open>Rate_Limit\<close>: the limiter, against the
    definition of a sliding window over the whole history.
  \<^item> \<open>Tenant_Api\<close>: \<open>api/tenant.py\<close>. \<open>Quota\<close>: \<open>services/quota.py\<close>. \<open>Provisioning\<close>: approval, destruction and verification of
    tenants (\<open>services/provisioning.py\<close> and its endpoints). \<open>Pods\<close>: \<open>api/pods.py\<close> and \<open>api/bridge_pool.py\<close>. \<open>Seed_Pools\<close>: the pools made at
    startup.
  \<^item> \<open>Resource_Pool\<close>: the contract of an allocator as a locale, with its consequence for any interleaving of allocations and
    releases; \<open>Networks\<close> (\<open>services/ipam.py\<close>, \<open>api/networks.py\<close>), \<open>Provisioning\<close> and \<open>Wireguard\<close> interpret it for subnets, VLAN
    numbers, bridges and tunnel subnets.
  \<^item> \<open>Vm_Service\<close>, \<open>Vm_Api\<close>, \<open>Vm_Lifecycle\<close>, \<open>Vm_Provision\<close>, \<open>Vm_Resize\<close>: \<open>services/vm.py\<close>, \<open>api/vm.py\<close>, \<open>workers/tasks/vm.py\<close> and what of
    \<open>providers/proxmox.py\<close> they rest on: the transition table, isolation of tenants over runs of calls, quotas, the provisioning task.
    \<open>Console_Tokens\<close>, \<open>Console\<close>: \<open>core/cache.py\<close> as a refinement of a map with lifetimes (locale \<open>timed_store\<close>), and the consoles.
  \<^item> \<open>Guest_Exec\<close>, \<open>Opnsense_Api\<close>: commands in a machine and calls of the firewall's API, with the shell that reads them.
    \<open>Firewall_Rules\<close>, \<open>Firewall_Tasks\<close>, \<open>Wireguard\<close>, \<open>Wireguard_Tasks\<close>, \<open>Vlan_Tasks\<close>: \<open>api/firewall_manager.py\<close>, \<open>api/wireguard.py\<close> and the
    tasks of firewall rules, tunnels, VLANs and DHCP. \<open>Opnsense_Config\<close>: the scripts of \<open>workers/modules/opnsense_config_invm.py\<close> that
    edit the configuration file. \<open>Reconciler\<close>: \<open>services/reconciler.py\<close>.

  Three kinds of lemmas recur: what each operation does on each branch; an invariant and that every operation keeps it, lifted to
  runs of calls by rule induction; and, where a component has a contract, a refinement of an abstract state.

  Bounds. The parser of \<open>Json\<close> takes one more unit of fuel than the text has characters, and every nested call, which costs one, reads
  at least a character. Loops with a count in the code recurse on that count. The retries of tasks are those the decorators name. Searches that
  may be long, such as that for a free port, are recursive functions with a termination proof. A task that queues itself for ever
  is one step of the worker, repeated.

  Parameters and hypotheses. Library code is a field or an argument: hashing and tokens (\<open>hashlib\<close>, \<open>bcrypt\<close>, \<open>jose\<close>), Redis, the
  hypervisor, the guest agent, the firewall. Where a theorem relies on it the law is a hypothesis, for instance that bcrypt accepts
  the password it hashed, that a token decodes to its payload until it expires, or that the firewall carries out a move; each such
  theorem has an instance in which the laws hold. Characters are those of HOL, so text is ASCII or Latin-1. Floating point numbers
  are rationals. Requests and tasks run one after the other: interleavings are sequences of whole handlers, and the locks that
  make them so are assumed, apart from the places where the code commits in between and a theorem looks at the state there.

  Not modelled: the catalogue of images and Packer, Terraform and the deprecated Docker networks, the cloning and first
  configuration of the firewall machine, the listings and overrides of \<open>api/admin.py\<close>, broadcasts over WebSockets, log lines, secrets
  and database connections, and the assembly of the processes. Most are input and output; images and the configuration of a new
  firewall machine would be components of their own.
\<close>

end
